(* ===== verification/Prelude.thy ===== *)
theory Prelude
  imports Main "HOL-Library.Word"
begin

text \<open>
  Shared vocabulary of the development: the integer types of the Go source, the error
  results, the named fact collections the components add to, and generic lemmas on
  lists and words that several components use.

  \<^item> A Go \<open>uint64\<close> is a \<open>64 word\<close>; its arithmetic wraps, and every
    arithmetic proof reads it through \<open>unat\<close> with the facts of \<open>u64_nat\<close>.
  \<^item> A Go \<open>int\<close> (64 bits on the one platform villa is built for) is an \<open>int\<close>;
    where the source can overflow it, the wrap-around is written out with \<open>int64\<close>.
  \<^item> A Go \<open>error\<close> beside a value is a sum: \<open>Inl\<close> the error, \<open>Inr\<close> the value.
\<close>

named_theorems u64_nat
named_theorems gate_simps
named_theorems step_simps

type_synonym u64 = "64 word"

abbreviation max_u64_nat :: nat where
  "max_u64_nat \<equiv> 18446744073709551615"

definition max_u64 :: u64 where
  "max_u64 = - 1"

definition max_int64 :: int where
  "max_int64 = 9223372036854775807"

text \<open>Two's complement wrap-around of a mathematical result into a Go \<open>int\<close>.\<close>

definition int64 :: "int \<Rightarrow> int" where
  "int64 i = signed_take_bit 63 i"

definition is_int64 :: "int \<Rightarrow> bool" where
  "is_int64 i = (- max_int64 - 1 \<le> i \<and> i \<le> max_int64)"

text \<open>The conversion \<open>uint64(i)\<close> of a Go \<open>int\<close>.\<close>

definition u64_of_int :: "int \<Rightarrow> u64" where
  "u64_of_int i = word_of_int i"

lemma int64_id [simp]: "is_int64 i \<Longrightarrow> int64 i = i"
  unfolding int64_def is_int64_def max_int64_def
  by (rule signed_take_bit_int_eq_self) auto

lemma unat_max_u64 [simp, u64_nat]: "unat max_u64 = max_u64_nat"
  by (simp add: max_u64_def unsigned_minus_1_eq_mask mask_eq_exp_minus_1)

lemma unat_u64_bound [simp]: "unat (x :: u64) \<le> max_u64_nat"
  using unsigned_less [of x, where ?'a = nat] by simp

lemma u64_le_max [simp]: "x \<le> max_u64"
  by (simp add: word_le_nat_alt)

lemma u64_eq_iff_nat: "(x :: u64) = y \<longleftrightarrow> unat x = unat y"
  by (simp add: word_unat_eq_iff)

lemma unat_u64_of_int [u64_nat]:
  "0 \<le> i \<Longrightarrow> i \<le> max_int64 \<Longrightarrow> unat (u64_of_int i) = nat i"
  unfolding u64_of_int_def max_int64_def
  by (simp add: unat_eq_nat_uint uint_word_of_int take_bit_int_eq_self)

lemmas u64_le [u64_nat] = word_le_nat_alt
lemmas u64_less [u64_nat] = word_less_nat_alt

lemma unat_add_u64 [u64_nat]:
  "unat ((a :: u64) + b) = (unat a + unat b) mod (Suc max_u64_nat)"
  by (simp add: unat_word_ariths)

lemma unat_add_u64_small:
  "unat a + unat b \<le> max_u64_nat \<Longrightarrow> unat ((a :: u64) + b) = unat a + unat b"
  by (simp add: unat_add_u64)

lemma unat_of_nat_u64 [u64_nat]: "n \<le> max_u64_nat \<Longrightarrow> unat (of_nat n :: u64) = n"
  by (simp add: unat_of_nat)

subsection \<open>Results\<close>

fun result_bind :: "'e + 'a \<Rightarrow> ('a \<Rightarrow> 'e + 'b) \<Rightarrow> 'e + 'b" where
  "result_bind (Inl e) f = Inl e"
| "result_bind (Inr a) f = f a"

lemma result_bind_Inr [simp]:
  "result_bind r f = Inr b \<longleftrightarrow> (\<exists>a. r = Inr a \<and> f a = Inr b)"
  by (cases r) auto

lemma result_bind_Inl:
  "result_bind r f = Inl e \<longleftrightarrow> r = Inl e \<or> (\<exists>a. r = Inr a \<and> f a = Inl e)"
  by (cases r) auto

subsection \<open>Lists\<close>

text \<open>Go's \<open>for \<dots> { if p(x) { return x, true } } return zero, false\<close>.\<close>

lemma find_Some_iff_nth:
  "find P xs = Some x \<Longrightarrow> P x \<and> x \<in> set xs"
  by (induction xs) (auto split: if_splits)

lemma find_None_all: "find P xs = None \<longleftrightarrow> (\<forall>x \<in> set xs. \<not> P x)"
  by (induction xs) auto

lemma find_append:
  "find P (xs @ ys) = (case find P xs of None \<Rightarrow> find P ys | Some x \<Rightarrow> Some x)"
  by (induction xs) auto

lemma sum_list_filter_split:
  fixes f :: "'a \<Rightarrow> nat"
  shows "sum_list (map f xs) =
     sum_list (map f (filter P xs)) + sum_list (map f (filter (\<lambda>x. \<not> P x) xs))"
  by (induction xs) auto

lemma sum_list_take_le:
  fixes f :: "'a \<Rightarrow> nat"
  shows "sum_list (map f (take n xs)) \<le> sum_list (map f xs)"
  by (induction xs arbitrary: n) (auto simp: take_Cons split: nat.splits)

lemma distinct_map_filter_inj:
  "distinct (map f xs) \<Longrightarrow> x \<in> set xs \<Longrightarrow> y \<in> set xs \<Longrightarrow> f x = f y \<Longrightarrow> x = y"
  by (auto simp: distinct_map dest: inj_onD)

end
