(* ===== verification/GoPaths.thy ===== *)
theory GoPaths
  imports GoStrings
begin

text \<open>
  The lexical functions of Go's \<open>path/filepath\<close> on Unix, and on top of them the
  containment check of \<open>internal/pathsafe\<close>. A path is split at its slashes and cleaned
  on a stack of elements; a containment question is answered on the cleaned element lists.
\<close>

abbreviation slash :: char where "slash \<equiv> CHR ''/''"

definition is_abs :: "string \<Rightarrow> bool" where
  "is_abs p = has_prefix p ''/''"

text \<open>One element of \<open>Clean\<close>'s scan, on the stack of elements kept so far (last first).\<close>

definition clean_elem :: "bool \<Rightarrow> string list \<Rightarrow> string \<Rightarrow> string list" where
  "clean_elem rooted st e =
     (if e = [] \<or> e = ''.'' then st
      else if e = ''..'' then
        (case st of
           [] \<Rightarrow> if rooted then [] else [''..'']
         | d # rest \<Rightarrow> if d = ''..'' then ''..'' # st else rest)
      else e # st)"

definition clean_elems :: "bool \<Rightarrow> string list \<Rightarrow> string list" where
  "clean_elems rooted es = rev (foldl (clean_elem rooted) [] es)"

fun join_slash :: "string list \<Rightarrow> string" where
  "join_slash [] = []"
| "join_slash [e] = e"
| "join_slash (e # es) = e @ slash # join_slash es"

definition clean_path :: "string \<Rightarrow> string" where
  "clean_path p =
     (let rooted = is_abs p; es = clean_elems rooted (split_char slash p)
      in if rooted then slash # join_slash es
         else if es = [] then ''.'' else join_slash es)"

text \<open>\<open>filepath.Join\<close> of two elements: empty elements are ignored, the result is cleaned.\<close>

definition join_path :: "string \<Rightarrow> string \<Rightarrow> string" where
  "join_path a b =
     (if a = [] \<and> b = [] then []
      else if a = [] then clean_path b
      else if b = [] then clean_path a
      else clean_path (a @ slash # b))"

text \<open>\<open>filepath.Abs\<close>; \<open>cwd\<close> is what \<open>os.Getwd\<close> answers, which may fail.\<close>

definition abs_path :: "string option \<Rightarrow> string \<Rightarrow> string option" where
  "abs_path cwd p =
     (if is_abs p then Some (clean_path p)
      else (case cwd of None \<Rightarrow> None | Some w \<Rightarrow> Some (join_path w p)))"

text \<open>\<open>filepath.Base\<close>.\<close>

definition base_path :: "string \<Rightarrow> string" where
  "base_path p =
     (if p = [] then ''.''
      else (let q = rev (dropWhile (\<lambda>c. c = slash) (rev p))
            in if q = [] then ''/''
               else (case after_last slash q of Some r \<Rightarrow> r | None \<Rightarrow> q)))"

text \<open>\<open>filepath.Dir\<close>.\<close>

definition dir_path :: "string \<Rightarrow> string" where
  "dir_path p = clean_path (rev (dropWhile (\<lambda>c. c \<noteq> slash) (rev p)))"

definition path_elems :: "string \<Rightarrow> string list" where
  "path_elems p = filter (\<lambda>e. e \<noteq> []) (split_char slash p)"

fun strip_common :: "'a list \<Rightarrow> 'a list \<Rightarrow> 'a list \<times> 'a list" where
  "strip_common (b # bs) (t # ts) = (if b = t then strip_common bs ts else (b # bs, t # ts))"
| "strip_common bs ts = (bs, ts)"

text \<open>\<open>filepath.Rel\<close> on two cleaned absolute paths, the only call the source makes.\<close>

definition rel_path :: "string \<Rightarrow> string \<Rightarrow> string" where
  "rel_path base targ =
     (case strip_common (path_elems base) (path_elems targ) of
        (b, t) \<Rightarrow> (let es = replicate (length b) ''..'' @ t
                   in if es = [] then ''.'' else join_slash es))"

text \<open>\<open>filepath.IsLocal\<close>.\<close>

definition is_local :: "string \<Rightarrow> bool" where
  "is_local p =
     (if is_abs p \<or> p = [] then False
      else (let q = (if ''.'' \<in> set (split_char slash p) \<or> ''..'' \<in> set (split_char slash p)
                     then clean_path p else p)
            in \<not> (q = ''..'' \<or> has_prefix q ''../'')))"

datatype path_error = NoCwd | Escapes | RootEmpty | RootNotAbsolute

definition inside :: "string option \<Rightarrow> string \<Rightarrow> string \<Rightarrow> path_error + unit" where
  "inside cwd path dir =
     (case abs_path cwd (clean_path dir) of
        None \<Rightarrow> Inl NoCwd
      | Some abs_dir \<Rightarrow>
          (case abs_path cwd (clean_path path) of
             None \<Rightarrow> Inl NoCwd
           | Some abs_p \<Rightarrow>
               if \<not> is_local (rel_path abs_dir abs_p) then Inl Escapes else Inr ()))"

definition assert_root :: "string \<Rightarrow> path_error option" where
  "assert_root root =
     (if root = [] then Some RootEmpty
      else if \<not> is_abs root then Some RootNotAbsolute else None)"

text \<open>\<open>DataRoot\<close>: the environment's answers are its arguments.\<close>

definition data_root :: "string \<Rightarrow> string option \<Rightarrow> string" where
  "data_root xdg home =
     (if xdg \<noteq> [] then join_path xdg ''villa''
      else (case home of
              Some h \<Rightarrow> join_path (join_path (join_path h ''.local'') ''share'') ''villa''
            | None \<Rightarrow> join_path ''/var/tmp'' ''villa''))"

subsection \<open>Cleaned element lists\<close>

text \<open>The cleaned elements of an absolute path: what containment is decided on.\<close>

definition abs_elems :: "string \<Rightarrow> string list" where
  "abs_elems p = clean_elems True (split_char slash p)"

definition good_elem :: "string \<Rightarrow> bool" where
  "good_elem e = (e \<noteq> [] \<and> e \<noteq> ''.'' \<and> e \<noteq> ''..'' \<and> slash \<notin> set e)"

lemma split_char_elem_no_sep: "e \<in> set (split_char c s) \<Longrightarrow> c \<notin> set e"
proof (induction s arbitrary: e)
  case (Cons x xs)
  then show ?case by (cases "split_char c xs") (auto split: if_splits)
qed simp

lemma clean_elem_good:
  "list_all good_elem st \<Longrightarrow> slash \<notin> set e \<Longrightarrow> list_all good_elem (clean_elem True st e)"
  by (auto simp: clean_elem_def good_elem_def split: list.splits)

lemma foldl_clean_good:
  "list_all good_elem st \<Longrightarrow> \<forall>e \<in> set es. slash \<notin> set e \<Longrightarrow>
     list_all good_elem (foldl (clean_elem True) st es)"
  by (induction es arbitrary: st) (auto intro: clean_elem_good)

lemma abs_elems_good: "list_all good_elem (abs_elems p)"
proof -
  have "list_all good_elem (foldl (clean_elem True) [] (split_char slash p))"
    by (rule foldl_clean_good) (auto dest: split_char_elem_no_sep)
  then show ?thesis by (simp add: abs_elems_def clean_elems_def list_all_iff)
qed

lemma foldl_clean_id:
  "list_all good_elem es \<Longrightarrow> foldl (clean_elem True) st es = rev es @ st"
  by (induction es arbitrary: st) (auto simp: clean_elem_def good_elem_def)

lemma split_char_append_sep:
  "c \<notin> set e \<Longrightarrow> split_char c (e @ c # s) = e # split_char c s"
  by (induction e) auto

lemma split_join:
  "es \<noteq> [] \<Longrightarrow> \<forall>e \<in> set es. slash \<notin> set e \<Longrightarrow> split_char slash (join_slash es) = es"
  by (induction es rule: join_slash.induct) (auto simp: split_char_no_sep split_char_append_sep)

lemma join_slash_hd: "list_all good_elem es \<Longrightarrow> es \<noteq> [] \<Longrightarrow>
  \<exists>c r. join_slash es = c # r \<and> c \<noteq> slash"
  by (induction es rule: join_slash.induct)
    (auto simp: good_elem_def neq_Nil_conv)

lemma elems_of_rooted_join:
  assumes "list_all good_elem es"
  shows "filter (\<lambda>e. e \<noteq> []) (split_char slash (slash # join_slash es)) = es"
proof (cases "es = []")
  case False
  have "split_char slash (join_slash es) = es"
    using assms False by (intro split_join) (auto simp: list_all_iff good_elem_def)
  moreover have "filter (\<lambda>e. e \<noteq> []) es = es"
    using assms by (intro filter_True) (auto simp: list_all_iff good_elem_def)
  ultimately show ?thesis by simp
qed simp

lemma clean_path_abs: "is_abs p \<Longrightarrow> clean_path p = slash # join_slash (abs_elems p)"
  by (simp add: clean_path_def abs_elems_def Let_def)

lemma is_abs_clean [simp]: "is_abs p \<Longrightarrow> is_abs (clean_path p)"
  by (simp add: clean_path_abs is_abs_def has_prefix_def)

lemma path_elems_clean: "is_abs p \<Longrightarrow> path_elems (clean_path p) = abs_elems p"
  by (simp only: clean_path_abs path_elems_def elems_of_rooted_join abs_elems_good)

lemma abs_elems_clean: "is_abs p \<Longrightarrow> abs_elems (clean_path p) = abs_elems p"
proof -
  assume "is_abs p"
  let ?es = "abs_elems p"
  have "foldl (clean_elem True) [] (split_char slash (slash # join_slash ?es)) = rev ?es"
  proof (cases "?es = []")
    case True
    then show ?thesis by (simp add: clean_elem_def)
  next
    case False
    have "split_char slash (join_slash ?es) = ?es"
      using abs_elems_good [of p] False
      by (intro split_join) (auto simp: list_all_iff good_elem_def)
    then show ?thesis
      using foldl_clean_id [OF abs_elems_good] by (simp add: clean_elem_def)
  qed
  then show ?thesis
    using \<open>is_abs p\<close> by (simp add: clean_path_abs abs_elems_def clean_elems_def)
qed

lemma clean_path_idem: "is_abs p \<Longrightarrow> clean_path (clean_path p) = clean_path p"
  using clean_path_abs [of "clean_path p", OF is_abs_clean] clean_path_abs [of p]
    abs_elems_clean [of p] by simp

subsection \<open>Containment\<close>

lemma strip_common_spec:
  "strip_common bs ts = (b, t) \<Longrightarrow>
     \<exists>p. bs = p @ b \<and> ts = p @ t \<and> (b = [] \<or> t = [] \<or> hd b \<noteq> hd t)"
proof (induction bs ts rule: strip_common.induct)
  case (1 b0 bs t0 ts)
  show ?case
  proof (cases "b0 = t0")
    case True
    with 1 obtain p where "bs = p @ b" "ts = p @ t" "b = [] \<or> t = [] \<or> hd b \<noteq> hd t" by auto
    with True have "b0 # bs = (b0 # p) @ b \<and> t0 # ts = (b0 # p) @ t" by simp
    then show ?thesis using \<open>b = [] \<or> _ \<or> _\<close> by blast
  next
    case False
    with 1 show ?thesis by auto
  qed
qed auto

lemma strip_common_prefix: "fst (strip_common bs ts) = [] \<longleftrightarrow> prefix bs ts"
  by (induction bs ts rule: strip_common.induct) auto

lemma is_local_join_good:
  assumes "list_all good_elem es" "es \<noteq> []"
  shows "is_local (join_slash es)"
proof -
  obtain c r where cr: "join_slash es = c # r" "c \<noteq> slash"
    using join_slash_hd [OF assms] by blast
  have sp: "split_char slash (join_slash es) = es"
    using assms by (intro split_join) (auto simp: list_all_iff good_elem_def)
  have nodots: "''.'' \<notin> set es" "''..'' \<notin> set es"
    using assms by (auto simp: list_all_iff good_elem_def)
  have "join_slash es \<noteq> ''..''"
  proof
    assume "join_slash es = ''..''"
    then have "es = [''..'']" using sp by simp
    with nodots show False by simp
  qed
  moreover have "\<not> has_prefix (join_slash es) ''../''"
  proof
    assume "has_prefix (join_slash es) ''../''"
    then obtain q where "join_slash es = ''..'' @ slash # q" by (auto simp: has_prefix_iff)
    then have "split_char slash (join_slash es) = ''..'' # split_char slash q"
      by (simp only:) (rule split_char_append_sep, simp)
    with sp nodots show False by (metis list.set_intros(1))
  qed
  ultimately show ?thesis
    using cr sp nodots by (simp add: is_local_def is_abs_def has_prefix_def)
qed

lemma not_local_dotdot: "\<not> is_local (join_slash (''..'' # es))" if "list_all (\<lambda>e. slash \<notin> set e) es"
proof -
  have sp: "split_char slash (join_slash (''..'' # es)) = ''..'' # es"
    using that by (intro split_join) (auto simp: list_all_iff)
  have "\<exists>rest. join_slash (''..'' # es) = ''..'' @ rest" by (cases es) auto
  then have na: "\<not> is_abs (join_slash (''..'' # es))" by (auto simp: is_abs_def has_prefix_def)
  let ?out = "foldl (clean_elem False) [''..''] es"
  have dots: "\<exists>xs. foldl (clean_elem False) (ys @ [''..'']) es = xs @ [''..'']" for ys
    using that
  proof (induction es arbitrary: ys)
    case (Cons e es)
    have "\<exists>zs. clean_elem False (ys @ [''..'']) e = zs @ [''..'']"
      by (cases ys) (auto simp: clean_elem_def)
    then obtain zs where "clean_elem False (ys @ [''..'']) e = zs @ [''..'']" by blast
    with Cons show ?case by simp
  qed simp
  obtain xs where xs: "?out = xs @ [''..'']" using dots [of "[]"] by auto
  have "clean_path (join_slash (''..'' # es)) = join_slash (''..'' # rev xs)"
    using na sp xs by (simp add: clean_path_def clean_elems_def clean_elem_def Let_def)
  moreover have "join_slash (''..'' # rev xs) = ''..'' \<or> has_prefix (join_slash (''..'' # rev xs)) ''../''"
    by (cases "rev xs") (auto simp: has_prefix_def)
  ultimately show ?thesis using sp na by (auto simp: is_local_def Let_def)
qed

lemma is_local_rel:
  assumes "list_all good_elem (path_elems b)" "list_all good_elem (path_elems t)"
  shows "is_local (rel_path b t) \<longleftrightarrow> prefix (path_elems b) (path_elems t)"
proof -
  obtain x y where xy: "strip_common (path_elems b) (path_elems t) = (x, y)" by fastforce
  obtain p where p: "path_elems b = p @ x" "path_elems t = p @ y"
    using strip_common_spec [OF xy] by blast
  have pre: "prefix (path_elems b) (path_elems t) \<longleftrightarrow> x = []"
    using strip_common_prefix [of "path_elems b" "path_elems t"] xy by simp
  have gy: "list_all good_elem y" using assms p by simp
  show ?thesis
  proof (cases x)
    case Nil
    have "is_local ''.''" by (simp add: is_local_def is_abs_def has_prefix_def clean_path_def
        clean_elems_def clean_elem_def)
    moreover have "y \<noteq> [] \<Longrightarrow> is_local (join_slash y)" by (rule is_local_join_good [OF gy])
    ultimately show ?thesis using Nil pre xy by (simp add: rel_path_def)
  next
    case (Cons a xs)
    have "list_all (\<lambda>e. slash \<notin> set e) y"
      using gy by (rule list.pred_mono_strong) (simp add: good_elem_def)
    moreover have "list_all (\<lambda>e. slash \<notin> set e) (replicate n ''..'')" for n
      by (induction n) simp_all
    ultimately have "\<not> is_local (join_slash (''..'' # (replicate (length xs) ''..'' @ y)))"
      by (intro not_local_dotdot) simp
    then show ?thesis using Cons pre xy by (simp add: rel_path_def)
  qed
qed

lemma inside_abs:
  assumes "is_abs path" "is_abs dir"
  shows "inside cwd path dir = (if prefix (abs_elems dir) (abs_elems path) then Inr () else Inl Escapes)"
proof -
  have e: "path_elems (clean_path (clean_path q)) = abs_elems q" if "is_abs q" for q
    by (simp only: clean_path_idem [OF that] path_elems_clean [OF that])
  have "is_local (rel_path (clean_path (clean_path dir)) (clean_path (clean_path path))) \<longleftrightarrow>
      prefix (abs_elems dir) (abs_elems path)"
    using is_local_rel [of "clean_path (clean_path dir)" "clean_path (clean_path path)"]
    by (simp only: e [OF assms(1)] e [OF assms(2)] abs_elems_good simp_thms)
  moreover have "abs_path cwd (clean_path q) = Some (clean_path (clean_path q))" if "is_abs q" for q
    unfolding abs_path_def by (rule if_P) (rule is_abs_clean [OF that])
  ultimately show ?thesis
    unfolding inside_def by (simp only: assms option.case if_not_P not_not split: if_splits) blast
qed

text \<open>containment is by path component. For absolute paths \<open>Inside\<close> accepts exactly the paths whose
  cleaned components extend those of the cleaned directory (the directory itself included), whatever
  dots, doubled slashes and parent references they are spelled with, and answers \<open>Escapes\<close> for every
  other one; a path is inside its own directory, and being inside composes.\<close>

theorem inside_by_component:
  assumes "is_abs path" "is_abs dir" "is_abs base"
  shows "inside cwd path dir = (if prefix (abs_elems dir) (abs_elems path) then Inr () else Inl Escapes)
    \<and> inside cwd dir dir = Inr ()
    \<and> (inside cwd path dir = Inr () \<and> inside cwd dir base = Inr () \<longrightarrow> inside cwd path base = Inr ())
    \<and> (inside cwd path dir = Inr () \<and> inside cwd dir path = Inr () \<longrightarrow> clean_path path = clean_path dir)"
proof -
  have "prefix (abs_elems dir) (abs_elems path) \<Longrightarrow> prefix (abs_elems base) (abs_elems dir)
      \<Longrightarrow> prefix (abs_elems base) (abs_elems path)"
    by (rule prefix_order.trans)
  moreover have "prefix (abs_elems dir) (abs_elems path) \<Longrightarrow> prefix (abs_elems path) (abs_elems dir)
      \<Longrightarrow> clean_path path = clean_path dir"
    using assms prefix_order.antisym by (fastforce simp: clean_path_abs)
  ultimately show ?thesis using assms by (simp add: inside_abs)
qed

theorem inside_by_component_witness:
  "inside None ''/srv/data/../data//a'' ''/srv/data'' = Inr () \<and> inside None ''/srv/database'' ''/srv/data'' = Inl Escapes"
proof -
  have a: "is_abs ''/srv/data/../data//a''" "is_abs ''/srv/data''" "is_abs ''/srv/database''" by code_simp+
  have "prefix (abs_elems ''/srv/data'') (abs_elems ''/srv/data/../data//a'')" by code_simp
  moreover have "\<not> prefix (abs_elems ''/srv/data'') (abs_elems ''/srv/database'')" by code_simp
  ultimately show ?thesis
    using inside_by_component [OF a(1,2,2)] inside_by_component [OF a(3,2,2)] by simp
qed

end
