(* ===== verification/Catalog.thy ===== *)
theory Catalog
  imports Complex_Main GoPaths
begin

text \<open>
  \<open>internal/catalog\<close>: the model catalog and the image table. A catalog entry carries the
  dimensions the fit arithmetic needs; the load refuses a whole external catalog when one
  entry fails a check and falls back to the compiled-in seed. JSON decoding and the file
  read are the standard library's and arrive as the argument of \<open>load_catalog\<close>. A JSON
  number is a rational here (it is never a NaN).
\<close>

definition supported_schema :: int where
  "supported_schema = 5"

record shard =
  sh_url :: string
  sh_filename :: string
  sh_sha256 :: string
  sh_size_bytes :: u64

record sidecar =
  sc_shards :: "shard list"
  sc_weight_bytes :: u64
  sc_provenance :: string

record draft = sidecar +
  dr_spec_type :: string
  dr_n_max :: int
  dr_p_min :: rat
  dr_n_layers :: int
  dr_n_kv_heads :: int
  dr_head_dim :: int
  dr_kv_bytes_per_elem :: int

record sliding_window =
  sw_n_layers :: int
  sw_n_kv_heads :: int
  sw_head_dim :: int
  sw_window :: int

record agent_sampling =
  as_temperature :: rat
  as_top_p :: rat
  as_top_k :: int
  as_repeat_penalty :: rat

record model =
  m_id :: string
  m_display_name :: string
  m_quant :: string
  m_weight_bytes :: u64
  m_n_layers :: int
  m_n_kv_heads :: int
  m_head_dim :: int
  m_kv_bytes_per_elem :: int
  m_default_ctx :: int
  m_min_envelope_bytes :: u64
  m_tier_gb :: int
  m_unified_memory_safe :: bool
  m_backend_default :: string
  m_bootstrap :: bool
  m_role :: string
  m_agent_ctx :: int
  m_cache_reuse_safe :: bool
  m_agent_sampling :: "agent_sampling option"
  m_template_provenance :: string
  m_ngram_safe :: bool
  m_ngram_provenance :: string
  m_projector :: "sidecar option"
  m_draft :: "draft option"
  m_swa :: "sliding_window option"
  m_shards :: "shard list"

record catalog =
  ct_schema_version :: int
  ct_catalog_version :: string
  ct_models :: "model list"

definition draft_spec_types :: "string \<Rightarrow> bool" where
  "draft_spec_types s = (s = ''draft-simple'' \<or> s = ''draft-mtp'')"

definition all_shards :: "model \<Rightarrow> shard list" where
  "all_shards m = m_shards m
     @ (case m_projector m of None \<Rightarrow> [] | Some p \<Rightarrow> sc_shards p)
     @ (case m_draft m of None \<Rightarrow> [] | Some d \<Rightarrow> sc_shards d)"

definition find_by_id :: "catalog \<Rightarrow> string \<Rightarrow> model option" where
  "find_by_id c i = find (\<lambda>m. m_id m = i) (ct_models c)"

record geometry =
  g_kv_layers :: int
  g_head_count_kv :: int
  g_key_length :: int
  g_swa_layers :: int
  g_swa_head_count_kv :: int
  g_swa_key_length :: int
  g_swa_window :: int

definition model_geometry :: "model \<Rightarrow> geometry" where
  "model_geometry m =
     (let g = \<lparr>g_kv_layers = m_n_layers m, g_head_count_kv = m_n_kv_heads m,
               g_key_length = m_head_dim m, g_swa_layers = 0, g_swa_head_count_kv = 0,
               g_swa_key_length = 0, g_swa_window = 0\<rparr>
      in case m_swa m of
           None \<Rightarrow> g
         | Some s \<Rightarrow> g\<lparr>g_swa_layers := sw_n_layers s, g_swa_head_count_kv := sw_n_kv_heads s,
                       g_swa_key_length := sw_head_dim s, g_swa_window := sw_window s\<rparr>)"

definition primary_file :: "model \<Rightarrow> string" where
  "primary_file m =
     (case m_shards m of
        s # _ \<Rightarrow> if sh_filename s \<noteq> [] then base_path (sh_filename s) else base_path (m_id m @ ''.gguf'')
      | [] \<Rightarrow> base_path (m_id m @ ''.gguf''))"

subsection \<open>The validation passes of the external load\<close>

datatype catalog_error =
    CoderAgentCtx string int
  | CoderKVDimension string
  | CoderTemperature string rat
  | CoderTopP string rat
  | CoderTopK string int
  | CoderRepeatPenalty string rat
  | NgramNoProvenance string
  | SwaInvalid string
  | ProjectorNoShards string
  | ProjectorZeroWeight string
  | ProjectorNoProvenance string
  | DraftNoShards string
  | DraftZeroWeight string
  | DraftNoProvenance string
  | DraftSpecType string string
  | DraftNMax string int
  | DraftPMin string rat
  | DraftKVDimension string

text \<open>Each pass returns the first refusal in catalog order.\<close>

fun first_error :: "('a \<Rightarrow> 'e option) \<Rightarrow> 'a list \<Rightarrow> 'e option" where
  "first_error f [] = None"
| "first_error f (x # xs) = (case f x of Some e \<Rightarrow> Some e | None \<Rightarrow> first_error f xs)"

definition check_sampling :: "string \<Rightarrow> agent_sampling \<Rightarrow> catalog_error option" where
  "check_sampling i s =
     (if as_temperature s < 0 \<or> as_temperature s > 2 then Some (CoderTemperature i (as_temperature s))
      else if as_top_p s \<le> 0 \<or> as_top_p s > 1 then Some (CoderTopP i (as_top_p s))
      else if as_top_k s < 0 then Some (CoderTopK i (as_top_k s))
      else if as_repeat_penalty s \<le> 0 \<or> as_repeat_penalty s > 3
        then Some (CoderRepeatPenalty i (as_repeat_penalty s))
      else None)"

definition check_coder :: "model \<Rightarrow> catalog_error option" where
  "check_coder m =
     (if m_role m \<noteq> ''coder'' then None
      else if m_agent_ctx m \<le> 0 then Some (CoderAgentCtx (m_id m) (m_agent_ctx m))
      else if m_n_layers m \<le> 0 \<or> m_n_kv_heads m \<le> 0 \<or> m_head_dim m \<le> 0 \<or> m_kv_bytes_per_elem m \<le> 0
        then Some (CoderKVDimension (m_id m))
      else (case m_agent_sampling m of None \<Rightarrow> None | Some s \<Rightarrow> check_sampling (m_id m) s))"

definition validate_coder_entries :: "catalog \<Rightarrow> catalog_error option" where
  "validate_coder_entries c = first_error check_coder (ct_models c)"

definition check_ngram :: "model \<Rightarrow> catalog_error option" where
  "check_ngram m =
     (if m_ngram_safe m \<and> m_ngram_provenance m = [] then Some (NgramNoProvenance (m_id m)) else None)"

definition validate_ngram_entries :: "catalog \<Rightarrow> catalog_error option" where
  "validate_ngram_entries c = first_error check_ngram (ct_models c)"

definition check_swa :: "model \<Rightarrow> catalog_error option" where
  "check_swa m =
     (case m_swa m of
        None \<Rightarrow> None
      | Some s \<Rightarrow>
          if sw_n_layers s \<le> 0 \<or> sw_n_kv_heads s \<le> 0 \<or> sw_head_dim s \<le> 0 \<or> sw_window s \<le> 0
          then Some (SwaInvalid (m_id m)) else None)"

definition validate_sliding_window :: "catalog \<Rightarrow> catalog_error option" where
  "validate_sliding_window c = first_error check_swa (ct_models c)"

definition check_projector :: "string \<Rightarrow> sidecar \<Rightarrow> catalog_error option" where
  "check_projector i p =
     (if sc_shards p = [] then Some (ProjectorNoShards i)
      else if sc_weight_bytes p = 0 then Some (ProjectorZeroWeight i)
      else if sc_provenance p = [] then Some (ProjectorNoProvenance i)
      else None)"

definition check_draft :: "string \<Rightarrow> draft \<Rightarrow> catalog_error option" where
  "check_draft i d =
     (if sc_shards d = [] then Some (DraftNoShards i)
      else if sc_weight_bytes d = 0 then Some (DraftZeroWeight i)
      else if sc_provenance d = [] then Some (DraftNoProvenance i)
      else if \<not> draft_spec_types (dr_spec_type d) then Some (DraftSpecType i (dr_spec_type d))
      else if dr_n_max d \<le> 0 then Some (DraftNMax i (dr_n_max d))
      else if dr_p_min d < 0 \<or> dr_p_min d > 1 then Some (DraftPMin i (dr_p_min d))
      else if dr_n_layers d \<le> 0 \<or> dr_n_kv_heads d \<le> 0 \<or> dr_head_dim d \<le> 0 \<or> dr_kv_bytes_per_elem d \<le> 0
        then Some (DraftKVDimension i)
      else None)"

definition check_sidecars :: "model \<Rightarrow> catalog_error option" where
  "check_sidecars m =
     (case (case m_projector m of None \<Rightarrow> None | Some p \<Rightarrow> check_projector (m_id m) p) of
        Some e \<Rightarrow> Some e
      | None \<Rightarrow> (case m_draft m of None \<Rightarrow> None | Some d \<Rightarrow> check_draft (m_id m) d))"

definition validate_sidecars :: "catalog \<Rightarrow> catalog_error option" where
  "validate_sidecars c = first_error check_sidecars (ct_models c)"

datatype 'e catalog_warning =
    Unusable string 'e
  | SchemaMismatch string int
  | Rejected string catalog_error

text \<open>
  \<open>Load\<close>: \<open>ext\<close> is the outcome of \<open>loadExternal\<close> on the path (the bounded read and
  the JSON decode), \<open>seed\<close> the decoded embedded seed, \<open>None\<close> for the build error that
  it does not decode.
\<close>

definition load_catalog ::
  "catalog option \<Rightarrow> (string \<Rightarrow> 'e + catalog) \<Rightarrow> string \<Rightarrow> catalog option \<times> 'e catalog_warning list" where
  "load_catalog seed ext path =
     (if path = [] then (seed, [])
      else (case ext path of
        Inl e \<Rightarrow> (seed, [Unusable path e])
      | Inr c \<Rightarrow>
          if ct_schema_version c \<noteq> supported_schema
            then (seed, [SchemaMismatch path (ct_schema_version c)])
          else (case validate_ngram_entries c of Some v \<Rightarrow> (seed, [Rejected path v])
          | None \<Rightarrow> (case validate_sidecars c of Some v \<Rightarrow> (seed, [Rejected path v])
          | None \<Rightarrow> (case validate_sliding_window c of Some v \<Rightarrow> (seed, [Rejected path v])
          | None \<Rightarrow> (case validate_coder_entries c of Some v \<Rightarrow> (seed, [Rejected path v])
          | None \<Rightarrow> (Some c, [])))))))"

subsection \<open>The image table\<close>

record image_model =
  im_id :: string
  im_display_name :: string
  im_quant :: string
  im_diffusion :: shard
  im_text_encoder :: shard
  im_vae :: shard
  im_weight_bytes :: u64
  im_compute_bytes :: u64
  im_steps :: int
  im_cfg_scale :: rat
  im_width :: int
  im_height :: int
  im_provenance :: string

text \<open>\<open>Image(id)\<close> over the compiled-in table, whose data file is an argument.\<close>

definition image_by_id :: "image_model list \<Rightarrow> string \<Rightarrow> image_model option" where
  "image_by_id table i = find (\<lambda>m. im_id m = i) table"

definition image_shards :: "image_model \<Rightarrow> shard list" where
  "image_shards m = [im_diffusion m, im_text_encoder m, im_vae m]"

subsection \<open>Well-formed entries\<close>

definition wf_sampling :: "agent_sampling \<Rightarrow> bool" where
  "wf_sampling s \<longleftrightarrow> 0 \<le> as_temperature s \<and> as_temperature s \<le> 2 \<and> 0 < as_top_p s \<and> as_top_p s \<le> 1
     \<and> 0 \<le> as_top_k s \<and> 0 < as_repeat_penalty s \<and> as_repeat_penalty s \<le> 3"

definition wf_sidecar :: "'a sidecar_scheme \<Rightarrow> bool" where
  "wf_sidecar p \<longleftrightarrow> sc_shards p \<noteq> [] \<and> sc_weight_bytes p \<noteq> 0 \<and> sc_provenance p \<noteq> []"

definition wf_draft :: "draft \<Rightarrow> bool" where
  "wf_draft d \<longleftrightarrow> wf_sidecar d \<and> draft_spec_types (dr_spec_type d) \<and> 0 < dr_n_max d
     \<and> 0 \<le> dr_p_min d \<and> dr_p_min d \<le> 1
     \<and> 0 < dr_n_layers d \<and> 0 < dr_n_kv_heads d \<and> 0 < dr_head_dim d \<and> 0 < dr_kv_bytes_per_elem d"

definition wf_swa :: "sliding_window \<Rightarrow> bool" where
  "wf_swa s \<longleftrightarrow> 0 < sw_n_layers s \<and> 0 < sw_n_kv_heads s \<and> 0 < sw_head_dim s \<and> 0 < sw_window s"

definition wf_entry :: "model \<Rightarrow> bool" where
  "wf_entry m \<longleftrightarrow>
     (m_ngram_safe m \<longrightarrow> m_ngram_provenance m \<noteq> [])
   \<and> pred_option wf_sidecar (m_projector m)
   \<and> pred_option wf_draft (m_draft m)
   \<and> pred_option wf_swa (m_swa m)
   \<and> (m_role m = ''coder'' \<longrightarrow>
        0 < m_agent_ctx m \<and> 0 < m_n_layers m \<and> 0 < m_n_kv_heads m \<and> 0 < m_head_dim m
        \<and> 0 < m_kv_bytes_per_elem m \<and> pred_option wf_sampling (m_agent_sampling m))"

lemma first_error_None: "first_error f xs = None \<longleftrightarrow> (\<forall>x \<in> set xs. f x = None)"
  by (induction xs) (auto split: option.splits)

lemma first_error_Some: "first_error f xs = Some e \<Longrightarrow> \<exists>x \<in> set xs. f x = Some e"
  by (induction xs) (auto split: option.splits)

lemma check_sampling_None: "check_sampling i s = None \<longleftrightarrow> wf_sampling s"
  by (auto simp: check_sampling_def wf_sampling_def)

lemma check_ngram_None:
  "check_ngram m = None \<longleftrightarrow> (m_ngram_safe m \<longrightarrow> m_ngram_provenance m \<noteq> [])"
  by (auto simp: check_ngram_def)

lemma check_swa_None: "check_swa m = None \<longleftrightarrow> pred_option wf_swa (m_swa m)"
  by (cases "m_swa m") (auto simp: check_swa_def wf_swa_def)

lemma check_sidecars_None:
  "check_sidecars m = None \<longleftrightarrow>
     pred_option wf_sidecar (m_projector m) \<and> pred_option wf_draft (m_draft m)"
  by (cases "m_projector m"; cases "m_draft m")
    (auto simp: check_sidecars_def check_projector_def check_draft_def wf_sidecar_def wf_draft_def
      not_less not_le)

lemma check_coder_None:
  "check_coder m = None \<longleftrightarrow> (m_role m = ''coder'' \<longrightarrow>
        0 < m_agent_ctx m \<and> 0 < m_n_layers m \<and> 0 < m_n_kv_heads m \<and> 0 < m_head_dim m
        \<and> 0 < m_kv_bytes_per_elem m \<and> pred_option wf_sampling (m_agent_sampling m))"
  by (cases "m_agent_sampling m") (auto simp: check_coder_def check_sampling_None not_le)

lemmas check_None = check_ngram_None check_sidecars_None check_swa_None check_coder_None

lemma checks_wf:
  "check_ngram m = None \<and> check_sidecars m = None \<and> check_swa m = None \<and> check_coder m = None
     \<longleftrightarrow> wf_entry m"
  unfolding check_None wf_entry_def by blast

lemma validated_wf:
  "validate_ngram_entries c = None \<and> validate_sidecars c = None \<and> validate_sliding_window c = None
     \<and> validate_coder_entries c = None \<longleftrightarrow> (\<forall>m \<in> set (ct_models c). wf_entry m)"
  unfolding validate_ngram_entries_def validate_sidecars_def validate_sliding_window_def
    validate_coder_entries_def first_error_None checks_wf [symmetric] by blast

lemma find_by_id_Some: "find_by_id c i = Some m \<Longrightarrow> m \<in> set (ct_models c) \<and> m_id m = i"
  unfolding find_by_id_def by (drule find_Some_iff_nth) simp

text \<open>an external catalog is used only as a whole and only when it is sound: the load answers it
  exactly when it decodes, has the supported schema and every entry passes every check; in every
  other case the compiled-in seed stays, with a warning that names the file.\<close>

theorem external_catalog_all_or_nothing:
  "fst (load_catalog seed ext path) =
     (if path = [] then seed
      else case ext path of
        Inl e \<Rightarrow> seed
      | Inr c \<Rightarrow>
          if ct_schema_version c = supported_schema \<and> list_all wf_entry (ct_models c) then Some c else seed)
   \<and> (snd (load_catalog seed ext path) = [] \<longleftrightarrow>
        path = [] \<or> (case ext path of
          Inl e \<Rightarrow> False
        | Inr c \<Rightarrow> ct_schema_version c = supported_schema \<and> list_all wf_entry (ct_models c)))"
proof (cases "ext path")
  case (Inl e)
  then show ?thesis by (simp add: load_catalog_def)
next
  case (Inr c)
  with validated_wf [of c] show ?thesis
    by (auto simp: load_catalog_def list_all_iff split: option.splits)
qed

end
