(* ===== verification/FitMath.thy ===== *)
theory FitMath
  imports Catalog
begin

text \<open>
  The fit arithmetic of \<open>internal/recommend\<close> (\<open>kv.go\<close>, \<open>envelope.go\<close>): the KV-cache
  terms with their saturating sums and products, the sliding-window cell count, and the two
  fractions of the envelope, computed as the source does in IEEE double precision.
\<close>

subsection \<open>Saturating arithmetic\<close>

definition add_saturating :: "u64 \<Rightarrow> u64 \<Rightarrow> u64" where
  "add_saturating a b = (if unat a + unat b > max_u64_nat then max_u64 else a + b)"

text \<open>The product loop of \<open>kvBytesForDims\<close>: \<open>bits.Mul64\<close> with an early return.\<close>

fun mul_saturating :: "u64 \<Rightarrow> u64 list \<Rightarrow> u64" where
  "mul_saturating t [] = t"
| "mul_saturating t (f # fs) =
     (if unat t * unat f > max_u64_nat then max_u64 else mul_saturating (t * f) fs)"

definition kv_bytes_for_dims :: "int \<Rightarrow> int \<Rightarrow> int \<Rightarrow> int \<Rightarrow> int \<Rightarrow> u64" where
  "kv_bytes_for_dims n_layers n_kv_heads head_dim ctx kv_bytes_per_elem =
     (if ctx \<le> 0 then 0
      else mul_saturating 2
        [u64_of_int n_layers, u64_of_int n_kv_heads, u64_of_int head_dim, u64_of_int ctx,
         u64_of_int kv_bytes_per_elem])"

definition llama_server_seq_max :: int where "llama_server_seq_max = 4"
definition llama_server_ubatch :: int where "llama_server_ubatch = 512"
definition swa_cell_pad :: int where "swa_cell_pad = 256"
definition swa_ctx_checkpoints :: nat where "swa_ctx_checkpoints = 1"
definition prompt_cache_bytes :: u64 where "prompt_cache_bytes = 8192 * 1048576"

lemmas server_const_defs = llama_server_seq_max_def llama_server_ubatch_def swa_cell_pad_def
  swa_ctx_checkpoints_def

text \<open>Go's integer division truncates towards zero.\<close>

definition go_div :: "int \<Rightarrow> int \<Rightarrow> int" where
  "go_div a b = sgn a * sgn b * (\<bar>a\<bar> div \<bar>b\<bar>)"

definition swa_cells :: "int \<Rightarrow> int \<Rightarrow> int" where
  "swa_cells ctx window =
     (if ctx \<le> 0 then 0
      else
        (let bound =
           (if window \<le> go_div (max_int64 - llama_server_ubatch) llama_server_seq_max
            then min ctx (int64 (int64 (window * llama_server_seq_max) + llama_server_ubatch))
            else ctx)
         in if bound > max_int64 - swa_cell_pad then bound
            else go_div (bound + swa_cell_pad - 1) swa_cell_pad * swa_cell_pad))"

definition swa_cache_bytes :: "sliding_window option \<Rightarrow> int \<Rightarrow> int \<Rightarrow> u64" where
  "swa_cache_bytes s kv_bytes_per_elem ctx =
     (case s of
        None \<Rightarrow> 0
      | Some s \<Rightarrow> kv_bytes_for_dims (sw_n_layers s) (sw_n_kv_heads s) (sw_head_dim s)
                   (swa_cells ctx (sw_window s)) kv_bytes_per_elem)"

definition swa_checkpoint_bytes :: "sliding_window option \<Rightarrow> int \<Rightarrow> int \<Rightarrow> u64" where
  "swa_checkpoint_bytes s kv_bytes_per_elem ctx =
     (case s of
        None \<Rightarrow> 0
      | Some s \<Rightarrow>
          (let one = kv_bytes_for_dims (sw_n_layers s) (sw_n_kv_heads s) (sw_head_dim s)
                       (min ctx (sw_window s)) kv_bytes_per_elem;
               n = u64_of_int (llama_server_seq_max * int swa_ctx_checkpoints)
           in if unat one * unat n > max_u64_nat then max_u64 else one * n))"

definition kv_cache_bytes :: "model \<Rightarrow> int \<Rightarrow> u64" where
  "kv_cache_bytes m ctx =
     (let global = kv_bytes_for_dims (m_n_layers m) (m_n_kv_heads m) (m_head_dim m) ctx
                     (m_kv_bytes_per_elem m);
          sliding = add_saturating (swa_cache_bytes (m_swa m) (m_kv_bytes_per_elem m) ctx)
                      (swa_checkpoint_bytes (m_swa m) (m_kv_bytes_per_elem m) ctx)
      in add_saturating global sliding)"

definition draft_kv_cache_bytes :: "draft \<Rightarrow> int \<Rightarrow> u64" where
  "draft_kv_cache_bytes d ctx =
     kv_bytes_for_dims (dr_n_layers d) (dr_n_kv_heads d) (dr_head_dim d) ctx (dr_kv_bytes_per_elem d)"

subsection \<open>Doubles\<close>

text \<open>
  A conversion of an integer to a double and the product of two doubles both round to 53
  significant bits, ties to even. A double here is an integer with a fixed power of two:
  every value stays far from the subnormal and the overflow range.
\<close>

fun bit_len :: "nat \<Rightarrow> nat" where
  "bit_len n = (if n = 0 then 0 else Suc (bit_len (n div 2)))"

declare bit_len.simps [simp del]

definition rn53 :: "nat \<Rightarrow> nat" where
  "rn53 n =
     (let s = bit_len n - 53; q = n div 2 ^ s; r = n mod 2 ^ s
      in (if 2 * r > 2 ^ s \<or> (2 * r = 2 ^ s \<and> odd q) then Suc q else q) * 2 ^ s)"

text \<open>\<open>uint64(float64(n) * c)\<close> where the double \<open>c\<close> is \<open>mant / 2 ^ k\<close>.\<close>

definition scale_f64 :: "nat \<Rightarrow> nat \<Rightarrow> nat \<Rightarrow> nat" where
  "scale_f64 mant k n = rn53 (rn53 n * mant) div 2 ^ k"

text \<open>\<open>headroomFraction = 0.12\<close>: the nearest double is this mantissa over \<open>2 ^ 56\<close>.\<close>

definition headroom_mantissa :: nat where "headroom_mantissa = 8646911284551352"

definition headroom_bytes :: "u64 \<Rightarrow> u64" where
  "headroom_bytes envelope = of_nat (scale_f64 headroom_mantissa 56 (unat envelope))"

record rocm_readiness =
  rr_hsa_override_viable :: "bool option"
  rr_firmware_date_ok :: "bool option"
  rr_kernel_floor_ok :: "bool option"
  rr_rocminfo_gfx1151 :: "bool option"
  rr_image_policy_ok :: "bool option"

text \<open>The part of the host profile a recommendation reads; an Unknown value is \<open>None\<close>.\<close>

record host_profile =
  hp_usable_envelope_bytes :: "u64 option"
  hp_total_ram_bytes :: "u64 option"
  hp_rocm_readiness :: rocm_readiness

definition conservative_floor :: "host_profile \<Rightarrow> u64 option" where
  "conservative_floor p =
     (case hp_total_ram_bytes p of
        None \<Rightarrow> None
      | Some v \<Rightarrow>
          if v = 0 then None
          else (let fl = of_nat (scale_f64 1 1 (unat v)) :: u64
                in if fl = 0 then None else Some fl))"

text \<open>The envelope, and whether it is a degraded estimate; \<open>None\<close> when none is derivable.\<close>

definition resolve_envelope :: "host_profile \<Rightarrow> (u64 \<times> bool) option" where
  "resolve_envelope p =
     (case hp_usable_envelope_bytes p of
        Some v \<Rightarrow> if v > 0 then Some (v, False) else map_option (\<lambda>f. (f, True)) (conservative_floor p)
      | None \<Rightarrow> map_option (\<lambda>f. (f, True)) (conservative_floor p))"

subsection \<open>Facts of the saturating operations\<close>

lemma unat_add_saturating [u64_nat]:
  "unat (add_saturating a b) = min (unat a + unat b) max_u64_nat"
  by (auto simp: add_saturating_def unat_add_u64_small)

lemma add_saturating_assoc:
  "add_saturating (add_saturating a b) c = add_saturating a (add_saturating b c)"
  by (simp add: u64_eq_iff_nat unat_add_saturating)

lemma add_saturating_commute: "add_saturating a b = add_saturating b a"
  by (simp add: add_saturating_def add.commute)

lemma add_saturating_0 [simp]: "add_saturating a 0 = a" "add_saturating 0 a = a"
  by (simp_all add: u64_eq_iff_nat unat_add_saturating min_def not_le)

lemma add_saturating_ge: "a \<le> add_saturating a b" "b \<le> add_saturating a b"
  by (simp_all add: word_le_nat_alt unat_add_saturating)

lemma add_saturating_mono:
  "a \<le> a' \<Longrightarrow> b \<le> b' \<Longrightarrow> add_saturating a b \<le> add_saturating a' b'"
  by (simp add: word_le_nat_alt unat_add_saturating)

lemma add_saturating_le_iff:
  "add_saturating a b \<le> e \<longleftrightarrow> unat a + unat b \<le> unat e \<or> e = max_u64"
proof -
  have "e = max_u64 \<longleftrightarrow> unat e = max_u64_nat" by (simp add: u64_eq_iff_nat)
  moreover have "unat e \<le> max_u64_nat" by (rule unat_u64_bound)
  ultimately show ?thesis
    unfolding word_le_nat_alt unat_add_saturating by (simp only: min_le_iff_disj) linarith
qed

lemma unat_mult_u64_small:
  "unat a * unat b \<le> max_u64_nat \<Longrightarrow> unat ((a :: u64) * b) = unat a * unat b"
  by (simp add: unat_word_ariths)

lemma mul_saturating_exact:
  "unat t * prod_list (map unat fs) \<le> max_u64_nat \<Longrightarrow> 0 \<notin> set fs \<Longrightarrow>
     unat (mul_saturating t fs) = unat t * prod_list (map unat fs)"
proof (induction fs arbitrary: t)
  case (Cons f fs)
  have "prod_list (map unat fs) \<noteq> 0" using Cons.prems by (auto simp: prod_list_zero_iff unat_eq_0)
  then have "unat t * unat f \<le> unat t * unat f * prod_list (map unat fs)" by simp
  also have "\<dots> \<le> max_u64_nat" using Cons.prems by (simp add: mult.assoc)
  finally have small: "unat t * unat f \<le> max_u64_nat" .
  then have "unat (t * f) = unat t * unat f" by (rule unat_mult_u64_small)
  with Cons small show ?case by (simp add: mult.assoc)
qed simp

lemma mul_saturating_overflow:
  "unat t * prod_list (map unat fs) > max_u64_nat \<Longrightarrow> mul_saturating t fs = max_u64"
proof (induction fs arbitrary: t)
  case Nil
  then show ?case using unat_u64_bound [of t] by simp
next
  case (Cons f fs)
  show ?case
  proof (cases "unat t * unat f > max_u64_nat")
    case False
    then have "unat (t * f) = unat t * unat f" by (intro unat_mult_u64_small) simp
    with Cons False show ?thesis by (simp add: mult.assoc)
  qed simp
qed

text \<open>The product loop never answers less than the true product, capped.\<close>

lemma mul_saturating_ge:
  "min (unat t * prod_list (map unat fs)) max_u64_nat \<le> unat (mul_saturating t fs)"
proof (induction fs arbitrary: t)
  case (Cons f fs)
  show ?case
  proof (cases "unat t * unat f > max_u64_nat")
    case False
    then have "unat (t * f) = unat t * unat f" by (intro unat_mult_u64_small) simp
    with Cons.IH [of "t * f"] False show ?thesis by (simp add: mult.assoc)
  qed simp
qed simp

lemma kv_bytes_spec:
  assumes "0 < l" "0 < h" "0 < d" "0 < ctx" "0 < k"
    and "l \<le> max_int64" "h \<le> max_int64" "d \<le> max_int64" "ctx \<le> max_int64" "k \<le> max_int64"
  shows "unat (kv_bytes_for_dims l h d ctx k) = min (nat (2 * l * h * d * ctx * k)) max_u64_nat"
proof -
  let ?fs = "[u64_of_int l, u64_of_int h, u64_of_int d, u64_of_int ctx, u64_of_int k]"
  have u: "map unat ?fs = [nat l, nat h, nat d, nat ctx, nat k]"
    using assms by (simp add: unat_u64_of_int)
  have p: "unat (2 :: u64) * prod_list (map unat ?fs) = nat (2 * l * h * d * ctx * k)"
    unfolding u using assms by (simp add: nat_mult_distrib mult.assoc)
  have nz: "0 \<notin> set ?fs"
  proof
    assume "0 \<in> set ?fs"
    then have "0 \<in> set (map unat ?fs)" by (metis image_eqI list.set_map unat_0)
    with u assms show False by simp
  qed
  have "unat (mul_saturating 2 ?fs) = min (nat (2 * l * h * d * ctx * k)) max_u64_nat"
  proof (cases "nat (2 * l * h * d * ctx * k) \<le> max_u64_nat")
    case True
    then show ?thesis using mul_saturating_exact [of 2 ?fs] p nz by simp
  next
    case False
    then show ?thesis using mul_saturating_overflow [of 2 ?fs] p by simp
  qed
  then show ?thesis using assms by (simp add: kv_bytes_for_dims_def)
qed

subsection \<open>Facts of the doubles\<close>

lemma bit_len_bounds: "0 < n \<Longrightarrow> 2 ^ (bit_len n - 1) \<le> n \<and> n < 2 ^ bit_len n"
proof (induction n rule: bit_len.induct)
  case (1 n)
  show ?case
  proof (cases "n = 1")
    case True
    then show ?thesis by (simp add: bit_len.simps [of "Suc 0"] bit_len.simps [of 0])
  next
    case False
    with 1 have ih: "2 ^ (bit_len (n div 2) - 1) \<le> n div 2 \<and> n div 2 < 2 ^ bit_len (n div 2)"
      by simp
    have pos: "0 < bit_len (n div 2)" using False 1 by (subst bit_len.simps) simp
    have b: "bit_len n = Suc (bit_len (n div 2))" using 1 by (subst bit_len.simps) simp
    obtain k where k: "bit_len (n div 2) = Suc k" using pos by (cases "bit_len (n div 2)") auto
    from ih k have "2 ^ k \<le> n div 2" "n div 2 < 2 * 2 ^ k" by simp_all
    then have "2 * 2 ^ k \<le> n" "n < 4 * 2 ^ k" by linarith+
    then show ?thesis using b k by simp
  qed
qed

lemma rn53_exact: "n < 2 ^ 53 \<Longrightarrow> rn53 n = n"
proof -
  assume n: "n < 2 ^ 53"
  have "bit_len n \<le> 53"
  proof (rule ccontr)
    assume "\<not> bit_len n \<le> 53"
    moreover from this have "0 < n" by (cases "n = 0") (simp_all add: bit_len.simps)
    ultimately have "(2::nat) ^ 53 \<le> 2 ^ (bit_len n - 1)" by (intro power_increasing) auto
    also have "\<dots> \<le> n" using bit_len_bounds \<open>0 < n\<close> by blast
    finally show False using n by simp
  qed
  then show ?thesis by (simp add: rn53_def)
qed

text \<open>The relative error of a rounding is at most \<open>2 ^ -53\<close>.\<close>

lemma rn53_error: "2 ^ 53 * rn53 n \<le> (2 ^ 53 + 1) * n \<and> (2 ^ 53 - 1) * n \<le> 2 ^ 53 * rn53 n"
proof (cases "n < 2 ^ 53")
  case True
  then show ?thesis by (simp add: rn53_exact algebra_simps)
next
  case False
  define s where "s = bit_len n - 53"
  define p where "p = (2::nat) ^ s"
  define q where "q = n div p"
  define r where "r = n mod p"
  have n0: "0 < n" using False by simp
  have bl: "53 < bit_len n"
  proof (rule ccontr)
    assume "\<not> 53 < bit_len n"
    then have "(2::nat) ^ bit_len n \<le> 2 ^ 53" by (intro power_increasing) auto
    with bit_len_bounds [OF n0] False show False by simp
  qed
  have split: "n = q * p + r" by (simp add: q_def r_def)
  have rp: "r < p" by (simp add: r_def p_def)
  have big: "2 ^ 52 * p \<le> n"
  proof -
    have "bit_len n - 1 = 52 + s" using bl by (simp add: s_def)
    then have "2 ^ 52 * p = (2::nat) ^ (bit_len n - 1)" by (simp only: p_def power_add)
    then show ?thesis using bit_len_bounds [OF n0] by simp
  qed
  have val: "rn53 n = (if 2 * r > p \<or> (2 * r = p \<and> odd q) then Suc q else q) * p"
    by (simp add: rn53_def Let_def p_def q_def r_def s_def)
  have "2 * rn53 n \<le> 2 * n + p \<and> 2 * n \<le> 2 * rn53 n + p"
    unfolding val using split rp by (auto simp: algebra_simps)
  with big show ?thesis by (simp add: algebra_simps)
qed

lemma scale_f64_bounds:
  "2 ^ 106 * 2 ^ k * scale_f64 m k n \<le> (2 ^ 53 + 1) * (2 ^ 53 + 1) * m * n"
  "(2 ^ 53 - 1) * (2 ^ 53 - 1) * m * n < 2 ^ 106 * 2 ^ k * (scale_f64 m k n + 1)"
proof -
  define a where "a = rn53 n"
  define b where "b = rn53 (a * m)"
  have a: "2 ^ 53 * a \<le> (2 ^ 53 + 1) * n" "(2 ^ 53 - 1) * n \<le> 2 ^ 53 * a"
    using rn53_error [of n] by (simp_all only: a_def)
  have b: "2 ^ 53 * b \<le> (2 ^ 53 + 1) * (a * m)" "(2 ^ 53 - 1) * (a * m) \<le> 2 ^ 53 * b"
    using rn53_error [of "a * m"] by (simp_all only: b_def)
  have sc: "scale_f64 m k n = b div 2 ^ k" by (simp add: scale_f64_def a_def b_def)
  have up: "2 ^ 106 * b \<le> (2 ^ 53 + 1) * (2 ^ 53 + 1) * m * n"
  proof -
    have "2 ^ 106 * b = 2 ^ 53 * (2 ^ 53 * b)" by simp
    also have "\<dots> \<le> 2 ^ 53 * ((2 ^ 53 + 1) * (a * m))" by (rule mult_le_mono2 [OF b(1)])
    also have "\<dots> = (2 ^ 53 * a) * ((2 ^ 53 + 1) * m)" by (simp only: ac_simps)
    also have "\<dots> \<le> ((2 ^ 53 + 1) * n) * ((2 ^ 53 + 1) * m)" by (rule mult_le_mono1 [OF a(1)])
    finally show ?thesis by (simp only: ac_simps)
  qed
  have lo: "(2 ^ 53 - 1) * (2 ^ 53 - 1) * m * n \<le> 2 ^ 106 * b"
  proof -
    have "(2 ^ 53 - 1) * (2 ^ 53 - 1) * m * n = ((2 ^ 53 - 1) * n) * ((2 ^ 53 - 1) * m)"
      by (simp only: ac_simps)
    also have "\<dots> \<le> (2 ^ 53 * a) * ((2 ^ 53 - 1) * m)" by (rule mult_le_mono1 [OF a(2)])
    also have "\<dots> = 2 ^ 53 * ((2 ^ 53 - 1) * (a * m))" by (simp only: ac_simps)
    also have "\<dots> \<le> 2 ^ 53 * (2 ^ 53 * b)" by (rule mult_le_mono2 [OF b(2)])
    finally show ?thesis by simp
  qed
  have d: "2 ^ k * (b div 2 ^ k) \<le> b" by simp
  have e: "b < 2 ^ k * (b div 2 ^ k + 1)"
  proof -
    have "b mod 2 ^ k < 2 ^ k" by (rule mod_less_divisor) simp
    with mult_div_mod_eq [of "2 ^ k" b] show ?thesis unfolding distrib_left mult_1_right by linarith
  qed
  have "2 ^ 106 * (2 ^ k * scale_f64 m k n) \<le> 2 ^ 106 * b"
    unfolding sc by (rule mult_le_mono2 [OF d])
  with up show "2 ^ 106 * 2 ^ k * scale_f64 m k n \<le> (2 ^ 53 + 1) * (2 ^ 53 + 1) * m * n"
    by (simp only: mult.assoc)
  have "2 ^ 106 * b < 2 ^ 106 * (2 ^ k * (scale_f64 m k n + 1))"
    unfolding sc by (rule mult_strict_left_mono [OF e]) simp
  with lo show "(2 ^ 53 - 1) * (2 ^ 53 - 1) * m * n < 2 ^ 106 * 2 ^ k * (scale_f64 m k n + 1)"
    by (simp only: mult.assoc)
qed

lemma headroom_scale_bounds:
  "1000 * scale_f64 headroom_mantissa 56 n \<le> 121 * n"
  "119 * n < 1000 * (scale_f64 headroom_mantissa 56 n + 1)"
proof -
  let ?h = "scale_f64 headroom_mantissa 56 n"
  have c1: "(1000::nat) * ((2 ^ 53 + 1) * (2 ^ 53 + 1) * headroom_mantissa) \<le> 121 * (2 ^ 106 * 2 ^ 56)"
    by (simp add: headroom_mantissa_def)
  have c2: "119 * (2 ^ 106 * 2 ^ 56) \<le> (1000::nat) * ((2 ^ 53 - 1) * (2 ^ 53 - 1) * headroom_mantissa)"
    by (simp add: headroom_mantissa_def)
  have "(2 ^ 106 * 2 ^ 56) * (1000 * ?h) \<le> 1000 * ((2 ^ 53 + 1) * (2 ^ 53 + 1) * headroom_mantissa) * n"
    using mult_le_mono2 [OF scale_f64_bounds(1) [of 56 headroom_mantissa n], of 1000]
    by (simp only: ac_simps)
  also have "\<dots> \<le> 121 * (2 ^ 106 * 2 ^ 56) * n" by (rule mult_le_mono1 [OF c1])
  finally have "(2 ^ 106 * 2 ^ 56) * (1000 * ?h) \<le> (2 ^ 106 * 2 ^ 56) * (121 * n)" by (simp only: ac_simps)
  then show "1000 * ?h \<le> 121 * n" by (rule mult_left_le_imp_le) simp
  have "(2 ^ 106 * 2 ^ 56) * (119 * n) = 119 * (2 ^ 106 * 2 ^ 56) * n" by (simp only: ac_simps)
  also have "\<dots> \<le> 1000 * ((2 ^ 53 - 1) * (2 ^ 53 - 1) * headroom_mantissa) * n"
    by (rule mult_le_mono1 [OF c2])
  also have "\<dots> = 1000 * ((2 ^ 53 - 1) * (2 ^ 53 - 1) * headroom_mantissa * n)" by (simp only: ac_simps)
  also have "\<dots> < 1000 * (2 ^ 106 * 2 ^ 56 * (?h + 1))"
    by (rule mult_strict_left_mono [OF scale_f64_bounds(2)]) simp
  finally have "(2 ^ 106 * 2 ^ 56) * (119 * n) < (2 ^ 106 * 2 ^ 56) * (1000 * (?h + 1))"
    by (simp only: ac_simps)
  then show "119 * n < 1000 * (?h + 1)" by (rule mult_left_less_imp_less) simp
qed

lemma unat_headroom: "unat (headroom_bytes e) = scale_f64 headroom_mantissa 56 (unat e)"
proof -
  have "1000 * scale_f64 headroom_mantissa 56 (unat e) \<le> 121 * unat e"
    by (rule headroom_scale_bounds)
  then have "scale_f64 headroom_mantissa 56 (unat e) \<le> max_u64_nat"
    using unat_u64_bound [of e] by linarith
  then show ?thesis unfolding headroom_bytes_def by (rule unat_of_nat_u64)
qed

lemma headroom_le: "headroom_bytes e \<le> e"
  using headroom_scale_bounds(1) [of "unat e"] by (simp add: word_le_nat_alt unat_headroom)

lemma scale_half_bounds: "2 * scale_f64 1 1 n \<le> n + n div 2 ^ 51"
proof -
  have "2 ^ 106 * (2 * scale_f64 1 1 n) \<le> (2 ^ 53 + 1) * (2 ^ 53 + 1) * n"
    using scale_f64_bounds(1) [of 1 1 n] by simp
  also have "\<dots> \<le> (2 ^ 106 + 2 ^ 55) * n" by (rule mult_le_mono1) simp
  finally have "2 ^ 51 * (2 * scale_f64 1 1 n) \<le> 2 ^ 51 * n + n" by simp
  then have "2 ^ 51 * (2 * scale_f64 1 1 n) div 2 ^ 51 \<le> (2 ^ 51 * n + n) div 2 ^ 51"
    by (rule div_le_mono)
  then show ?thesis by simp
qed

lemma unat_floor:
  fixes v :: u64
  shows "unat (of_nat (scale_f64 1 1 (unat v)) :: u64) = scale_f64 1 1 (unat v)"
proof (rule unat_of_nat_u64)
  have "unat v div 2 ^ 51 \<le> unat v" by (rule div_le_dividend)
  with scale_half_bounds [of "unat v"] have "scale_f64 1 1 (unat v) \<le> unat v" by linarith
  also have "\<dots> \<le> max_u64_nat" by (rule unat_u64_bound)
  finally show "scale_f64 1 1 (unat v) \<le> max_u64_nat" .
qed

lemma scale_half_exact: "n < 2 ^ 53 \<Longrightarrow> scale_f64 1 1 n = n div 2"
  by (simp add: scale_f64_def rn53_exact)

end
