(* ===== verification/Config.thy ===== *)
theory Config
  imports GoStrings
begin

text \<open>
  The persisted configuration (\<open>internal/config/villaconfig.go\<close>): the record, its
  defaults, the load-time normalisation, the save-time zeroing of the blocks whose gate is
  off, and the load path. The TOML library is third-party code and stays a parameter of the
  save and load functions; \<open>toml_overlay\<close> says what the struct tags make a round trip
  through it do.
\<close>

record resident_model =
  rm_model :: string
  rm_quant :: string
  rm_ctx :: int
  rm_port :: int

record villa_config =
  cfg_model :: string
  cfg_quant :: string
  cfg_ctx :: int
  cfg_backend :: string
  cfg_catalog_path :: string
  cfg_dashboard_port :: int
  cfg_chat_port :: int
  cfg_memory_enabled :: bool
  cfg_embedding_model :: string
  cfg_embedding_dim :: int
  cfg_reranker :: bool
  cfg_extractor :: bool
  cfg_coding_mode :: bool
  cfg_coder_model :: string
  cfg_coder_quant :: string
  cfg_coder_agent_ctx :: int
  cfg_agent_enabled :: bool
  cfg_web_search_enabled :: bool
  cfg_searxng_secret :: string
  cfg_web_search_result_count :: int
  cfg_web_loader_secret :: string
  cfg_host_villa_path :: string
  cfg_inference_secret :: string
  cfg_speculation :: string
  cfg_vision :: bool
  cfg_resident :: "resident_model list"
  cfg_tools_mode :: bool
  cfg_workspace_agent :: bool
  cfg_workspace :: "string list"
  cfg_sandbox_memory :: string
  cfg_sandbox_cpus :: int
  cfg_voice_enabled :: bool
  cfg_image_enabled :: bool
  cfg_image_model :: string

definition speculation_off :: string where "speculation_off = ''off''"
definition speculation_ngram :: string where "speculation_ngram = ''ngram''"
definition speculation_draft :: string where "speculation_draft = ''draft''"

lemmas speculation_defs = speculation_off_def speculation_ngram_def speculation_draft_def

definition valid_speculation :: "string \<Rightarrow> bool" where
  "valid_speculation s =
     (s = [] \<or> s = speculation_off \<or> s = speculation_ngram \<or> s = speculation_draft)"

datatype 'e config_error = ParseError 'e | UnknownSpeculation string

definition validate_villa :: "villa_config \<Rightarrow> 'e config_error option" where
  "validate_villa cfg =
     (if \<not> valid_speculation (cfg_speculation cfg)
      then Some (UnknownSpeculation (cfg_speculation cfg)) else None)"

text \<open>The zero value of the Go struct, over which \<open>defaultConfig\<close>'s literal is laid.\<close>

definition zero_config :: villa_config where
  "zero_config = \<lparr>
     cfg_model = [], cfg_quant = [], cfg_ctx = 0, cfg_backend = [], cfg_catalog_path = [],
     cfg_dashboard_port = 0, cfg_chat_port = 0,
     cfg_memory_enabled = False, cfg_embedding_model = [], cfg_embedding_dim = 0,
     cfg_reranker = False, cfg_extractor = False,
     cfg_coding_mode = False, cfg_coder_model = [], cfg_coder_quant = [],
     cfg_coder_agent_ctx = 0, cfg_agent_enabled = False,
     cfg_web_search_enabled = False, cfg_searxng_secret = [],
     cfg_web_search_result_count = 0, cfg_web_loader_secret = [], cfg_host_villa_path = [],
     cfg_inference_secret = [], cfg_speculation = [], cfg_vision = False, cfg_resident = [],
     cfg_tools_mode = False, cfg_workspace_agent = False, cfg_workspace = [],
     cfg_sandbox_memory = [], cfg_sandbox_cpus = 0, cfg_voice_enabled = False,
     cfg_image_enabled = False, cfg_image_model = []\<rparr>"

definition default_config :: villa_config where
  "default_config = zero_config\<lparr>
     cfg_backend := ''rocm'',
     cfg_dashboard_port := 8888,
     cfg_chat_port := 3000,
     cfg_memory_enabled := False,
     cfg_embedding_model := ''nomic-embed-text-v1.5'',
     cfg_embedding_dim := 768,
     cfg_web_search_enabled := False,
     cfg_web_search_result_count := 3,
     cfg_image_model := ''z-image-turbo''\<rparr>"

definition normalize_villa :: "villa_config \<Rightarrow> villa_config" where
  "normalize_villa cfg =
    (let d = default_config in cfg\<lparr>
       cfg_dashboard_port :=
         (if cfg_dashboard_port cfg = 0 then cfg_dashboard_port d else cfg_dashboard_port cfg),
       cfg_chat_port := (if cfg_chat_port cfg = 0 then cfg_chat_port d else cfg_chat_port cfg),
       cfg_embedding_model :=
         (if cfg_embedding_model cfg = [] then cfg_embedding_model d else cfg_embedding_model cfg),
       cfg_embedding_dim :=
         (if cfg_embedding_dim cfg = 0 then cfg_embedding_dim d else cfg_embedding_dim cfg),
       cfg_web_search_result_count :=
         (if cfg_web_search_result_count cfg = 0 then cfg_web_search_result_count d
          else cfg_web_search_result_count cfg),
       cfg_image_model := (if cfg_image_model cfg = [] then cfg_image_model d else cfg_image_model cfg)\<rparr>)"

text \<open>The zeroing half of \<open>marshalVilla\<close>, on its by-value copy.\<close>

definition omit_when_off :: "villa_config \<Rightarrow> villa_config" where
  "omit_when_off c = c\<lparr>
     cfg_embedding_model := (if cfg_memory_enabled c then cfg_embedding_model c else []),
     cfg_embedding_dim := (if cfg_memory_enabled c then cfg_embedding_dim c else 0),
     cfg_reranker := (cfg_memory_enabled c \<and> cfg_reranker c),
     cfg_extractor := (cfg_memory_enabled c \<and> cfg_extractor c),
     cfg_coder_model := (if cfg_coding_mode c then cfg_coder_model c else []),
     cfg_coder_quant := (if cfg_coding_mode c then cfg_coder_quant c else []),
     cfg_coder_agent_ctx := (if cfg_coding_mode c then cfg_coder_agent_ctx c else 0),
     cfg_searxng_secret := (if cfg_web_search_enabled c then cfg_searxng_secret c else []),
     cfg_web_search_result_count :=
       (if cfg_web_search_enabled c then cfg_web_search_result_count c else 0),
     cfg_web_loader_secret := (if cfg_web_search_enabled c then cfg_web_loader_secret c else []),
     cfg_host_villa_path := (if cfg_web_search_enabled c then cfg_host_villa_path c else []),
     cfg_image_model := (if cfg_image_enabled c then cfg_image_model c else [])\<rparr>"

definition marshal_villa :: "(villa_config \<Rightarrow> 'doc) \<Rightarrow> villa_config \<Rightarrow> 'doc" where
  "marshal_villa toml_marshal c = toml_marshal (omit_when_off c)"

text \<open>\<open>Parse\<close>: decode into the seeded defaults, validate, normalise.\<close>

definition parse_config ::
  "('doc \<Rightarrow> villa_config \<Rightarrow> 'e + villa_config) \<Rightarrow> 'doc \<Rightarrow> 'e config_error + villa_config" where
  "parse_config toml_unmarshal data =
     (case toml_unmarshal data default_config of
        Inl e \<Rightarrow> Inl (ParseError e)
      | Inr cfg \<Rightarrow>
          (case validate_villa cfg of
             Some e \<Rightarrow> Inl e
           | None \<Rightarrow> Inr (normalize_villa cfg)))"

text \<open>\<open>LoadVillaFrom\<close>: an absent file (\<open>None\<close>) is the defaults.\<close>

definition load_villa ::
  "('doc \<Rightarrow> villa_config \<Rightarrow> 'e + villa_config) \<Rightarrow> 'doc option \<Rightarrow> 'e config_error + villa_config" where
  "load_villa toml_unmarshal file =
     (case file of None \<Rightarrow> Inr default_config | Some data \<Rightarrow> parse_config toml_unmarshal data)"

text \<open>
  What the struct tags say of a document written from \<open>c\<close> and read over \<open>d\<close>: an
  untagged key is always written, a key under \<open>omitempty\<close> or \<open>omitzero\<close> is not
  written at its zero value and then keeps what \<open>d\<close> holds.
\<close>

definition toml_overlay :: "villa_config \<Rightarrow> villa_config \<Rightarrow> villa_config" where
  "toml_overlay c d = \<lparr>
     cfg_model = cfg_model c, cfg_quant = cfg_quant c, cfg_ctx = cfg_ctx c,
     cfg_backend = cfg_backend c, cfg_catalog_path = cfg_catalog_path c,
     cfg_dashboard_port = cfg_dashboard_port c, cfg_chat_port = cfg_chat_port c,
     cfg_memory_enabled = (cfg_memory_enabled c \<or> cfg_memory_enabled d),
     cfg_embedding_model = (if cfg_embedding_model c = [] then cfg_embedding_model d else cfg_embedding_model c),
     cfg_embedding_dim = (if cfg_embedding_dim c = 0 then cfg_embedding_dim d else cfg_embedding_dim c),
     cfg_reranker = (cfg_reranker c \<or> cfg_reranker d),
     cfg_extractor = (cfg_extractor c \<or> cfg_extractor d),
     cfg_coding_mode = (cfg_coding_mode c \<or> cfg_coding_mode d),
     cfg_coder_model = (if cfg_coder_model c = [] then cfg_coder_model d else cfg_coder_model c),
     cfg_coder_quant = (if cfg_coder_quant c = [] then cfg_coder_quant d else cfg_coder_quant c),
     cfg_coder_agent_ctx = (if cfg_coder_agent_ctx c = 0 then cfg_coder_agent_ctx d else cfg_coder_agent_ctx c),
     cfg_agent_enabled = (cfg_agent_enabled c \<or> cfg_agent_enabled d),
     cfg_web_search_enabled = (cfg_web_search_enabled c \<or> cfg_web_search_enabled d),
     cfg_searxng_secret = (if cfg_searxng_secret c = [] then cfg_searxng_secret d else cfg_searxng_secret c),
     cfg_web_search_result_count =
       (if cfg_web_search_result_count c = 0 then cfg_web_search_result_count d else cfg_web_search_result_count c),
     cfg_web_loader_secret = (if cfg_web_loader_secret c = [] then cfg_web_loader_secret d else cfg_web_loader_secret c),
     cfg_host_villa_path = (if cfg_host_villa_path c = [] then cfg_host_villa_path d else cfg_host_villa_path c),
     cfg_inference_secret = (if cfg_inference_secret c = [] then cfg_inference_secret d else cfg_inference_secret c),
     cfg_speculation = (if cfg_speculation c = [] then cfg_speculation d else cfg_speculation c),
     cfg_vision = (cfg_vision c \<or> cfg_vision d),
     cfg_resident = (if cfg_resident c = [] then cfg_resident d else cfg_resident c),
     cfg_tools_mode = (cfg_tools_mode c \<or> cfg_tools_mode d),
     cfg_workspace_agent = (cfg_workspace_agent c \<or> cfg_workspace_agent d),
     cfg_workspace = (if cfg_workspace c = [] then cfg_workspace d else cfg_workspace c),
     cfg_sandbox_memory = (if cfg_sandbox_memory c = [] then cfg_sandbox_memory d else cfg_sandbox_memory c),
     cfg_sandbox_cpus = (if cfg_sandbox_cpus c = 0 then cfg_sandbox_cpus d else cfg_sandbox_cpus c),
     cfg_voice_enabled = (cfg_voice_enabled c \<or> cfg_voice_enabled d),
     cfg_image_enabled = (cfg_image_enabled c \<or> cfg_image_enabled d),
     cfg_image_model = (if cfg_image_model c = [] then cfg_image_model d else cfg_image_model c)\<rparr>"

text \<open>The defaults, field by field, so that no proof unfolds the record literal.\<close>

lemma default_config_simps [simp]:
  "cfg_model default_config = []" "cfg_quant default_config = []" "cfg_ctx default_config = 0"
  "cfg_backend default_config = ''rocm''" "cfg_catalog_path default_config = []"
  "cfg_dashboard_port default_config = 8888" "cfg_chat_port default_config = 3000"
  "\<not> cfg_memory_enabled default_config"
  "cfg_embedding_model default_config = ''nomic-embed-text-v1.5''"
  "cfg_embedding_dim default_config = 768"
  "\<not> cfg_reranker default_config" "\<not> cfg_extractor default_config"
  "\<not> cfg_coding_mode default_config" "cfg_coder_model default_config = []"
  "cfg_coder_quant default_config = []" "cfg_coder_agent_ctx default_config = 0"
  "\<not> cfg_agent_enabled default_config" "\<not> cfg_web_search_enabled default_config"
  "cfg_searxng_secret default_config = []" "cfg_web_search_result_count default_config = 3"
  "cfg_web_loader_secret default_config = []" "cfg_host_villa_path default_config = []"
  "cfg_inference_secret default_config = []" "cfg_speculation default_config = []"
  "\<not> cfg_vision default_config" "cfg_resident default_config = []"
  "\<not> cfg_tools_mode default_config" "\<not> cfg_workspace_agent default_config"
  "cfg_workspace default_config = []" "cfg_sandbox_memory default_config = []"
  "cfg_sandbox_cpus default_config = 0" "\<not> cfg_voice_enabled default_config"
  "\<not> cfg_image_enabled default_config" "cfg_image_model default_config = ''z-image-turbo''"
  by (simp_all add: default_config_def zero_config_def)

lemma normalize_default [simp]: "normalize_villa default_config = default_config"
  by (rule villa_config.equality) (simp_all add: normalize_villa_def Let_def)

text \<open>The configuration a save followed by a load yields.\<close>

definition saved_form :: "villa_config \<Rightarrow> villa_config" where
  "saved_form c = normalize_villa (toml_overlay (omit_when_off c) default_config)"

lemmas saved_form_unfold = saved_form_def normalize_villa_def omit_when_off_def toml_overlay_def

lemma saved_form_sel [simp]:
  "cfg_model (saved_form c) = cfg_model c"
  "cfg_quant (saved_form c) = cfg_quant c"
  "cfg_ctx (saved_form c) = cfg_ctx c"
  "cfg_backend (saved_form c) = cfg_backend c"
  "cfg_catalog_path (saved_form c) = cfg_catalog_path c"
  "cfg_dashboard_port (saved_form c) = (if cfg_dashboard_port c = 0 then 8888 else cfg_dashboard_port c)"
  "cfg_chat_port (saved_form c) = (if cfg_chat_port c = 0 then 3000 else cfg_chat_port c)"
  "cfg_memory_enabled (saved_form c) = cfg_memory_enabled c"
  "cfg_coding_mode (saved_form c) = cfg_coding_mode c"
  "cfg_agent_enabled (saved_form c) = cfg_agent_enabled c"
  "cfg_web_search_enabled (saved_form c) = cfg_web_search_enabled c"
  "cfg_inference_secret (saved_form c) = cfg_inference_secret c"
  "cfg_speculation (saved_form c) = cfg_speculation c"
  "cfg_vision (saved_form c) = cfg_vision c"
  "cfg_resident (saved_form c) = cfg_resident c"
  "cfg_tools_mode (saved_form c) = cfg_tools_mode c"
  "cfg_workspace_agent (saved_form c) = cfg_workspace_agent c"
  "cfg_workspace (saved_form c) = cfg_workspace c"
  "cfg_sandbox_memory (saved_form c) = cfg_sandbox_memory c"
  "cfg_sandbox_cpus (saved_form c) = cfg_sandbox_cpus c"
  "cfg_voice_enabled (saved_form c) = cfg_voice_enabled c"
  "cfg_image_enabled (saved_form c) = cfg_image_enabled c"
  "cfg_embedding_model (saved_form c) = (if cfg_memory_enabled c \<and> cfg_embedding_model c \<noteq> [] then cfg_embedding_model c else ''nomic-embed-text-v1.5'')"
  "cfg_embedding_dim (saved_form c) = (if cfg_memory_enabled c \<and> cfg_embedding_dim c \<noteq> 0 then cfg_embedding_dim c else 768)"
  "cfg_reranker (saved_form c) = (cfg_memory_enabled c \<and> cfg_reranker c)"
  "cfg_extractor (saved_form c) = (cfg_memory_enabled c \<and> cfg_extractor c)"
  "cfg_coder_model (saved_form c) = (if cfg_coding_mode c then cfg_coder_model c else [])"
  "cfg_coder_quant (saved_form c) = (if cfg_coding_mode c then cfg_coder_quant c else [])"
  "cfg_coder_agent_ctx (saved_form c) = (if cfg_coding_mode c then cfg_coder_agent_ctx c else 0)"
  "cfg_searxng_secret (saved_form c) = (if cfg_web_search_enabled c then cfg_searxng_secret c else [])"
  "cfg_web_loader_secret (saved_form c) = (if cfg_web_search_enabled c then cfg_web_loader_secret c else [])"
  "cfg_host_villa_path (saved_form c) = (if cfg_web_search_enabled c then cfg_host_villa_path c else [])"
  "cfg_web_search_result_count (saved_form c) = (if cfg_web_search_enabled c \<and> cfg_web_search_result_count c \<noteq> 0 then cfg_web_search_result_count c else 3)"
  "cfg_image_model (saved_form c) = (if cfg_image_enabled c \<and> cfg_image_model c \<noteq> [] then cfg_image_model c else ''z-image-turbo'')"
  by (simp_all add: saved_form_unfold Let_def)

lemma saved_form_idem: "saved_form (saved_form c) = saved_form c"
  by (rule villa_config.equality) simp_all

text \<open>\<open>toml\<close> does what the struct tags say on the document written from \<open>c\<close>.\<close>

definition toml_codec_at ::
  "(villa_config \<Rightarrow> 'doc) \<Rightarrow> ('doc \<Rightarrow> villa_config \<Rightarrow> 'e + villa_config) \<Rightarrow> villa_config \<Rightarrow> bool" where
  "toml_codec_at m u c \<longleftrightarrow> (\<forall>d. u (m (omit_when_off c)) d = Inr (toml_overlay (omit_when_off c) d))"

lemma toml_overlay_speculation:
  "cfg_speculation (toml_overlay (omit_when_off c) default_config) = cfg_speculation c"
  by (simp add: omit_when_off_def toml_overlay_def)

lemma load_marshal:
  assumes "toml_codec_at m u c"
  shows "load_villa u (Some (marshal_villa m c)) =
    (case validate_villa c of Some e \<Rightarrow> Inl e | None \<Rightarrow> Inr (saved_form c))"
  using assms
  by (simp add: load_villa_def parse_config_def marshal_villa_def toml_codec_at_def saved_form_def
      validate_villa_def toml_overlay_speculation)

definition plain_marshal :: "villa_config \<Rightarrow> villa_config" where "plain_marshal c = c"
definition plain_unmarshal :: "villa_config \<Rightarrow> villa_config \<Rightarrow> unit + villa_config" where
  "plain_unmarshal doc d = Inr (toml_overlay doc d)"

lemma plain_codec: "toml_codec_at plain_marshal plain_unmarshal c"
  by (simp add: toml_codec_at_def plain_marshal_def plain_unmarshal_def)

text \<open>Every section whose fields \<open>marshalVilla\<close> omits when off is on, and no field takes a default.\<close>

definition filled :: "villa_config \<Rightarrow> bool" where
  "filled c \<longleftrightarrow> cfg_memory_enabled c \<and> cfg_coding_mode c \<and> cfg_web_search_enabled c \<and> cfg_image_enabled c
     \<and> cfg_dashboard_port c \<noteq> 0 \<and> cfg_chat_port c \<noteq> 0 \<and> cfg_embedding_model c \<noteq> []
     \<and> cfg_embedding_dim c \<noteq> 0 \<and> cfg_web_search_result_count c \<noteq> 0 \<and> cfg_image_model c \<noteq> []"

lemma saved_form_filled: "filled c \<Longrightarrow> saved_form c = c"
  by (rule villa_config.equality) (simp_all add: filled_def)


end
