(* ===== verification/Subsystem.thy ===== *)
theory Subsystem
  imports Config
begin

text \<open>
  \<open>internal/subsystem\<close>: the parts of the stack, the gate each answers to, the units and
  services it renders and the data volume it owns. Every gate is a function of the loaded
  configuration.
\<close>

datatype kind = Memory | WebSearch | Agent | CodingMode | Inference | Chat | Sandbox | Voice | Image

fun kind_string :: "kind \<Rightarrow> string" where
  "kind_string Memory = ''memory''"
| "kind_string WebSearch = ''web search''"
| "kind_string Agent = ''coding agent''"
| "kind_string CodingMode = ''coding mode''"
| "kind_string Inference = ''inference''"
| "kind_string Chat = ''chat''"
| "kind_string Sandbox = ''sandbox''"
| "kind_string Voice = ''voice''"
| "kind_string Image = ''image generation''"

fun config_key :: "kind \<Rightarrow> string" where
  "config_key Memory = ''memory_enabled''"
| "config_key WebSearch = ''web_search_enabled''"
| "config_key Agent = ''agent_enabled''"
| "config_key CodingMode = ''coding_mode''"
| "config_key Sandbox = ''workspace_agent''"
| "config_key Voice = ''voice_enabled''"
| "config_key Image = ''image_enabled''"
| "config_key Inference = []"
| "config_key Chat = []"

fun always_on :: "kind \<Rightarrow> bool" where
  "always_on Inference = True"
| "always_on Chat = True"
| "always_on _ = False"

definition all_kinds :: "kind list" where
  "all_kinds = [Memory, WebSearch, Agent, CodingMode, Sandbox, Voice, Image]"

definition every_kind :: "kind list" where
  "every_kind = [Inference, Chat, Memory, WebSearch, Agent, CodingMode, Sandbox, Voice, Image]"

fun state_volume :: "kind \<Rightarrow> string option" where
  "state_volume Chat = Some ''villa-openwebui''"
| "state_volume Memory = Some ''villa-qdrant''"
| "state_volume _ = None"

definition owns_persistent_state :: "kind \<Rightarrow> bool" where
  "owns_persistent_state k = (state_volume k \<noteq> None)"

definition stateful :: "kind list" where
  "stateful = filter owns_persistent_state every_kind"

fun gate_on :: "villa_config \<Rightarrow> kind \<Rightarrow> bool" where
  "gate_on cfg Memory = cfg_memory_enabled cfg"
| "gate_on cfg WebSearch = cfg_web_search_enabled cfg"
| "gate_on cfg Agent = cfg_agent_enabled cfg"
| "gate_on cfg CodingMode = cfg_coding_mode cfg"
| "gate_on cfg Sandbox = cfg_workspace_agent cfg"
| "gate_on cfg Voice = cfg_voice_enabled cfg"
| "gate_on cfg Image = cfg_image_enabled cfg"
| "gate_on cfg Inference = True"
| "gate_on cfg Chat = True"

definition memory_on :: "villa_config \<Rightarrow> bool" where "memory_on cfg = gate_on cfg Memory"
definition web_search_on :: "villa_config \<Rightarrow> bool" where "web_search_on cfg = gate_on cfg WebSearch"
definition coding_mode_on :: "villa_config \<Rightarrow> bool" where "coding_mode_on cfg = gate_on cfg CodingMode"
definition voice_on :: "villa_config \<Rightarrow> bool" where "voice_on cfg = gate_on cfg Voice"
definition image_on :: "villa_config \<Rightarrow> bool" where "image_on cfg = gate_on cfg Image"
definition tools_on :: "villa_config \<Rightarrow> bool" where
  "tools_on cfg = (cfg_tools_mode cfg \<or> cfg_coding_mode cfg)"
definition rerank_on :: "villa_config \<Rightarrow> bool" where
  "rerank_on cfg = (memory_on cfg \<and> cfg_reranker cfg)"
definition extract_on :: "villa_config \<Rightarrow> bool" where
  "extract_on cfg = (memory_on cfg \<and> cfg_extractor cfg)"

lemmas gate_defs [gate_simps] =
  memory_on_def web_search_on_def coding_mode_on_def voice_on_def image_on_def tools_on_def
  rerank_on_def extract_on_def

definition enabled_kinds :: "villa_config \<Rightarrow> kind list" where
  "enabled_kinds cfg = filter (gate_on cfg) all_kinds"

subsection \<open>The unit registry\<close>

record unit_decl =
  ud_name :: string
  ud_on :: "(villa_config \<Rightarrow> bool) option"

definition plain_unit :: "string \<Rightarrow> unit_decl" where
  "plain_unit n = \<lparr>ud_name = n, ud_on = None\<rparr>"

definition gated_unit :: "string \<Rightarrow> (villa_config \<Rightarrow> bool) \<Rightarrow> unit_decl" where
  "gated_unit n g = \<lparr>ud_name = n, ud_on = Some g\<rparr>"

fun unit_table :: "kind \<Rightarrow> unit_decl list" where
  "unit_table Inference = [plain_unit ''villa-llama.container'']"
| "unit_table Chat = [plain_unit ''villa-openwebui.container'']"
| "unit_table Memory =
     [plain_unit ''villa-qdrant.container'',
      plain_unit ''villa-embed.container'',
      gated_unit ''villa-rerank.container'' rerank_on,
      gated_unit ''villa-extract.container'' extract_on]"
| "unit_table WebSearch =
     [plain_unit ''villa-searxng.container'',
      plain_unit ''villa-websafe.container'']"
| "unit_table Sandbox = [plain_unit ''villa-inferproxy.container'']"
| "unit_table Voice =
     [plain_unit ''villa-stt.container'',
      plain_unit ''villa-tts.container'']"
| "unit_table Image = [plain_unit ''villa-image.container'']"
| "unit_table Agent = []"
| "unit_table CodingMode = []"

definition service_of :: "string \<Rightarrow> string" where
  "service_of u = trim_suffix u ''.container'' @ ''.service''"

definition decl_rendered :: "villa_config \<Rightarrow> unit_decl \<Rightarrow> bool" where
  "decl_rendered cfg u = (case ud_on u of None \<Rightarrow> True | Some g \<Rightarrow> g cfg)"

definition kind_units :: "kind \<Rightarrow> villa_config \<Rightarrow> string list \<times> string list" where
  "kind_units k cfg =
     (let us = filter (decl_rendered cfg) (unit_table k)
      in (map ud_name us, map (service_of \<circ> ud_name) us))"

definition every_unit :: "kind \<Rightarrow> string list \<times> string list" where
  "every_unit k = (map ud_name (unit_table k), map (service_of \<circ> ud_name) (unit_table k))"

text \<open>The update budgets, in minutes.\<close>

fun update_budget :: "kind \<Rightarrow> nat" where
  "update_budget Inference = 10"
| "update_budget Image = 10"
| "update_budget Chat = 3"
| "update_budget Memory = 5"
| "update_budget WebSearch = 5"
| "update_budget Agent = 3"
| "update_budget _ = 5"

text \<open>Every unit name the registry declares, in \<open>Every\<close> order.\<close>

definition registry_units :: "string list" where
  "registry_units = concat (map (fst \<circ> every_unit) every_kind)"

lemma every_kind_complete: "set every_kind = UNIV"
proof (intro set_eqI iffI)
  fix k show "k \<in> set every_kind" by (cases k) (simp_all add: every_kind_def)
qed simp

lemma every_kind_distinct: "distinct every_kind"
  by (simp add: every_kind_def)

lemma all_kinds_optional: "k \<in> set all_kinds \<longleftrightarrow> \<not> always_on k"
  by (cases k) (simp_all add: all_kinds_def)

lemma config_key_empty_iff: "config_key k = [] \<longleftrightarrow> always_on k"
  by (cases k) simp_all

lemma kind_string_inj: "kind_string a = kind_string b \<Longrightarrow> a = b"
  by (cases a; cases b) simp_all

lemma always_on_gate: "always_on k \<Longrightarrow> gate_on cfg k"
  by (cases k) simp_all

lemma stateful_kinds [simp]: "stateful = [Chat, Memory]"
  by (simp add: stateful_def every_kind_def owns_persistent_state_def)

lemma owns_persistent_state_iff [simp]: "owns_persistent_state k \<longleftrightarrow> k = Chat \<or> k = Memory"
  by (cases k) (simp_all add: owns_persistent_state_def)

lemma registry_units_eq: "registry_units =
  [''villa-llama.container'', ''villa-openwebui.container'', ''villa-qdrant.container'',
   ''villa-embed.container'', ''villa-rerank.container'', ''villa-extract.container'',
   ''villa-searxng.container'', ''villa-websafe.container'', ''villa-inferproxy.container'',
   ''villa-stt.container'', ''villa-tts.container'', ''villa-image.container'']"
  by (simp add: registry_units_def every_unit_def every_kind_def plain_unit_def gated_unit_def)

lemma registry_units_distinct: "distinct registry_units"
  by (simp add: registry_units_eq)

lemma registry_units_container: "u \<in> set registry_units \<Longrightarrow> has_suffix u ''.container''"
  by (auto simp: registry_units_eq has_suffix_def suffix_def)

lemma kind_units_subset: "set (fst (kind_units k cfg)) \<subseteq> set (fst (every_unit k))"
  by (auto simp: kind_units_def every_unit_def Let_def)

lemma every_unit_registry: "u \<in> set (fst (every_unit k)) \<Longrightarrow> u \<in> set registry_units"
  using every_kind_complete by (auto simp: registry_units_def)

lemma saved_form_gate: "gate_on (saved_form c) k = gate_on c k"
  by (cases k) simp_all

lemma saved_form_rendered: "decl_rendered (saved_form c) u = decl_rendered c u"
  if "u \<in> set (unit_table k)"
  using that by (cases k)
    (auto simp: decl_rendered_def plain_unit_def gated_unit_def gate_simps)

end
