(* ===== verification/Recommend.thy ===== *)
theory Recommend
  imports FitMath Subsystem
begin

text \<open>
  \<open>internal/recommend\<close> (\<open>recommend.go\<close>, \<open>coder.go\<close>) with the footprints of
  \<open>internal/memory\<close> and \<open>internal/voice\<close>: the reservation registry, the chat pick,
  the projector and draft terms, the speculation ladder, the coder fit and the backend
  fallback. \<open>pick\<close> is pure in the source and a function here. A note is a constructor for
  its format string with the values the string prints.
\<close>

datatype pick_note =
    ReservedConservatively string u64
  | ImageReservedConservatively string u64
  | ReservedForWebSearch u64 int int int
  | RefusingUnknownEnvelope
  | DegradedEstimate u64
  | NoModelFits u64
  | QuantIgnored string string string
  | OverrideNotFound string
  | UnsafeOverride string
  | CoderAsChat string
  | QuantDiffers string string
  | OverrideDoesNotFit u64 u64
  | ProjectorDropped u64 u64 u64
  | DraftDropped u64 u64 u64 string
  | SpecDraftQualified string string string
  | SpecNgramQualified string string
  | SpecOffNoMeasurement string
  | SpecNgramRefused string
  | SpecDraftRefused string
  | SpecUnknownMode string

datatype rocm_note = RocmNotReady string | RocmVerifyNote | RocmAdviceNote

record reservation =
  rv_name :: string
  rv_bytes :: u64
  rv_notes :: "pick_note list"

record alternative =
  al_model :: string
  al_quant :: string
  al_context_len :: int
  al_total_bytes :: u64

record overrides =
  ov_model :: string
  ov_quant :: string
  ov_ctx :: int
  ov_speculation :: string

record coder_fit =
  cf_model :: string
  cf_quant :: string
  cf_agent_ctx :: int
  cf_weight_bytes :: u64
  cf_kv_cache_bytes :: u64
  cf_headroom_bytes :: u64
  cf_total_bytes :: u64
  cf_fits :: bool
  cf_residency :: string
  cf_prompt_cache_bytes :: u64

record recommendation =
  rc_model :: string
  rc_quant :: string
  rc_context_len :: int
  rc_backend :: string
  rc_weight_bytes :: u64
  rc_kv_cache_bytes :: u64
  rc_headroom_bytes :: u64
  rc_total_bytes :: u64
  rc_usable_envelope_bytes :: u64
  rc_fits :: bool
  rc_degraded :: bool
  rc_notes :: "pick_note list"
  rc_alternatives :: "alternative list"
  rc_rocm_advice :: string
  rc_rocm_note :: "rocm_note option"
  rc_embedding_reservation_bytes :: u64
  rc_memory_considered :: bool
  rc_coder :: coder_fit
  rc_web_search_reservation_bytes :: u64
  rc_speculation :: string
  rc_projector_bytes :: u64
  rc_vision :: bool
  rc_draft_bytes :: u64
  rc_draft_kv_bytes :: u64
  rc_prompt_cache_bytes :: u64
  rc_reservations :: "reservation list"
  rc_schema_version :: int

definition default_backend :: string where "default_backend = ''rocm''"
definition fallback_backend :: string where "fallback_backend = ''vulkan''"
definition recommend_schema_version :: int where "recommend_schema_version = 9"
definition residency_swap :: string where "residency_swap = ''swap''"
definition residency_shared :: string where "residency_shared = ''shared''"

definition is_rocm_family :: "string \<Rightarrow> bool" where
  "is_rocm_family name \<longleftrightarrow> name \<in> {'''', ''rocm'', ''rocm-10.0'', ''rocm-7.2.4'', ''rocm-6.4.4'',
     ''rocm-6.4.4-rocwmma''}"

subsection \<open>The reservation registry\<close>

definition footprint :: "string \<Rightarrow> u64 option" where
  "footprint model_id = (if model_id = ''nomic-embed-text-v1.5'' then Some (512 * 1048576) else None)"

definition conservative_footprint_bytes :: u64 where "conservative_footprint_bytes = 512 * 1048576"
definition rerank_footprint_bytes :: u64 where "rerank_footprint_bytes = 2 * 1073741824"
definition extract_footprint_bytes :: u64 where "extract_footprint_bytes = 2 * 1073741824"
definition stt_reserve_bytes :: u64 where "stt_reserve_bytes = 5 * 536870912"
definition tts_reserve_bytes :: u64 where "tts_reserve_bytes = 2 * 1073741824"
definition conservative_image_bytes :: u64 where "conservative_image_bytes = 24 * 1073741824"

definition image_reservation :: "image_model list \<Rightarrow> string \<Rightarrow> u64 \<times> pick_note list" where
  "image_reservation table i =
     (case image_by_id table i of
        Some m \<Rightarrow> (add_saturating (im_weight_bytes m) (im_compute_bytes m), [])
      | None \<Rightarrow> (conservative_image_bytes, [ImageReservedConservatively i conservative_image_bytes]))"

definition memory_reservation :: "string \<Rightarrow> u64 \<times> pick_note list" where
  "memory_reservation i =
     (case footprint i of
        Some v \<Rightarrow> (v, [])
      | None \<Rightarrow> (conservative_footprint_bytes, [ReservedConservatively i conservative_footprint_bytes]))"

record web_search_inputs =
  wi_result_count :: int
  wi_top_k :: int
  wi_chunk_size_chars :: int

definition web_search_reservation :: "web_search_inputs \<Rightarrow> u64 \<times> pick_note list" where
  "web_search_reservation web =
     (let top_k = (if wi_top_k web \<le> 0 then 3 else wi_top_k web);
          chunk_chars = (if wi_chunk_size_chars web \<le> 0 then 1000 else wi_chunk_size_chars web);
          result_count = (if wi_result_count web \<le> 0 then 3 else wi_result_count web);
          top_k = (if top_k > 100 then 100 else top_k);
          chunk_chars = (if chunk_chars > 100000 then 100000 else chunk_chars);
          result_count = (if result_count > 100 then 100 else result_count);
          injected_chars = u64_of_int top_k * u64_of_int chunk_chars;
          injected_tokens = (injected_chars * 10) div 35;
          citation_tokens = u64_of_int result_count * 64;
          raw_tokens = injected_tokens + citation_tokens;
          reserved = (raw_tokens * 4096 * 15) div 10
      in (reserved, [ReservedForWebSearch reserved top_k chunk_chars result_count]))"

definition reservations_for :: "image_model list \<Rightarrow> villa_config \<Rightarrow> reservation list" where
  "reservations_for table cfg =
     (if memory_on cfg
        then (case memory_reservation (cfg_embedding_model cfg) of (b, ns) \<Rightarrow>
               [\<lparr>rv_name = ''embedding'', rv_bytes = b, rv_notes = ns\<rparr>]) else [])
     @ (if rerank_on cfg
        then [\<lparr>rv_name = ''reranker'', rv_bytes = rerank_footprint_bytes, rv_notes = []\<rparr>] else [])
     @ (if extract_on cfg
        then [\<lparr>rv_name = ''extractor'', rv_bytes = extract_footprint_bytes, rv_notes = []\<rparr>] else [])
     @ (if web_search_on cfg
        then (case web_search_reservation \<lparr>wi_result_count = cfg_web_search_result_count cfg,
                     wi_top_k = 0, wi_chunk_size_chars = 0\<rparr> of (b, ns) \<Rightarrow>
               [\<lparr>rv_name = ''web_search'', rv_bytes = b, rv_notes = ns\<rparr>]) else [])
     @ (if voice_on cfg
        then [\<lparr>rv_name = ''stt'', rv_bytes = stt_reserve_bytes, rv_notes = []\<rparr>,
              \<lparr>rv_name = ''tts'', rv_bytes = tts_reserve_bytes, rv_notes = []\<rparr>] else [])
     @ (if image_on cfg
        then (case image_reservation table (cfg_image_model cfg) of (b, ns) \<Rightarrow>
               [\<lparr>rv_name = ''image'', rv_bytes = b, rv_notes = ns\<rparr>]) else [])"

definition reserved_bytes :: "reservation list \<Rightarrow> u64" where
  "reserved_bytes res = foldl (\<lambda>t r. add_saturating t (rv_bytes r)) 0 res"

subsection \<open>Speculation, projector and draft\<close>

definition resolve_speculation :: "model \<Rightarrow> string \<Rightarrow> bool \<Rightarrow> string \<times> pick_note option \<times> bool" where
  "resolve_speculation m requested draft_fits =
     (let qualified = (case m_draft m of Some d \<Rightarrow> if draft_fits then Some d else None | None \<Rightarrow> None);
          draft_note = (\<lambda>d. Some (SpecDraftQualified (dr_spec_type d) (m_id m) (sc_provenance d)));
          ngram_note = Some (SpecNgramQualified (m_id m) (m_ngram_provenance m))
      in if requested = [] then
           (case qualified of
              Some d \<Rightarrow> (speculation_draft, draft_note d, True)
            | None \<Rightarrow>
                if m_ngram_safe m then (speculation_ngram, ngram_note, True)
                else (speculation_off, Some (SpecOffNoMeasurement (m_id m)), True))
         else if requested = speculation_off then (speculation_off, None, True)
         else if requested = speculation_ngram then
           (if m_ngram_safe m then (speculation_ngram, ngram_note, True)
            else (speculation_off, Some (SpecNgramRefused (m_id m)), False))
         else if requested = speculation_draft then
           (case qualified of
              Some d \<Rightarrow> (speculation_draft, draft_note d, True)
            | None \<Rightarrow> (speculation_off, Some (SpecDraftRefused (m_id m)), False))
         else (speculation_off, Some (SpecUnknownMode requested), False))"

record projector_fit =
  pf_total :: u64
  pf_bytes :: u64
  pf_vision :: bool
  pf_notes :: "pick_note list"

definition reserve_projector :: "model \<Rightarrow> u64 \<Rightarrow> u64 \<Rightarrow> projector_fit" where
  "reserve_projector m tot envelope =
     (case m_projector m of
        None \<Rightarrow> \<lparr>pf_total = tot, pf_bytes = 0, pf_vision = False, pf_notes = []\<rparr>
      | Some p \<Rightarrow>
          (let with_proj = add_saturating tot (sc_weight_bytes p)
           in if with_proj > envelope
              then \<lparr>pf_total = tot, pf_bytes = 0, pf_vision = False,
                    pf_notes = [ProjectorDropped (sc_weight_bytes p) with_proj envelope]\<rparr>
              else \<lparr>pf_total = with_proj, pf_bytes = sc_weight_bytes p, pf_vision = True,
                    pf_notes = []\<rparr>))"

record draft_terms =
  dt_kv :: u64
  dt_reserve :: u64
  dt_needed :: u64
  dt_fits :: bool

definition draft_terms_for :: "model \<Rightarrow> int \<Rightarrow> u64 \<Rightarrow> u64 \<Rightarrow> draft_terms" where
  "draft_terms_for m ctx tot envelope =
     (case m_draft m of
        None \<Rightarrow> \<lparr>dt_kv = 0, dt_reserve = 0, dt_needed = 0, dt_fits = False\<rparr>
      | Some d \<Rightarrow>
          (let kv = draft_kv_cache_bytes d ctx;
               reserve = add_saturating (sc_weight_bytes d) kv;
               needed = add_saturating tot reserve
           in \<lparr>dt_kv = kv, dt_reserve = reserve, dt_needed = needed, dt_fits = (needed \<le> envelope)\<rparr>))"

record draft_fit =
  df_total :: u64
  df_bytes :: u64
  df_kv :: u64
  df_spec :: string
  df_ok :: bool
  df_notes :: "pick_note list"

definition draft_dropped :: "model \<Rightarrow> overrides \<Rightarrow> draft_terms \<Rightarrow> bool" where
  "draft_dropped m ov t \<longleftrightarrow> m_draft m \<noteq> None \<and> \<not> dt_fits t
     \<and> (ov_speculation ov = [] \<or> ov_speculation ov = speculation_draft)"

text \<open>
  A resolved \<open>draft\<close> mode implies the entry ships one, so the source's \<open>m.Draft.WeightBytes\<close>
  never meets a nil; the model reads 0 there.
\<close>

definition reserve_draft :: "model \<Rightarrow> overrides \<Rightarrow> int \<Rightarrow> u64 \<Rightarrow> u64 \<Rightarrow> draft_fit" where
  "reserve_draft m ov ctx tot envelope =
     (let t = draft_terms_for m ctx tot envelope in
      case resolve_speculation m (ov_speculation ov) (dt_fits t) of (spec, spec_note, spec_ok) \<Rightarrow>
        (let own = (case spec_note of None \<Rightarrow> [] | Some n \<Rightarrow> [n]) in
         if spec = speculation_draft
         then \<lparr>df_total = dt_needed t,
               df_bytes = (case m_draft m of None \<Rightarrow> 0 | Some d \<Rightarrow> sc_weight_bytes d),
               df_kv = dt_kv t, df_spec = spec, df_ok = spec_ok, df_notes = own\<rparr>
         else \<lparr>df_total = tot, df_bytes = 0, df_kv = 0, df_spec = spec, df_ok = spec_ok,
               df_notes = (if draft_dropped m ov t
                           then [DraftDropped (dt_reserve t) (dt_needed t) envelope spec] else []) @ own\<rparr>))"

subsection \<open>The chat pick\<close>

definition effective_ctx :: "model \<Rightarrow> overrides \<Rightarrow> int" where
  "effective_ctx m ov = (if ov_ctx ov > 0 then ov_ctx ov else m_default_ctx m)"

definition auto_eligible :: "model \<Rightarrow> bool" where
  "auto_eligible m \<longleftrightarrow> m_role m \<noteq> ''coder'' \<and> \<not> m_bootstrap m \<and> m_unified_memory_safe m"

definition meets_envelope_floor :: "model \<Rightarrow> u64 \<Rightarrow> bool" where
  "meets_envelope_floor m envelope \<longleftrightarrow> m_min_envelope_bytes m = 0 \<or> envelope \<ge> m_min_envelope_bytes m"

text \<open>The sum is the source's plain \<open>+\<close>, which wraps.\<close>

definition chat_fit :: "model \<Rightarrow> overrides \<Rightarrow> u64 \<Rightarrow> u64 \<Rightarrow> int \<times> u64 \<times> bool" where
  "chat_fit m ov envelope headroom =
     (if \<not> auto_eligible m \<or> \<not> meets_envelope_floor m envelope then (0, 0, False)
      else
        (let ctx = effective_ctx m ov;
             tot = m_weight_bytes m + kv_cache_bytes m ctx + headroom + prompt_cache_bytes
         in (ctx, tot, tot \<le> envelope)))"

definition outranks :: "model \<Rightarrow> u64 \<Rightarrow> (model \<times> u64) option \<Rightarrow> bool" where
  "outranks m tot best =
     (case best of
        None \<Rightarrow> True
      | Some (b, best_total) \<Rightarrow>
          m_weight_bytes m > m_weight_bytes b \<or> (m_weight_bytes m = m_weight_bytes b \<and> tot > best_total))"

fun select_loop ::
  "overrides \<Rightarrow> u64 \<Rightarrow> u64 \<Rightarrow> model list \<Rightarrow> (model \<times> u64) option \<Rightarrow> alternative list
     \<Rightarrow> (model \<times> u64) option \<times> alternative list" where
  "select_loop ov envelope headroom [] best alts = (best, alts)"
| "select_loop ov envelope headroom (m # ms) best alts =
     (case chat_fit m ov envelope headroom of (ctx, tot, ok) \<Rightarrow>
        if \<not> ok then select_loop ov envelope headroom ms best alts
        else select_loop ov envelope headroom ms
               (if outranks m tot best then Some (m, tot) else best)
               (alts @ [\<lparr>al_model = m_id m, al_quant = m_quant m, al_context_len = ctx,
                         al_total_bytes = tot\<rparr>]))"

definition select_best :: "catalog \<Rightarrow> overrides \<Rightarrow> u64 \<Rightarrow> model option \<times> alternative list" where
  "select_best c ov envelope =
     (case select_loop ov envelope (headroom_bytes envelope) (ct_models c) None [] of
        (best, alts) \<Rightarrow> (map_option fst best, alts))"

definition alternatives_excluding :: "alternative list \<Rightarrow> string \<Rightarrow> int \<Rightarrow> alternative list" where
  "alternatives_excluding alts i ctx = filter (\<lambda>a. \<not> (al_model a = i \<and> al_context_len a = ctx)) alts"

definition zero_coder :: coder_fit where
  "zero_coder = \<lparr>cf_model = [], cf_quant = [], cf_agent_ctx = 0, cf_weight_bytes = 0,
     cf_kv_cache_bytes = 0, cf_headroom_bytes = 0, cf_total_bytes = 0, cf_fits = False,
     cf_residency = [], cf_prompt_cache_bytes = 0\<rparr>"

definition zero_rec :: recommendation where
  "zero_rec = \<lparr>rc_model = [], rc_quant = [], rc_context_len = 0, rc_backend = [],
     rc_weight_bytes = 0, rc_kv_cache_bytes = 0, rc_headroom_bytes = 0, rc_total_bytes = 0,
     rc_usable_envelope_bytes = 0, rc_fits = False, rc_degraded = False, rc_notes = [],
     rc_alternatives = [], rc_rocm_advice = [], rc_rocm_note = None,
     rc_embedding_reservation_bytes = 0, rc_memory_considered = False, rc_coder = zero_coder,
     rc_web_search_reservation_bytes = 0, rc_speculation = [], rc_projector_bytes = 0,
     rc_vision = False, rc_draft_bytes = 0, rc_draft_kv_bytes = 0, rc_prompt_cache_bytes = 0,
     rc_reservations = [], rc_schema_version = 0\<rparr>"

definition base_total :: "model \<Rightarrow> int \<Rightarrow> u64 \<Rightarrow> u64" where
  "base_total m ctx envelope =
     add_saturating (add_saturating (add_saturating (m_weight_bytes m) (kv_cache_bytes m ctx))
       (headroom_bytes envelope)) prompt_cache_bytes"

definition build_recommendation ::
  "model \<Rightarrow> overrides \<Rightarrow> int \<Rightarrow> u64 \<Rightarrow> bool \<Rightarrow> pick_note list \<Rightarrow> recommendation" where
  "build_recommendation m ov ctx envelope degraded notes =
     (let proj = reserve_projector m (base_total m ctx envelope) envelope;
          draft = reserve_draft m ov ctx (pf_total proj) envelope
      in zero_rec\<lparr>
           rc_model := m_id m,
           rc_quant := m_quant m,
           rc_context_len := ctx,
           rc_backend := (if m_backend_default m \<noteq> [] then m_backend_default m else default_backend),
           rc_weight_bytes := m_weight_bytes m,
           rc_kv_cache_bytes := kv_cache_bytes m ctx,
           rc_headroom_bytes := headroom_bytes envelope,
           rc_total_bytes := df_total draft,
           rc_usable_envelope_bytes := envelope,
           rc_prompt_cache_bytes := prompt_cache_bytes,
           rc_fits := (df_total draft \<le> envelope \<and> df_ok draft),
           rc_degraded := degraded,
           rc_notes := notes @ pf_notes proj @ df_notes draft,
           rc_speculation := df_spec draft,
           rc_projector_bytes := pf_bytes proj,
           rc_vision := pf_vision proj,
           rc_draft_bytes := df_bytes draft,
           rc_draft_kv_bytes := df_kv draft\<rparr>)"

definition no_model_rec :: "u64 \<Rightarrow> bool \<Rightarrow> pick_note list \<Rightarrow> recommendation" where
  "no_model_rec envelope degraded notes =
     zero_rec\<lparr>rc_backend := default_backend, rc_usable_envelope_bytes := envelope,
              rc_degraded := degraded, rc_notes := notes\<rparr>"

definition pick_best :: "catalog \<Rightarrow> overrides \<Rightarrow> u64 \<Rightarrow> bool \<Rightarrow> pick_note list \<Rightarrow> recommendation" where
  "pick_best c ov envelope degraded notes =
     (case select_best c ov envelope of
        (None, alts) \<Rightarrow> no_model_rec envelope degraded (notes @ [NoModelFits envelope])
      | (Some best, alts) \<Rightarrow>
          (let ctx = effective_ctx best ov;
               r = build_recommendation best ov ctx envelope degraded notes
           in r\<lparr>rc_alternatives := alternatives_excluding alts (m_id best) ctx,
                rc_notes := rc_notes r
                  @ (if ov_quant ov \<noteq> [] \<and> ov_quant ov \<noteq> m_quant best
                     then [QuantIgnored (ov_quant ov) (m_id best) (m_quant best)] else [])\<rparr>))"

definition override_notes :: "model \<Rightarrow> overrides \<Rightarrow> pick_note list" where
  "override_notes m ov =
       (if \<not> m_unified_memory_safe m then [UnsafeOverride (m_id m)] else [])
     @ (if m_role m = ''coder'' then [CoderAsChat (m_id m)] else [])
     @ (if ov_quant ov \<noteq> [] \<and> ov_quant ov \<noteq> m_quant m
        then [QuantDiffers (ov_quant ov) (m_quant m)] else [])"

definition pick_override :: "catalog \<Rightarrow> overrides \<Rightarrow> u64 \<Rightarrow> bool \<Rightarrow> pick_note list \<Rightarrow> recommendation" where
  "pick_override c ov envelope degraded notes =
     (case find_by_id c (ov_model ov) of
        None \<Rightarrow> no_model_rec envelope degraded (notes @ [OverrideNotFound (ov_model ov)])
      | Some m \<Rightarrow>
          (let r = build_recommendation m ov (effective_ctx m ov) envelope degraded
                     (notes @ override_notes m ov)
           in r\<lparr>rc_quant := (if ov_quant ov \<noteq> [] then ov_quant ov else rc_quant r),
                rc_notes := rc_notes r
                  @ (if rc_total_bytes r > envelope
                     then [OverrideDoesNotFit (rc_total_bytes r) envelope] else [])\<rparr>))"

subsection \<open>The coder fit\<close>

definition shared_coder_fit :: coder_fit where
  "shared_coder_fit = zero_coder\<lparr>cf_fits := False, cf_residency := residency_shared\<rparr>"

definition coder_eligible :: "model \<Rightarrow> u64 \<Rightarrow> bool" where
  "coder_eligible m envelope =
     (if m_role m \<noteq> ''coder'' \<or> m_bootstrap m \<or> \<not> m_unified_memory_safe m then False
      else meets_envelope_floor m envelope)"

definition coder_total :: "model \<Rightarrow> u64 \<Rightarrow> u64" where
  "coder_total m headroom =
     add_saturating (add_saturating (add_saturating (m_weight_bytes m) (kv_cache_bytes m (m_agent_ctx m)))
       headroom) prompt_cache_bytes"

definition coder_footprint :: "model \<Rightarrow> u64 \<Rightarrow> u64 \<Rightarrow> u64 \<times> bool" where
  "coder_footprint m envelope headroom =
     (if \<not> coder_eligible m envelope then (0, False)
      else (coder_total m headroom, coder_total m headroom \<le> envelope))"

fun best_coder :: "u64 \<Rightarrow> u64 \<Rightarrow> model list \<Rightarrow> (model \<times> u64) option \<Rightarrow> (model \<times> u64) option" where
  "best_coder envelope headroom [] best = best"
| "best_coder envelope headroom (m # ms) best =
     (case coder_footprint m envelope headroom of (tot, ok) \<Rightarrow>
        if \<not> ok then best_coder envelope headroom ms best
        else best_coder envelope headroom ms
               (if (case best of None \<Rightarrow> True | Some (b, bt) \<Rightarrow> tot > bt) then Some (m, tot) else best))"

definition pick_coder :: "catalog \<Rightarrow> u64 \<Rightarrow> coder_fit" where
  "pick_coder c envelope =
     (case best_coder envelope (headroom_bytes envelope) (ct_models c) None of
        None \<Rightarrow> shared_coder_fit
      | Some (best, best_total) \<Rightarrow>
          \<lparr>cf_model = m_id best, cf_quant = m_quant best, cf_agent_ctx = m_agent_ctx best,
           cf_weight_bytes = m_weight_bytes best,
           cf_kv_cache_bytes = kv_cache_bytes best (m_agent_ctx best),
           cf_headroom_bytes = headroom_bytes envelope, cf_total_bytes = best_total,
           cf_fits = True, cf_residency = residency_swap,
           cf_prompt_cache_bytes = prompt_cache_bytes\<rparr>)"

subsection \<open>The ROCm fold and the final stamp\<close>

definition readiness_signals :: "rocm_readiness \<Rightarrow> (string \<times> bool option) list" where
  "readiness_signals r =
     [(''HSA override viable'', rr_hsa_override_viable r),
      (''firmware date'', rr_firmware_date_ok r),
      (''kernel floor'', rr_kernel_floor_ok r),
      (''rocminfo gfx1151'', rr_rocminfo_gfx1151 r),
      (''image pin policy'', rr_image_policy_ok r)]"

fun fold_signals :: "(string \<times> bool option) list \<Rightarrow> bool \<Rightarrow> string \<Rightarrow> bool \<times> string" where
  "fold_signals [] saw_unknown blocker = (saw_unknown, blocker)"
| "fold_signals ((n, None) # ss) saw_unknown blocker = fold_signals ss True blocker"
| "fold_signals ((n, Some v) # ss) saw_unknown blocker =
     fold_signals ss saw_unknown (if \<not> v \<and> blocker = [] then n else blocker)"

definition derive_rocm_advice :: "rocm_readiness \<Rightarrow> string \<times> rocm_note" where
  "derive_rocm_advice r =
     (case fold_signals (readiness_signals r) False [] of (saw_unknown, blocker) \<Rightarrow>
        if \<not> saw_unknown \<and> blocker \<noteq> [] then ([], RocmNotReady blocker)
        else if saw_unknown then (''verify-with-bench'', RocmVerifyNote)
        else (''worth-trying'', RocmAdviceNote))"

text \<open>The legacy keys are assigned in registry order, so the last row of a name wins.\<close>

definition last_bytes :: "string \<Rightarrow> reservation list \<Rightarrow> u64 \<Rightarrow> u64" where
  "last_bytes name res dflt = foldl (\<lambda>b r. if rv_name r = name then rv_bytes r else b) dflt res"

definition finalize_recommendation ::
  "recommendation \<Rightarrow> host_profile \<Rightarrow> reservation list \<Rightarrow> coder_fit \<Rightarrow> recommendation" where
  "finalize_recommendation rec p res coder =
     (let (advice, advice_note) = derive_rocm_advice (hp_rocm_readiness p)
      in rec\<lparr>
           rc_schema_version := recommend_schema_version,
           rc_reservations := res,
           rc_embedding_reservation_bytes :=
             last_bytes ''embedding'' res (rc_embedding_reservation_bytes rec),
           rc_memory_considered :=
             (rc_memory_considered rec \<or> list_ex (\<lambda>r. rv_name r = ''embedding'') res),
           rc_web_search_reservation_bytes :=
             last_bytes ''web_search'' res (rc_web_search_reservation_bytes rec),
           rc_coder := coder,
           rc_rocm_advice := advice,
           rc_rocm_note := Some advice_note,
           rc_backend := (if advice = [] \<and> is_rocm_family (rc_backend rec) then fallback_backend
                          else rc_backend rec)\<rparr>)"

text \<open>The envelope after the reservations, clamped at 0.\<close>

definition shrink_envelope :: "u64 \<Rightarrow> u64 \<Rightarrow> u64" where
  "shrink_envelope envelope tot = (if tot \<ge> envelope then 0 else envelope - tot)"

definition pick :: "host_profile \<Rightarrow> catalog \<Rightarrow> overrides \<Rightarrow> reservation list \<Rightarrow> recommendation" where
  "pick p c ov res =
     (let tot = foldl (\<lambda>t r. add_saturating t (rv_bytes r)) 0 res;
          notes = concat (map rv_notes res)
      in case resolve_envelope p of
           None \<Rightarrow> finalize_recommendation
             (zero_rec\<lparr>rc_backend := default_backend, rc_notes := notes @ [RefusingUnknownEnvelope]\<rparr>)
             p res shared_coder_fit
         | Some (envelope, degraded) \<Rightarrow>
             (let envelope = shrink_envelope envelope tot;
                  notes = (if degraded then notes @ [DegradedEstimate envelope] else notes);
                  coder = pick_coder c envelope
              in if ov_model ov \<noteq> []
                 then finalize_recommendation (pick_override c ov envelope degraded notes) p res coder
                 else finalize_recommendation (pick_best c ov envelope degraded notes) p res coder))"

end
