(* ===== verification/RecommendFacts.thy ===== *)
theory RecommendFacts
  imports Recommend "HOL-Library.Product_Lexorder"
begin

text \<open>
  What the recommendation promises: a pick that reports \<open>Fits\<close> really fits the detected
  envelope in unbounded arithmetic, the automatic pick is the heaviest eligible model that
  fits, sidecars are reserved only on top of a fit, and the backend fallback is one-way.
\<close>

subsection \<open>Keeping a maximum\<close>

definition keep_max :: "('a \<Rightarrow> 'k :: linorder) \<Rightarrow> 'a option \<Rightarrow> 'a \<Rightarrow> 'a option" where
  "keep_max f b x = (case b of None \<Rightarrow> Some x | Some y \<Rightarrow> if f x > f y then Some x else b)"

lemma keep_max_simps [simp]:
  "keep_max f None x = Some x"
  "keep_max f (Some y) x = (if f x > f y then Some x else Some y)"
  by (simp_all add: keep_max_def)

lemma keep_max_Some: "keep_max f b x \<noteq> None"
  by (cases b) simp_all

lemma foldl_keep_max_None: "foldl (keep_max f) None xs = None \<longleftrightarrow> xs = []"
  by (induction xs rule: rev_induct) (simp_all add: keep_max_Some)

lemma foldl_keep_max_Some:
  "foldl (keep_max f) None xs = Some x \<Longrightarrow> x \<in> set xs \<and> (\<forall>y \<in> set xs. f y \<le> f x)"
proof (induction xs arbitrary: x rule: rev_induct)
  case (snoc z xs)
  show ?case
  proof (cases "foldl (keep_max f) None xs")
    case None
    then have "xs = []" by (simp add: foldl_keep_max_None)
    with snoc.prems show ?thesis by simp
  next
    case (Some y)
    with snoc.IH snoc.prems show ?thesis by (auto split: if_splits)
  qed
qed simp

subsection \<open>The pieces of a fit\<close>

lemma unat_prompt_cache [simp]: "unat prompt_cache_bytes = 8589934592"
  by (simp add: prompt_cache_bytes_def)

definition real_base :: "model \<Rightarrow> int \<Rightarrow> u64 \<Rightarrow> nat" where
  "real_base m ctx envelope =
     unat (m_weight_bytes m) + unat (kv_cache_bytes m ctx) + unat (headroom_bytes envelope)
       + unat prompt_cache_bytes"

lemma unat_base_total: "unat (base_total m ctx e) = min (real_base m ctx e) max_u64_nat"
  by (simp add: base_total_def real_base_def unat_add_saturating)

lemma base_total_fits: "e \<noteq> max_u64 \<Longrightarrow> base_total m ctx e \<le> e \<longleftrightarrow> real_base m ctx e \<le> unat e"
proof -
  assume "e \<noteq> max_u64"
  then have "unat e \<noteq> max_u64_nat" by (simp add: u64_eq_iff_nat)
  moreover have "unat e \<le> max_u64_nat" by (rule unat_u64_bound)
  ultimately show ?thesis unfolding word_le_nat_alt unat_base_total min_le_iff_disj by linarith
qed

lemma unat_reserved_acc:
  "unat (foldl (\<lambda>t r. add_saturating t (rv_bytes r)) a res)
     = min (unat a + sum_list (map (unat \<circ> rv_bytes) res)) max_u64_nat"
  by (induction res arbitrary: a) (auto simp: unat_add_saturating)

lemma unat_reserved:
  "unat (reserved_bytes res) = min (sum_list (map (unat \<circ> rv_bytes) res)) max_u64_nat"
  by (simp add: reserved_bytes_def unat_reserved_acc)

lemma shrink_envelope_pos:
  assumes "shrink_envelope e tot \<noteq> 0"
  shows "unat (shrink_envelope e tot) + unat tot = unat e \<and> tot < e"
proof -
  have lt: "tot < e" using assms by (auto simp: shrink_envelope_def split: if_splits)
  then have "unat (e - tot) = unat e - unat tot" by (simp add: unat_sub word_le_nat_alt word_less_nat_alt)
  with lt show ?thesis by (auto simp: shrink_envelope_def word_less_nat_alt word_le_nat_alt)
qed

lemma shrink_envelope_le: "shrink_envelope e tot \<le> e"
  by (auto simp: shrink_envelope_def word_le_nat_alt unat_sub)

lemma shrink_not_max: "e \<noteq> max_u64 \<Longrightarrow> shrink_envelope e tot \<noteq> max_u64"
  using shrink_envelope_le [of e tot] u64_le_max [of e] by (metis antisym)

lemma reserve_projector_spec:
  "reserve_projector m tot e =
     (case m_projector m of
        None \<Rightarrow> \<lparr>pf_total = tot, pf_bytes = 0, pf_vision = False, pf_notes = []\<rparr>
      | Some p \<Rightarrow>
          if add_saturating tot (sc_weight_bytes p) \<le> e
          then \<lparr>pf_total = add_saturating tot (sc_weight_bytes p), pf_bytes = sc_weight_bytes p,
                pf_vision = True, pf_notes = []\<rparr>
          else \<lparr>pf_total = tot, pf_bytes = 0, pf_vision = False,
                pf_notes = [ProjectorDropped (sc_weight_bytes p) (add_saturating tot (sc_weight_bytes p)) e]\<rparr>)"
  by (auto simp: reserve_projector_def Let_def not_le split: option.splits)

lemma pf_total_sum: "pf_total (reserve_projector m tot e) = add_saturating tot (pf_bytes (reserve_projector m tot e))"
  by (auto simp: reserve_projector_spec split: option.splits)

lemma pf_total_fits: "pf_total (reserve_projector m tot e) \<le> e \<longleftrightarrow> tot \<le> e"
proof (cases "m_projector m")
  case (Some p)
  then show ?thesis
    using add_saturating_ge(1) [of tot "sc_weight_bytes p"]
    by (auto simp: reserve_projector_spec)
qed (simp add: reserve_projector_spec)

lemma resolve_speculation_draft:
  "resolve_speculation m q f = (speculation_draft, n, k) \<Longrightarrow> f \<and> m_draft m \<noteq> None"
  by (auto simp: resolve_speculation_def speculation_off_def speculation_ngram_def
      speculation_draft_def Let_def split: if_splits option.splits)

lemma df_spec_draft:
  assumes "df_spec (reserve_draft m ov ctx tot e) = speculation_draft"
  shows "m_draft m \<noteq> None \<and> dt_fits (draft_terms_for m ctx tot e)
       \<and> df_total (reserve_draft m ov ctx tot e) = dt_needed (draft_terms_for m ctx tot e)"
proof (cases "resolve_speculation m (ov_speculation ov) (dt_fits (draft_terms_for m ctx tot e))")
  case (fields spec n k)
  with assms have "spec = speculation_draft"
    by (auto simp: reserve_draft_def Let_def split: if_splits)
  with fields resolve_speculation_draft [of m _ _ n k] show ?thesis
    by (auto simp: reserve_draft_def Let_def)
qed

lemma reserve_draft_other:
  assumes "df_spec (reserve_draft m ov ctx tot e) \<noteq> speculation_draft"
  shows "df_total (reserve_draft m ov ctx tot e) = tot \<and> df_bytes (reserve_draft m ov ctx tot e) = 0
       \<and> df_kv (reserve_draft m ov ctx tot e) = 0"
  using assms by (auto simp: reserve_draft_def Let_def split: prod.splits if_splits)

lemma draft_terms_Some:
  "m_draft m = Some d \<Longrightarrow> draft_terms_for m ctx tot e =
     \<lparr>dt_kv = draft_kv_cache_bytes d ctx,
      dt_reserve = add_saturating (sc_weight_bytes d) (draft_kv_cache_bytes d ctx),
      dt_needed = add_saturating tot (add_saturating (sc_weight_bytes d) (draft_kv_cache_bytes d ctx)),
      dt_fits = (add_saturating tot (add_saturating (sc_weight_bytes d) (draft_kv_cache_bytes d ctx)) \<le> e)\<rparr>"
  by (simp add: draft_terms_for_def Let_def)

lemma df_total_sum:
  "df_total (reserve_draft m ov ctx tot e) =
     add_saturating (add_saturating tot (df_bytes (reserve_draft m ov ctx tot e)))
       (df_kv (reserve_draft m ov ctx tot e))"
proof (cases "df_spec (reserve_draft m ov ctx tot e) = speculation_draft")
  case True
  then obtain d where d: "m_draft m = Some d" using df_spec_draft by blast
  from True have "df_bytes (reserve_draft m ov ctx tot e) = sc_weight_bytes d
      \<and> df_kv (reserve_draft m ov ctx tot e) = dt_kv (draft_terms_for m ctx tot e)"
    using d by (auto simp: reserve_draft_def Let_def split: prod.splits if_splits)
  then show ?thesis using df_spec_draft [OF True] d
    by (simp add: draft_terms_Some add_saturating_assoc)
next
  case False
  then show ?thesis using reserve_draft_other by simp
qed

lemma df_total_fits: "df_total (reserve_draft m ov ctx tot e) \<le> e \<longleftrightarrow> tot \<le> e"
proof (cases "df_spec (reserve_draft m ov ctx tot e) = speculation_draft")
  case True
  then obtain d where d: "m_draft m = Some d" using df_spec_draft by blast
  have "dt_needed (draft_terms_for m ctx tot e) \<le> e"
    using df_spec_draft [OF True] d by (simp add: draft_terms_Some)
  moreover have "tot \<le> dt_needed (draft_terms_for m ctx tot e)"
    using d by (simp add: draft_terms_Some add_saturating_ge)
  ultimately show ?thesis using df_spec_draft [OF True] by auto
next
  case False
  then show ?thesis using reserve_draft_other by simp
qed

subsection \<open>Building a recommendation\<close>

lemma build_sel [simp]:
  "rc_model (build_recommendation m ov ctx e dg ns) = m_id m"
  "rc_context_len (build_recommendation m ov ctx e dg ns) = ctx"
  "rc_weight_bytes (build_recommendation m ov ctx e dg ns) = m_weight_bytes m"
  "rc_kv_cache_bytes (build_recommendation m ov ctx e dg ns) = kv_cache_bytes m ctx"
  "rc_headroom_bytes (build_recommendation m ov ctx e dg ns) = headroom_bytes e"
  "rc_prompt_cache_bytes (build_recommendation m ov ctx e dg ns) = prompt_cache_bytes"
  "rc_usable_envelope_bytes (build_recommendation m ov ctx e dg ns) = e"
  by (simp_all add: build_recommendation_def Let_def)

lemma build_total:
  "rc_total_bytes (build_recommendation m ov ctx e dg ns) =
     add_saturating (add_saturating (add_saturating (base_total m ctx e)
       (rc_projector_bytes (build_recommendation m ov ctx e dg ns)))
       (rc_draft_bytes (build_recommendation m ov ctx e dg ns)))
       (rc_draft_kv_bytes (build_recommendation m ov ctx e dg ns))"
proof -
  let ?p = "reserve_projector m (base_total m ctx e) e"
  have "df_total (reserve_draft m ov ctx (pf_total ?p) e) =
     add_saturating (add_saturating (pf_total ?p) (df_bytes (reserve_draft m ov ctx (pf_total ?p) e)))
       (df_kv (reserve_draft m ov ctx (pf_total ?p) e))"
    by (rule df_total_sum)
  then show ?thesis
    by (simp add: build_recommendation_def Let_def pf_total_sum [symmetric])
qed

lemma build_fits_iff:
  "rc_fits (build_recommendation m ov ctx e dg ns) \<longleftrightarrow>
     base_total m ctx e \<le> e
   \<and> df_ok (reserve_draft m ov ctx (pf_total (reserve_projector m (base_total m ctx e) e)) e)"
  by (simp add: build_recommendation_def Let_def df_total_fits pf_total_fits)

lemma build_total_le: "rc_fits (build_recommendation m ov ctx e dg ns) \<Longrightarrow>
    rc_total_bytes (build_recommendation m ov ctx e dg ns) \<le> e"
  by (simp add: build_recommendation_def Let_def)

text \<open>A fit's terms add up below the envelope in unbounded arithmetic.\<close>

definition real_terms :: "recommendation \<Rightarrow> nat" where
  "real_terms r = unat (rc_weight_bytes r) + unat (rc_kv_cache_bytes r) + unat (rc_headroom_bytes r)
     + unat (rc_prompt_cache_bytes r) + unat (rc_projector_bytes r) + unat (rc_draft_bytes r)
     + unat (rc_draft_kv_bytes r)"

lemma build_terms:
  "unat (rc_total_bytes (build_recommendation m ov ctx e dg ns)) =
     min (real_terms (build_recommendation m ov ctx e dg ns)) max_u64_nat"
  unfolding build_total real_terms_def
  by (simp add: unat_add_saturating unat_base_total real_base_def del: unat_prompt_cache)

lemma build_terms_le:
  assumes "rc_fits (build_recommendation m ov ctx e dg ns)" "e \<noteq> max_u64"
  shows "real_terms (build_recommendation m ov ctx e dg ns) \<le> unat e"
proof -
  have "unat e \<noteq> max_u64_nat" using assms(2) by (simp add: u64_eq_iff_nat)
  moreover have "unat e \<le> max_u64_nat" by (rule unat_u64_bound)
  moreover have "unat (rc_total_bytes (build_recommendation m ov ctx e dg ns)) \<le> unat e"
    using build_total_le [OF assms(1)] by (simp add: word_le_nat_alt)
  ultimately show ?thesis unfolding build_terms by linarith
qed

subsection \<open>Where a fitting pick comes from\<close>

lemma no_model_rec_sel [simp]:
  "rc_fits (no_model_rec e dg ns) = False" "rc_model (no_model_rec e dg ns) = []"
  by (simp_all add: no_model_rec_def zero_rec_def)

lemma finalize_sel [simp]:
  "rc_fits (finalize_recommendation r p res k) = rc_fits r"
  "rc_model (finalize_recommendation r p res k) = rc_model r"
  "rc_context_len (finalize_recommendation r p res k) = rc_context_len r"
  "rc_coder (finalize_recommendation r p res k) = k"
  "rc_reservations (finalize_recommendation r p res k) = res"
  "rc_total_bytes (finalize_recommendation r p res k) = rc_total_bytes r"
  "rc_usable_envelope_bytes (finalize_recommendation r p res k) = rc_usable_envelope_bytes r"
  "rc_speculation (finalize_recommendation r p res k) = rc_speculation r"
  "rc_vision (finalize_recommendation r p res k) = rc_vision r"
  "rc_notes (finalize_recommendation r p res k) = rc_notes r"
  "rc_alternatives (finalize_recommendation r p res k) = rc_alternatives r"
  by (simp_all add: finalize_recommendation_def split: prod.splits)

lemma finalize_terms [simp]: "real_terms (finalize_recommendation r p res k) = real_terms r"
  by (simp add: real_terms_def finalize_recommendation_def split: prod.splits)

lemma pick_resolved:
  "resolve_envelope p = Some (e, dg) \<Longrightarrow> pick p c ov res =
     (let env = shrink_envelope e (reserved_bytes res);
          ns = concat (map rv_notes res) @ (if dg then [DegradedEstimate env] else [])
      in finalize_recommendation
           (if ov_model ov \<noteq> [] then pick_override c ov env dg ns else pick_best c ov env dg ns)
           p res (pick_coder c env))"
  by (simp add: pick_def reserved_bytes_def Let_def)

definition chat_candidates :: "overrides \<Rightarrow> u64 \<Rightarrow> u64 \<Rightarrow> model list \<Rightarrow> (model \<times> u64) list" where
  "chat_candidates ov e h ms =
     map (\<lambda>m. (m, fst (snd (chat_fit m ov e h)))) (filter (\<lambda>m. snd (snd (chat_fit m ov e h))) ms)"

definition chat_key :: "model \<times> u64 \<Rightarrow> u64 \<times> u64" where
  "chat_key mt = (m_weight_bytes (fst mt), snd mt)"

lemma outranks_key:
  "(if outranks m t b then Some (m, t) else b) = keep_max chat_key b (m, t)"
  by (cases b) (auto simp: outranks_def keep_max_def chat_key_def)

lemma select_loop_fst:
  "fst (select_loop ov e h ms b alts) = foldl (keep_max chat_key) b (chat_candidates ov e h ms)"
proof (induction ov e h ms b alts rule: select_loop.induct)
  case (2 ov e h m ms b alts)
  obtain ctx tot ok where cf: "chat_fit m ov e h = (ctx, tot, ok)" by (cases "chat_fit m ov e h") auto
  show ?case
    using "2.IH" [OF cf [symmetric] refl] cf
    by (cases ok) (auto simp: chat_candidates_def outranks_key)
qed (simp add: chat_candidates_def)

lemma best_coder_fold:
  "best_coder e h ms b = foldl (keep_max snd) b
     (map (\<lambda>m. (m, fst (coder_footprint m e h))) (filter (\<lambda>m. snd (coder_footprint m e h)) ms))"
proof (induction e h ms b rule: best_coder.induct)
  case (2 e h m ms b)
  obtain tot ok where cf: "coder_footprint m e h = (tot, ok)" by (cases "coder_footprint m e h") auto
  have step: "(if (case b of None \<Rightarrow> True | Some (x, bt) \<Rightarrow> tot > bt) then Some (m, tot) else b)
      = keep_max snd b (m, tot)"
    by (cases b) (auto simp: keep_max_def)
  show ?case using "2.IH" [OF cf [symmetric]] cf by (cases ok) (simp_all add: step)
qed simp

lemma select_best_fst:
  "fst (select_best c ov e) =
     map_option fst (foldl (keep_max chat_key) None (chat_candidates ov e (headroom_bytes e) (ct_models c)))"
  unfolding select_best_def select_loop_fst [symmetric, where alts = "[]"] by (simp split: prod.split)

lemma select_best_Some:
  assumes "fst (select_best c ov e) = Some m"
  shows "m \<in> set (ct_models c) \<and> snd (snd (chat_fit m ov e (headroom_bytes e)))
       \<and> (\<forall>m' \<in> set (ct_models c). snd (snd (chat_fit m' ov e (headroom_bytes e)))
            \<longrightarrow> m_weight_bytes m' \<le> m_weight_bytes m)"
proof -
  from assms obtain t where
    "foldl (keep_max chat_key) None (chat_candidates ov e (headroom_bytes e) (ct_models c)) = Some (m, t)"
    by (auto simp: select_best_fst)
  from foldl_keep_max_Some [OF this] show ?thesis
    by (fastforce simp: chat_candidates_def chat_key_def less_eq_prod_def)
qed

lemma select_best_None:
  "fst (select_best c ov e) = None \<longleftrightarrow>
     (\<forall>m \<in> set (ct_models c). \<not> snd (snd (chat_fit m ov e (headroom_bytes e))))"
  by (auto simp: select_best_fst foldl_keep_max_None chat_candidates_def filter_empty_conv)

lemma chat_fit_ok:
  "snd (snd (chat_fit m ov e h)) \<longleftrightarrow> auto_eligible m \<and> meets_envelope_floor m e
     \<and> m_weight_bytes m + kv_cache_bytes m (effective_ctx m ov) + h + prompt_cache_bytes \<le> e"
  by (auto simp: chat_fit_def Let_def)

lemma chat_fit_real:
  assumes "real_base m (effective_ctx m ov) e \<le> max_u64_nat"
  shows "snd (snd (chat_fit m ov e (headroom_bytes e))) \<longleftrightarrow>
     auto_eligible m \<and> meets_envelope_floor m e \<and> base_total m (effective_ctx m ov) e \<le> e"
proof -
  let ?k = "kv_cache_bytes m (effective_ctx m ov)"
  have "unat (m_weight_bytes m + ?k + headroom_bytes e + prompt_cache_bytes)
      = real_base m (effective_ctx m ov) e"
    using assms by (simp add: unat_add_u64 real_base_def)
  then have "m_weight_bytes m + ?k + headroom_bytes e + prompt_cache_bytes
      = base_total m (effective_ctx m ov) e"
    using assms by (simp add: u64_eq_iff_nat unat_base_total)
  then show ?thesis by (simp add: chat_fit_ok)
qed

lemma pick_best_fits:
  assumes "rc_fits (pick_best c ov e dg ns)"
  obtains m r where "fst (select_best c ov e) = Some m"
    "r = build_recommendation m ov (effective_ctx m ov) e dg ns"
    "rc_fits r" "real_terms (pick_best c ov e dg ns) = real_terms r"
    "rc_model (pick_best c ov e dg ns) = m_id m"
proof (cases "select_best c ov e")
  case (Pair best alts)
  with assms obtain m where b: "best = Some m" by (cases best) (auto simp: pick_best_def)
  with Pair assms show ?thesis
    by (intro that [of m]) (auto simp: pick_best_def Let_def real_terms_def)
qed

lemma pick_override_fits:
  assumes "rc_fits (pick_override c ov e dg ns)"
  obtains m ns' where "find_by_id c (ov_model ov) = Some m"
    "rc_fits (build_recommendation m ov (effective_ctx m ov) e dg ns')"
    "real_terms (pick_override c ov e dg ns) = real_terms (build_recommendation m ov (effective_ctx m ov) e dg ns')"
proof (cases "find_by_id c (ov_model ov)")
  case None
  with assms show ?thesis by (simp add: pick_override_def)
next
  case (Some m)
  with assms show ?thesis
    by (intro that [of m "ns @ override_notes m ov"])
      (simp_all add: pick_override_def Let_def real_terms_def)
qed

lemma fitting_terms_le:
  assumes "rc_fits (if b then pick_override c ov e dg ns else pick_best c ov e dg ns)" "e \<noteq> max_u64"
  shows "real_terms (if b then pick_override c ov e dg ns else pick_best c ov e dg ns) \<le> unat e"
proof (cases b)
  case True
  with assms(1) have "rc_fits (pick_override c ov e dg ns)" by simp
  then show ?thesis using True build_terms_le assms(2) by (elim pick_override_fits) simp
next
  case False
  with assms(1) have "rc_fits (pick_best c ov e dg ns)" by simp
  then show ?thesis using False build_terms_le assms(2) by (elim pick_best_fits) simp
qed

lemma auto_pick_fits:
  fixes c :: catalog and ov :: overrides
  assumes "resolve_envelope p = Some (e, dg)" "e \<noteq> max_u64"
    and "ov_model ov = []" "ov_speculation ov = []"
    and "env = shrink_envelope e (reserved_bytes res)"
    and "\<forall>m \<in> set (ct_models c). auto_eligible m \<longrightarrow>
           real_base m (effective_ctx m ov) env \<le> max_u64_nat"
    and "fits = (\<lambda>m. m \<in> set (ct_models c) \<and> auto_eligible m \<and> meets_envelope_floor m env
           \<and> real_base m (effective_ctx m ov) env \<le> unat env)"
  shows "(rc_fits (pick p c ov res) \<longleftrightarrow> (\<exists>m. fits m))
       \<and> ((\<exists>m. fits m) \<longrightarrow> (\<exists>m. fits m \<and> rc_model (pick p c ov res) = m_id m
            \<and> (\<forall>m'. fits m' \<longrightarrow> m_weight_bytes m' \<le> m_weight_bytes m)))"
proof -
  have nm: "env \<noteq> max_u64" using shrink_not_max [OF assms(2)] assms(5) by simp
  have ok: "snd (snd (chat_fit m ov env (headroom_bytes env))) \<longleftrightarrow> fits m"
    if "m \<in> set (ct_models c)" for m
  proof (cases "auto_eligible m")
    case True
    with that assms(6) show ?thesis by (simp add: chat_fit_real assms(7) base_total_fits [OF nm])
  qed (simp add: chat_fit_ok assms(7))
  define ns where "ns = concat (map rv_notes res) @ (if dg then [DegradedEstimate env] else [])"
  have pk: "pick p c ov res = finalize_recommendation (pick_best c ov env dg ns) p res (pick_coder c env)"
    using assms(3) by (simp add: pick_resolved [OF assms(1)] Let_def assms(5) ns_def)
  show ?thesis
  proof (cases "fst (select_best c ov env)")
    case None
    then have "\<not> (\<exists>m. fits m)" using ok by (auto simp: select_best_None assms(7))
    moreover have "\<not> rc_fits (pick p c ov res)"
      using None pick_best_fits by (fastforce simp: pk)
    ultimately show ?thesis by blast
  next
    case (Some m)
    note best = select_best_Some [OF Some]
    have fm: "fits m" using best ok by blast
    obtain alts where sb: "select_best c ov env = (Some m, alts)"
      using Some by (cases "select_best c ov env") auto
    have "base_total m (effective_ctx m ov) env \<le> env"
      using fm by (simp add: assms(7) base_total_fits [OF nm])
    then have "rc_fits (build_recommendation m ov (effective_ctx m ov) env dg ns)"
      using assms(4) by (auto simp: build_fits_iff reserve_draft_def resolve_speculation_def Let_def
          split: option.splits)
    then have "rc_fits (pick p c ov res)" "rc_model (pick p c ov res) = m_id m"
      by (simp_all add: pk pick_best_def sb Let_def)
    moreover have "\<forall>m'. fits m' \<longrightarrow> m_weight_bytes m' \<le> m_weight_bytes m"
      using best ok assms(7) by blast
    ultimately show ?thesis using fm by blast
  qed
qed

lemma fold_signals_spec:
  "fst (fold_signals ss u b) \<longleftrightarrow> u \<or> None \<in> set (map snd ss)"
  "[] \<notin> set (map fst ss) \<Longrightarrow>
     snd (fold_signals ss u b) = [] \<longleftrightarrow> b = [] \<and> Some False \<notin> set (map snd ss)"
  by (induction ss u b rule: fold_signals.induct) auto

lemma derive_rocm_advice_empty:
  "fst (derive_rocm_advice r) = [] \<longleftrightarrow>
     None \<notin> set (map snd (readiness_signals r)) \<and> Some False \<in> set (map snd (readiness_signals r))"
proof -
  have ne: "[] \<notin> set (map fst (readiness_signals r))" by (simp add: readiness_signals_def)
  show ?thesis
    using fold_signals_spec(1) [of "readiness_signals r" False "[]"]
      fold_signals_spec(2) [OF ne, of False "[]"]
    by (auto simp: derive_rocm_advice_def split: prod.splits)
qed

subsection \<open>A sample host and catalog\<close>

definition sample_model :: model where
  "sample_model = \<lparr>m_id = ''qwen3-8b'', m_display_name = ''Qwen3 8B'', m_quant = ''Q4_K_M'',
     m_weight_bytes = 5027783488, m_n_layers = 36, m_n_kv_heads = 8, m_head_dim = 128,
     m_kv_bytes_per_elem = 2, m_default_ctx = 8192, m_min_envelope_bytes = 0, m_tier_gb = 32,
     m_unified_memory_safe = True, m_backend_default = ''rocm'', m_bootstrap = False, m_role = ''chat'',
     m_agent_ctx = 0, m_cache_reuse_safe = True, m_agent_sampling = None,
     m_template_provenance = [], m_ngram_safe = True, m_ngram_provenance = ''bench'',
     m_projector = None, m_draft = None, m_swa = None, m_shards = []\<rparr>"

definition sample_coder :: model where
  "sample_coder = sample_model\<lparr>m_id := ''qwen3-coder'', m_role := ''coder'', m_agent_ctx := 32768\<rparr>"

definition sample_catalog :: catalog where
  "sample_catalog = \<lparr>ct_schema_version = 5, ct_catalog_version = ''1'',
     ct_models = [sample_model, sample_coder]\<rparr>"

definition sample_host :: host_profile where
  "sample_host = \<lparr>hp_usable_envelope_bytes = Some 34359738368, hp_total_ram_bytes = Some 68719476736,
     hp_rocm_readiness = \<lparr>rr_hsa_override_viable = Some True, rr_firmware_date_ok = Some True,
       rr_kernel_floor_ok = Some False, rr_rocminfo_gfx1151 = Some True,
       rr_image_policy_ok = Some True\<rparr>\<rparr>"

definition no_overrides :: overrides where
  "no_overrides = \<lparr>ov_model = [], ov_quant = [], ov_ctx = 0, ov_speculation = []\<rparr>"

definition sample_rows :: "reservation list" where
  "sample_rows = [\<lparr>rv_name = ''embedding'', rv_bytes = 536870912, rv_notes = []\<rparr>]"

lemma sample_kv:
  "kv_cache_bytes sample_model 8192 = 1207959552"
  "kv_cache_bytes sample_model 4611686018427387904 = max_u64"
  by (simp_all add: kv_cache_bytes_def kv_bytes_for_dims_def swa_cache_bytes_def swa_checkpoint_bytes_def
      sample_model_def u64_of_int_def)

lemma sample_model_sel:
  "m_id sample_model = ''qwen3-8b''" "m_weight_bytes sample_model = 5027783488"
  "m_default_ctx sample_model = 8192" "m_draft sample_model = None" "m_projector sample_model = None"
  by (simp_all add: sample_model_def)

lemma sample_resolved: "resolve_envelope sample_host = Some (34359738368, False)"
  by (simp add: resolve_envelope_def sample_host_def)

lemma sample_reserved: "reserved_bytes sample_rows = 536870912" "reserved_bytes [] = 0"
  by (simp_all add: reserved_bytes_def sample_rows_def add_saturating_def)

lemma sample_shrunk:
  "shrink_envelope 34359738368 536870912 = 33822867456"
  by (simp add: shrink_envelope_def)

lemma sample_base:
  "real_base sample_model 8192 33822867456 \<le> 33822867456"
  using headroom_scale_bounds(1) [of 33822867456]
  by (simp add: real_base_def sample_kv unat_headroom sample_model_sel)

lemma sample_eligible:
  "auto_eligible sample_model" "\<not> auto_eligible sample_coder" "meets_envelope_floor sample_model e"
  by (simp_all add: auto_eligible_def meets_envelope_floor_def sample_model_def sample_coder_def)

lemma sample_ctx: "effective_ctx sample_model no_overrides = 8192"
  by (simp add: effective_ctx_def no_overrides_def sample_model_sel)

lemma sample_no_overrides: "ov_model no_overrides = []" "ov_speculation no_overrides = []"
  by (simp_all add: no_overrides_def)

lemma sample_envelope: "shrink_envelope 34359738368 (reserved_bytes sample_rows) = 33822867456"
  by (simp add: sample_reserved sample_shrunk)

lemma sample_nomax: "(34359738368 :: u64) \<noteq> max_u64"
  by (simp add: max_u64_def)

lemma sample_no_overflow:
  "\<forall>m \<in> set (ct_models sample_catalog). auto_eligible m \<longrightarrow>
     real_base m (effective_ctx m no_overrides) 33822867456 \<le> max_u64_nat"
  using sample_base sample_eligible(2) by (simp add: sample_catalog_def sample_ctx)

lemma sample_fits_iff:
  "m \<in> set (ct_models sample_catalog) \<and> auto_eligible m \<and> meets_envelope_floor m 33822867456
     \<and> real_base m (effective_ctx m no_overrides) 33822867456 \<le> unat (33822867456 :: u64)
   \<longleftrightarrow> m = sample_model"
proof
  assume "m = sample_model"
  then show "m \<in> set (ct_models sample_catalog) \<and> auto_eligible m \<and> meets_envelope_floor m 33822867456
     \<and> real_base m (effective_ctx m no_overrides) 33822867456 \<le> unat (33822867456 :: u64)"
    using sample_base by (simp add: sample_catalog_def sample_eligible sample_ctx)
next
  assume "m \<in> set (ct_models sample_catalog) \<and> auto_eligible m \<and> meets_envelope_floor m 33822867456
     \<and> real_base m (effective_ctx m no_overrides) 33822867456 \<le> unat (33822867456 :: u64)"
  then have "m = sample_model \<or> m = sample_coder" "auto_eligible m" by (simp_all add: sample_catalog_def)
  then show "m = sample_model" using sample_eligible(2) by blast
qed

lemma sample_fits:
  "rc_fits (pick sample_host sample_catalog no_overrides sample_rows)
   \<and> rc_model (pick sample_host sample_catalog no_overrides sample_rows) = ''qwen3-8b''"
  using auto_pick_fits [OF sample_resolved sample_nomax sample_no_overrides sample_envelope [symmetric]
      sample_no_overflow refl, unfolded sample_fits_iff]
  by (simp add: sample_model_sel)

subsection \<open>The properties\<close>

text \<open>C16: A pick that reports \<open>Fits\<close> fits: every reservation and every term of the pick (weights,
  KV cache, headroom, prompt cache, projector, draft weights and draft KV) add up, as unbounded
  integers, to at most the envelope the host was resolved to, whatever the catalog, the
  overrides and the reservations are. (The one envelope left out is the all-ones value, where a
  saturated sum cannot be told from a real one.)\<close>

theorem pick_fits_sound:
  assumes "resolve_envelope p = Some (e, dg)" "e \<noteq> max_u64" "rc_fits (pick p c ov res)"
  shows "sum_list (map (unat \<circ> rv_bytes) res) + real_terms (pick p c ov res) \<le> unat e"
proof -
  define env where "env = shrink_envelope e (reserved_bytes res)"
  define ns where "ns = concat (map rv_notes res) @ (if dg then [DegradedEstimate env] else [])"
  define r where "r = (if ov_model ov \<noteq> [] then pick_override c ov env dg ns else pick_best c ov env dg ns)"
  have pk: "pick p c ov res = finalize_recommendation r p res (pick_coder c env)"
    unfolding pick_resolved [OF assms(1)] Let_def env_def [symmetric] ns_def [symmetric]
      r_def [symmetric] ..
  have nm: "env \<noteq> max_u64" using shrink_not_max [OF assms(2)] by (simp add: env_def)
  have f: "rc_fits r" using assms(3) by (simp add: pk)
  have le: "real_terms r \<le> unat env" using fitting_terms_le [OF _ nm] f unfolding r_def by blast
  have "unat prompt_cache_bytes \<le> unat env"
  proof -
    have "rc_prompt_cache_bytes r = prompt_cache_bytes"
      using f unfolding r_def
      by (auto simp: pick_override_def pick_best_def Let_def split: if_splits option.splits prod.splits)
    with le show ?thesis by (simp add: real_terms_def)
  qed
  then have "env \<noteq> 0" by auto
  from shrink_envelope_pos [OF this [unfolded env_def]]
  have s: "unat env + unat (reserved_bytes res) = unat e" "unat (reserved_bytes res) < unat e"
    by (simp_all add: env_def word_less_nat_alt)
  have "unat e \<le> max_u64_nat" by (rule unat_u64_bound)
  with s(2) have "unat (reserved_bytes res) = sum_list (map (unat \<circ> rv_bytes) res)"
    unfolding unat_reserved by linarith
  with s(1) le show ?thesis by (simp add: pk)
qed

theorem pick_fits_sound_witness:
  "sum_list (map (unat \<circ> rv_bytes) sample_rows)
     + real_terms (pick sample_host sample_catalog no_overrides sample_rows) \<le> 34359738368"
  using pick_fits_sound [OF sample_resolved sample_nomax conjunct1 [OF sample_fits]] by simp

text \<open>The automatic pick is complete and correct when no eligible entry's unbounded total
  leaves 64 bits: with no model override and speculation unset, it reports \<open>Fits\<close> exactly
  when some automatically eligible entry fits, and the entry it names is eligible, fits, and is
  at least as heavy as every other eligible entry that fits.\<close>

theorem auto_pick_complete:
  fixes c :: catalog and ov :: overrides
  assumes "resolve_envelope p = Some (e, dg)" "e \<noteq> max_u64"
    and "ov_model ov = []" "ov_speculation ov = []"
    and "env = shrink_envelope e (reserved_bytes res)"
    and "\<forall>m \<in> set (ct_models c). auto_eligible m \<longrightarrow>
           real_base m (effective_ctx m ov) env \<le> max_u64_nat"
    and "fits = (\<lambda>m. m \<in> set (ct_models c) \<and> auto_eligible m \<and> meets_envelope_floor m env
           \<and> real_base m (effective_ctx m ov) env \<le> unat env)"
  shows "(rc_fits (pick p c ov res) \<longleftrightarrow> (\<exists>m. fits m))
       \<and> ((\<exists>m. fits m) \<longrightarrow> (\<exists>m. fits m \<and> rc_model (pick p c ov res) = m_id m
            \<and> (\<forall>m'. fits m' \<longrightarrow> m_weight_bytes m' \<le> m_weight_bytes m)))"
  by (rule auto_pick_fits [OF assms])

theorem auto_pick_complete_witness:
  "rc_fits (pick sample_host sample_catalog no_overrides sample_rows)"
  using auto_pick_complete [OF sample_resolved sample_nomax sample_no_overrides
      sample_envelope [symmetric] sample_no_overflow refl, unfolded sample_fits_iff]
  by simp

text \<open>Without a model override, a pick that names a model names one that is not a coder
  entry, not the bootstrap entry, not flagged unsafe for unified memory, and not below its
  declared envelope floor.\<close>

theorem auto_pick_eligible:
  assumes "resolve_envelope p = Some (e, dg)" "ov_model ov = []" "rc_model (pick p c ov res) \<noteq> []"
  shows "\<exists>m \<in> set (ct_models c). rc_model (pick p c ov res) = m_id m
       \<and> m_role m \<noteq> ''coder'' \<and> \<not> m_bootstrap m \<and> m_unified_memory_safe m
       \<and> (m_min_envelope_bytes m = 0
          \<or> m_min_envelope_bytes m \<le> shrink_envelope e (reserved_bytes res))"
proof -
  define env where "env = shrink_envelope e (reserved_bytes res)"
  define ns where "ns = concat (map rv_notes res) @ (if dg then [DegradedEstimate env] else [])"
  have pk: "pick p c ov res = finalize_recommendation (pick_best c ov env dg ns) p res (pick_coder c env)"
    using assms(2) by (simp add: pick_resolved [OF assms(1)] Let_def env_def ns_def)
  obtain m alts where sb: "select_best c ov env = (Some m, alts)"
    using assms(3) by (cases "select_best c ov env"; cases "fst (select_best c ov env)")
      (auto simp: pk pick_best_def)
  have "rc_model (pick p c ov res) = m_id m" by (simp add: pk pick_best_def sb Let_def)
  moreover have "fst (select_best c ov env) = Some m" by (simp add: sb)
  ultimately show ?thesis
    using select_best_Some [of c ov env m]
    by (auto simp: chat_fit_ok auto_eligible_def meets_envelope_floor_def env_def)
qed

theorem auto_pick_eligible_witness:
  "\<exists>m \<in> set (ct_models sample_catalog).
     rc_model (pick sample_host sample_catalog no_overrides sample_rows) = m_id m
     \<and> m_role m \<noteq> ''coder''"
  using auto_pick_eligible [OF sample_resolved sample_no_overrides(1), of sample_catalog sample_rows]
    sample_fits
  by auto

text \<open>C38: The chat fit's plain addition wraps. An entry whose KV term saturated (an absurd
  context) is treated as if its KV cache took one byte less than nothing: it is accepted
  whenever the other terms alone fit, and reported with that wrapped total, although the
  saturating total of the same entry is above the envelope.\<close>

theorem chat_fit_saturated_kv:
  assumes "auto_eligible m" "meets_envelope_floor m e" "e \<noteq> max_u64"
    and "kv_cache_bytes m (effective_ctx m ov) = max_u64"
  shows "chat_fit m ov e (headroom_bytes e) =
           (effective_ctx m ov,
            m_weight_bytes m + headroom_bytes e + prompt_cache_bytes - 1,
            m_weight_bytes m + headroom_bytes e + prompt_cache_bytes - 1 \<le> e)
       \<and> \<not> base_total m (effective_ctx m ov) e \<le> e"
proof
  have w: "m_weight_bytes m + max_u64 + headroom_bytes e + prompt_cache_bytes
      = m_weight_bytes m + headroom_bytes e + prompt_cache_bytes - 1"
    by (simp add: max_u64_def)
  show "chat_fit m ov e (headroom_bytes e) =
           (effective_ctx m ov,
            m_weight_bytes m + headroom_bytes e + prompt_cache_bytes - 1,
            m_weight_bytes m + headroom_bytes e + prompt_cache_bytes - 1 \<le> e)"
    using assms(1,2) unfolding chat_fit_def assms(4) w Let_def by simp
  have "max_u64_nat \<le> real_base m (effective_ctx m ov) e"
    using assms(4) by (simp add: real_base_def)
  moreover have "unat e < max_u64_nat"
    using assms(3) unat_u64_bound [of e] by (metis le_neq_implies_less u64_eq_iff_nat unat_max_u64)
  ultimately show "\<not> base_total m (effective_ctx m ov) e \<le> e"
    by (simp add: base_total_fits [OF assms(3)])
qed

theorem chat_fit_saturated_kv_witness:
  "snd (snd (chat_fit sample_model (no_overrides\<lparr>ov_ctx := 4611686018427387904\<rparr>) 34359738368
     (headroom_bytes 34359738368)))"
proof -
  have c: "effective_ctx sample_model (no_overrides\<lparr>ov_ctx := 4611686018427387904\<rparr>)
      = 4611686018427387904"
    by (simp add: effective_ctx_def no_overrides_def)
  have "unat (headroom_bytes 34359738368) \<le> 4200000000"
    using headroom_scale_bounds(1) [of 34359738368] by (simp add: unat_headroom)
  then have "m_weight_bytes sample_model + headroom_bytes 34359738368 + prompt_cache_bytes - 1
      \<le> 34359738368"
    by (simp add: word_le_nat_alt unat_sub_if' unat_add_u64 sample_model_sel prompt_cache_bytes_def)
  then show ?thesis
    using chat_fit_saturated_kv [OF sample_eligible(1) sample_eligible(3) _, of 34359738368
        "no_overrides\<lparr>ov_ctx := 4611686018427387904\<rparr>"]
    by (simp add: c sample_kv max_u64_def)
qed

text \<open>The backend of a pick moves in one direction only. On a host whose five readiness
  signals are all known and one of them is bad, no pick keeps a ROCm-family backend; on every
  other host the backend is the one the pick chose, the advice is non-empty, and nothing is
  downgraded because a signal could not be read.\<close>

theorem backend_fallback:
  fixes p :: host_profile
  assumes "sigs = map snd (readiness_signals (hp_rocm_readiness p))"
    and "final = finalize_recommendation r p res k"
  shows "if None \<notin> set sigs \<and> Some False \<in> set sigs
         then \<not> is_rocm_family (rc_backend final) \<and> rc_rocm_advice final = []
            \<and> (\<not> is_rocm_family (rc_backend r) \<longrightarrow> rc_backend final = rc_backend r)
         else rc_backend final = rc_backend r \<and> rc_rocm_advice final \<noteq> []"
proof -
  have adv: "fst (derive_rocm_advice (hp_rocm_readiness p)) = [] \<longleftrightarrow>
      None \<notin> set sigs \<and> Some False \<in> set sigs"
    unfolding assms(1) by (rule derive_rocm_advice_empty)
  have fb: "\<not> is_rocm_family fallback_backend"
    by (simp add: is_rocm_family_def fallback_backend_def)
  have sel: "rc_rocm_advice final = fst (derive_rocm_advice (hp_rocm_readiness p))"
    "rc_backend final = (if fst (derive_rocm_advice (hp_rocm_readiness p)) = []
        \<and> is_rocm_family (rc_backend r) then fallback_backend else rc_backend r)"
    by (simp_all add: assms(2) finalize_recommendation_def split: prod.splits)
  show ?thesis using adv fb by (auto simp: sel)
qed

theorem backend_fallback_witness:
  "\<not> is_rocm_family (rc_backend (finalize_recommendation (zero_rec\<lparr>rc_backend := ''rocm''\<rparr>)
     sample_host [] shared_coder_fit))"
  using backend_fallback [OF refl refl, of sample_host "zero_rec\<lparr>rc_backend := ''rocm''\<rparr>" "[]"
      shared_coder_fit]
  by (simp add: readiness_signals_def sample_host_def)

text \<open>The coder block proves its residency. \<open>swap\<close> is reported exactly when some eligible
  coder entry fits standalone at its own agent context; the entry reported is one of the catalog's
  largest such footprints, and its unbounded terms fit the envelope. Otherwise the block is the
  \<open>shared\<close> floor. No override reaches this computation.\<close>

theorem coder_residency_proven:
  assumes "e \<noteq> max_u64"
    and "fits = (\<lambda>m. m \<in> set (ct_models c) \<and> m_role m = ''coder'' \<and> \<not> m_bootstrap m
           \<and> m_unified_memory_safe m \<and> meets_envelope_floor m e \<and> real_base m (m_agent_ctx m) e \<le> unat e)"
  shows "if \<exists>m. fits m
         then cf_fits (pick_coder c e) \<and> cf_residency (pick_coder c e) = ''swap''
            \<and> (\<exists>m. fits m \<and> cf_model (pick_coder c e) = m_id m
                 \<and> unat (cf_total_bytes (pick_coder c e)) = real_base m (m_agent_ctx m) e
                 \<and> (\<forall>m'. fits m' \<longrightarrow> real_base m' (m_agent_ctx m') e \<le> real_base m (m_agent_ctx m) e))
         else pick_coder c e = shared_coder_fit"
proof -
  let ?h = "headroom_bytes e"
  have tot: "coder_total m ?h = base_total m (m_agent_ctx m) e" for m
    by (simp add: coder_total_def base_total_def)
  have ok: "snd (coder_footprint m e ?h) \<longleftrightarrow> fits m" if "m \<in> set (ct_models c)" for m
    using that base_total_fits [OF assms(1)]
    by (auto simp: coder_footprint_def coder_eligible_def tot assms(2))
  have foot: "unat (fst (coder_footprint m e ?h)) = real_base m (m_agent_ctx m) e" if "fits m" for m
  proof -
    have "snd (coder_footprint m e ?h)" using ok that by (simp add: assms(2))
    then have "fst (coder_footprint m e ?h) = base_total m (m_agent_ctx m) e"
      by (auto simp: coder_footprint_def tot split: if_splits)
    moreover have "real_base m (m_agent_ctx m) e \<le> max_u64_nat"
      using that unat_u64_bound [of e] unfolding assms(2) by linarith
    ultimately show ?thesis by (simp add: unat_base_total)
  qed
  show ?thesis
  proof (cases "best_coder e ?h (ct_models c) None")
    case None
    then have "\<not> (\<exists>m. fits m)"
      using ok assms(2) by (auto simp: best_coder_fold foldl_keep_max_None filter_empty_conv)
    with None show ?thesis by (simp add: pick_coder_def)
  next
    case (Some mt)
    obtain m t where mt: "mt = (m, t)" by (cases mt)
    from foldl_keep_max_Some [OF Some [unfolded best_coder_fold mt]]
    have m: "m \<in> set (ct_models c)" "snd (coder_footprint m e ?h)" "t = fst (coder_footprint m e ?h)"
      and mx: "\<And>m'. m' \<in> set (ct_models c) \<Longrightarrow> snd (coder_footprint m' e ?h)
                 \<Longrightarrow> fst (coder_footprint m' e ?h) \<le> t"
      by auto
    have fm: "fits m" using ok m by blast
    have "real_base m' (m_agent_ctx m') e \<le> real_base m (m_agent_ctx m) e" if "fits m'" for m'
      using mx [of m'] ok that foot [OF that] foot [OF fm] m(3)
      by (simp add: word_le_nat_alt assms(2))
    with fm foot [OF fm] m(3) show ?thesis
      by (auto simp: pick_coder_def Some mt residency_swap_def)
  qed
qed

lemma sample_coder_fits:
  "real_base sample_coder 32768 34359738368 \<le> 34359738368"
  using headroom_scale_bounds(1) [of 34359738368]
  by (simp add: real_base_def unat_headroom sample_coder_def sample_model_def kv_cache_bytes_def
      kv_bytes_for_dims_def swa_cache_bytes_def swa_checkpoint_bytes_def u64_of_int_def)

lemma sample_coder_sel:
  "m_role sample_coder = ''coder''" "\<not> m_bootstrap sample_coder" "m_unified_memory_safe sample_coder"
  "m_agent_ctx sample_coder = 32768" "meets_envelope_floor sample_coder e"
  by (simp_all add: sample_coder_def sample_model_def meets_envelope_floor_def)

theorem coder_residency_proven_witness:
  "cf_residency (pick_coder sample_catalog 34359738368) = ''swap''"
proof -
  have "34359738368 \<noteq> max_u64" by (simp add: max_u64_def)
  note spec = coder_residency_proven [OF this refl, of sample_catalog]
  have "sample_coder \<in> set (ct_models sample_catalog) \<and> m_role sample_coder = ''coder''
      \<and> \<not> m_bootstrap sample_coder \<and> m_unified_memory_safe sample_coder
      \<and> meets_envelope_floor sample_coder 34359738368
      \<and> real_base sample_coder (m_agent_ctx sample_coder) 34359738368 \<le> unat (34359738368 :: u64)"
    using sample_coder_fits sample_coder_sel by (simp add: sample_catalog_def)
  with spec show ?thesis by (metis (no_types, lifting))
qed

text \<open>The sidecars are reserved only on top of a fit, and never silently. Vision is reported
  exactly when the entry ships a projector that fits above the base terms; a projector that does
  not is named in a note and costs nothing. The draft's weights and KV are charged exactly when
  the resolved mode is \<open>draft\<close>. A base that fits still fits with whatever was reserved.\<close>

theorem sidecars_reserved_on_fit:
  assumes "r = build_recommendation m ov ctx e dg ns"
  shows "(rc_vision r \<longleftrightarrow> (\<exists>pj. m_projector m = Some pj
            \<and> add_saturating (base_total m ctx e) (sc_weight_bytes pj) \<le> e
            \<and> rc_projector_bytes r = sc_weight_bytes pj))
       \<and> (\<not> rc_vision r \<longrightarrow> rc_projector_bytes r = 0
            \<and> (\<forall>pj. m_projector m = Some pj \<longrightarrow> ProjectorDropped (sc_weight_bytes pj)
                 (add_saturating (base_total m ctx e) (sc_weight_bytes pj)) e \<in> set (rc_notes r)))
       \<and> (if rc_speculation r = speculation_draft
          then \<exists>d. m_draft m = Some d \<and> rc_draft_bytes r = sc_weight_bytes d
                  \<and> rc_draft_kv_bytes r = draft_kv_cache_bytes d ctx
          else rc_draft_bytes r = 0 \<and> rc_draft_kv_bytes r = 0)
       \<and> (rc_total_bytes r \<le> e \<longleftrightarrow> base_total m ctx e \<le> e)"
proof -
  let ?p = "reserve_projector m (base_total m ctx e) e"
  let ?d = "reserve_draft m ov ctx (pf_total ?p) e"
  have sel: "rc_vision r = pf_vision ?p" "rc_projector_bytes r = pf_bytes ?p"
    "rc_notes r = ns @ pf_notes ?p @ df_notes ?d" "rc_speculation r = df_spec ?d"
    "rc_draft_bytes r = df_bytes ?d" "rc_draft_kv_bytes r = df_kv ?d" "rc_total_bytes r = df_total ?d"
    by (simp_all add: assms build_recommendation_def Let_def)
  have a: "rc_vision r \<longleftrightarrow> (\<exists>pj. m_projector m = Some pj
            \<and> add_saturating (base_total m ctx e) (sc_weight_bytes pj) \<le> e
            \<and> rc_projector_bytes r = sc_weight_bytes pj)"
    unfolding sel by (auto simp: reserve_projector_spec split: option.splits)
  have b: "\<not> rc_vision r \<longrightarrow> rc_projector_bytes r = 0
            \<and> (\<forall>pj. m_projector m = Some pj \<longrightarrow> ProjectorDropped (sc_weight_bytes pj)
                 (add_saturating (base_total m ctx e) (sc_weight_bytes pj)) e \<in> set (rc_notes r))"
    unfolding sel by (auto simp: reserve_projector_spec split: option.splits)
  have c: "if rc_speculation r = speculation_draft
          then \<exists>d. m_draft m = Some d \<and> rc_draft_bytes r = sc_weight_bytes d
                  \<and> rc_draft_kv_bytes r = draft_kv_cache_bytes d ctx
          else rc_draft_bytes r = 0 \<and> rc_draft_kv_bytes r = 0"
  proof (cases "df_spec ?d = speculation_draft")
    case True
    then obtain d where "m_draft m = Some d" using df_spec_draft by blast
    with True show ?thesis unfolding sel
      by (auto simp: reserve_draft_def Let_def draft_terms_Some split: prod.splits if_splits)
  next
    case False
    then show ?thesis unfolding sel using reserve_draft_other [OF False] by simp
  qed
  have d: "rc_total_bytes r \<le> e \<longleftrightarrow> base_total m ctx e \<le> e"
    unfolding sel df_total_fits pf_total_fits ..
  show ?thesis using a b c d by blast
qed

theorem sidecars_reserved_on_fit_witness:
  "\<not> rc_vision (build_recommendation sample_model no_overrides 8192 34359738368 False [])"
  using sidecars_reserved_on_fit [OF refl, of sample_model no_overrides 8192 34359738368 False "[]"]
  by (auto simp: sample_model_sel)

text \<open>The speculation ladder never downgrades an explicit request in silence. An honoured
  answer to an explicit request is the requested mode; a refusal is \<open>off\<close>, carries a note, and
  happens exactly when the entry is not qualified for the mode (or the mode is not one). The
  unset request is always honoured, and no answer is a mode the entry is not qualified for.\<close>

theorem speculation_never_silent:
  "case resolve_speculation m q f of (mode, nt, ok) \<Rightarrow>
     (mode = speculation_draft \<longrightarrow> f \<and> m_draft m \<noteq> None)
   \<and> (mode = speculation_ngram \<longrightarrow> m_ngram_safe m)
   \<and> (mode = speculation_draft \<or> mode = speculation_ngram \<or> mode = speculation_off)
   \<and> (if ok then q = [] \<or> mode = q else q \<noteq> [] \<and> mode = speculation_off \<and> nt \<noteq> None)
   \<and> (ok \<longleftrightarrow> q = [] \<or> q = speculation_off \<or> (q = speculation_ngram \<and> m_ngram_safe m)
          \<or> (q = speculation_draft \<and> f \<and> m_draft m \<noteq> None))"
  by (auto simp: resolve_speculation_def speculation_off_def speculation_ngram_def
      speculation_draft_def Let_def split: option.splits)

theorem speculation_never_silent_witness:
  "case resolve_speculation sample_model ''draft'' True of (mode, nt, ok) \<Rightarrow> \<not> ok \<and> mode = ''off'' \<and> nt \<noteq> None"
proof -
  have d: "''draft'' = speculation_draft" "''off'' = speculation_off" by (simp_all add: speculation_draft_def speculation_off_def)
  obtain mode nt ok where e: "resolve_speculation sample_model ''draft'' True = (mode, nt, ok)" by (cases "resolve_speculation sample_model ''draft'' True")
  from speculation_never_silent [where m = sample_model and q = "''draft''" and f = True] show ?thesis
    by (simp add: e sample_model_sel speculation_draft_def speculation_off_def speculation_ngram_def split: if_splits)
qed

text \<open>the KV cache is never undercounted. For an entry with positive dimensions the bytes counted for
  a context are at least the exact product of its dimensions, or the largest 64-bit count when the
  product does not fit: no wrap-around can make a huge cache look small. Without a sliding window the
  count is that number exactly.\<close>

theorem kv_cache_never_undercounts:
  assumes "0 < m_n_layers m" "0 < m_n_kv_heads m" "0 < m_head_dim m" "0 < ctx" "0 < m_kv_bytes_per_elem m"
    and "m_n_layers m \<le> max_int64" "m_n_kv_heads m \<le> max_int64" "m_head_dim m \<le> max_int64"
      "ctx \<le> max_int64" "m_kv_bytes_per_elem m \<le> max_int64"
  shows "min (nat (2 * m_n_layers m * m_n_kv_heads m * m_head_dim m * ctx * m_kv_bytes_per_elem m)) max_u64_nat
      \<le> unat (kv_cache_bytes m ctx)
    \<and> (m_swa m = None \<longrightarrow> unat (kv_cache_bytes m ctx) =
      min (nat (2 * m_n_layers m * m_n_kv_heads m * m_head_dim m * ctx * m_kv_bytes_per_elem m)) max_u64_nat)"
proof -
  note e = kv_bytes_spec [OF assms]
  have "kv_bytes_for_dims (m_n_layers m) (m_n_kv_heads m) (m_head_dim m) ctx (m_kv_bytes_per_elem m)
      \<le> kv_cache_bytes m ctx"
    by (simp add: kv_cache_bytes_def Let_def add_saturating_ge)
  then have "unat (kv_bytes_for_dims (m_n_layers m) (m_n_kv_heads m) (m_head_dim m) ctx (m_kv_bytes_per_elem m))
      \<le> unat (kv_cache_bytes m ctx)"
    by (simp add: word_le_nat_alt)
  moreover have "m_swa m = None \<Longrightarrow> kv_cache_bytes m ctx =
      kv_bytes_for_dims (m_n_layers m) (m_n_kv_heads m) (m_head_dim m) ctx (m_kv_bytes_per_elem m)"
    by (simp add: kv_cache_bytes_def Let_def swa_cache_bytes_def swa_checkpoint_bytes_def)
  ultimately show ?thesis using e by metis
qed

theorem kv_cache_never_undercounts_witness:
  "nat (2 * 36 * 8 * 128 * 8192 * 2) = unat (kv_cache_bytes sample_model 8192)"
  using kv_cache_never_undercounts [where m = sample_model and ctx = 8192]
  by (simp add: sample_model_def max_int64_def)


subsection \<open>The reservations\<close>

lemma u64_of_int_range:
  "0 \<le> i \<Longrightarrow> i \<le> 100000 \<Longrightarrow> unat (u64_of_int i) = nat i"
  by (rule unat_u64_of_int) (simp_all add: max_int64_def)

lemma unat_mult_bound:
  "unat (a :: u64) \<le> m \<Longrightarrow> unat b \<le> n \<Longrightarrow> m * n \<le> max_u64_nat \<Longrightarrow> unat (a * b) = unat a * unat b"
  by (rule unat_mult_u64_small) (meson le_trans mult_le_mono)

text \<open>The tuning after the defaults and the clamps.\<close>

definition clamp_tuning :: "int \<Rightarrow> int \<Rightarrow> int \<Rightarrow> int" where
  "clamp_tuning dflt mx v = (let v = (if v \<le> 0 then dflt else v) in if v > mx then mx else v)"

lemma web_search_bytes:
  assumes "k = clamp_tuning 3 100 (wi_top_k w)"
    and "c = clamp_tuning 1000 100000 (wi_chunk_size_chars w)"
    and "n = clamp_tuning 3 100 (wi_result_count w)"
  shows "unat (fst (web_search_reservation w))
       = ((nat k * nat c * 10) div 35 + nat n * 64) * 4096 * 15 div 10"
proof -
  have rng: "0 < k" "k \<le> 100" "0 < c" "c \<le> 100000" "0 < n" "n \<le> 100"
    by (simp_all add: assms clamp_tuning_def Let_def)
  have u: "unat (u64_of_int k) = nat k" "unat (u64_of_int c) = nat c" "unat (u64_of_int n) = nat n"
    using rng by (simp_all add: u64_of_int_range)
  have b: "nat k \<le> 100" "nat c \<le> 100000" "nat n \<le> 100" using rng by simp_all
  define kc where "kc = u64_of_int k * u64_of_int c"
  have kc: "unat kc = nat k * nat c" "unat kc \<le> 100 * 100000"
    using unat_mult_bound [of "u64_of_int k" 100 "u64_of_int c" 100000] u b
      mult_le_mono [OF b(1,2)] by (simp_all add: kc_def)
  have x10: "unat (kc * 10) = unat kc * 10"
    using unat_mult_bound [of kc "10000000" 10 10] kc(2) by simp
  have it: "unat (kc * 10 div 35) = unat kc * 10 div 35"
    by (simp only: unat_div x10) simp
  have itb: "unat (kc * 10 div 35) \<le> 10000000"
  proof -
    have "unat kc * 10 div 35 \<le> unat kc" by linarith
    also have "\<dots> \<le> 10000000" using kc(2) by simp
    finally show ?thesis by (simp only: it)
  qed
  have ct: "unat (u64_of_int n * 64) = nat n * 64" "unat (u64_of_int n * 64) \<le> 6400"
    using unat_mult_bound [of "u64_of_int n" 100 64 64] u b by simp_all
  define raw where "raw = kc * 10 div 35 + u64_of_int n * 64"
  have raw: "unat raw = unat kc * 10 div 35 + nat n * 64" "unat raw \<le> 10006400"
    using itb ct it by (simp_all add: raw_def unat_add_u64)
  have m1: "unat (raw * 4096) = unat raw * 4096" "unat (raw * 4096) \<le> 10006400 * 4096"
    using unat_mult_bound [of raw 10006400 4096 4096] raw(2) by simp_all
  have m2: "unat (raw * 4096 * 15) = unat raw * 4096 * 15"
    using unat_mult_bound [of "raw * 4096" "10006400 * 4096" 15 15] m1 by simp
  have "unat (raw * 4096 * 15 div 10) = unat raw * 4096 * 15 div 10"
    by (simp only: unat_div m2) simp
  moreover have "fst (web_search_reservation w) = raw * 4096 * 15 div 10"
    by (simp add: web_search_reservation_def Let_def raw_def kc_def assms clamp_tuning_def)
  ultimately show ?thesis using raw kc by simp
qed

text \<open>The web-search row never wraps and is never 0: for every tuning, the 64-bit computation
  equals the unbounded formula on the defaulted and clamped values, and reserves at least the
  citation budget of one result.\<close>

theorem web_search_reservation_exact:
  fixes w :: web_search_inputs
  shows "unat (fst (web_search_reservation w)) =
     ((nat (clamp_tuning 3 100 (wi_top_k w)) * nat (clamp_tuning 1000 100000 (wi_chunk_size_chars w)) * 10)
        div 35 + nat (clamp_tuning 3 100 (wi_result_count w)) * 64) * 4096 * 15 div 10
   \<and> unat (fst (web_search_reservation w)) \<ge> 393216"
proof -
  have "0 < clamp_tuning 3 100 (wi_result_count w)" by (simp add: clamp_tuning_def Let_def)
  then have "1 \<le> nat (clamp_tuning 3 100 (wi_result_count w))" by simp
  then have "393216 \<le> (x + nat (clamp_tuning 3 100 (wi_result_count w)) * 64) * 4096 * 15 div 10" for x
    by simp
  then show ?thesis unfolding web_search_bytes [OF refl refl refl] by blast
qed

lemma memory_considered_off [simp]:
  "rc_memory_considered (pick_best c ov e dg ns) = False"
  "rc_memory_considered (pick_override c ov e dg ns) = False"
  by (auto simp: pick_best_def pick_override_def build_recommendation_def no_model_rec_def zero_rec_def
      Let_def split: prod.splits option.splits)

lemma pick_memory_considered:
  "rc_memory_considered (pick p c ov res) = list_ex (\<lambda>r. rv_name r = ''embedding'') res"
  by (auto simp: pick_def finalize_recommendation_def zero_rec_def Let_def
      split: prod.splits option.splits)

lemma web_search_row_pos: "fst (web_search_reservation w) \<noteq> 0"
proof
  assume "fst (web_search_reservation w) = 0"
  then have "unat (fst (web_search_reservation w)) = 0" by simp
  moreover have "0 < nat (clamp_tuning 3 100 (wi_result_count w))" by (simp add: clamp_tuning_def Let_def)
  ultimately show False unfolding web_search_bytes [OF refl refl refl] by simp
qed

lemma memory_row_pos: "fst (memory_reservation i) \<noteq> 0"
  by (simp add: memory_reservation_def footprint_def conservative_footprint_bytes_def)

text \<open>The registry has one row for each enabled gate, in the fixed order, with distinct names,
  and no row reserves 0 unless the image table itself says so. The legacy keys of a pick over it
  are those of the config: memory is considered exactly when memory is on, and the embedding key
  is then the embedding row.\<close>

theorem registry_rows:
  fixes cfg :: villa_config
  shows "map rv_name (reservations_for table cfg) =
       (if memory_on cfg then [''embedding''] else [])
     @ (if rerank_on cfg then [''reranker''] else [])
     @ (if extract_on cfg then [''extractor''] else [])
     @ (if web_search_on cfg then [''web_search''] else [])
     @ (if voice_on cfg then [''stt'', ''tts''] else [])
     @ (if image_on cfg then [''image''] else [])
   \<and> distinct (map rv_name (reservations_for table cfg))
   \<and> (\<forall>row \<in> set (reservations_for table cfg). rv_name row \<noteq> ''image'' \<longrightarrow> rv_bytes row \<noteq> 0)
   \<and> rc_memory_considered (pick p c ov (reservations_for table cfg)) = memory_on cfg"
proof -
  have n: "map rv_name (reservations_for table cfg) =
       (if memory_on cfg then [''embedding''] else [])
     @ (if rerank_on cfg then [''reranker''] else [])
     @ (if extract_on cfg then [''extractor''] else [])
     @ (if web_search_on cfg then [''web_search''] else [])
     @ (if voice_on cfg then [''stt'', ''tts''] else [])
     @ (if image_on cfg then [''image''] else [])"
    by (simp add: reservations_for_def split_beta)
  have d: "distinct (map rv_name (reservations_for table cfg))" unfolding n by simp
  have "list_all (\<lambda>row. rv_name row \<noteq> ''image'' \<longrightarrow> rv_bytes row \<noteq> 0) (reservations_for table cfg)"
    by (simp add: reservations_for_def split_beta rerank_footprint_bytes_def extract_footprint_bytes_def
        stt_reserve_bytes_def tts_reserve_bytes_def web_search_row_pos memory_row_pos)
  then have z: "\<forall>row \<in> set (reservations_for table cfg). rv_name row \<noteq> ''image'' \<longrightarrow> rv_bytes row \<noteq> 0"
    unfolding list_all_iff .
  have emb: "list_ex (\<lambda>r. rv_name r = ''embedding'') rs \<longleftrightarrow> ''embedding'' \<in> set (map rv_name rs)" for rs
    by (induction rs) auto
  have "rc_memory_considered (pick p c ov (reservations_for table cfg)) = memory_on cfg"
    unfolding pick_memory_considered emb n by simp
  with n d z show ?thesis by blast
qed

theorem registry_rows_witness:
  "list_all (\<lambda>row. rv_name row = ''image'' \<or> 0 < rv_bytes row) (reservations_for [] default_config)"
  using registry_rows [of "[]" default_config] by (auto simp: list_all_iff word_gt_0)

end
