(* ===== verification/ResidentSet.thy ===== *)
theory ResidentSet
  imports Prelude "HOL-Library.Multiset"
begin

text \<open>
  \<open>internal/residentset\<close>: admission of a model beside the models already resident. \<open>admit\<close>
  is the source's \<open>Admit\<close> with its sums on 64-bit words; a refusal carries its reason (the
  remediation text is fixed per branch and left out).
\<close>

record slot =
  sl_model :: string
  sl_quant :: string
  sl_ctx :: int
  sl_port :: int
  sl_unit :: string
  sl_primary :: bool
  sl_bytes :: u64
  sl_order :: u64

definition same_workload :: "slot \<Rightarrow> slot \<Rightarrow> bool" where
  "same_workload a b \<longleftrightarrow> sl_model a = sl_model b \<and> sl_quant a = sl_quant b \<and> sl_ctx a = sl_ctx b"

record resident_set =
  rs_envelope :: u64
  rs_slots :: "slot list"

record admit_policy =
  po_allow_eviction :: bool
  po_headroom_bytes :: u64

datatype refusal_reason =
    ExceedsEnvelope
  | EvictionDisallowed
  | WouldEvictPrimary
  | InsufficientCapacity
  | PortCollision
  | UnitCollision

datatype plan = NoOp | Admit (plan_add: "slot list") (plan_evict: "slot list")

definition saturating_sub :: "u64 \<Rightarrow> u64 \<Rightarrow> u64" where
  "saturating_sub a b = (if b \<ge> a then 0 else a - b)"

definition used_bytes :: "slot list \<Rightarrow> u64" where
  "used_bytes slots = foldl (\<lambda>t s. t + sl_bytes s) 0 slots"

fun collision_loop :: "int list \<Rightarrow> string list \<Rightarrow> slot list \<Rightarrow> refusal_reason option" where
  "collision_loop ports units [] = None"
| "collision_loop ports units (s # ss) =
     (if sl_port s \<in> set ports then Some PortCollision
      else if sl_unit s \<in> set units then Some UnitCollision
      else collision_loop (sl_port s # ports) (sl_unit s # units) ss)"

definition find_collision :: "slot list \<Rightarrow> slot \<Rightarrow> refusal_reason option" where
  "find_collision slots candidate = collision_loop [] [] (slots @ [candidate])"

definition evictable :: "slot list \<Rightarrow> slot list" where
  "evictable slots = sort_key sl_order (filter (\<lambda>s. \<not> sl_primary s) slots)"

fun evict_loop :: "u64 \<Rightarrow> u64 \<Rightarrow> u64 \<Rightarrow> slot list \<Rightarrow> slot list \<Rightarrow> u64 \<Rightarrow> slot list \<times> u64" where
  "evict_loop used cand available [] evicted freed = (evicted, freed)"
| "evict_loop used cand available (s # ss) evicted freed =
     (if used - freed + cand \<le> available then (evicted, freed)
      else evict_loop used cand available ss (evicted @ [s]) (freed + sl_bytes s))"

definition plan_evictions :: "slot list \<Rightarrow> u64 \<Rightarrow> u64 \<Rightarrow> u64 \<Rightarrow> slot list \<times> u64" where
  "plan_evictions slots used cand available = evict_loop used cand available (evictable slots) [] 0"

definition admit :: "resident_set \<Rightarrow> slot \<Rightarrow> admit_policy \<Rightarrow> refusal_reason + plan" where
  "admit s candidate policy =
     (if list_ex (\<lambda>x. same_workload x candidate) (rs_slots s) then Inr NoOp
      else (case find_collision (rs_slots s) candidate of
        Some r \<Rightarrow> Inl r
      | None \<Rightarrow>
          if sl_bytes candidate > rs_envelope s then Inl ExceedsEnvelope
          else
            (let available = saturating_sub (rs_envelope s) (po_headroom_bytes policy);
                 used = used_bytes (rs_slots s)
             in if used + sl_bytes candidate \<le> available then Inr (Admit [candidate] [])
                else if \<not> po_allow_eviction policy then Inl EvictionDisallowed
                else (case plan_evictions (rs_slots s) used (sl_bytes candidate) available of
                  (evicted, freed) \<Rightarrow>
                    if used - freed + sl_bytes candidate > available
                    then (if sl_bytes candidate \<le> available then Inl WouldEvictPrimary
                          else Inl InsufficientCapacity)
                    else Inr (Admit [candidate] evicted)))))"

text \<open>The set a plan leads to, which the caller carries out.\<close>

definition after_plan :: "resident_set \<Rightarrow> plan \<Rightarrow> slot list" where
  "after_plan s p =
     (case p of NoOp \<Rightarrow> rs_slots s
      | Admit add evict \<Rightarrow> filter (\<lambda>x. x \<notin> set evict) (rs_slots s) @ add)"

definition bytes_of :: "slot list \<Rightarrow> nat" where
  "bytes_of slots = sum_list (map (unat \<circ> sl_bytes) slots)"

subsection \<open>Facts of the helpers\<close>

lemma bytes_of_simps [simp]:
  "bytes_of [] = 0" "bytes_of (x # xs) = unat (sl_bytes x) + bytes_of xs"
  "bytes_of (xs @ ys) = bytes_of xs + bytes_of ys"
  by (simp_all add: bytes_of_def)

lemma unat_saturating_sub: "unat (saturating_sub a b) = unat a - unat b"
  by (auto simp: saturating_sub_def word_le_nat_alt unat_sub)

lemma foldl_add_u64: "foldl (\<lambda>t s. t + sl_bytes s) a xs = a + sum_list (map sl_bytes xs)"
  by (induction xs arbitrary: a) (simp_all add: add.assoc)

lemma used_bytes_Nil [simp]: "used_bytes [] = 0"
  by (simp add: used_bytes_def)

lemma used_bytes_Cons [simp]: "used_bytes (x # xs) = sl_bytes x + used_bytes xs"
  by (simp add: used_bytes_def foldl_add_u64)

lemma unat_used_acc:
  "unat t + bytes_of ss \<le> max_u64_nat \<Longrightarrow>
     unat (foldl (\<lambda>t s. t + sl_bytes s) t ss) = unat t + bytes_of ss"
  by (induction ss arbitrary: t) (simp_all add: unat_add_u64_small add.assoc)

lemma unat_used: "bytes_of ss \<le> max_u64_nat \<Longrightarrow> unat (used_bytes ss) = bytes_of ss"
  using unat_used_acc [of 0 ss] by (simp add: used_bytes_def)

lemma collision_None:
  "collision_loop ps us ss = None \<longleftrightarrow>
     distinct (map sl_port ss) \<and> distinct (map sl_unit ss)
     \<and> set (map sl_port ss) \<inter> set ps = {} \<and> set (map sl_unit ss) \<inter> set us = {}"
  by (induction ps us ss rule: collision_loop.induct) auto

lemma find_collision_None:
  "find_collision slots c = None \<longleftrightarrow>
     distinct (map sl_port (slots @ [c])) \<and> distinct (map sl_unit (slots @ [c]))"
  by (simp only: find_collision_def collision_None) simp

lemma collision_reason: "collision_loop ps us ss = Some r \<Longrightarrow> r = PortCollision \<or> r = UnitCollision"
  by (induction ps us ss rule: collision_loop.induct) (auto split: if_splits)

lemma evictable_set: "set (evictable slots) = {s \<in> set slots. \<not> sl_primary s}"
  by (auto simp: evictable_def)

lemma evictable_distinct: "distinct slots \<Longrightarrow> distinct (evictable slots)"
  by (simp add: evictable_def)

lemma evictable_sorted: "sorted (map sl_order (evictable slots))"
  by (simp add: evictable_def)

lemma bytes_of_sort: "bytes_of (sort_key f xs) = bytes_of xs"
proof -
  have "mset (map (unat \<circ> sl_bytes) (sort_key f xs)) = mset (map (unat \<circ> sl_bytes) xs)" by simp
  then show ?thesis unfolding bytes_of_def by (metis sum_mset_sum_list)
qed

lemma bytes_of_split: "bytes_of xs = bytes_of (filter P xs) + bytes_of (filter (\<lambda>x. \<not> P x) xs)"
  unfolding bytes_of_def by (rule sum_list_filter_split)

lemma bytes_of_evictable: "bytes_of slots = bytes_of (filter sl_primary slots) + bytes_of (evictable slots)"
  unfolding evictable_def bytes_of_sort by (rule bytes_of_split)

lemma bytes_of_take: "bytes_of (take n xs) \<le> bytes_of xs"
  unfolding bytes_of_def by (rule sum_list_take_le)

lemma bytes_of_remove:
  "distinct xs \<Longrightarrow> distinct ys \<Longrightarrow> set ys \<subseteq> set xs \<Longrightarrow>
     bytes_of (filter (\<lambda>x. x \<notin> set ys) xs) + bytes_of ys = bytes_of xs"
proof -
  assume d: "distinct xs" "distinct ys" "set ys \<subseteq> set xs"
  have "mset (filter (\<lambda>x. x \<in> set ys) xs) = mset ys"
    using d by (intro set_eq_iff_mset_eq_distinct [THEN iffD1]) auto
  then have "bytes_of (filter (\<lambda>x. x \<in> set ys) xs) = bytes_of ys"
    unfolding bytes_of_def by (metis mset_map sum_mset_sum_list)
  with bytes_of_split [of xs "\<lambda>x. x \<in> set ys"] show ?thesis by simp
qed

text \<open>The loop evicts a prefix, and stops at the first one that makes room.\<close>

lemma evict_loop_prefix:
  "\<exists>n \<le> length ss. evict_loop used cand avail ss ev fr = (ev @ take n ss, fr + used_bytes (take n ss))
     \<and> (\<forall>k < n. \<not> used - (fr + used_bytes (take k ss)) + cand \<le> avail)
     \<and> (n < length ss \<longrightarrow> used - (fr + used_bytes (take n ss)) + cand \<le> avail)"
proof (induction ss arbitrary: ev fr)
  case Nil
  then show ?case by simp
next
  case (Cons s ss)
  show ?case
  proof (cases "used - fr + cand \<le> avail")
    case True
    then show ?thesis by (intro exI [of _ 0]) simp
  next
    case False
    from Cons.IH [of "ev @ [s]" "fr + sl_bytes s"] obtain n where n: "n \<le> length ss"
      "evict_loop used cand avail ss (ev @ [s]) (fr + sl_bytes s)
         = ((ev @ [s]) @ take n ss, fr + sl_bytes s + used_bytes (take n ss))"
      "\<forall>k < n. \<not> used - (fr + sl_bytes s + used_bytes (take k ss)) + cand \<le> avail"
      "n < length ss \<longrightarrow> used - (fr + sl_bytes s + used_bytes (take n ss)) + cand \<le> avail"
      by blast
    show ?thesis
    proof (intro exI [of _ "Suc n"] conjI allI impI)
      fix k assume "k < Suc n"
      then show "\<not> used - (fr + used_bytes (take k (s # ss))) + cand \<le> avail"
        using n(3) False by (cases k) (simp_all add: add.assoc)
    qed (use n False in \<open>simp_all add: add.assoc\<close>)
  qed
qed

lemma evicted_room:
  assumes "bytes_of slots + unat cand \<le> max_u64_nat"
  shows "unat (used_bytes slots - used_bytes (take k (evictable slots)) + cand)
       = bytes_of slots - bytes_of (take k (evictable slots)) + unat cand"
proof -
  have le: "bytes_of (take k (evictable slots)) \<le> bytes_of slots"
    using bytes_of_take [of k "evictable slots"] bytes_of_evictable [of slots] by linarith
  have u: "unat (used_bytes slots) = bytes_of slots"
    "unat (used_bytes (take k (evictable slots))) = bytes_of (take k (evictable slots))"
    using assms le by (simp_all add: unat_used)
  have "unat (used_bytes slots - used_bytes (take k (evictable slots)))
      = bytes_of slots - bytes_of (take k (evictable slots))"
    using le u by (simp add: unat_sub word_le_nat_alt)
  then show ?thesis using assms by (simp add: unat_add_u64_small)
qed

lemma plan_evictions_real:
  assumes "bytes_of slots + unat cand \<le> max_u64_nat"
  obtains n where "n \<le> length (evictable slots)"
    "plan_evictions slots (used_bytes slots) cand avail
       = (take n (evictable slots), used_bytes (take n (evictable slots)))"
    "\<forall>k < n. bytes_of slots - bytes_of (take k (evictable slots)) + unat cand > unat avail"
    "n < length (evictable slots) \<longrightarrow>
       bytes_of slots - bytes_of (take n (evictable slots)) + unat cand \<le> unat avail"
  using evict_loop_prefix [of "evictable slots" "used_bytes slots" cand avail "[]" 0]
    evicted_room [OF assms]
  by (fastforce simp: plan_evictions_def word_le_nat_alt not_le)

lemma admit_cases:
  assumes "admit s c p = Inr (Admit add ev)" "bytes_of (rs_slots s) + unat (sl_bytes c) \<le> max_u64_nat"
  obtains n where "add = [c]" "ev = take n (evictable (rs_slots s))"
    "distinct (map sl_port (rs_slots s @ [c]))" "distinct (map sl_unit (rs_slots s @ [c]))"
    "n > 0 \<longrightarrow> po_allow_eviction p"
    "bytes_of (rs_slots s) - bytes_of ev + unat (sl_bytes c)
       \<le> unat (rs_envelope s) - unat (po_headroom_bytes p)"
    "\<forall>k < n. bytes_of (rs_slots s) - bytes_of (take k (evictable (rs_slots s))) + unat (sl_bytes c)
       > unat (rs_envelope s) - unat (po_headroom_bytes p)"
proof -
  let ?avail = "saturating_sub (rs_envelope s) (po_headroom_bytes p)"
  have col: "find_collision (rs_slots s) c = None" "\<not> sl_bytes c > rs_envelope s"
    "\<not> list_ex (\<lambda>x. same_workload x c) (rs_slots s)"
    using assms(1) by (auto simp: admit_def split: if_splits option.splits)
  have used: "unat (used_bytes (rs_slots s) + sl_bytes c) = bytes_of (rs_slots s) + unat (sl_bytes c)"
    using assms(2) by (simp add: unat_used unat_add_u64_small)
  show thesis
  proof (cases "used_bytes (rs_slots s) + sl_bytes c \<le> ?avail")
    case True
    with assms(1) col have "add = [c]" "ev = []" by (auto simp: admit_def)
    with True used col(1) show thesis
      by (intro that [of 0]) (auto simp: find_collision_None word_le_nat_alt unat_saturating_sub)
  next
    case False
    obtain n where n: "n \<le> length (evictable (rs_slots s))"
      "plan_evictions (rs_slots s) (used_bytes (rs_slots s)) (sl_bytes c) ?avail
         = (take n (evictable (rs_slots s)), used_bytes (take n (evictable (rs_slots s))))"
      "\<forall>k < n. bytes_of (rs_slots s) - bytes_of (take k (evictable (rs_slots s))) + unat (sl_bytes c)
         > unat ?avail"
      using plan_evictions_real [OF assms(2)] by metis
    have al: "po_allow_eviction p" using assms(1) False col by (auto simp: admit_def Let_def split: if_splits)
    have fit: "used_bytes (rs_slots s) - used_bytes (take n (evictable (rs_slots s))) + sl_bytes c \<le> ?avail"
      and eq: "add = [c]" "ev = take n (evictable (rs_slots s))"
      using assms(1) False col al n(2) by (auto simp: admit_def Let_def split: if_splits)
    have fit': "bytes_of (rs_slots s) - bytes_of (take n (evictable (rs_slots s))) + unat (sl_bytes c)
        \<le> unat ?avail"
      using fit evicted_room [OF assms(2), of n] by (simp add: word_le_nat_alt)
    show thesis
      using eq al fit' n(3) col(1) unfolding unat_saturating_sub find_collision_None
      by (intro that [of n]) simp_all
  qed
qed

text \<open>C25: A plan is safe. As long as the 64-bit sums are real, the set a plan leads to fits in the
  envelope less the headroom, holds the candidate, keeps every primary slot, evicts only resident
  non-primary slots, evicts none unless the policy allows it, and has pairwise distinct ports and
  units.\<close>

theorem admit_plan_safe:
  assumes "admit s c p = Inr (Admit add ev)"
    and "bytes_of (rs_slots s) + unat (sl_bytes c) \<le> max_u64_nat"
  shows "bytes_of (after_plan s (Admit add ev)) \<le> unat (rs_envelope s) - unat (po_headroom_bytes p)
       \<and> c \<in> set (after_plan s (Admit add ev))
       \<and> (\<forall>x \<in> set (rs_slots s). sl_primary x \<longrightarrow> x \<in> set (after_plan s (Admit add ev)))
       \<and> set ev \<subseteq> {x \<in> set (rs_slots s). \<not> sl_primary x}
       \<and> (ev \<noteq> [] \<longrightarrow> po_allow_eviction p)
       \<and> distinct (map sl_port (after_plan s (Admit add ev)))
       \<and> distinct (map sl_unit (after_plan s (Admit add ev)))"
proof -
  obtain n where n: "add = [c]" "ev = take n (evictable (rs_slots s))"
    "distinct (map sl_port (rs_slots s @ [c]))" "distinct (map sl_unit (rs_slots s @ [c]))"
    "n > 0 \<longrightarrow> po_allow_eviction p"
    "bytes_of (rs_slots s) - bytes_of ev + unat (sl_bytes c)
       \<le> unat (rs_envelope s) - unat (po_headroom_bytes p)"
    using admit_cases [OF assms] by metis
  have ds: "distinct (rs_slots s)" using n(3) by (auto simp: distinct_map)
  have sub: "set ev \<subseteq> {x \<in> set (rs_slots s). \<not> sl_primary x}"
    using set_take_subset [of n "evictable (rs_slots s)"] by (auto simp: n(2) evictable_set)
  have "bytes_of (filter (\<lambda>x. x \<notin> set ev) (rs_slots s)) + bytes_of ev = bytes_of (rs_slots s)"
    using sub by (intro bytes_of_remove ds) (auto simp: n(2) evictable_distinct ds)
  with n(6) have b: "bytes_of (after_plan s (Admit add ev)) \<le> unat (rs_envelope s) - unat (po_headroom_bytes p)"
    by (simp add: after_plan_def n(1))
  have pr: "\<forall>x \<in> set (rs_slots s). sl_primary x \<longrightarrow> x \<in> set (after_plan s (Admit add ev))"
    using sub by (auto simp: after_plan_def)
  have pd: "distinct (map sl_port (after_plan s (Admit add ev)))"
    using n(3) by (auto simp: after_plan_def n(1) distinct_map_filter)
  have ud: "distinct (map sl_unit (after_plan s (Admit add ev)))"
    using n(4) by (auto simp: after_plan_def n(1) distinct_map_filter)
  have "ev \<noteq> [] \<longrightarrow> po_allow_eviction p" using n(2,5) by (cases n) auto
  moreover have "c \<in> set (after_plan s (Admit add ev))" by (simp add: after_plan_def n(1))
  ultimately show ?thesis using b pr sub pd ud by blast
qed

definition sample_slots :: "slot list" where
  "sample_slots =
     [\<lparr>sl_model = ''chat'', sl_quant = ''Q4'', sl_ctx = 8192, sl_port = 8080, sl_unit = ''llama'',
       sl_primary = True, sl_bytes = 40, sl_order = 9\<rparr>,
      \<lparr>sl_model = ''mid'', sl_quant = ''Q4'', sl_ctx = 4096, sl_port = 8081, sl_unit = ''aux1'',
       sl_primary = False, sl_bytes = 20, sl_order = 5\<rparr>,
      \<lparr>sl_model = ''old'', sl_quant = ''Q4'', sl_ctx = 4096, sl_port = 8082, sl_unit = ''aux2'',
       sl_primary = False, sl_bytes = 30, sl_order = 2\<rparr>]"

definition sample_cand :: slot where
  "sample_cand = \<lparr>sl_model = ''new'', sl_quant = ''Q4'', sl_ctx = 4096, sl_port = 8083, sl_unit = ''aux3'',
     sl_primary = False, sl_bytes = 25, sl_order = 10\<rparr>"

definition sample_set :: resident_set where
  "sample_set = \<lparr>rs_envelope = 100, rs_slots = sample_slots\<rparr>"

definition evict_policy :: admit_policy where
  "evict_policy = \<lparr>po_allow_eviction = True, po_headroom_bytes = 10\<rparr>"

lemma sample_admit: "admit sample_set sample_cand evict_policy = Inr (Admit [sample_cand] [sample_slots ! 2])"
  by (simp add: admit_def sample_set_def sample_slots_def sample_cand_def evict_policy_def
      same_workload_def find_collision_def saturating_sub_def used_bytes_def plan_evictions_def
      evictable_def)

lemma sample_small: "bytes_of (rs_slots sample_set) + unat (sl_bytes sample_cand) \<le> max_u64_nat"
  by (simp add: sample_set_def sample_slots_def sample_cand_def)

theorem admit_plan_safe_witness:
  "bytes_of (after_plan sample_set (Admit [sample_cand] [sample_slots ! 2])) \<le> 90"
  using admit_plan_safe [OF sample_admit sample_small]
  by (simp add: sample_set_def evict_policy_def)

text \<open>Eviction is least-recently-used first and takes no more than it needs: what is evicted
  is no more recent than any evictable slot kept, and leaving out the last one evicted would not
  make room for the candidate.\<close>

theorem admit_evicts_minimal_lru:
  assumes "admit s c p = Inr (Admit add ev)" "ev \<noteq> []"
    and "bytes_of (rs_slots s) + unat (sl_bytes c) \<le> max_u64_nat"
  shows "(\<forall>x \<in> set ev. \<forall>y \<in> set (rs_slots s). \<not> sl_primary y \<longrightarrow> y \<notin> set ev \<longrightarrow> sl_order x \<le> sl_order y)
       \<and> bytes_of (rs_slots s) - bytes_of (butlast ev) + unat (sl_bytes c)
           > unat (rs_envelope s) - unat (po_headroom_bytes p)"
proof -
  let ?e = "evictable (rs_slots s)"
  obtain n0 where n0: "ev = take n0 ?e"
    "\<forall>k < n0. bytes_of (rs_slots s) - bytes_of (take k ?e) + unat (sl_bytes c)
       > unat (rs_envelope s) - unat (po_headroom_bytes p)"
    using admit_cases [OF assms(1,3)] by metis
  define n where "n = min n0 (length ?e)"
  have ev: "ev = take n ?e" and n: "n \<le> length ?e" by (simp_all add: n_def n0(1) min_def)
  have pos: "0 < n" using assms(2) ev by (cases n) auto
  have "butlast ev = take (n - 1) ?e" using n by (simp add: ev butlast_take)
  moreover have "n - 1 < n0" using pos unfolding n_def by linarith
  ultimately have room: "bytes_of (rs_slots s) - bytes_of (butlast ev) + unat (sl_bytes c)
      > unat (rs_envelope s) - unat (po_headroom_bytes p)"
    using n0(2) by simp
  have "sorted (map sl_order (take n ?e @ drop n ?e))" by (simp add: evictable_sorted)
  then have "\<forall>x \<in> set (take n ?e). \<forall>y \<in> set (drop n ?e). sl_order x \<le> sl_order y"
    unfolding map_append sorted_append by auto
  moreover have "y \<in> set (drop n ?e)" if "y \<in> set (rs_slots s)" "\<not> sl_primary y" "y \<notin> set ev" for y
  proof -
    have "y \<in> set (take n ?e @ drop n ?e)" using that by (simp only: append_take_drop_id) (simp add: evictable_set)
    with that(3) show ?thesis unfolding set_append ev by blast
  qed
  ultimately show ?thesis using room unfolding ev by blast
qed

theorem admit_evicts_minimal_lru_witness:
  "bytes_of sample_slots - bytes_of (butlast [sample_slots ! 2]) + 25 > 90"
  using admit_evicts_minimal_lru [OF sample_admit _ sample_small]
  by (simp add: sample_set_def evict_policy_def sample_cand_def)

text \<open>A refusal names its cause truthfully. The candidate alone is above the envelope; or it
  needs an eviction the policy forbids; or evicting every non-primary slot still leaves too little
  while an empty set would hold it (the primary is the blocker); or not even an empty set would,
  once the headroom is held back; or a port or a unit is shared. Nothing refused is already
  resident.\<close>

theorem admit_refusal_honest:
  assumes "admit s c p = Inl reason"
    and "bytes_of (rs_slots s) + unat (sl_bytes c) \<le> max_u64_nat"
    and "avail = unat (rs_envelope s) - unat (po_headroom_bytes p)"
  shows "(\<forall>x \<in> set (rs_slots s). \<not> same_workload x c)
       \<and> (case reason of
            ExceedsEnvelope \<Rightarrow> sl_bytes c > rs_envelope s
          | EvictionDisallowed \<Rightarrow> \<not> po_allow_eviction p
              \<and> bytes_of (rs_slots s) + unat (sl_bytes c) > avail
          | WouldEvictPrimary \<Rightarrow> po_allow_eviction p \<and> unat (sl_bytes c) \<le> avail
              \<and> bytes_of (filter sl_primary (rs_slots s)) + unat (sl_bytes c) > avail
          | InsufficientCapacity \<Rightarrow> po_allow_eviction p \<and> unat (sl_bytes c) > avail
          | _ \<Rightarrow> \<not> (distinct (map sl_port (rs_slots s @ [c])) \<and> distinct (map sl_unit (rs_slots s @ [c]))))"
proof -
  let ?avail = "saturating_sub (rs_envelope s) (po_headroom_bytes p)"
  let ?e = "evictable (rs_slots s)"
  have av: "unat ?avail = avail" by (simp add: unat_saturating_sub assms(3))
  have nr: "\<not> list_ex (\<lambda>x. same_workload x c) (rs_slots s)"
    using assms(1) by (auto simp: admit_def split: if_splits)
  have used: "unat (used_bytes (rs_slots s) + sl_bytes c) = bytes_of (rs_slots s) + unat (sl_bytes c)"
    using assms(2) by (simp add: unat_used unat_add_u64_small)
  obtain n where n: "n \<le> length ?e"
    "plan_evictions (rs_slots s) (used_bytes (rs_slots s)) (sl_bytes c) ?avail
       = (take n ?e, used_bytes (take n ?e))"
    "n < length ?e \<longrightarrow> bytes_of (rs_slots s) - bytes_of (take n ?e) + unat (sl_bytes c) \<le> unat ?avail"
    using plan_evictions_real [OF assms(2)] by metis
  have over: "bytes_of (filter sl_primary (rs_slots s)) + unat (sl_bytes c) > avail"
    if "used_bytes (rs_slots s) - used_bytes (take n ?e) + sl_bytes c > ?avail"
  proof -
    have "bytes_of (rs_slots s) - bytes_of (take n ?e) + unat (sl_bytes c) > avail"
      using that evicted_room [OF assms(2), of n] av by (simp add: word_less_nat_alt)
    moreover from this n(1,3) av have "n = length ?e" by (metis le_neq_implies_less not_le)
    ultimately show ?thesis using bytes_of_evictable [of "rs_slots s"] by simp
  qed
  show ?thesis
  proof (cases "find_collision (rs_slots s) c")
    case (Some r)
    with assms(1) nr have "reason = r" by (simp add: admit_def)
    moreover have "r = PortCollision \<or> r = UnitCollision"
      using Some collision_reason by (simp add: find_collision_def)
    moreover have "\<not> (distinct (map sl_port (rs_slots s @ [c])) \<and> distinct (map sl_unit (rs_slots s @ [c])))"
      using Some find_collision_None [of "rs_slots s" c] by simp
    ultimately show ?thesis using nr by (auto simp: list_ex_iff)
  next
    case None
    with assms(1) nr n(2) over used av show ?thesis
      by (auto simp: admit_def Let_def list_ex_iff word_le_nat_alt word_less_nat_alt split: if_splits)
  qed
qed

theorem admit_refusal_honest_witness:
  "bytes_of sample_slots + unat (sl_bytes sample_cand) > 90"
proof -
  have "admit sample_set sample_cand (evict_policy\<lparr>po_allow_eviction := False\<rparr>) = Inl EvictionDisallowed"
    by (simp add: admit_def sample_set_def sample_slots_def sample_cand_def evict_policy_def
        same_workload_def find_collision_def saturating_sub_def used_bytes_def)
  from admit_refusal_honest [OF this sample_small refl] show ?thesis
    by (simp add: sample_set_def evict_policy_def)
qed

end
