(* ===== verification/Files.thy ===== *)
theory Files
  imports GoPaths
begin

text \<open>
  The file system as villa writes it: \<open>pathsafe.WriteFileAtomic\<close>, the unit writer, the unit
  remover and the reconciler of \<open>internal/orchestrate/reconcile.go\<close>. A file is its bytes and
  its mode. The operating system is a parameter: it decides, from its own state, at which step a
  write fails, and whether a read or a removal does.
\<close>

datatype write_stage = CreateTemp | ChmodTemp | WriteTemp | SyncTemp | CloseTemp | RenameTemp | ChmodPath

datatype io_error =
    PathError path_error
  | WriteFailed write_stage
  | ReadFailed string
  | RemoveFailed string
  | OsError string

record 'x host =
  h_fs :: "string \<Rightarrow> (string \<times> nat) option"
  h_world :: 'x

record 'x os =
  os_cwd :: "string option"
  os_write :: "string \<Rightarrow> 'x \<Rightarrow> write_stage option \<times> 'x"
  os_read :: "string \<Rightarrow> 'x \<Rightarrow> string option"
  os_remove :: "string \<Rightarrow> 'x \<Rightarrow> string option \<times> 'x"

datatype file_read = Absent | Unreadable string | Content string

definition read_file :: "'x os \<Rightarrow> string \<Rightarrow> 'x host \<Rightarrow> file_read" where
  "read_file os path h =
     (case os_read os path (h_world h) of
        Some e \<Rightarrow> Unreadable e
      | None \<Rightarrow> (case h_fs h path of None \<Rightarrow> Absent | Some (b, _) \<Rightarrow> Content b))"

text \<open>
  The temporary file is created, filled, synced and closed beside the target; every failure
  before the rename removes it and leaves the target alone; a failure of the last \<open>chmod\<close>
  is reported after the new bytes are in place.
\<close>

definition write_file_atomic ::
  "'x os \<Rightarrow> string \<Rightarrow> string \<Rightarrow> string \<Rightarrow> nat \<Rightarrow> 'x host \<Rightarrow> (io_error + unit) \<times> 'x host" where
  "write_file_atomic os root path data mode h =
     (case assert_root root of
        Some e \<Rightarrow> (Inl (PathError e), h)
      | None \<Rightarrow>
          (case inside (os_cwd os) path root of
             Inl e \<Rightarrow> (Inl (PathError e), h)
           | Inr _ \<Rightarrow>
               (case os_write os path (h_world h) of (fault, w) \<Rightarrow>
                  (case fault of
                     None \<Rightarrow> (Inr (), h\<lparr>h_fs := (h_fs h)(path \<mapsto> (data, mode)), h_world := w\<rparr>)
                   | Some ChmodPath \<Rightarrow>
                       (Inl (WriteFailed ChmodPath),
                        h\<lparr>h_fs := (h_fs h)(path \<mapsto> (data, mode)), h_world := w\<rparr>)
                   | Some s \<Rightarrow> (Inl (WriteFailed s), h\<lparr>h_world := w\<rparr>)))))"

subsection \<open>Units and plans\<close>

record unit_file =
  un_name :: string
  un_text :: string

record unit_plan =
  pl_changed :: "unit_file list"
  pl_unchanged :: "unit_file list"
  pl_removed :: "unit_file list"

definition empty_plan :: unit_plan where
  "empty_plan = \<lparr>pl_changed = [], pl_unchanged = [], pl_removed = []\<rparr>"

definition unit_file_mode :: nat where "unit_file_mode = 420"

text \<open>\<open>Orphans\<close> over the registry's unit names in \<open>Every\<close> order.\<close>

fun orphans :: "string list \<Rightarrow> string list \<Rightarrow> (string \<Rightarrow> file_read) \<Rightarrow> io_error + unit_file list" where
  "orphans rendered [] read = Inr []"
| "orphans rendered (n # ns) read =
     (if n \<in> set rendered then orphans rendered ns read
      else (case read n of
              Absent \<Rightarrow> orphans rendered ns read
            | Unreadable e \<Rightarrow> Inl (ReadFailed e)
            | Content b \<Rightarrow>
                result_bind (orphans rendered ns read) (\<lambda>os. Inr (\<lparr>un_name = n, un_text = b\<rparr> # os))))"

text \<open>The comparison loop; \<open>sha\<close> is the standard library's digest.\<close>

fun compare_units ::
  "(string \<Rightarrow> 'd) \<Rightarrow> (string \<Rightarrow> file_read) \<Rightarrow> unit_file list \<Rightarrow> unit_plan \<Rightarrow> io_error + unit_plan" where
  "compare_units sha read [] plan = Inr plan"
| "compare_units sha read (u # us) plan =
     (case read (un_name u) of
        Absent \<Rightarrow> compare_units sha read us (plan\<lparr>pl_changed := pl_changed plan @ [u]\<rparr>)
      | Unreadable e \<Rightarrow> Inl (ReadFailed e)
      | Content b \<Rightarrow>
          if sha b = sha (un_text u)
          then compare_units sha read us (plan\<lparr>pl_unchanged := pl_unchanged plan @ [u]\<rparr>)
          else compare_units sha read us (plan\<lparr>pl_changed := pl_changed plan @ [u]\<rparr>))"

definition reconcile ::
  "(string \<Rightarrow> 'd) \<Rightarrow> string list \<Rightarrow> unit_file list \<Rightarrow> (string \<Rightarrow> file_read) \<Rightarrow> io_error + unit_plan" where
  "reconcile sha registry units read =
     result_bind (orphans (map un_name units) registry read)
       (\<lambda>removed. compare_units sha read units (empty_plan\<lparr>pl_removed := removed\<rparr>))"

definition unit_path :: "string \<Rightarrow> string \<Rightarrow> string" where
  "unit_path dir n = join_path dir n"

definition read_unit :: "'x os \<Rightarrow> string \<Rightarrow> 'x host \<Rightarrow> string \<Rightarrow> file_read" where
  "read_unit os dir h n = read_file os (unit_path dir n) h"

fun write_each ::
  "'x os \<Rightarrow> string \<Rightarrow> unit_file list \<Rightarrow> 'x host \<Rightarrow> (io_error + unit) \<times> 'x host" where
  "write_each os dir [] h = (Inr (), h)"
| "write_each os dir (u # us) h =
     (case write_file_atomic os dir (unit_path dir (un_name u)) (un_text u) unit_file_mode h of
        (Inl e, h') \<Rightarrow> (Inl e, h')
      | (Inr _, h') \<Rightarrow> write_each os dir us h')"

definition write_units ::
  "'x os \<Rightarrow> unit_plan \<Rightarrow> string \<Rightarrow> 'x host \<Rightarrow> (io_error + unit) \<times> 'x host" where
  "write_units os plan dir h = write_each os dir (pl_changed plan) h"

definition remove_file ::
  "'x os \<Rightarrow> string \<Rightarrow> 'x host \<Rightarrow> (io_error + unit) \<times> 'x host" where
  "remove_file os path h =
     (case os_remove os path (h_world h) of (fault, w) \<Rightarrow>
        (case fault of
           Some e \<Rightarrow> (Inl (RemoveFailed e), h\<lparr>h_world := w\<rparr>)
         | None \<Rightarrow> (Inr (), h\<lparr>h_fs := (h_fs h)(path := None), h_world := w\<rparr>)))"

fun remove_each ::
  "'x os \<Rightarrow> string \<Rightarrow> unit_file list \<Rightarrow> 'x host \<Rightarrow> (io_error + unit) \<times> 'x host" where
  "remove_each os dir [] h = (Inr (), h)"
| "remove_each os dir (u # us) h =
     (case inside (os_cwd os) (unit_path dir (un_name u)) dir of
        Inl e \<Rightarrow> (Inl (PathError e), h)
      | Inr _ \<Rightarrow>
          (case remove_file os (unit_path dir (un_name u)) h of
             (Inl e, h') \<Rightarrow> (Inl e, h')
           | (Inr _, h') \<Rightarrow> remove_each os dir us h'))"

definition remove_units ::
  "'x os \<Rightarrow> unit_plan \<Rightarrow> string \<Rightarrow> 'x host \<Rightarrow> (io_error + unit) \<times> 'x host" where
  "remove_units os plan dir h = remove_each os dir (pl_removed plan) h"

subsection \<open>Facts of the writer\<close>

lemma write_file_atomic_cases:
  assumes "write_file_atomic os root path data mode h = (r, h')"
  shows "(r = Inr () \<and> h_fs h' = (h_fs h)(path \<mapsto> (data, mode)) \<and> is_abs root
            \<and> inside (os_cwd os) path root = Inr ())
       \<or> (r = Inl (WriteFailed ChmodPath) \<and> h_fs h' = (h_fs h)(path \<mapsto> (data, mode)) \<and> is_abs root
            \<and> inside (os_cwd os) path root = Inr ())
       \<or> (\<exists>e. r = Inl e \<and> e \<noteq> WriteFailed ChmodPath \<and> h_fs h' = h_fs h)"
proof (cases "assert_root root = None \<and> inside (os_cwd os) path root = Inr ()")
  case False
  then show ?thesis
    using assms by (auto simp: write_file_atomic_def split: option.splits sum.splits)
next
  case True
  then have ab: "is_abs root" by (auto simp: assert_root_def split: if_splits)
  obtain fault w where f: "os_write os path (h_world h) = (fault, w)" by fastforce
  show ?thesis
  proof (cases fault)
    case None
    with True ab f assms show ?thesis by (auto simp: write_file_atomic_def)
  next
    case (Some s)
    with True ab f assms show ?thesis by (cases s) (auto simp: write_file_atomic_def)
  qed
qed

definition bytes_at :: "'x host \<Rightarrow> string \<Rightarrow> string option" where
  "bytes_at h path = map_option fst (h_fs h path)"

lemma write_bytes:
  assumes "write_file_atomic os root path data mode h = (r, h')"
  shows "bytes_at h' p = bytes_at h p \<or> (p = path \<and> bytes_at h' p = Some data)"
    and "r = Inr () \<Longrightarrow> bytes_at h' path = Some data"
  using write_file_atomic_cases [OF assms] by (auto simp: bytes_at_def split: if_splits)

lemma write_each_frame:
  "write_each os dir us h = (r, h') \<Longrightarrow> p \<notin> unit_path dir ` un_name ` set us \<Longrightarrow>
     bytes_at h' p = bytes_at h p"
proof (induction us arbitrary: h)
  case (Cons u us)
  obtain r1 h1 where w: "write_file_atomic os dir (unit_path dir (un_name u)) (un_text u) unit_file_mode h
      = (r1, h1)" by fastforce
  have "bytes_at h1 p = bytes_at h p"
    using write_bytes(1) [OF w, of p] Cons.prems(2) by auto
  with Cons w show ?case by (cases r1) (auto split: sum.splits)
qed simp

text \<open>Whatever happens, each file holds what it held or what the plan wants in it.\<close>

lemma write_each_either:
  "write_each os dir us h = (r, h') \<Longrightarrow>
     bytes_at h' p = bytes_at h p
     \<or> (\<exists>u \<in> set us. p = unit_path dir (un_name u) \<and> bytes_at h' p = Some (un_text u))"
proof (induction us arbitrary: h)
  case (Cons u us)
  obtain r1 h1 where w: "write_file_atomic os dir (unit_path dir (un_name u)) (un_text u) unit_file_mode h
      = (r1, h1)" by fastforce
  note wb = write_bytes(1) [OF w, of p]
  show ?case
  proof (cases r1)
    case (Inl e)
    with Cons.prems w wb show ?thesis by auto
  next
    case (Inr x)
    with Cons.prems w have "write_each os dir us h1 = (r, h')" by simp
    from Cons.IH [OF this] wb show ?thesis by auto
  qed
qed simp

text \<open>A plan that agrees on every path it names is written in full when no step fails.\<close>

definition consistent_units :: "string \<Rightarrow> unit_file list \<Rightarrow> bool" where
  "consistent_units dir us \<longleftrightarrow>
     (\<forall>u \<in> set us. \<forall>v \<in> set us. unit_path dir (un_name u) = unit_path dir (un_name v)
        \<longrightarrow> un_text u = un_text v)"

lemma write_each_done:
  "write_each os dir us h = (Inr x, h') \<Longrightarrow> consistent_units dir us \<Longrightarrow> u \<in> set us \<Longrightarrow>
     bytes_at h' (unit_path dir (un_name u)) = Some (un_text u)"
proof (induction us arbitrary: h u)
  case (Cons v us)
  obtain r1 h1 where w: "write_file_atomic os dir (unit_path dir (un_name v)) (un_text v) unit_file_mode h
      = (r1, h1)" by fastforce
  then obtain y where r1: "r1 = Inr y" and rest: "write_each os dir us h1 = (Inr x, h')"
    using Cons.prems(1) by (cases r1) simp_all
  have con: "consistent_units dir us" using Cons.prems(2) unfolding consistent_units_def by (meson list.set_intros(2))
  show ?case
  proof (cases "\<exists>u' \<in> set us. unit_path dir (un_name u') = unit_path dir (un_name u)")
    case True
    then obtain u' where u': "u' \<in> set us" "unit_path dir (un_name u') = unit_path dir (un_name u)" by blast
    have "un_text u' = un_text u"
      using Cons.prems(2,3) u' unfolding consistent_units_def by (meson list.set_intros(2))
    with Cons.IH [OF rest con u'(1)] u'(2) show ?thesis by simp
  next
    case False
    then have uv: "u = v" using Cons.prems(3) by auto
    have "bytes_at h' (unit_path dir (un_name u)) = bytes_at h1 (unit_path dir (un_name u))"
      using False by (intro write_each_frame [OF rest]) auto
    with write_bytes(2) [OF w] r1 uv show ?thesis by simp
  qed
qed simp

lemma remove_each_frame:
  "remove_each os dir us h = (r, h') \<Longrightarrow> p \<notin> unit_path dir ` un_name ` set us \<Longrightarrow>
     bytes_at h' p = bytes_at h p"
proof (induction us arbitrary: h)
  case (Cons u us)
  obtain r1 h1 where w: "remove_file os (unit_path dir (un_name u)) h = (r1, h1)" by fastforce
  have "bytes_at h1 p = bytes_at h p"
    using w Cons.prems(2) by (auto simp: remove_file_def bytes_at_def split: prod.splits option.splits)
  with Cons w show ?case by (cases r1) (auto split: sum.splits)
qed simp

lemma remove_each_done:
  "remove_each os dir us h = (Inr x, h') \<Longrightarrow> u \<in> set us \<Longrightarrow> bytes_at h' (unit_path dir (un_name u)) = None"
proof (induction us arbitrary: h u)
  case (Cons v us)
  obtain r1 h1 where w: "remove_file os (unit_path dir (un_name v)) h = (r1, h1)" by fastforce
  with Cons.prems(1) obtain y where r1: "r1 = Inr y" and rest: "remove_each os dir us h1 = (Inr x, h')"
    by (cases r1) (auto split: sum.splits)
  have gone: "bytes_at h1 (unit_path dir (un_name v)) = None"
    using w r1 by (auto simp: remove_file_def bytes_at_def split: prod.splits option.splits)
  show ?case
  proof (cases "unit_path dir (un_name u) \<in> unit_path dir ` un_name ` set us")
    case True
    then obtain u' where u': "u' \<in> set us" "unit_path dir (un_name u) = unit_path dir (un_name u')" by auto
    show ?thesis unfolding u'(2) by (rule Cons.IH [OF rest u'(1)])
  next
    case False
    then have "u = v" using Cons.prems(2) by auto
    with remove_each_frame [OF rest False] gone show ?thesis by simp
  qed
qed simp

subsection \<open>Facts of the reconciler\<close>

lemma compare_units_removed:
  "compare_units sha read us plan = Inr p \<Longrightarrow> pl_removed p = pl_removed plan"
  by (induction us arbitrary: plan) (auto split: file_read.splits if_splits)

lemma compare_units_spec:
  "compare_units sha read us plan = Inr p \<Longrightarrow>
     set (pl_changed p) = set (pl_changed plan) \<union> {u \<in> set us. \<forall>b. read (un_name u) = Content b \<longrightarrow> sha b \<noteq> sha (un_text u)}
   \<and> set (pl_unchanged p) = set (pl_unchanged plan) \<union> {u \<in> set us. \<exists>b. read (un_name u) = Content b \<and> sha b = sha (un_text u)}
   \<and> (\<forall>u \<in> set us. \<forall>e. read (un_name u) \<noteq> Unreadable e)"
  by (induction us arbitrary: plan) (fastforce split: file_read.splits if_splits)+

definition orphan_set :: "string list \<Rightarrow> string list \<Rightarrow> (string \<Rightarrow> file_read) \<Rightarrow> unit_file set" where
  "orphan_set rendered ns read =
     {u. un_name u \<in> set ns \<and> un_name u \<notin> set rendered \<and> read (un_name u) = Content (un_text u)}"

lemma orphan_set_skip:
  "n \<in> set rendered \<or> read n = Absent \<Longrightarrow> orphan_set rendered (n # ns) read = orphan_set rendered ns read"
  unfolding orphan_set_def by auto

lemma orphan_set_take:
  assumes "n \<notin> set rendered" "read n = Content b"
  shows "orphan_set rendered (n # ns) read = insert \<lparr>un_name = n, un_text = b\<rparr> (orphan_set rendered ns read)"
proof (intro set_eqI iffI)
  fix u
  assume u: "u \<in> orphan_set rendered (n # ns) read"
  show "u \<in> insert \<lparr>un_name = n, un_text = b\<rparr> (orphan_set rendered ns read)"
  proof (cases "un_name u = n")
    case True
    with u assms(2) have "un_text u = b" by (simp add: orphan_set_def)
    with True have "u = \<lparr>un_name = n, un_text = b\<rparr>" by simp
    then show ?thesis by blast
  next
    case False
    with u show ?thesis by (simp add: orphan_set_def)
  qed
next
  fix u
  assume "u \<in> insert \<lparr>un_name = n, un_text = b\<rparr> (orphan_set rendered ns read)"
  then show "u \<in> orphan_set rendered (n # ns) read"
    using assms by (elim insertE) (simp_all add: orphan_set_def)
qed

lemma orphans_spec: "orphans rendered ns read = Inr os \<Longrightarrow> set os = orphan_set rendered ns read"
proof (induction ns arbitrary: os)
  case Nil
  then show ?case by (simp add: orphan_set_def)
next
  case (Cons n ns)
  show ?case
  proof (cases "n \<in> set rendered \<or> read n = Absent")
    case True
    then show ?thesis using Cons by (auto simp only: orphan_set_skip orphans.simps file_read.simps if_True if_False split: if_splits)
  next
    case False
    then have n: "n \<notin> set rendered" "read n \<noteq> Absent" by simp_all
    then obtain b where b: "read n = Content b" using Cons.prems by (cases "read n") simp_all
    from Cons.prems n b obtain os' where os': "orphans rendered ns read = Inr os'"
      "os = \<lparr>un_name = n, un_text = b\<rparr> # os'" by auto
    from Cons.IH [OF os'(1)] show ?thesis
      unfolding orphan_set_take [where read = read, OF n(1) b] os'(2) by simp
  qed
qed

lemma reconcile_spec:
  assumes "reconcile sha registry us read = Inr p"
  shows "set (pl_changed p) = {u \<in> set us. \<forall>b. read (un_name u) = Content b \<longrightarrow> sha b \<noteq> sha (un_text u)}"
    and "set (pl_unchanged p) = {u \<in> set us. \<exists>b. read (un_name u) = Content b \<and> sha b = sha (un_text u)}"
    and "set (pl_removed p) = {u. un_name u \<in> set registry \<and> un_name u \<notin> un_name ` set us
           \<and> read (un_name u) = Content (un_text u)}"
proof -
  from assms obtain os where os: "orphans (map un_name us) registry read = Inr os"
    "compare_units sha read us (empty_plan\<lparr>pl_removed := os\<rparr>) = Inr p"
    by (auto simp: reconcile_def)
  show "set (pl_changed p) = {u \<in> set us. \<forall>b. read (un_name u) = Content b \<longrightarrow> sha b \<noteq> sha (un_text u)}"
    "set (pl_unchanged p) = {u \<in> set us. \<exists>b. read (un_name u) = Content b \<and> sha b = sha (un_text u)}"
    using compare_units_spec [OF os(2)] by (simp_all add: empty_plan_def)
  show "set (pl_removed p) = {u. un_name u \<in> set registry \<and> un_name u \<notin> un_name ` set us
           \<and> read (un_name u) = Content (un_text u)}"
    using compare_units_removed [OF os(2)] orphans_spec [OF os(1)] by (simp add: orphan_set_def)
qed

subsection \<open>Carrying a plan out\<close>

lemma read_unit_bytes:
  assumes "\<forall>p w. os_read os p w = None"
  shows "read_unit os dir h n = (case bytes_at h (unit_path dir n) of None \<Rightarrow> Absent | Some b \<Rightarrow> Content b)"
  using assms by (auto simp: read_unit_def read_file_def bytes_at_def split: option.splits)

lemma orphans_total: "\<forall>n \<in> set ns. \<forall>e. read n \<noteq> Unreadable e \<Longrightarrow> \<exists>os. orphans rendered ns read = Inr os"
  by (induction ns) (auto split: file_read.splits)

lemma compare_units_total:
  "\<forall>u \<in> set us. \<forall>e. read (un_name u) \<noteq> Unreadable e \<Longrightarrow> \<exists>p. compare_units sha read us plan = Inr p"
  by (induction us arbitrary: plan) (auto split: file_read.splits)

lemma reconcile_total:
  "\<forall>n e. read n \<noteq> Unreadable e \<Longrightarrow> \<exists>p. reconcile sha registry us read = Inr p"
  using orphans_total [of registry read "map un_name us"] compare_units_total [of us read]
  by (fastforce simp: reconcile_def)

text \<open>What the disk holds after a plan of a reconcile was carried out.\<close>

lemma carried_out:
  assumes rec: "reconcile sha registry us (read_unit os dir h) = Inr p"
    and rd: "\<forall>p w. os_read os p w = None"
    and names: "distinct (map un_name us)" "inj_on (unit_path dir) (un_name ` set us \<union> set registry)"
    and w: "write_units os p dir h = (Inr x, h1)" and r: "remove_units os p dir h1 = (Inr y, h2)"
  shows "u \<in> set us \<Longrightarrow> \<exists>b. bytes_at h2 (unit_path dir (un_name u)) = Some b \<and> sha b = sha (un_text u)"
    and "n \<in> set registry \<Longrightarrow> n \<notin> un_name ` set us \<Longrightarrow> bytes_at h2 (unit_path dir n) = None"
proof -
  note spec = reconcile_spec [OF rec]
  have same: "v = u" if "v \<in> set us" "u \<in> set us" "unit_path dir (un_name v) = unit_path dir (un_name u)" for u v
  proof -
    have "un_name v = un_name u" using names(2) that by (auto dest: inj_onD)
    with names(1) that(1,2) show ?thesis by (auto simp: distinct_map dest: inj_onD)
  qed
  have w': "write_each os dir (pl_changed p) h = (Inr x, h1)" using w by (simp add: write_units_def)
  have r': "remove_each os dir (pl_removed p) h1 = (Inr y, h2)" using r by (simp add: remove_units_def)
  have con: "consistent_units dir (pl_changed p)"
    unfolding consistent_units_def
  proof (intro ballI impI)
    fix a b assume "a \<in> set (pl_changed p)" "b \<in> set (pl_changed p)"
      and e: "unit_path dir (un_name a) = unit_path dir (un_name b)"
    then have "a \<in> set us" "b \<in> set us" using spec(1) by auto
    from same [OF this e] show "un_text a = un_text b" by simp
  qed
  {
    assume u: "u \<in> set us"
    have keep: "bytes_at h2 (unit_path dir (un_name u)) = bytes_at h1 (unit_path dir (un_name u))"
    proof (rule remove_each_frame [OF r'], rule notI)
      assume "unit_path dir (un_name u) \<in> unit_path dir ` un_name ` set (pl_removed p)"
      then obtain v where "v \<in> set (pl_removed p)" "unit_path dir (un_name v) = unit_path dir (un_name u)" by auto
      moreover from this have "un_name v \<in> set registry" "un_name v \<notin> un_name ` set us" using spec(3) by auto
      ultimately show False using names(2) u by (auto dest: inj_onD)
    qed
    show "\<exists>b. bytes_at h2 (unit_path dir (un_name u)) = Some b \<and> sha b = sha (un_text u)"
    proof (cases "u \<in> set (pl_changed p)")
      case True
      with write_each_done [OF w' con] keep show ?thesis by simp
    next
      case False
      then have "\<exists>b. read_unit os dir h (un_name u) = Content b \<and> sha b = sha (un_text u)"
        using spec(1) u by blast
      then obtain b where b: "bytes_at h (unit_path dir (un_name u)) = Some b" "sha b = sha (un_text u)"
        by (auto simp: read_unit_bytes [OF rd] split: option.splits)
      have "bytes_at h1 (unit_path dir (un_name u)) = bytes_at h (unit_path dir (un_name u))"
      proof (rule write_each_frame [OF w'], rule notI)
        assume "unit_path dir (un_name u) \<in> unit_path dir ` un_name ` set (pl_changed p)"
        then obtain v where "v \<in> set (pl_changed p)" "unit_path dir (un_name v) = unit_path dir (un_name u)" by auto
        with spec(1) same [of v u] u False show False by auto
      qed
      with keep b show ?thesis by simp
    qed
  next
    assume n: "n \<in> set registry" "n \<notin> un_name ` set us"
    show "bytes_at h2 (unit_path dir n) = None"
    proof (cases "unit_path dir n \<in> unit_path dir ` un_name ` set (pl_removed p)")
      case True
      then obtain v where "v \<in> set (pl_removed p)" "unit_path dir (un_name v) = unit_path dir n" by auto
      with remove_each_done [OF r'] show ?thesis by metis
    next
      case False
      have "bytes_at h1 (unit_path dir n) = bytes_at h (unit_path dir n)"
      proof (rule write_each_frame [OF w'], rule notI)
        assume "unit_path dir n \<in> unit_path dir ` un_name ` set (pl_changed p)"
        then obtain v where "v \<in> set us" "unit_path dir (un_name v) = unit_path dir n" using spec(1) by auto
        with names(2) n show False by (auto dest: inj_onD)
      qed
      moreover have "bytes_at h (unit_path dir n) = None"
      proof (rule ccontr)
        assume "bytes_at h (unit_path dir n) \<noteq> None"
        then obtain b where "read_unit os dir h n = Content b" by (auto simp: read_unit_bytes [OF rd])
        then have "\<lparr>un_name = n, un_text = b\<rparr> \<in> set (pl_removed p)" using spec(3) n by simp
        with False show False by force
      qed
      ultimately show ?thesis using remove_each_frame [OF r' False] by simp
    qed
  }
qed

text \<open>C30: reconciling converges. When the plan a reconcile computed is carried out without an error
  (the changed units written, the orphaned ones removed), the next reconcile against the same units
  finds every unit unchanged, nothing to write and nothing to remove. Reads must work and distinct
  unit names must name distinct files.\<close>

theorem reconcile_converges:
  assumes "reconcile sha registry us (read_unit os dir h) = Inr p"
    and "\<forall>p w. os_read os p w = None"
    and "distinct (map un_name us)" "inj_on (unit_path dir) (un_name ` set us \<union> set registry)"
    and "write_units os p dir h = (Inr x, h1)" "remove_units os p dir h1 = (Inr y, h2)"
  shows "\<exists>p'. reconcile sha registry us (read_unit os dir h2) = Inr p'
    \<and> pl_changed p' = [] \<and> pl_removed p' = [] \<and> set (pl_unchanged p') = set us"
proof -
  have "\<forall>n e. read_unit os dir h2 n \<noteq> Unreadable e"
    using assms(2) by (auto simp: read_unit_bytes split: option.splits)
  then obtain p' where p': "reconcile sha registry us (read_unit os dir h2) = Inr p'" using reconcile_total by blast
  note spec = reconcile_spec [OF p']
  have ok: "\<exists>b. read_unit os dir h2 (un_name u) = Content b \<and> sha b = sha (un_text u)" if "u \<in> set us" for u
    using carried_out(1) [OF assms that] by (auto simp: read_unit_bytes [OF assms(2)])
  have gone: "read_unit os dir h2 n \<noteq> Content b" if "n \<in> set registry" "n \<notin> un_name ` set us" for n b
    using carried_out(2) [OF assms that] by (simp add: read_unit_bytes [OF assms(2)])
  have "set (pl_changed p') = {}" unfolding spec(1) using ok by auto
  moreover have "set (pl_removed p') = {}" unfolding spec(3) using gone by auto
  moreover have "set (pl_unchanged p') = set us" unfolding spec(2) using ok by auto
  ultimately show ?thesis using p' by simp
qed

subsection \<open>Sample disk\<close>

definition sample_units :: "unit_file list" where
  "sample_units = [\<lparr>un_name = ''villa-llama.container'', un_text = ''new''\<rparr>,
                   \<lparr>un_name = ''villa.network'', un_text = ''net''\<rparr>]"
definition sample_fs_os :: "unit os" where
  "sample_fs_os = \<lparr>os_cwd = None, os_write = (\<lambda>_ _. (None, ())), os_read = (\<lambda>_ _. None), os_remove = (\<lambda>_ _. (None, ()))\<rparr>"
definition sample_fs_host :: "unit host" where
  "sample_fs_host = \<lparr>h_fs = [''/q/villa-llama.container'' \<mapsto> (''old'', 420), ''/q/villa.network'' \<mapsto> (''net'', 420),
      ''/q/villa-qdrant.container'' \<mapsto> (''x'', 420)], h_world = ()\<rparr>"
definition sample_registry :: "string list" where "sample_registry = [''villa-llama.container'', ''villa-qdrant.container'']"

theorem reconcile_converges_witness:
  "\<exists>p p'. reconcile id sample_registry sample_units (read_unit sample_fs_os ''/q'' sample_fs_host) = Inr p
     \<and> map un_name (pl_changed p) = [''villa-llama.container''] \<and> map un_name (pl_removed p) = [''villa-qdrant.container'']
     \<and> reconcile id sample_registry sample_units (read_unit sample_fs_os ''/q''
         (snd (remove_units sample_fs_os p ''/q'' (snd (write_units sample_fs_os p ''/q'' sample_fs_host))))) = Inr p'
     \<and> pl_changed p' = [] \<and> pl_removed p' = []"
proof -
  let ?p = "\<lparr>pl_changed = [\<lparr>un_name = ''villa-llama.container'', un_text = ''new''\<rparr>],
     pl_unchanged = [\<lparr>un_name = ''villa.network'', un_text = ''net''\<rparr>],
     pl_removed = [\<lparr>un_name = ''villa-qdrant.container'', un_text = ''x''\<rparr>]\<rparr>"
  let ?w = "write_units sample_fs_os ?p ''/q'' sample_fs_host"
  let ?r = "remove_units sample_fs_os ?p ''/q'' (snd ?w)"
  have p: "reconcile id sample_registry sample_units (read_unit sample_fs_os ''/q'' sample_fs_host) = Inr ?p" by code_simp
  have w: "fst ?w = Inr ()" by code_simp
  have r: "fst ?r = Inr ()" by code_simp
  have n: "distinct (map un_name sample_units)" by code_simp
  have i: "inj_on (unit_path ''/q'') (un_name ` set sample_units \<union> set sample_registry)" by code_simp
  have rd: "\<forall>p w. os_read sample_fs_os p w = None" by (simp add: sample_fs_os_def)
  have w': "?w = (Inr (), snd ?w)" using w by (metis prod.collapse)
  have r': "?r = (Inr (), snd ?r)" using r by (metis prod.collapse)
  from reconcile_converges [OF p rd n i w' r'] p show ?thesis by fastforce
qed

text \<open>an atomic write is all or nothing. Whatever step fails, the target holds its old bytes or all
  the new ones; no other file changes; on success it holds the new bytes with the requested mode;
  and a file is touched only when the root is absolute and the target lies inside it.\<close>

theorem atomic_write_all_or_nothing:
  assumes "write_file_atomic os root path data mode h = (r, h')"
  shows "(bytes_at h' path = bytes_at h path \<or> bytes_at h' path = Some data)
    \<and> (\<forall>q. q \<noteq> path \<longrightarrow> h_fs h' q = h_fs h q)
    \<and> (r = Inr () \<longrightarrow> h_fs h' path = Some (data, mode))
    \<and> (h_fs h' \<noteq> h_fs h \<longrightarrow> is_abs root \<and> inside (os_cwd os) path root = Inr ())"
  using write_file_atomic_cases [OF assms] by (auto simp: bytes_at_def)

theorem atomic_write_all_or_nothing_witness:
  "h_fs (snd (write_file_atomic sample_fs_os ''/q'' ''/q/a'' ''data'' 420 sample_fs_host)) ''/q/villa.network''
     = Some (''net'', 420)"
proof -
  let ?w = "write_file_atomic sample_fs_os ''/q'' ''/q/a'' ''data'' 420 sample_fs_host"
  have "?w = (fst ?w, snd ?w)" by simp
  from atomic_write_all_or_nothing [OF this] show ?thesis by (simp add: sample_fs_host_def)
qed

end
