(* ===== verification/StackApply.thy ===== *)
theory StackApply
  imports Files Catalog Subsystem
begin

text \<open>
  \<open>internal/stackapply/stackapply.go\<close>: turning a config into the unit files on disk. The host
  arrives through \<open>stack_deps\<close>, the source's \<open>Deps\<close>, over an abstract host state: an
  operation takes the state and returns its result with the next state. \<open>apply\<close> reports what it
  did even when a later step fails, so its result is the report beside the error.
\<close>

datatype stack_error =
    Io io_error
  | External string
  | At string stack_error
  | UnknownBackend string
  | NotInCatalog string
  | ResidentNotInCatalog string
  | UnknownImage string
  | UnreadableState string string stack_error

type_synonym ('h, 'a) eff = "'h \<Rightarrow> (stack_error + 'a) \<times> 'h"

definition eff_ok :: "'a \<Rightarrow> ('h, 'a) eff" where
  "eff_ok a h = (Inr a, h)"

definition eff_fail :: "stack_error \<Rightarrow> ('h, 'a) eff" where
  "eff_fail e h = (Inl e, h)"

definition eff_bind :: "('h, 'a) eff \<Rightarrow> ('a \<Rightarrow> ('h, 'b) eff) \<Rightarrow> ('h, 'b) eff" where
  "eff_bind m f h = (case m h of (Inl e, h') \<Rightarrow> (Inl e, h') | (Inr a, h') \<Rightarrow> f a h')"

text \<open>\<open>fmt.Errorf("step: %w", err)\<close>.\<close>

definition eff_at :: "string \<Rightarrow> ('h, 'a) eff \<Rightarrow> ('h, 'a) eff" where
  "eff_at step m h = (case m h of (Inl e, h') \<Rightarrow> (Inl (At step e), h') | (Inr a, h') \<Rightarrow> (Inr a, h'))"

subsection \<open>Backends and render inputs\<close>

datatype rocm_image = RocmImage100 | RocmImage724 | RocmImage644 | RocmImage644wmma
datatype load_mode = LoadResident | LoadResidentLegacy
datatype backend = BackendVulkan | BackendROCm (backend_name: string) rocm_image load_mode

definition backend_for :: "string \<Rightarrow> stack_error + backend" where
  "backend_for name =
     (if name = ''vulkan'' then Inr BackendVulkan
      else if name = [] \<or> name = ''rocm'' then Inr (BackendROCm ''rocm'' RocmImage100 LoadResident)
      else if name = ''rocm-7.2.4'' then Inr (BackendROCm ''rocm-7.2.4'' RocmImage724 LoadResidentLegacy)
      else if name = ''rocm-10.0'' then Inr (BackendROCm ''rocm-10.0'' RocmImage100 LoadResident)
      else if name = ''rocm-6.4.4'' then Inr (BackendROCm ''rocm-6.4.4'' RocmImage644 LoadResident)
      else if name = ''rocm-6.4.4-rocwmma''
        then Inr (BackendROCm ''rocm-6.4.4-rocwmma'' RocmImage644wmma LoadResidentLegacy)
      else Inl (UnknownBackend name))"

record resident_unit =
  ru_model :: string
  ru_model_file :: string
  ru_ctx :: int
  ru_port :: int
  ru_sliding_window :: bool

record coding_mode_spec =
  cs_sampling :: "agent_sampling option"
  cs_cache_reuse_safe :: bool

record image_serve =
  is_diffusion_file :: string
  is_text_encoder_file :: string
  is_vae_file :: string
  is_steps :: int
  is_cfg_scale :: rat
  is_width :: int
  is_height :: int

text \<open>The fields of \<open>orchestrate.RenderInput\<close> that this module fills.\<close>

record render_input =
  ri_backend :: backend
  ri_cfg :: villa_config
  ri_model_file :: string
  ri_models_dir :: string
  ri_host_villa_path :: string
  ri_resident :: "resident_unit list"
  ri_sliding_window :: bool
  ri_coding_mode :: "coding_mode_spec option"
  ri_agent_ctx :: int
  ri_image :: "image_serve option"

record 'h stack_deps =
  sd_catalog :: "('h, catalog) eff"
  sd_models_dir :: string
  sd_host_villa_path :: string
  sd_render :: "render_input \<Rightarrow> ('h, unit_file list) eff"
  sd_unit_dir :: "('h, string) eff"
  sd_reconcile :: "unit_file list \<Rightarrow> string \<Rightarrow> ('h, unit_plan) eff"
  sd_write_units :: "unit_plan \<Rightarrow> string \<Rightarrow> ('h, unit) eff"
  sd_remove_units :: "unit_plan \<Rightarrow> string \<Rightarrow> ('h, unit) eff"
  sd_daemon_reload :: "('h, unit) eff"
  sd_is_active :: "string \<Rightarrow> ('h, string) eff"
  sd_stop :: "string \<Rightarrow> ('h, unit) eff"
  sd_save_config :: "villa_config \<Rightarrow> ('h, unit) eff"
  sd_write_secret_env :: "string \<Rightarrow> string \<Rightarrow> ('h, unit) eff"
  sd_heal_agent_config :: "(villa_config \<Rightarrow> ('h, unit) eff) option"
  sd_rand :: "nat \<Rightarrow> ('h, nat list) eff"

definition served_target :: "villa_config \<Rightarrow> string \<times> int" where
  "served_target cfg =
     (if coding_mode_on cfg
      then if cfg_coder_model cfg \<noteq> [] then (cfg_coder_model cfg, cfg_coder_agent_ctx cfg)
           else (cfg_model cfg, cfg_coder_agent_ctx cfg)
      else (cfg_model cfg, cfg_ctx cfg))"

definition coding_spec :: "model \<Rightarrow> coding_mode_spec" where
  "coding_spec m = \<lparr>cs_sampling = m_agent_sampling m, cs_cache_reuse_safe = m_cache_reuse_safe m\<rparr>"

fun resident_units :: "catalog \<Rightarrow> resident_model list \<Rightarrow> stack_error + resident_unit list" where
  "resident_units cat [] = Inr []"
| "resident_units cat (r # rs) =
     (case find_by_id cat (rm_model r) of
        None \<Rightarrow> Inl (ResidentNotInCatalog (rm_model r))
      | Some m \<Rightarrow>
          result_bind (resident_units cat rs)
            (\<lambda>us. Inr (\<lparr>ru_model = rm_model r, ru_model_file = primary_file m, ru_ctx = rm_ctx r,
                        ru_port = rm_port r, ru_sliding_window = (m_swa m \<noteq> None)\<rparr> # us)))"

definition image_serve_for :: "image_model list \<Rightarrow> villa_config \<Rightarrow> stack_error + image_serve option" where
  "image_serve_for table cfg =
     (if \<not> image_on cfg then Inr None
      else (case image_by_id table (cfg_image_model cfg) of
        None \<Rightarrow> Inl (UnknownImage (cfg_image_model cfg))
      | Some m \<Rightarrow> Inr (Some
          \<lparr>is_diffusion_file = sh_filename (im_diffusion m),
           is_text_encoder_file = sh_filename (im_text_encoder m),
           is_vae_file = sh_filename (im_vae m), is_steps = im_steps m,
           is_cfg_scale = im_cfg_scale m, is_width = im_width m, is_height = im_height m\<rparr>)))"

text \<open>The pure part of \<open>input\<close>, once the backend and the catalog are in hand.\<close>

definition input_from ::
  "image_model list \<Rightarrow> 'h stack_deps \<Rightarrow> villa_config \<Rightarrow> backend \<Rightarrow> catalog \<Rightarrow> stack_error + render_input" where
  "input_from table d cfg b cat =
     (case find_by_id cat (fst (served_target cfg)) of
        None \<Rightarrow> Inl (At ''resolve model file'' (NotInCatalog (fst (served_target cfg))))
      | Some m \<Rightarrow>
          (case resident_units cat (cfg_resident cfg) of
             Inl e \<Rightarrow> Inl (At ''resolve resident models'' e)
           | Inr resident \<Rightarrow>
               (case image_serve_for table cfg of
                  Inl e \<Rightarrow> Inl (At ''resolve image model'' e)
                | Inr img \<Rightarrow> Inr
                    \<lparr>ri_backend = b, ri_cfg = cfg, ri_model_file = primary_file m,
                     ri_models_dir = sd_models_dir d, ri_host_villa_path = sd_host_villa_path d,
                     ri_resident = resident, ri_sliding_window = (m_swa m \<noteq> None),
                     ri_coding_mode = (if coding_mode_on cfg then Some (coding_spec m) else None),
                     ri_agent_ctx = (if coding_mode_on cfg then cfg_coder_agent_ctx cfg else 0),
                     ri_image = img\<rparr>)))"

definition render_inputs :: "image_model list \<Rightarrow> 'h stack_deps \<Rightarrow> villa_config \<Rightarrow> ('h, render_input) eff" where
  "render_inputs table d cfg =
     (case backend_for (cfg_backend cfg) of
        Inl e \<Rightarrow> eff_fail (At ''resolve backend'' e)
      | Inr b \<Rightarrow>
          eff_bind (eff_at ''load model catalog'' (sd_catalog d))
            (\<lambda>cat. case input_from table d cfg b cat of Inl e \<Rightarrow> eff_fail e | Inr i \<Rightarrow> eff_ok i))"

definition render_stack :: "image_model list \<Rightarrow> 'h stack_deps \<Rightarrow> villa_config \<Rightarrow> ('h, unit_file list) eff" where
  "render_stack table d cfg =
     eff_bind (render_inputs table d cfg) (\<lambda>i. eff_at ''render'' (sd_render d i))"

definition plan_stack :: "image_model list \<Rightarrow> 'h stack_deps \<Rightarrow> villa_config \<Rightarrow> ('h, unit_plan) eff" where
  "plan_stack table d cfg =
     eff_bind (render_stack table d cfg) (\<lambda>units.
     eff_bind (eff_at ''resolve unit dir'' (sd_unit_dir d)) (\<lambda>dir.
     eff_at ''reconcile'' (sd_reconcile d units dir)))"

subsection \<open>The heals\<close>

definition hex_digit :: "nat \<Rightarrow> char" where
  "hex_digit n = ''0123456789abcdef'' ! n"

fun hex_encode :: "nat list \<Rightarrow> string" where
  "hex_encode [] = []"
| "hex_encode (b # bs) = hex_digit (b div 16) # hex_digit (b mod 16) # hex_encode bs"

definition generate_inference_secret :: "'h stack_deps \<Rightarrow> ('h, string) eff" where
  "generate_inference_secret d =
     eff_bind (eff_at ''generate inference secret'' (sd_rand d 32)) (\<lambda>bs. eff_ok (hex_encode bs))"

definition render_inference_secret_env :: "string \<Rightarrow> string \<times> string" where
  "render_inference_secret_env secret =
     (''llama.env'',
      ''LLAMA_API_KEY='' @ secret @ [CHR 0x0A] @ ''OPENAI_API_KEY='' @ secret @ [CHR 0x0A])"

definition render_websafe_secret_env :: "string \<Rightarrow> string \<times> string" where
  "render_websafe_secret_env secret =
     (''websafe.env'', ''EXTERNAL_WEB_LOADER_API_KEY='' @ secret @ [CHR 0x0A])"

definition heal :: "'h stack_deps \<Rightarrow> villa_config \<Rightarrow> ('h, villa_config) eff" where
  "heal d cfg =
     eff_bind
       (if cfg_inference_secret cfg = []
        then eff_bind (eff_at ''generate inference secret'' (generate_inference_secret d)) (\<lambda>secret.
             eff_bind (eff_at ''persist inference secret''
                         (sd_save_config d (cfg\<lparr>cfg_inference_secret := secret\<rparr>)))
               (\<lambda>_. eff_ok (cfg\<lparr>cfg_inference_secret := secret\<rparr>)))
        else eff_ok cfg)
       (\<lambda>cfg. case render_inference_secret_env (cfg_inference_secret cfg) of (name, txt) \<Rightarrow>
          eff_bind (eff_at ''write inference secret env'' (sd_write_secret_env d name txt))
            (\<lambda>_. eff_ok cfg))"

definition heal_agent_config :: "'h stack_deps \<Rightarrow> villa_config \<Rightarrow> ('h, unit) eff" where
  "heal_agent_config d cfg =
     (case sd_heal_agent_config d of
        None \<Rightarrow> eff_ok ()
      | Some f \<Rightarrow> eff_at ''heal crush.json'' (f cfg))"

subsection \<open>The write\<close>

record applied =
  ap_changed :: "unit_file list"
  ap_removed :: "unit_file list"
  ap_stopped :: "string list"

definition no_applied :: applied where
  "no_applied = \<lparr>ap_changed = [], ap_removed = [], ap_stopped = []\<rparr>"

definition is_up :: "string \<Rightarrow> bool" where
  "is_up state \<longleftrightarrow> state = ''active'' \<or> state = ''activating'' \<or> state = ''reloading''"

text \<open>\<open>service\<close>: only a \<open>.container\<close> unit is a service.\<close>

definition service :: "string \<Rightarrow> string option" where
  "service u =
     (case cut_suffix u ''.container'' of (name, ok) \<Rightarrow> if ok then Some (name @ ''.service'') else None)"

fun running_removed :: "'h stack_deps \<Rightarrow> unit_file list \<Rightarrow> ('h, string list) eff" where
  "running_removed d [] = eff_ok []"
| "running_removed d (u # us) =
     (case service (un_name u) of
        None \<Rightarrow> running_removed d us
      | Some svc \<Rightarrow>
          (\<lambda>h. case sd_is_active d svc h of
             (Inl e, h') \<Rightarrow> (Inl (UnreadableState (un_name u) svc e), h')
           | (Inr state, h') \<Rightarrow>
               eff_bind (running_removed d us)
                 (\<lambda>up. eff_ok (if is_up state then svc # up else up)) h'))"

text \<open>A service is recorded before its stop, so a stop that half-succeeded is started again.\<close>

fun stop_each ::
  "'h stack_deps \<Rightarrow> string list \<Rightarrow> string list \<Rightarrow> 'h \<Rightarrow> (string list \<times> stack_error option) \<times> 'h" where
  "stop_each d [] stopped h = ((stopped, None), h)"
| "stop_each d (svc # svcs) stopped h =
     (case sd_stop d svc h of
        (Inl e, h') \<Rightarrow> ((stopped @ [svc], Some (At ''stop'' e)), h')
      | (Inr _, h') \<Rightarrow> stop_each d svcs (stopped @ [svc]) h')"

definition write_plan ::
  "'h stack_deps \<Rightarrow> unit_plan \<Rightarrow> string \<Rightarrow> applied \<Rightarrow> 'h \<Rightarrow> (applied \<times> stack_error option) \<times> 'h" where
  "write_plan d plan dir a h =
     (case (if pl_changed plan \<noteq> []
            then (case eff_at ''write units'' (sd_write_units d plan dir) h of
                    (r, h') \<Rightarrow> (r, a\<lparr>ap_changed := pl_changed plan\<rparr>, h'))
            else (Inr (), a, h)) of
        (Inl e, a, h) \<Rightarrow> ((a, Some e), h)
      | (Inr _, a, h) \<Rightarrow>
          (case (if pl_removed plan \<noteq> []
                 then (case eff_at ''remove units'' (sd_remove_units d plan dir) h of
                         (r, h') \<Rightarrow> (r, a\<lparr>ap_removed := pl_removed plan\<rparr>, h'))
                 else (Inr (), a, h)) of
             (Inl e, a, h) \<Rightarrow> ((a, Some e), h)
           | (Inr _, a, h) \<Rightarrow>
               (case eff_at ''daemon-reload'' (sd_daemon_reload d) h of
                  (Inl e, h) \<Rightarrow> ((a, Some e), h)
                | (Inr _, h) \<Rightarrow> ((a, None), h))))"

definition write_stack ::
  "'h stack_deps \<Rightarrow> unit_plan \<Rightarrow> 'h \<Rightarrow> (applied \<times> stack_error option) \<times> 'h" where
  "write_stack d plan h =
     (if pl_changed plan = [] \<and> pl_removed plan = [] then ((no_applied, None), h)
      else (case eff_at ''resolve unit dir'' (sd_unit_dir d) h of
        (Inl e, h) \<Rightarrow> ((no_applied, Some e), h)
      | (Inr dir, h) \<Rightarrow>
          (case running_removed d (pl_removed plan) h of
             (Inl e, h) \<Rightarrow> ((no_applied, Some e), h)
           | (Inr to_stop, h) \<Rightarrow>
               (case stop_each d to_stop [] h of
                  ((stopped, Some e), h) \<Rightarrow> ((no_applied\<lparr>ap_stopped := stopped\<rparr>, Some e), h)
                | ((stopped, None), h) \<Rightarrow>
                    write_plan d plan dir (no_applied\<lparr>ap_stopped := stopped\<rparr>) h))))"

definition apply_stack ::
  "image_model list \<Rightarrow> 'h stack_deps \<Rightarrow> villa_config \<Rightarrow> 'h \<Rightarrow> (applied \<times> stack_error option) \<times> 'h" where
  "apply_stack table d cfg h =
     (case eff_bind (eff_at ''ensure inference secret'' (heal d cfg)) (\<lambda>cfg.
           eff_bind (heal_agent_config d cfg) (\<lambda>_. plan_stack table d cfg)) h of
        (Inl e, h) \<Rightarrow> ((no_applied, Some e), h)
      | (Inr plan, h) \<Rightarrow> write_stack d plan h)"

text \<open>\<open>Restore\<close>; the list is the captured map in the order Go ranges over it.\<close>

definition restore_stack :: "'h stack_deps \<Rightarrow> (string \<times> string) list \<Rightarrow> ('h, unit) eff" where
  "restore_stack d units =
     (if units = [] then eff_ok ()
      else eff_bind (eff_at ''resolve unit dir'' (sd_unit_dir d)) (\<lambda>dir.
             sd_write_units d
               (empty_plan\<lparr>pl_changed := map (\<lambda>(n, t). \<lparr>un_name = n, un_text = t\<rparr>) units\<rparr>) dir))"

subsection \<open>Facts\<close>

lemma eff_bind_Inr:
  "eff_bind m f h = (Inr b, h') \<longleftrightarrow> (\<exists>a h1. m h = (Inr a, h1) \<and> f a h1 = (Inr b, h'))"
  by (auto simp: eff_bind_def split: prod.splits sum.splits)

lemma eff_at_Inr [simp]: "eff_at s m h = (Inr a, h') \<longleftrightarrow> m h = (Inr a, h')"
  by (auto simp: eff_at_def split: prod.splits sum.splits)

lemma service_container: "service (n @ ''.container'') = Some (n @ ''.service'')"
  by (simp add: service_def cut_suffix_def has_suffix_def trim_suffix_def suffix_def)

lemma stop_each_prefix:
  "stop_each d svcs st h = ((st', e), h') \<Longrightarrow>
     \<exists>n \<le> length svcs. st' = st @ take n svcs \<and> (e = None \<longrightarrow> st' = st @ svcs)"
proof (induction svcs arbitrary: st h)
  case (Cons s svcs)
  obtain r h1 where s: "sd_stop d s h = (r, h1)" by fastforce
  show ?case
  proof (cases r)
    case (Inl x)
    with Cons.prems s show ?thesis by (intro exI [of _ 1]) auto
  next
    case (Inr y)
    with Cons.prems s have "stop_each d svcs (st @ [s]) h1 = ((st', e), h')" by simp
    from Cons.IH [OF this] obtain n where "n \<le> length svcs" "st' = (st @ [s]) @ take n svcs"
      "e = None \<longrightarrow> st' = (st @ [s]) @ svcs" by blast
    then show ?thesis by (intro exI [of _ "Suc n"]) simp
  qed
qed auto

lemma write_plan_report:
  "write_plan d plan dir a h = ((a', e), h') \<Longrightarrow>
     ap_stopped a' = ap_stopped a
   \<and> (ap_changed a' = ap_changed a \<or> ap_changed a' = pl_changed plan)
   \<and> (ap_removed a' = ap_removed a \<or> ap_removed a' = pl_removed plan)"
  by (auto simp: write_plan_def split: prod.splits sum.splits if_splits)

end
