(* ===== verification/Transact.thy ===== *)
theory Transact
  imports StackApply
begin

text \<open>
  \<open>internal/stackapply/transact.go\<close>, the swap transaction frame, with the verdict of
  \<open>internal/prove\<close>. The host is \<open>tx_deps\<close>, the source's \<open>TxDeps\<close>, over an abstract state.
\<close>

record verdict =
  v_status :: string
  v_detail :: string

definition zero_verdict :: verdict where
  "zero_verdict = \<lparr>v_status = [], v_detail = []\<rparr>"

definition verdict_pass :: "verdict \<Rightarrow> bool" where
  "verdict_pass v \<longleftrightarrow> v_status v = ''pass''"

text \<open>A step of a rollback that failed.\<close>

datatype restore_fail =
    RestoreUnitsFailed stack_error
  | SaveConfigFailed stack_error
  | DaemonReloadFailed stack_error
  | RestartFailed string stack_error

datatype reason = Reason string | RestoreIncomplete "restore_fail list"

record outcome =
  oc_refused :: bool
  oc_switched :: bool
  oc_rolled_back :: bool
  oc_no_op :: bool
  oc_reason :: reason
  oc_err :: "stack_error option"
  oc_failed_step :: string
  oc_prove :: verdict

definition zero_outcome :: outcome where
  "zero_outcome = \<lparr>oc_refused = False, oc_switched = False, oc_rolled_back = False, oc_no_op = False,
     oc_reason = Reason [], oc_err = None, oc_failed_step = [], oc_prove = zero_verdict\<rparr>"

record 'h tx_deps =
  td_lock :: "('h, unit) eff"
  td_release :: "'h \<Rightarrow> 'h"
  td_load_config :: "('h, villa_config) eff"
  td_save_config :: "villa_config \<Rightarrow> ('h, unit) eff"
  td_capture :: "villa_config \<Rightarrow> ('h, (string \<times> string) list) eff"
  td_apply :: "villa_config \<Rightarrow> 'h \<Rightarrow> (applied \<times> stack_error option) \<times> 'h"
  td_restore :: "(string \<times> string) list \<Rightarrow> ('h, unit) eff"
  td_daemon_reload :: "('h, unit) eff"
  td_is_active :: "string \<Rightarrow> ('h, string) eff"
  td_restart :: "string \<Rightarrow> ('h, unit) eff"
  td_prove :: "string \<Rightarrow> 'h \<Rightarrow> verdict \<times> 'h"
  td_service :: string

type_synonym 'h change = "villa_config \<Rightarrow> 'h \<Rightarrow> (villa_config \<times> outcome option) \<times> 'h"

subsection \<open>The restart rule\<close>

text \<open>A state that cannot be read counts as not running.\<close>

definition running :: "(string \<Rightarrow> ('h, string) eff) \<Rightarrow> string \<Rightarrow> 'h \<Rightarrow> bool \<times> 'h" where
  "running is_active svc h =
     (case is_active svc h of (Inl _, h') \<Rightarrow> (False, h') | (Inr state, h') \<Rightarrow> (is_up state, h'))"

fun restart_units ::
  "string list \<Rightarrow> (string \<Rightarrow> ('h, string) eff) \<Rightarrow> (string \<Rightarrow> ('h, unit) eff) \<Rightarrow> unit_file list
     \<Rightarrow> string list \<Rightarrow> 'h \<Rightarrow> (string list \<times> stack_error option) \<times> 'h" where
  "restart_units always is_active restart [] done h = ((done, None), h)"
| "restart_units always is_active restart (u # us) done h =
     (case service (un_name u) of
        None \<Rightarrow> restart_units always is_active restart us done h
      | Some svc \<Rightarrow>
          (case (if svc \<in> set always then (True, h) else running is_active svc h) of
             (False, h') \<Rightarrow> restart_units always is_active restart us done h'
           | (True, h') \<Rightarrow>
               (case restart svc h' of
                  (Inl e, h'') \<Rightarrow> ((done @ [svc], Some e), h'')
                | (Inr _, h'') \<Rightarrow> restart_units always is_active restart us (done @ [svc]) h'')))"

fun restart_always ::
  "(string \<Rightarrow> ('h, unit) eff) \<Rightarrow> string list \<Rightarrow> string list \<Rightarrow> 'h
     \<Rightarrow> (string list \<times> stack_error option) \<times> 'h" where
  "restart_always restart [] done h = ((done, None), h)"
| "restart_always restart (svc # svcs) done h =
     (if svc \<in> set done then restart_always restart svcs done h
      else (case restart svc h of
              (Inl e, h') \<Rightarrow> ((done @ [svc], Some e), h')
            | (Inr _, h') \<Rightarrow> restart_always restart svcs (done @ [svc]) h'))"

definition restart_changed ::
  "applied \<Rightarrow> string list \<Rightarrow> (string \<Rightarrow> ('h, string) eff) \<Rightarrow> (string \<Rightarrow> ('h, unit) eff) \<Rightarrow> 'h
     \<Rightarrow> (string list \<times> stack_error option) \<times> 'h" where
  "restart_changed a always is_active restart h =
     (case restart_units always is_active restart (ap_changed a) [] h of
        ((done, Some e), h') \<Rightarrow> ((done, Some e), h')
      | ((done, None), h') \<Rightarrow> restart_always restart always done h')"

subsection \<open>The transaction\<close>

fun restart_all :: "'h tx_deps \<Rightarrow> string list \<Rightarrow> 'h \<Rightarrow> restore_fail list \<times> 'h" where
  "restart_all d [] h = ([], h)"
| "restart_all d (svc # svcs) h =
     (case td_restart d svc h of
        (r, h') \<Rightarrow> (case restart_all d svcs h' of
          (fs, h'') \<Rightarrow> ((case r of Inl e \<Rightarrow> RestartFailed svc e # fs | Inr _ \<Rightarrow> fs), h'')))"

definition note_fail :: "('e \<Rightarrow> restore_fail) \<Rightarrow> 'e + unit \<Rightarrow> restore_fail list" where
  "note_fail mk r = (case r of Inl e \<Rightarrow> [mk e] | Inr _ \<Rightarrow> [])"

definition restore_prior ::
  "'h tx_deps \<Rightarrow> (string \<times> string) list \<Rightarrow> villa_config \<Rightarrow> string list \<Rightarrow> 'h \<Rightarrow> restore_fail list \<times> 'h" where
  "restore_prior d units prior restarted h =
     (case td_restore d units h of (r1, h1) \<Rightarrow>
      (case td_save_config d prior h1 of (r2, h2) \<Rightarrow>
      (case td_daemon_reload d h2 of (r3, h3) \<Rightarrow>
      (case restart_all d restarted h3 of (fs, h4) \<Rightarrow>
         (note_fail RestoreUnitsFailed r1 @ note_fail SaveConfigFailed r2
            @ note_fail DaemonReloadFailed r3 @ fs, h4)))))"

definition roll_back ::
  "'h tx_deps \<Rightarrow> (string \<times> string) list \<Rightarrow> villa_config \<Rightarrow> string list \<Rightarrow> string \<Rightarrow> string
     \<Rightarrow> stack_error option \<Rightarrow> verdict \<Rightarrow> 'h \<Rightarrow> outcome \<times> 'h" where
  "roll_back d units prior restarted step rsn cause v h =
     (case restore_prior d units prior restarted h of (fails, h') \<Rightarrow>
        (zero_outcome\<lparr>oc_rolled_back := True, oc_failed_step := step,
           oc_reason := (if fails = [] then Reason rsn else RestoreIncomplete fails),
           oc_err := cause, oc_prove := v\<rparr>, h'))"

definition cutover ::
  "'h tx_deps \<Rightarrow> (string \<times> string) list \<Rightarrow> villa_config \<Rightarrow> villa_config \<Rightarrow> 'h \<Rightarrow> outcome \<times> 'h" where
  "cutover d units prior next h =
     (case td_save_config d next h of
        (Inl e, h) \<Rightarrow> roll_back d units prior [] ''save'' [] (Some e) zero_verdict h
      | (Inr _, h) \<Rightarrow>
     (case td_apply d next h of
        ((a, Some e), h) \<Rightarrow> roll_back d units prior (ap_stopped a) ''write'' [] (Some e) zero_verdict h
      | ((a, None), h) \<Rightarrow>
          if ap_changed a = [] then (zero_outcome\<lparr>oc_no_op := True\<rparr>, h)
          else
     (case restart_changed a [td_service d] (td_is_active d) (td_restart d) h of
        ((tried, Some e), h) \<Rightarrow>
          roll_back d units prior (ap_stopped a @ tried) ''restart'' [] (Some e) zero_verdict h
      | ((tried, None), h) \<Rightarrow>
     (case td_prove d (cfg_backend next) h of
        (v, h) \<Rightarrow>
          if \<not> verdict_pass v
          then roll_back d units prior (ap_stopped a @ tried) ''prove'' (v_detail v) None v h
          else (zero_outcome\<lparr>oc_switched := True, oc_prove := v\<rparr>, h)))))"

definition transact_locked :: "'h tx_deps \<Rightarrow> 'h change \<Rightarrow> 'h \<Rightarrow> outcome \<times> 'h" where
  "transact_locked d change h =
     (case td_load_config d h of
        (Inl e, h) \<Rightarrow> (zero_outcome\<lparr>oc_failed_step := ''load config'', oc_err := Some e\<rparr>, h)
      | (Inr prior, h) \<Rightarrow>
     (case change prior h of
        ((next, Some stop), h) \<Rightarrow> (stop, h)
      | ((next, None), h) \<Rightarrow>
     (case td_capture d prior h of
        (Inl e, h) \<Rightarrow>
          (zero_outcome\<lparr>oc_refused := True, oc_failed_step := ''capture'', oc_err := Some e\<rparr>, h)
      | (Inr units, h) \<Rightarrow> cutover d units prior next h)))"

definition transact :: "'h tx_deps \<Rightarrow> 'h change \<Rightarrow> 'h \<Rightarrow> outcome \<times> 'h" where
  "transact d change h =
     (case td_lock d h of
        (Inl e, h) \<Rightarrow> (zero_outcome\<lparr>oc_failed_step := ''lock'', oc_err := Some e\<rparr>, h)
      | (Inr _, h) \<Rightarrow> (case transact_locked d change h of (o', h) \<Rightarrow> (o', td_release d h)))"

subsection \<open>What the frame relies on\<close>

text \<open>
  The store behind a transaction: the unit bytes by name and the config a load would answer.
  Saving a config makes a load answer \<open>reload\<close> of it; restoring captured units puts their bytes
  back; nothing else but an apply (or a change) touches either.
\<close>

locale tx_store =
  fixes d :: "'h tx_deps"
    and units_at :: "'h \<Rightarrow> string \<Rightarrow> string option"
    and conf :: "'h \<Rightarrow> villa_config option"
    and reload :: "villa_config \<Rightarrow> villa_config option"
  assumes lock_frame: "td_lock d h = (r0, h') \<Longrightarrow> units_at h' = units_at h \<and> conf h' = conf h"
    and release_frame: "units_at (td_release d h) = units_at h \<and> conf (td_release d h) = conf h"
    and load_law: "td_load_config d h = (r1, h') \<Longrightarrow> units_at h' = units_at h \<and> conf h' = conf h
           \<and> (\<forall>c. r1 = Inr c \<longrightarrow> conf h = Some c)"
    and capture_law: "td_capture d c h = (r2, h') \<Longrightarrow> units_at h' = units_at h \<and> conf h' = conf h
           \<and> (\<forall>us. r2 = Inr us \<longrightarrow> (\<forall>(n, t) \<in> set us. units_at h n = Some t))"
    and restore_law: "td_restore d us h = (r3, h') \<Longrightarrow> conf h' = conf h
           \<and> (r3 = Inr () \<longrightarrow> (\<forall>(n, t) \<in> set us. units_at h0 n = Some t) \<longrightarrow>
               (\<forall>(n, t) \<in> set us. units_at h' n = Some t))"
    and save_law: "td_save_config d c h = (r4, h') \<Longrightarrow> units_at h' = units_at h
           \<and> (r4 = Inr () \<longrightarrow> conf h' = reload c)"
    and reload_frame: "td_daemon_reload d h = (r5, h') \<Longrightarrow> units_at h' = units_at h \<and> conf h' = conf h"
    and restart_frame: "td_restart d svc h = (r6, h') \<Longrightarrow> units_at h' = units_at h \<and> conf h' = conf h"
begin

lemma restart_all_frame:
  "restart_all d svcs h = (fs, h') \<Longrightarrow> units_at h' = units_at h \<and> conf h' = conf h"
proof (induction svcs arbitrary: h fs h')
  case (Cons s svcs)
  obtain r h1 where r: "td_restart d s h = (r, h1)" by fastforce
  obtain fs2 h2 where f: "restart_all d svcs h1 = (fs2, h2)" by fastforce
  from Cons.IH [OF f] restart_frame [OF r] Cons.prems r f show ?case by auto
qed simp

lemma restore_prior_clean:
  assumes "restore_prior d us prior rs h = ([], h')" "\<forall>(n, t) \<in> set us. units_at h0 n = Some t"
  shows "(\<forall>(n, t) \<in> set us. units_at h' n = Some t) \<and> conf h' = reload prior"
proof -
  obtain r1 h1 where 1: "td_restore d us h = (r1, h1)" by fastforce
  obtain r2 h2 where 2: "td_save_config d prior h1 = (r2, h2)" by fastforce
  obtain r3 h3 where 3: "td_daemon_reload d h2 = (r3, h3)" by fastforce
  obtain fs h4 where 4: "restart_all d rs h3 = (fs, h4)" by fastforce
  from assms(1) 1 2 3 4 have ok: "r1 = Inr ()" "r2 = Inr ()" "h' = h4"
    by (auto simp: restore_prior_def note_fail_def split: sum.splits)
  from restore_law [OF 1, of h0] ok(1) assms(2) have u1: "\<forall>(n, t) \<in> set us. units_at h1 n = Some t"
    by blast
  have u: "units_at h4 = units_at h1" "conf h4 = conf h2"
    using save_law [OF 2] reload_frame [OF 3] restart_all_frame [OF 4] by simp_all
  have "conf h2 = reload prior" using save_law [OF 2] ok(2) by blast
  with u u1 ok(3) show ?thesis by simp
qed

lemma roll_back_clean:
  assumes "roll_back d us prior rs step rsn cause v h = (oc, h')"
    and "\<forall>fs. oc_reason oc \<noteq> RestoreIncomplete fs"
    and "\<forall>(n, t) \<in> set us. units_at h0 n = Some t"
  shows "(\<forall>(n, t) \<in> set us. units_at h' n = Some t) \<and> conf h' = reload prior"
proof -
  obtain fails h4 where r: "restore_prior d us prior rs h = (fails, h4)" by fastforce
  with assms(1,2) have "fails = []" "h' = h4" by (auto simp: roll_back_def split: if_splits)
  with restore_prior_clean r assms(3) show ?thesis by blast
qed

lemma cutover_rolled_back:
  assumes "cutover d us prior next h = (oc, h')" "oc_rolled_back oc"
    and "\<forall>fs. oc_reason oc \<noteq> RestoreIncomplete fs"
    and "\<forall>(n, t) \<in> set us. units_at h0 n = Some t"
  shows "(\<forall>(n, t) \<in> set us. units_at h' n = Some t) \<and> conf h' = reload prior"
proof -
  have "\<exists>rs step rsn cause v h1. roll_back d us prior rs step rsn cause v h1 = (oc, h')"
    using assms(1,2)
    by (auto simp: cutover_def zero_outcome_def split: prod.splits sum.splits option.splits if_splits)
      blast+
  with roll_back_clean assms(3,4) show ?thesis by blast
qed

lemma transact_rolled_back:
  assumes "transact d change h = (oc, h')" "oc_rolled_back oc"
    and "\<forall>fs. oc_reason oc \<noteq> RestoreIncomplete fs"
    and ch: "\<And>c g. units_at (snd (change c g)) = units_at g \<and> conf (snd (change c g)) = conf g"
    and st: "\<And>c g n stop. fst (change c g) = (n, Some stop) \<Longrightarrow> \<not> oc_rolled_back stop"
  shows "\<exists>prior us hc. conf h = Some prior \<and> fst (td_capture d prior hc) = Inr us
       \<and> units_at hc = units_at h
       \<and> (\<forall>(n, t) \<in> set us. units_at h n = Some t \<and> units_at h' n = Some t)
       \<and> conf h' = reload prior"
proof -
  obtain l h1 where 1: "td_lock d h = (l, h1)" by fastforce
  with assms(1,2) have l: "l = Inr ()" by (cases l) (auto simp: transact_def zero_outcome_def)
  obtain o' h9 where t: "transact_locked d change h1 = (o', h9)" by fastforce
  with assms(1) 1 l have o': "o' = oc" "h' = td_release d h9" by (auto simp: transact_def)
  obtain r h2 where 2: "td_load_config d h1 = (r, h2)" by fastforce
  with t o'(1) assms(2) obtain prior where r: "r = Inr prior"
    by (cases r) (auto simp: transact_locked_def zero_outcome_def)
  obtain nx s h3 where 3: "change prior h2 = ((nx, s), h3)" by (metis prod.exhaust)
  have s: "s = None"
  proof (cases s)
    case (Some stop)
    with t 2 r 3 o'(1) have "oc = stop" by (simp add: transact_locked_def)
    with st [of prior h2 nx stop] 3 Some assms(2) show ?thesis by simp
  qed simp
  obtain q h4 where 4: "td_capture d prior h3 = (q, h4)" by fastforce
  with t 2 r 3 s o'(1) assms(2) obtain us where q: "q = Inr us"
    by (cases q) (auto simp: transact_locked_def zero_outcome_def)
  from t 2 r 3 s 4 q o'(1) have cut: "cutover d us prior nx h4 = (oc, h9)"
    by (simp add: transact_locked_def)
  have same: "units_at h3 = units_at h" "conf h = Some prior"
    using lock_frame [OF 1] load_law [OF 2] ch [of prior h2] 3 r by simp_all
  have cap: "\<forall>(n, t) \<in> set us. units_at h3 n = Some t" using capture_law [OF 4] q by blast
  from cutover_rolled_back [OF cut assms(2,3) cap] release_frame [of h9]
  have "(\<forall>(n, t) \<in> set us. units_at h' n = Some t) \<and> conf h' = reload prior"
    by (simp add: o'(2))
  with same cap 4 q show ?thesis by (intro exI [of _ prior] exI [of _ us] exI [of _ h3]) auto
qed

text \<open>What stops before the capture leaves the store alone.\<close>

lemma transact_refused:
  assumes "transact d change h = (oc, h')" "\<not> oc_rolled_back oc" "\<not> oc_switched oc" "\<not> oc_no_op oc"
    and ch: "\<And>c g. units_at (snd (change c g)) = units_at g \<and> conf (snd (change c g)) = conf g"
  shows "units_at h' = units_at h \<and> conf h' = conf h"
proof -
  obtain l h1 where 1: "td_lock d h = (l, h1)" by fastforce
  show ?thesis
  proof (cases l)
    case (Inl e)
    with assms(1) 1 lock_frame [OF 1] show ?thesis by (auto simp: transact_def)
  next
    case l: (Inr x)
    obtain o' h9 where t: "transact_locked d change h1 = (o', h9)" by fastforce
    with assms(1) 1 l have o': "o' = oc" "h' = td_release d h9" by (auto simp: transact_def)
    obtain r h2 where 2: "td_load_config d h1 = (r, h2)" by fastforce
    have "units_at h9 = units_at h1 \<and> conf h9 = conf h1"
    proof (cases r)
      case (Inl e)
      with t 2 load_law [OF 2] show ?thesis by (auto simp: transact_locked_def)
    next
      case r: (Inr prior)
      obtain nx s h3 where 3: "change prior h2 = ((nx, s), h3)" by (metis prod.exhaust)
      obtain q h4 where 4: "td_capture d prior h3 = (q, h4)" by fastforce
      have same: "units_at h3 = units_at h1 \<and> conf h3 = conf h1"
        using load_law [OF 2] ch [of prior h2] 3 by simp
      show ?thesis
      proof (cases s)
        case (Some stop)
        with t 2 r 3 same show ?thesis by (simp add: transact_locked_def)
      next
        case None
        show ?thesis
        proof (cases q)
          case (Inl e)
          with t 2 r 3 None 4 same capture_law [OF 4] show ?thesis by (simp add: transact_locked_def)
        next
          case (Inr us)
          with t 2 r 3 None 4 have cut: "cutover d us prior nx h4 = (o', h9)"
            by (simp add: transact_locked_def)
          then have "oc_rolled_back o' \<or> oc_switched o' \<or> oc_no_op o'"
            by (auto simp: cutover_def roll_back_def split: prod.splits sum.splits option.splits if_splits)
          with assms(2-4) o'(1) show ?thesis by blast
        qed
      qed
    qed
    with o'(2) release_frame [of h9] lock_frame [OF 1] show ?thesis by simp
  qed
qed

end

end
