(* ===== verification/LiveHost.thy ===== *)
theory LiveHost
  imports Transact
begin

text \<open>
  The live wiring of a swap transaction (\<open>liveStackDeps\<close> in \<open>cmd/villa/lifecycle.go\<close>,
  \<open>liveTxDeps\<close> and \<open>captureUnits\<close> in \<open>cmd/villa/backend.go\<close>) over a host with the two
  directory trees a transaction writes, the unit directory and the config directory, and an opaque
  world for everything else (systemd, containers, the catalog file, other files). The two trees are
  different directories, so a write to one is not seen in the other.
\<close>

record 'x live_host =
  lv_units :: "string \<Rightarrow> (string \<times> nat) option"
  lv_config :: "string \<Rightarrow> (string \<times> nat) option"
  lv_world :: 'x

definition on_units :: "('x host \<Rightarrow> 'r \<times> 'x host) \<Rightarrow> 'x live_host \<Rightarrow> 'r \<times> 'x live_host" where
  "on_units f h =
     (case f \<lparr>h_fs = lv_units h, h_world = lv_world h\<rparr> of
        (r, g) \<Rightarrow> (r, h\<lparr>lv_units := h_fs g, lv_world := h_world g\<rparr>))"

definition on_config :: "('x host \<Rightarrow> 'r \<times> 'x host) \<Rightarrow> 'x live_host \<Rightarrow> 'r \<times> 'x live_host" where
  "on_config f h =
     (case f \<lparr>h_fs = lv_config h, h_world = lv_world h\<rparr> of
        (r, g) \<Rightarrow> (r, h\<lparr>lv_config := h_fs g, lv_world := h_world g\<rparr>))"

definition on_world :: "('x \<Rightarrow> 'r \<times> 'x) \<Rightarrow> 'x live_host \<Rightarrow> 'r \<times> 'x live_host" where
  "on_world f h = (case f (lv_world h) of (r, w) \<Rightarrow> (r, h\<lparr>lv_world := w\<rparr>))"

text \<open>What the operating system, systemd and the other packages answer.\<close>

record 'x live_env =
  le_os :: "'x os"
  le_sha :: "string \<Rightarrow> string"
  le_unit_dir :: string
  le_config_dir :: string
  le_marshal :: "villa_config \<Rightarrow> string"
  le_unmarshal :: "string \<Rightarrow> villa_config \<Rightarrow> string + villa_config"
  le_mkdir :: "string \<Rightarrow> 'x \<Rightarrow> (stack_error + unit) \<times> 'x"
  le_catalog :: "'x \<Rightarrow> (stack_error + catalog) \<times> 'x"
  le_models_dir :: string
  le_villa_path :: string
  le_render :: "render_input \<Rightarrow> 'x \<Rightarrow> (stack_error + unit_file list) \<times> 'x"
  le_daemon_reload :: "'x \<Rightarrow> (stack_error + unit) \<times> 'x"
  le_is_active :: "string \<Rightarrow> 'x \<Rightarrow> (stack_error + string) \<times> 'x"
  le_stop :: "string \<Rightarrow> 'x \<Rightarrow> (stack_error + unit) \<times> 'x"
  le_restart :: "string \<Rightarrow> 'x \<Rightarrow> (stack_error + unit) \<times> 'x"
  le_secret_env :: "string \<Rightarrow> string \<Rightarrow> 'x \<Rightarrow> (stack_error + unit) \<times> 'x"
  le_heal_agent :: "villa_config \<Rightarrow> 'x \<Rightarrow> (stack_error + unit) \<times> 'x"
  le_rand :: "nat \<Rightarrow> 'x \<Rightarrow> (stack_error + nat list) \<times> 'x"
  le_glob :: "string \<Rightarrow> 'x live_host \<Rightarrow> stack_error + string list"
  le_lock :: "'x \<Rightarrow> (stack_error + unit) \<times> 'x"
  le_release :: "'x \<Rightarrow> 'x"
  le_prove :: "string \<Rightarrow> 'x \<Rightarrow> verdict \<times> 'x"
  le_image_table :: "image_model list"

definition lift_io :: "(io_error + 'a) \<times> 'h \<Rightarrow> (stack_error + 'a) \<times> 'h" where
  "lift_io p = (case p of (Inl e, h) \<Rightarrow> (Inl (Io e), h) | (Inr a, h) \<Rightarrow> (Inr a, h))"

definition config_file_mode :: nat where "config_file_mode = 384"

text \<open>The file a load opens: a relative directory is resolved against the working directory.\<close>

definition config_path :: "'x live_env \<Rightarrow> string" where
  "config_path env =
     join_path (case abs_path (os_cwd (le_os env)) (le_config_dir env) of
                  None \<Rightarrow> le_config_dir env | Some d \<Rightarrow> d) ''config.toml''"

text \<open>\<open>saveVillaTo\<close>: the directory is made absolute, the containment checked up front.\<close>

definition save_villa :: "'x live_env \<Rightarrow> villa_config \<Rightarrow> ('x live_host, unit) eff" where
  "save_villa env c h =
     (case abs_path (os_cwd (le_os env)) (le_config_dir env) of
        None \<Rightarrow> (Inl (Io (PathError NoCwd)), h)
      | Some abs_dir \<Rightarrow>
          (case inside (os_cwd (le_os env)) (join_path abs_dir ''config.toml'') abs_dir of
             Inl e \<Rightarrow> (Inl (Io (PathError e)), h)
           | Inr _ \<Rightarrow>
               (case on_world (le_mkdir env abs_dir) h of
                  (Inl e, h) \<Rightarrow> (Inl e, h)
                | (Inr _, h) \<Rightarrow>
                    lift_io (on_config (write_file_atomic (le_os env) abs_dir
                      (join_path abs_dir ''config.toml'')
                      (marshal_villa (le_marshal env) c) config_file_mode) h))))"

definition load_error :: "string config_error \<Rightarrow> stack_error" where
  "load_error e = (case e of ParseError m \<Rightarrow> At ''parse'' (External m) | UnknownSpeculation s \<Rightarrow> External s)"

definition config_view :: "'x live_env \<Rightarrow> 'x live_host \<Rightarrow> string config_error + villa_config" where
  "config_view env h =
     load_villa (le_unmarshal env) (map_option fst (lv_config h (config_path env)))"

definition live_load :: "'x live_env \<Rightarrow> ('x live_host, villa_config) eff" where
  "live_load env h =
     (case os_read (le_os env) (config_path env) (lv_world h) of
        Some e \<Rightarrow> (Inl (Io (ReadFailed e)), h)
      | None \<Rightarrow> (case config_view env h of
          Inl e \<Rightarrow> (Inl (load_error e), h)
        | Inr c \<Rightarrow> (Inr c, h)))"

definition live_read_unit :: "'x live_env \<Rightarrow> string \<Rightarrow> 'x live_host \<Rightarrow> string \<Rightarrow> file_read" where
  "live_read_unit env dir h n =
     read_unit (le_os env) dir \<lparr>h_fs = lv_units h, h_world = lv_world h\<rparr> n"

definition live_reconcile :: "'x live_env \<Rightarrow> unit_file list \<Rightarrow> string \<Rightarrow> ('x live_host, unit_plan) eff" where
  "live_reconcile env us dir h =
     (case reconcile (le_sha env) registry_units us (live_read_unit env dir h) of
        Inl e \<Rightarrow> (Inl (Io e), h) | Inr p \<Rightarrow> (Inr p, h))"

definition live_stack_deps :: "'x live_env \<Rightarrow> 'x live_host stack_deps" where
  "live_stack_deps env = \<lparr>
     sd_catalog = on_world (le_catalog env),
     sd_models_dir = le_models_dir env,
     sd_host_villa_path = le_villa_path env,
     sd_render = (\<lambda>i. on_world (le_render env i)),
     sd_unit_dir = eff_ok (le_unit_dir env),
     sd_reconcile = live_reconcile env,
     sd_write_units = (\<lambda>p dir h. lift_io (on_units (write_units (le_os env) p dir) h)),
     sd_remove_units = (\<lambda>p dir h. lift_io (on_units (remove_units (le_os env) p dir) h)),
     sd_daemon_reload = on_world (le_daemon_reload env),
     sd_is_active = (\<lambda>s. on_world (le_is_active env s)),
     sd_stop = (\<lambda>s. on_world (le_stop env s)),
     sd_save_config = save_villa env,
     sd_write_secret_env = (\<lambda>n t. on_world (le_secret_env env n t)),
     sd_heal_agent_config = Some (\<lambda>c. on_world (le_heal_agent env c)),
     sd_rand = (\<lambda>n. on_world (le_rand env n))\<rparr>"

text \<open>\<open>captureUnits\<close>: an absent unit is left out; any other read failure stops the capture.\<close>

fun capture_names ::
  "(string \<Rightarrow> file_read) \<Rightarrow> string list \<Rightarrow> (string \<times> string) list \<Rightarrow> stack_error + (string \<times> string) list" where
  "capture_names read [] acc = Inr acc"
| "capture_names read (n # ns) acc =
     (case read (base_path n) of
        Absent \<Rightarrow> capture_names read ns acc
      | Unreadable e \<Rightarrow> Inl (Io (ReadFailed e))
      | Content t \<Rightarrow> capture_names read ns ((base_path n, t) # filter (\<lambda>(m, _). m \<noteq> base_path n) acc))"

definition capture_units :: "'x live_env \<Rightarrow> villa_config \<Rightarrow> ('x live_host, (string \<times> string) list) eff" where
  "capture_units env cfg h =
     (case plan_stack (le_image_table env) (live_stack_deps env) cfg h of (r, h) \<Rightarrow>
        (case (case r of
                 Inr p \<Rightarrow> Inr (map un_name (pl_changed p) @ map un_name (pl_unchanged p)
                               @ map un_name (pl_removed p))
               | Inl _ \<Rightarrow> le_glob env (le_unit_dir env) h) of
           Inl e \<Rightarrow> (Inl e, h)
         | Inr names \<Rightarrow> (capture_names (live_read_unit env (le_unit_dir env) h) names [], h)))"

definition live_tx :: "'x live_env \<Rightarrow> string \<Rightarrow> 'x live_host tx_deps" where
  "live_tx env svc = \<lparr>
     td_lock = on_world (le_lock env),
     td_release = (\<lambda>h. h\<lparr>lv_world := le_release env (lv_world h)\<rparr>),
     td_load_config = live_load env,
     td_save_config = save_villa env,
     td_capture = capture_units env,
     td_apply = apply_stack (le_image_table env) (live_stack_deps env),
     td_restore = restore_stack (live_stack_deps env),
     td_daemon_reload = on_world (le_daemon_reload env),
     td_is_active = (\<lambda>s. on_world (le_is_active env s)),
     td_restart = (\<lambda>s. on_world (le_restart env s)),
     td_prove = (\<lambda>b. on_world (le_prove env b)),
     td_service = svc\<rparr>"

subsection \<open>The store the live wiring keeps\<close>

definition live_units :: "'x live_env \<Rightarrow> 'x live_host \<Rightarrow> string \<Rightarrow> string option" where
  "live_units env h n = map_option fst (lv_units h (unit_path (le_unit_dir env) n))"

definition live_conf :: "'x live_env \<Rightarrow> 'x live_host \<Rightarrow> villa_config option" where
  "live_conf env h = (case config_view env h of Inl _ \<Rightarrow> None | Inr c \<Rightarrow> Some c)"

definition live_reload :: "'x live_env \<Rightarrow> villa_config \<Rightarrow> villa_config option" where
  "live_reload env c =
     (case load_villa (le_unmarshal env) (Some (marshal_villa (le_marshal env) c)) of
        Inl _ \<Rightarrow> None | Inr c' \<Rightarrow> Some c')"

lemma on_world_frame [simp]:
  "on_world f h = (r, h') \<Longrightarrow> lv_units h' = lv_units h"
  "on_world f h = (r, h') \<Longrightarrow> lv_config h' = lv_config h"
  by (auto simp: on_world_def split: prod.splits)

lemma live_frame:
  "lv_units h' = lv_units h \<Longrightarrow> live_units env h' = live_units env h"
  "lv_config h' = lv_config h \<Longrightarrow> live_conf env h' = live_conf env h"
  by (simp_all add: live_units_def live_conf_def config_view_def fun_eq_iff)

lemma on_world_live:
  "on_world f h = (r, h') \<Longrightarrow> live_units env h' = live_units env h \<and> live_conf env h' = live_conf env h"
  by (metis live_frame on_world_frame)

lemma lift_io_eq: "lift_io p = (r, h) \<longleftrightarrow> (\<exists>q. p = (q, h) \<and> r = (case q of Inl e \<Rightarrow> Inl (Io e) | Inr a \<Rightarrow> Inr a))"
  by (auto simp: lift_io_def split: prod.splits sum.splits)

lemma on_units_eq:
  "on_units f h = (r, h') \<longleftrightarrow> (\<exists>g. f \<lparr>h_fs = lv_units h, h_world = lv_world h\<rparr> = (r, g)
     \<and> h' = h\<lparr>lv_units := h_fs g, lv_world := h_world g\<rparr>)"
  by (auto simp: on_units_def split: prod.splits)

lemma on_config_eq:
  "on_config f h = (r, h') \<longleftrightarrow> (\<exists>g. f \<lparr>h_fs = lv_config h, h_world = lv_world h\<rparr> = (r, g)
     \<and> h' = h\<lparr>lv_config := h_fs g, lv_world := h_world g\<rparr>)"
  by (auto simp: on_config_def split: prod.splits)

lemma eff_bind_pres:
  assumes "eff_bind m f h = (r, h')"
    and "\<And>r1 h1. m h = (r1, h1) \<Longrightarrow> P h1"
    and "\<And>a h1 r2 h2. P h1 \<Longrightarrow> f a h1 = (r2, h2) \<Longrightarrow> P h2"
  shows "P h'"
proof -
  obtain r1 h1 where 1: "m h = (r1, h1)" by fastforce
  show ?thesis
  proof (cases r1)
    case (Inl e)
    with assms(1) 1 have "h' = h1" by (simp add: eff_bind_def)
    with assms(2) [OF 1] show ?thesis by simp
  next
    case (Inr a)
    with assms(1) 1 have "f a h1 = (r, h')" by (simp add: eff_bind_def)
    with assms(3) assms(2) [OF 1] show ?thesis by blast
  qed
qed

lemma eff_at_pres: "eff_at s m h = (r, h') \<Longrightarrow> \<exists>r1. m h = (r1, h')"
  by (auto simp: eff_at_def split: prod.splits sum.splits)

lemma plan_stack_frame:
  assumes "plan_stack tbl (live_stack_deps env) cfg h = (r, h')"
  shows "lv_units h' = lv_units h \<and> lv_config h' = lv_config h"
proof -
  define P where "P = (\<lambda>g :: 'a live_host. lv_units g = lv_units h \<and> lv_config g = lv_config h)"
  have W: "P g \<Longrightarrow> eff_at s (on_world f) g = (q, g') \<Longrightarrow> P g'"
    for g g' s q and f :: "'a \<Rightarrow> (stack_error + 'z) \<times> 'a"
    by (auto dest!: eff_at_pres simp: P_def)
  have I: "P g'" if "P g" "render_inputs tbl (live_stack_deps env) cfg g = (q, g')" for g g' q
  proof (cases "backend_for (cfg_backend cfg)")
    case (Inl e)
    with that show ?thesis by (simp add: render_inputs_def eff_fail_def)
  next
    case (Inr b)
    with that(2) have "eff_bind (eff_at ''load model catalog'' (on_world (le_catalog env)))
        (\<lambda>cat. case input_from tbl (live_stack_deps env) cfg b cat of
           Inl e \<Rightarrow> eff_fail e | Inr i \<Rightarrow> eff_ok i) g = (q, g')"
      by (simp add: render_inputs_def live_stack_deps_def)
    then show ?thesis
    proof (rule eff_bind_pres)
      show "P h1" if "eff_at ''load model catalog'' (on_world (le_catalog env)) g = (r1, h1)" for r1 h1
        using W [OF \<open>P g\<close> that] .
    qed (auto simp: eff_fail_def eff_ok_def split: sum.splits)
  qed
  have R: "P g'" if "P g" "render_stack tbl (live_stack_deps env) cfg g = (q, g')" for g g' q
    using that(2) unfolding render_stack_def
  proof (rule eff_bind_pres)
    show "P h1" if "render_inputs tbl (live_stack_deps env) cfg g = (r1, h1)" for r1 h1
      using I [OF \<open>P g\<close> that] .
    show "P h2" if "P h1" "eff_at ''render'' (sd_render (live_stack_deps env) a) h1 = (r2, h2)"
      for a h1 r2 h2
      using W [OF that(1), of _ "le_render env a"] that(2) by (simp add: live_stack_deps_def)
  qed
  have "P h'"
    using assms unfolding plan_stack_def
  proof (rule eff_bind_pres)
    show "P h1" if "render_stack tbl (live_stack_deps env) cfg h = (r1, h1)" for r1 h1
      using R [OF _ that] by (simp add: P_def)
    show "P h2" if "P h1" "eff_bind (eff_at ''resolve unit dir'' (sd_unit_dir (live_stack_deps env)))
        (\<lambda>dir. eff_at ''reconcile'' (sd_reconcile (live_stack_deps env) a dir)) h1 = (r2, h2)"
      for a h1 r2 h2
      using that
      by (auto simp: live_stack_deps_def eff_bind_def eff_at_def eff_ok_def live_reconcile_def
          split: prod.splits sum.splits)
  qed
  then show ?thesis by (simp add: P_def)
qed

lemma capture_names_sound:
  "capture_names read ns acc = Inr us \<Longrightarrow> \<forall>(n, t) \<in> set acc. read n = Content t \<Longrightarrow>
     \<forall>(n, t) \<in> set us. read n = Content t"
proof (induction ns arbitrary: acc)
  case (Cons n ns)
  show ?case
  proof (cases "read (base_path n)")
    case (Content t)
    with Cons.prems(1) have "capture_names read ns
        ((base_path n, t) # filter (\<lambda>(m, _). m \<noteq> base_path n) acc) = Inr us" by simp
    from Cons.IH [OF this] Content Cons.prems(2) show ?thesis by auto
  qed (use Cons in auto)
qed simp

lemma live_read_content:
  "live_read_unit env (le_unit_dir env) h n = Content t \<Longrightarrow> live_units env h n = Some t"
  by (auto simp: live_read_unit_def read_unit_def read_file_def live_units_def split: option.splits)

lemma capture_units_law:
  assumes "capture_units env c h = (r, h')"
  shows "live_units env h' = live_units env h \<and> live_conf env h' = live_conf env h
       \<and> (\<forall>us. r = Inr us \<longrightarrow> (\<forall>(n, t) \<in> set us. live_units env h n = Some t))"
proof -
  obtain q g where p: "plan_stack (le_image_table env) (live_stack_deps env) c h = (q, g)" by fastforce
  note fr = plan_stack_frame [OF p]
  have hg: "h' = g" using assms p by (auto simp: capture_units_def split: sum.splits)
  have u: "live_units env g = live_units env h" "live_conf env g = live_conf env h"
    using fr live_frame by blast+
  have "\<forall>(n, t) \<in> set us. live_units env h n = Some t" if "r = Inr us" for us
  proof -
    from assms p that obtain names where
      "capture_names (live_read_unit env (le_unit_dir env) g) names [] = Inr us"
      by (auto simp: capture_units_def split: sum.splits)
    from capture_names_sound [OF this] have
      "\<forall>(n, t) \<in> set us. live_read_unit env (le_unit_dir env) g n = Content t" by simp
    then show ?thesis using live_read_content [of env g] u(1) by fastforce
  qed
  with hg u show ?thesis by simp
qed

lemma live_load_law:
  assumes "live_load env h = (r, h')"
  shows "live_units env h' = live_units env h \<and> live_conf env h' = live_conf env h
       \<and> (\<forall>c. r = Inr c \<longrightarrow> live_conf env h = Some c)"
  using assms by (auto simp: live_load_def live_conf_def split: option.splits sum.splits)

lemma on_config_units: "on_config f h = (r, h') \<Longrightarrow> live_units env h' = live_units env h"
  by (auto simp: on_config_eq live_units_def fun_eq_iff)

lemma save_villa_law:
  assumes "save_villa env c h = (r, h')"
  shows "live_units env h' = live_units env h \<and> (r = Inr () \<longrightarrow> live_conf env h' = live_reload env c)"
proof (cases "abs_path (os_cwd (le_os env)) (le_config_dir env)")
  case None
  with assms show ?thesis by (auto simp: save_villa_def)
next
  case (Some dir)
  then have cp: "config_path env = join_path dir ''config.toml''" by (simp add: config_path_def)
  show ?thesis
  proof (cases "inside (os_cwd (le_os env)) (join_path dir ''config.toml'') dir")
    case (Inl e)
    with assms Some show ?thesis by (auto simp: save_villa_def)
  next
    case (Inr x)
    obtain q g where m: "on_world (le_mkdir env dir) h = (q, g)" by fastforce
    have mg: "live_units env g = live_units env h" using on_world_live [OF m, of env] by simp
    show ?thesis
    proof (cases q)
      case (Inl e)
      with assms Some Inr m mg show ?thesis by (auto simp: save_villa_def)
    next
      case q: (Inr y)
      let ?data = "marshal_villa (le_marshal env) c"
      from assms Some Inr m q have w: "lift_io (on_config (write_file_atomic (le_os env) dir
          (join_path dir ''config.toml'') ?data config_file_mode) g) = (r, h')"
        by (simp add: save_villa_def)
      then obtain p where p: "on_config (write_file_atomic (le_os env) dir
          (join_path dir ''config.toml'') ?data config_file_mode) g = (p, h')"
          "r = (case p of Inl e \<Rightarrow> Inl (Io e) | Inr a \<Rightarrow> Inr a)"
        by (auto simp: lift_io_eq)
      have "live_conf env h' = live_reload env c" if "r = Inr ()"
      proof -
        from that p(2) have "p = Inr ()" by (cases p) auto
        with p(1) obtain hh where hh: "write_file_atomic (le_os env) dir
            (join_path dir ''config.toml'') ?data config_file_mode
            \<lparr>h_fs = lv_config g, h_world = lv_world g\<rparr> = (Inr (), hh)" "lv_config h' = h_fs hh"
          by (auto simp: on_config_eq)
        from write_bytes(2) [OF hh(1) refl] hh(2)
        have "map_option fst (lv_config h' (config_path env)) = Some ?data"
          by (simp add: bytes_at_def cp)
        then show ?thesis by (simp only: live_conf_def config_view_def live_reload_def)
      qed
      with on_config_units [OF p(1), of env] mg show ?thesis by simp
    qed
  qed
qed

lemma restore_consistent:
  assumes "\<forall>(n, t) \<in> set us. live_units env h0 n = Some t"
  shows "consistent_units (le_unit_dir env) (map (\<lambda>(n, t). \<lparr>un_name = n, un_text = t\<rparr>) us)"
proof -
  have "t = t'" if "(n, t) \<in> set us" "(n', t') \<in> set us"
    "unit_path (le_unit_dir env) n = unit_path (le_unit_dir env) n'" for n t n' t'
  proof -
    from assms that(1,2) have "live_units env h0 n = Some t" "live_units env h0 n' = Some t'" by auto
    with that(3) show ?thesis by (metis live_units_def option.inject)
  qed
  then show ?thesis by (fastforce simp: consistent_units_def)
qed

lemma restore_stack_law:
  assumes "restore_stack (live_stack_deps env) us h = (r, h')"
  shows "live_conf env h' = live_conf env h
       \<and> (r = Inr () \<longrightarrow> (\<forall>(n, t) \<in> set us. live_units env h0 n = Some t) \<longrightarrow>
            (\<forall>(n, t) \<in> set us. live_units env h' n = Some t))"
proof (cases "us = []")
  case True
  with assms show ?thesis by (simp add: restore_stack_def eff_ok_def)
next
  case False
  let ?us = "map (\<lambda>(n, t). \<lparr>un_name = n, un_text = t\<rparr>) us"
  from assms False have "lift_io (on_units (write_units (le_os env) (empty_plan\<lparr>pl_changed := ?us\<rparr>)
      (le_unit_dir env)) h) = (r, h')"
    by (simp add: restore_stack_def live_stack_deps_def eff_bind_def eff_at_def eff_ok_def)
  then obtain p g where p: "write_each (le_os env) (le_unit_dir env) ?us
      \<lparr>h_fs = lv_units h, h_world = lv_world h\<rparr> = (p, g)"
      "r = (case p of Inl e \<Rightarrow> Inl (Io e) | Inr a \<Rightarrow> Inr a)"
      "h' = h\<lparr>lv_units := h_fs g, lv_world := h_world g\<rparr>"
    by (auto simp: lift_io_eq on_units_eq write_units_def empty_plan_def)
  have "\<forall>(n, t) \<in> set us. live_units env h' n = Some t"
    if "r = Inr ()" "\<forall>(n, t) \<in> set us. live_units env h0 n = Some t"
  proof -
    from that(1) p(2) have "p = Inr ()" by (cases p) auto
    with p(1) have ok: "write_each (le_os env) (le_unit_dir env) ?us
      \<lparr>h_fs = lv_units h, h_world = lv_world h\<rparr> = (Inr (), g)" by simp
    show ?thesis
    proof clarify
      fix n t assume "(n, t) \<in> set us"
      then have "\<lparr>un_name = n, un_text = t\<rparr> \<in> set ?us" by force
      from write_each_done [OF ok restore_consistent [OF that(2)] this]
      show "live_units env h' n = Some t" by (simp add: live_units_def bytes_at_def p(3))
    qed
  qed
  moreover have "live_conf env h' = live_conf env h"
    by (simp add: p(3) live_conf_def config_view_def)
  ultimately show ?thesis by blast
qed

interpretation live: tx_store "live_tx env svc" "live_units env" "live_conf env" "live_reload env"
  for env :: "'x live_env" and svc :: string
proof unfold_locales
  fix h h' :: "'x live_host" and r
  show "td_lock (live_tx env svc) h = (r, h') \<Longrightarrow>
      live_units env h' = live_units env h \<and> live_conf env h' = live_conf env h"
    by (simp add: live_tx_def on_world_live)
next
  fix h :: "'x live_host"
  show "live_units env (td_release (live_tx env svc) h) = live_units env h
      \<and> live_conf env (td_release (live_tx env svc) h) = live_conf env h"
    by (intro conjI; rule live_frame) (simp_all add: live_tx_def)
next
  fix h h' :: "'x live_host" and r
  assume "td_load_config (live_tx env svc) h = (r, h')"
  then show "live_units env h' = live_units env h \<and> live_conf env h' = live_conf env h
      \<and> (\<forall>c. r = Inr c \<longrightarrow> live_conf env h = Some c)"
    by (intro live_load_law) (simp add: live_tx_def)
next
  fix c and h h' :: "'x live_host" and r
  assume "td_capture (live_tx env svc) c h = (r, h')"
  then show "live_units env h' = live_units env h \<and> live_conf env h' = live_conf env h
      \<and> (\<forall>us. r = Inr us \<longrightarrow> (\<forall>(n, t) \<in> set us. live_units env h n = Some t))"
    by (intro capture_units_law) (simp add: live_tx_def)
next
  fix us and h h' h0 :: "'x live_host" and r
  assume "td_restore (live_tx env svc) us h = (r, h')"
  then show "live_conf env h' = live_conf env h
      \<and> (r = Inr () \<longrightarrow> (\<forall>(n, t) \<in> set us. live_units env h0 n = Some t) \<longrightarrow>
           (\<forall>(n, t) \<in> set us. live_units env h' n = Some t))"
    by (intro restore_stack_law) (simp add: live_tx_def)
next
  fix c and h h' :: "'x live_host" and r
  assume "td_save_config (live_tx env svc) c h = (r, h')"
  then show "live_units env h' = live_units env h \<and> (r = Inr () \<longrightarrow> live_conf env h' = live_reload env c)"
    by (intro save_villa_law) (simp add: live_tx_def)
next
  fix h h' :: "'x live_host" and r
  show "td_daemon_reload (live_tx env svc) h = (r, h') \<Longrightarrow>
      live_units env h' = live_units env h \<and> live_conf env h' = live_conf env h"
    by (simp add: live_tx_def on_world_live)
next
  fix s and h h' :: "'x live_host" and r
  show "td_restart (live_tx env svc) s h = (r, h') \<Longrightarrow>
      live_units env h' = live_units env h \<and> live_conf env h' = live_conf env h"
    by (simp add: live_tx_def on_world_live)
qed

text \<open>A change touches neither tree, and what it returns to stop is not a rollback or a switch.\<close>

definition tame_change :: "'x live_env \<Rightarrow> 'x live_host change \<Rightarrow> bool" where
  "tame_change env change \<longleftrightarrow>
     (\<forall>c h. lv_units (snd (change c h)) = lv_units h \<and> lv_config (snd (change c h)) = lv_config h
        \<and> (\<forall>stop. snd (fst (change c h)) = Some stop \<longrightarrow> \<not> oc_rolled_back stop \<and> \<not> oc_switched stop))"

lemma tame_change_frame:
  assumes "tame_change env change"
  shows "live_units env (snd (change c h)) = live_units env h \<and> live_conf env (snd (change c h)) = live_conf env h"
  using assms live_frame unfolding tame_change_def by blast

subsection \<open>A sample host\<close>

definition sample_os :: "unit os" where
  "sample_os = \<lparr>os_cwd = None, os_write = (\<lambda>_ _. (None, ())), os_read = (\<lambda>_ _. None),
     os_remove = (\<lambda>_ _. (None, ()))\<rparr>"

definition sample_config :: villa_config where
  "sample_config = default_config\<lparr>cfg_inference_secret := ''k'', cfg_model := ''m''\<rparr>"

text \<open>A host whose catalog cannot be loaded: every swap fails in the apply and is rolled back.\<close>

definition sample_env :: "unit live_env" where
  "sample_env = \<lparr>le_os = sample_os, le_sha = (\<lambda>s. s), le_unit_dir = ''/u'', le_config_dir = ''/c'',
     le_marshal = (\<lambda>c. cfg_backend c), le_unmarshal = (\<lambda>s d. Inr (toml_overlay
        (omit_when_off (sample_config\<lparr>cfg_backend := s\<rparr>)) d)),
     le_mkdir = (\<lambda>_ _. (Inr (), ())), le_catalog = (\<lambda>_. (Inl (External ''bad catalog''), ())),
     le_models_dir = ''/m'', le_villa_path = ''/b'', le_render = (\<lambda>_ _. (Inr [], ())),
     le_daemon_reload = (\<lambda>_. (Inr (), ())), le_is_active = (\<lambda>_ _. (Inr ''active'', ())),
     le_stop = (\<lambda>_ _. (Inr (), ())), le_restart = (\<lambda>_ _. (Inr (), ())),
     le_secret_env = (\<lambda>_ _ _. (Inr (), ())), le_heal_agent = (\<lambda>_ _. (Inr (), ())),
     le_rand = (\<lambda>_ _. (Inr [], ())), le_glob = (\<lambda>_ _. Inr [''llama'']),
     le_lock = (\<lambda>_. (Inr (), ())), le_release = (\<lambda>w. w),
     le_prove = (\<lambda>_ _. (\<lparr>v_status = ''pass'', v_detail = []\<rparr>, ())), le_image_table = []\<rparr>"

definition sample_lhost :: "unit live_host" where
  "sample_lhost = \<lparr>lv_units = [''/u/llama'' \<mapsto> (''prior'', 420)],
     lv_config = [''/c/config.toml'' \<mapsto> (''rocm'', 384)], lv_world = ()\<rparr>"

definition to_vulkan :: "unit live_host change" where
  "to_vulkan c h = ((c\<lparr>cfg_backend := ''vulkan''\<rparr>, None), h)"

lemma sample_paths:
  "join_path ''/c'' ''config.toml'' = ''/c/config.toml''" "join_path ''/u'' ''llama'' = ''/u/llama''"
  "abs_path None ''/c'' = Some ''/c''" "base_path ''llama'' = ''llama''"
  "inside None ''/c/config.toml'' ''/c'' = Inr ()" "inside None ''/u/llama'' ''/u'' = Inr ()"
  by code_simp+

definition sample_entry :: model where
  "sample_entry = \<lparr>m_id = ''m'', m_display_name = [], m_quant = [], m_weight_bytes = 1, m_n_layers = 1,
     m_n_kv_heads = 1, m_head_dim = 1, m_kv_bytes_per_elem = 1, m_default_ctx = 1,
     m_min_envelope_bytes = 0, m_tier_gb = 0, m_unified_memory_safe = True, m_backend_default = [],
     m_bootstrap = False, m_role = [], m_agent_ctx = 0, m_cache_reuse_safe = True,
     m_agent_sampling = None, m_template_provenance = [], m_ngram_safe = False,
     m_ngram_provenance = [], m_projector = None, m_draft = None, m_swa = None, m_shards = []\<rparr>"

text \<open>The same host with a catalog and a render that changes the inference unit.\<close>

definition working_env :: "unit live_env" where
  "working_env = sample_env\<lparr>
     le_catalog := (\<lambda>_. (Inr \<lparr>ct_schema_version = 5, ct_catalog_version = [], ct_models = [sample_entry]\<rparr>, ())),
     le_render := (\<lambda>_ _. (Inr [\<lparr>un_name = ''villa-llama.container'', un_text = ''new''\<rparr>], ()))\<rparr>"

definition refuse_change :: "unit live_host change" where
  "refuse_change c h = ((c, Some (zero_outcome\<lparr>oc_refused := True\<rparr>)), h)"

lemma sample_tame: "tame_change env to_vulkan" "tame_change env refuse_change"
  by (simp_all add: tame_change_def to_vulkan_def refuse_change_def zero_outcome_def)

lemma sample_config_saved: "saved_form (sample_config\<lparr>cfg_backend := b\<rparr>) = sample_config\<lparr>cfg_backend := b\<rparr>"
  by (rule villa_config.equality) (simp_all add: sample_config_def)

lemma sample_codec_at:
  "toml_codec_at (le_marshal sample_env) (le_unmarshal sample_env) (sample_config\<lparr>cfg_backend := ''rocm''\<rparr>)"
proof -
  have b: "cfg_backend (omit_when_off (sample_config\<lparr>cfg_backend := ''rocm''\<rparr>)) = ''rocm''"
    by (simp add: omit_when_off_def)
  have m: "le_marshal sample_env = cfg_backend"
    and u: "le_unmarshal sample_env s d =
      Inr (toml_overlay (omit_when_off (sample_config\<lparr>cfg_backend := s\<rparr>)) d)" for s d
    by (simp_all add: sample_env_def)
  show ?thesis unfolding toml_codec_at_def m b u by simp
qed

lemma sample_conf: "live_conf sample_env sample_lhost = Some (sample_config\<lparr>cfg_backend := ''rocm''\<rparr>)"
proof -
  let ?c = "sample_config\<lparr>cfg_backend := ''rocm''\<rparr>"
  have p: "config_path sample_env = ''/c/config.toml''" by code_simp
  have "marshal_villa (le_marshal sample_env) ?c = ''rocm''"
    by (simp add: marshal_villa_def sample_env_def omit_when_off_def)
  then have "map_option fst (lv_config sample_lhost (config_path sample_env))
      = Some (marshal_villa (le_marshal sample_env) ?c)"
    by (simp add: p sample_lhost_def)
  moreover have "validate_villa ?c = (None :: string config_error option)"
    by (simp add: validate_villa_def valid_speculation_def sample_config_def)
  ultimately have "config_view sample_env sample_lhost = Inr (saved_form ?c)"
    using load_marshal [OF sample_codec_at] by (simp only: config_view_def option.case)
  then show ?thesis by (simp add: live_conf_def sample_config_saved)
qed

lemma sample_codec:
  "live_conf sample_env sample_lhost = Some c \<Longrightarrow>
     toml_codec_at (le_marshal sample_env) (le_unmarshal sample_env) c"
  using sample_codec_at by (simp only: sample_conf option.inject)

subsection \<open>What a swap promises\<close>

lemma load_villa_valid:
  fixes u :: "'doc \<Rightarrow> villa_config \<Rightarrow> 'e + villa_config"
  shows "load_villa u f = Inr c \<Longrightarrow> validate_villa c = (None :: 'e config_error option)"
proof (cases f)
  case (Some data)
  assume "load_villa u f = Inr c"
  with Some obtain c0 where c0: "validate_villa c0 = (None :: 'e config_error option)" "c = normalize_villa c0"
    by (auto simp: load_villa_def parse_config_def split: option.splits sum.splits)
  have "cfg_speculation (normalize_villa c0) = cfg_speculation c0" by (simp add: normalize_villa_def Let_def)
  with c0 show ?thesis by (simp add: validate_villa_def split: if_splits)
qed (simp add: load_villa_def validate_villa_def valid_speculation_def)

lemma live_reload_saved:
  assumes "toml_codec_at (le_marshal env) (le_unmarshal env) prior" "live_conf env h = Some prior"
  shows "live_reload env prior = Some (saved_form prior)"
proof -
  from assms(2) have "config_view env h = Inr prior" by (auto simp: live_conf_def split: sum.splits)
  then have "validate_villa prior = (None :: string config_error option)"
    unfolding config_view_def by (rule load_villa_valid)
  with load_marshal [OF assms(1)] show ?thesis by (simp add: live_reload_def)
qed

text \<open>C1: A clean rollback is a restore. When a swap on the live host reports that it rolled back
  and does not report an incomplete restore, every unit file captured from the prior stack holds
  its prior bytes again, and a config load answers the prior config in the form a save keeps
  (\<open>toml\<close> doing what the struct tags say of that config).\<close>

theorem swap_rollback_restores:
  assumes "transact (live_tx env svc) change h = (oc, h')" "oc_rolled_back oc"
    and "\<forall>fs. oc_reason oc \<noteq> RestoreIncomplete fs"
    and "tame_change env change"
    and codec: "\<And>c. live_conf env h = Some c \<Longrightarrow> toml_codec_at (le_marshal env) (le_unmarshal env) c"
  shows "\<exists>prior us hc. live_conf env h = Some prior \<and> fst (capture_units env prior hc) = Inr us
       \<and> live_units env hc = live_units env h
       \<and> (\<forall>(n, t) \<in> set us. live_units env h n = Some t \<and> live_units env h' n = Some t)
       \<and> live_conf env h' = Some (saved_form prior)"
proof -
  have st: "\<And>c g n stop. fst (change c g) = (n, Some stop) \<Longrightarrow> \<not> oc_rolled_back stop"
    using assms(4) unfolding tame_change_def by (metis snd_conv)
  have "\<exists>prior us hc. live_conf env h = Some prior \<and> fst (td_capture (live_tx env svc) prior hc) = Inr us
       \<and> live_units env hc = live_units env h
       \<and> (\<forall>(n, t) \<in> set us. live_units env h n = Some t \<and> live_units env h' n = Some t)
       \<and> live_conf env h' = live_reload env prior"
    by (rule live.transact_rolled_back [OF assms(1-3) tame_change_frame [OF assms(4)]]) (rule st)
  then obtain prior us hc where r: "live_conf env h = Some prior"
    "fst (td_capture (live_tx env svc) prior hc) = Inr us" "live_units env hc = live_units env h"
    "\<forall>(n, t) \<in> set us. live_units env h n = Some t \<and> live_units env h' n = Some t"
    "live_conf env h' = live_reload env prior"
    by blast
  have c: "td_capture (live_tx env svc) = capture_units env" by (simp add: live_tx_def)
  show ?thesis
    using r(1,3,4) r(2) [unfolded c] r(5) [unfolded live_reload_saved [OF codec [OF r(1)] r(1)]]
    by (intro exI [of _ prior] exI [of _ us] exI [of _ hc] conjI)
qed

lemma sample_rolls_back:
  "oc_rolled_back (fst (transact (live_tx sample_env ''llama.service'') to_vulkan sample_lhost))"
  "oc_reason (fst (transact (live_tx sample_env ''llama.service'') to_vulkan sample_lhost)) = Reason []"
  by code_simp+

theorem swap_rollback_restores_witness:
  "live_conf sample_env (snd (transact (live_tx sample_env ''llama.service'') to_vulkan sample_lhost))
     = Some (sample_config\<lparr>cfg_backend := ''rocm''\<rparr>)"
  using swap_rollback_restores [OF prod.collapse [symmetric] sample_rolls_back(1) _ sample_tame(1)
      sample_codec] sample_rolls_back(2)
  by (auto simp: sample_conf sample_config_saved)


lemma cutover_switched:
  assumes "cutover d us prior next h = (oc, h')" "oc_switched oc"
  obtains h5 a h6 tried h7 where "td_save_config d next h = (Inr (), h5)"
    "td_apply d next h5 = ((a, None), h6)" "ap_changed a \<noteq> []"
    "restart_changed a [td_service d] (td_is_active d) (td_restart d) h6 = ((tried, None), h7)"
    "fst (td_prove d (cfg_backend next) h7) = oc_prove oc" "verdict_pass (oc_prove oc)"
proof -
  have rb: "\<not> oc_switched (fst (roll_back d us prior rs st rsn c v g))" for rs st rsn c v g
    by (simp add: roll_back_def zero_outcome_def split: prod.splits)
  obtain q h5 where 1: "td_save_config d next h = (q, h5)" by fastforce
  have q: "q = Inr ()"
  proof (cases q)
    case (Inl e)
    with assms 1 rb show ?thesis by (simp add: cutover_def) (metis fst_conv)
  qed simp
  obtain a e h6 where 2: "td_apply d next h5 = ((a, e), h6)" by (metis prod.exhaust)
  have e: "e = None"
  proof (cases e)
    case (Some x)
    with assms 1 2 q rb show ?thesis by (simp add: cutover_def) (metis fst_conv)
  qed simp
  have ch: "ap_changed a \<noteq> []"
    using assms 1 2 q e by (auto simp: cutover_def zero_outcome_def)
  obtain tried e2 h7 where 3: "restart_changed a [td_service d] (td_is_active d) (td_restart d) h6
      = ((tried, e2), h7)" by (metis prod.exhaust)
  have e2: "e2 = None"
  proof (cases e2)
    case (Some x)
    with assms 1 2 3 q e ch rb show ?thesis by (simp add: cutover_def) (metis fst_conv)
  qed simp
  obtain v h8 where 4: "td_prove d (cfg_backend next) h7 = (v, h8)" by fastforce
  have v: "verdict_pass v"
  proof (rule ccontr)
    assume "\<not> verdict_pass v"
    with assms 1 2 3 4 q e e2 ch rb show False by (simp add: cutover_def) (metis fst_conv)
  qed
  with assms 1 2 3 4 q e e2 ch have "oc_prove oc = v" by (auto simp: cutover_def)
  with that 1 2 3 4 q e e2 ch v show thesis by simp
qed


text \<open>C37: A swap is proven. On any host, the frame reports a switch only after the target config
  was saved, the apply and every restart it owed succeeded, and the proof for the target's
  backend answered \<open>pass\<close>; the verdict it reports is that one.\<close>

theorem swap_switch_proven:
  assumes "transact d change h = (oc, h')" "oc_switched oc"
    and "\<And>c g n stop. fst (change c g) = (n, Some stop) \<Longrightarrow> \<not> oc_switched stop"
  shows "\<exists>prior next us h1 h2 h3 h4 h5 h6 h7 a tried.
       td_load_config d h1 = (Inr prior, h2) \<and> change prior h2 = ((next, None), h3)
     \<and> td_capture d prior h3 = (Inr us, h4)
     \<and> td_save_config d next h4 = (Inr (), h5) \<and> td_apply d next h5 = ((a, None), h6)
     \<and> restart_changed a [td_service d] (td_is_active d) (td_restart d) h6 = ((tried, None), h7)
     \<and> fst (td_prove d (cfg_backend next) h7) = oc_prove oc \<and> verdict_pass (oc_prove oc)
     \<and> ap_changed a \<noteq> []"
proof -
  have stop: "snd (fst (change prior g)) = None" if "transact_locked d change h1 = (oc, h9)"
    "td_load_config d h1 = (Inr prior, g)" for prior g h1 h9
  proof (cases "snd (fst (change prior g))")
    case (Some s)
    then have "fst (change prior g) = (fst (fst (change prior g)), Some s)" by (metis prod.collapse)
    moreover from that Some have "oc = s"
      by (auto simp: transact_locked_def split: prod.splits)
    ultimately show ?thesis using assms(2,3) by blast
  qed simp
  obtain l h1 where 1: "td_lock d h = (l, h1)" by fastforce
  with assms(1,2) have l: "l = Inr ()" by (cases l) (auto simp: transact_def zero_outcome_def)
  obtain o' h9 where t: "transact_locked d change h1 = (o', h9)" by fastforce
  with assms(1) 1 l have o': "o' = oc" by (auto simp: transact_def)
  obtain q h2 where 2: "td_load_config d h1 = (q, h2)" by fastforce
  with t o' assms(2) obtain prior where q: "q = Inr prior"
    by (cases q) (auto simp: transact_locked_def zero_outcome_def)
  obtain nx h3 where 3: "change prior h2 = ((nx, None), h3)"
    using stop [OF t [unfolded o'] 2 [unfolded q]] by (metis prod.collapse)
  obtain u h4 where 4: "td_capture d prior h3 = (u, h4)" by fastforce
  with t o' 2 q 3 assms(2) obtain us where u: "u = Inr us"
    by (cases u) (auto simp: transact_locked_def zero_outcome_def)
  have "cutover d us prior nx h4 = (oc, h9)" using t o' 2 q 3 4 u by (simp add: transact_locked_def)
  from cutover_switched [OF this assms(2)] 2 q 3 4 u show ?thesis by metis
qed

fun unit_services :: "unit_file list \<Rightarrow> string list" where
  "unit_services [] = []"
| "unit_services (u # us) =
     (case service (un_name u) of None \<Rightarrow> unit_services us | Some s \<Rightarrow> s # unit_services us)"

definition state_up :: "(string \<Rightarrow> stack_error + string) \<Rightarrow> string \<Rightarrow> bool" where
  "state_up st svc = (case st svc of Inl _ \<Rightarrow> False | Inr w \<Rightarrow> is_up w)"

lemma running_state:
  "(\<And>svc g. fst (is_active svc g) = st svc) \<Longrightarrow> fst (running is_active svc h) = state_up st svc"
proof -
  assume "\<And>svc g. fst (is_active svc g) = st svc"
  then have "st svc = fst (is_active svc h)" by simp
  then show ?thesis by (simp add: running_def state_up_def split: prod.splits sum.splits)
qed

lemma restart_units_done:
  "restart_units always is_active restart us dn h = ((dn', None), h') \<Longrightarrow>
     (\<And>svc g. fst (is_active svc g) = st svc) \<Longrightarrow>
     dn' = dn @ filter (\<lambda>svc. svc \<in> set always \<or> state_up st svc) (unit_services us)"
proof (induction us arbitrary: dn h)
  case (Cons u us)
  show ?case
  proof (cases "service (un_name u)")
    case None
    with Cons show ?thesis by simp
  next
    case (Some svc)
    obtain b h1 where b: "(if svc \<in> set always then (True, h) else running is_active svc h) = (b, h1)"
      by fastforce
    then have bv: "b = (svc \<in> set always \<or> state_up st svc)"
      using running_state [of is_active st svc h, OF Cons.prems(2)] by (metis fst_conv)
    show ?thesis
    proof (cases b)
      case False
      with Cons.prems(1) Some b have "restart_units always is_active restart us dn h1 = ((dn', None), h')"
        by simp
      from Cons.IH [OF this Cons.prems(2)] bv False Some show ?thesis by simp
    next
      case True
      obtain r h2 where r: "restart svc h1 = (r, h2)" by fastforce
      with Cons.prems(1) Some b True
      have "restart_units always is_active restart us (dn @ [svc]) h2 = ((dn', None), h')"
        by (cases r) auto
      from Cons.IH [OF this Cons.prems(2)] bv True Some show ?thesis by simp
    qed
  qed
qed simp

lemma restart_always_done:
  "restart_always restart svcs dn h = ((dn', None), h') \<Longrightarrow> distinct svcs \<Longrightarrow>
     dn' = dn @ filter (\<lambda>svc. svc \<notin> set dn) svcs"
proof (induction svcs arbitrary: dn h)
  case (Cons s svcs)
  show ?case
  proof (cases "s \<in> set dn")
    case True
    with Cons show ?thesis by simp
  next
    case False
    obtain r h2 where r: "restart s h = (r, h2)" by fastforce
    with Cons.prems(1) False have "restart_always restart svcs (dn @ [s]) h2 = ((dn', None), h')"
      by (cases r) auto
    from Cons.IH [OF this] Cons.prems(2) have
      "dn' = (dn @ [s]) @ filter (\<lambda>svc. svc \<notin> set (dn @ [s])) svcs" by simp
    moreover have "filter (\<lambda>svc. svc \<notin> set (dn @ [s])) svcs = filter (\<lambda>svc. svc \<notin> set dn) svcs"
      using Cons.prems(2) by (intro filter_cong) auto
    ultimately show ?thesis using False by simp
  qed
qed simp

theorem swap_switch_proven_witness:
  "verdict_pass (oc_prove (fst (transact (live_tx working_env ''villa-llama.service'') to_vulkan sample_lhost)))"
proof -
  have "oc_switched (fst (transact (live_tx working_env ''villa-llama.service'') to_vulkan sample_lhost))"
    by code_simp
  from swap_switch_proven [OF prod.collapse [symmetric] this] show ?thesis
    by (auto simp: to_vulkan_def)
qed

text \<open>The restart rule. When every restart succeeds, the services restarted are exactly the
  changed container units' services that are running or must always restart, in render order, and
  then each always-restarted service not among them; nothing is restarted that neither is running
  nor must be, provided reading a state changes no answer.\<close>

theorem restart_changed_exact:
  assumes "restart_changed a always is_active restart h = ((done, None), h')"
    and "\<And>svc g. fst (is_active svc g) = st svc" "distinct always"
  shows "done = filter (\<lambda>svc. svc \<in> set always \<or> state_up st svc) (unit_services (ap_changed a))
       @ filter (\<lambda>svc. svc \<notin> set (unit_services (ap_changed a))) always"
proof -
  obtain d1 e1 h1 where 1: "restart_units always is_active restart (ap_changed a) [] h = ((d1, e1), h1)"
    by (metis prod.exhaust)
  with assms(1) have e1: "e1 = None" by (cases e1) (auto simp: restart_changed_def)
  have d1: "d1 = filter (\<lambda>svc. svc \<in> set always \<or> state_up st svc) (unit_services (ap_changed a))"
    using restart_units_done [OF 1 [unfolded e1] assms(2)] by simp
  from assms(1) 1 e1 have "restart_always restart always d1 h1 = ((done, None), h')"
    by (simp add: restart_changed_def)
  from restart_always_done [OF this assms(3)] have
    "done = d1 @ filter (\<lambda>svc. svc \<notin> set d1) always" .
  moreover have "filter (\<lambda>svc. svc \<notin> set d1) always
      = filter (\<lambda>svc. svc \<notin> set (unit_services (ap_changed a))) always"
    by (rule filter_cong) (auto simp: d1)
  ultimately show ?thesis using d1 by simp
qed

theorem restart_changed_exact_witness:
  "fst (fst (restart_changed (no_applied\<lparr>ap_changed :=
        [\<lparr>un_name = ''a.container'', un_text = []\<rparr>, \<lparr>un_name = ''b.volume'', un_text = []\<rparr>]\<rparr>)
      [''villa-llama.service''] (\<lambda>_ h. (Inr ''active'', h)) (\<lambda>_ h. (Inr (), h)) ()))
   = [''a.service'', ''villa-llama.service'']"
proof -
  let ?a = "no_applied\<lparr>ap_changed :=
        [\<lparr>un_name = ''a.container'', un_text = []\<rparr>, \<lparr>un_name = ''b.volume'', un_text = []\<rparr>]\<rparr>"
  let ?r = "restart_changed ?a [''villa-llama.service''] (\<lambda>_ h. (Inr ''active'', h)) (\<lambda>_ h. (Inr (), h)) ()"
  have "snd (fst ?r) = None" by code_simp
  then have "?r = ((fst (fst ?r), None), snd ?r)" by (metis prod.collapse)
  note spec = restart_changed_exact [OF this, where st = "\<lambda>_. Inr ''active''"]
  have u: "unit_services (ap_changed ?a) = [''a.service'']" by code_simp
  show ?thesis using spec unfolding u by (simp add: state_up_def is_up_def)
qed

end
