(* ===== verification/Swaps.thy ===== *)
theory Swaps
  imports LiveHost
begin

text \<open>
  The swap verbs run through the transaction frame: \<open>internal/backendswap\<close> (backend, speculation,
  tools mode), \<open>internal/codingmode\<close> and \<open>internal/modelswap\<close>. Each is a change that reads the
  locked config and refuses or returns the target; the labels of its result are written by the
  change as it runs, so the result rides beside the host state.
\<close>

definition lift_op :: "('h \<Rightarrow> 'a \<times> 'h) \<Rightarrow> 'h \<times> 'r \<Rightarrow> 'a \<times> ('h \<times> 'r)" where
  "lift_op f s = (case f (fst s) of (a, h) \<Rightarrow> (a, (h, snd s)))"

definition lift_deps :: "'h tx_deps \<Rightarrow> ('h \<times> 'r) tx_deps" where
  "lift_deps d = \<lparr>
     td_lock = lift_op (td_lock d),
     td_release = (\<lambda>s. (td_release d (fst s), snd s)),
     td_load_config = lift_op (td_load_config d),
     td_save_config = (\<lambda>c. lift_op (td_save_config d c)),
     td_capture = (\<lambda>c. lift_op (td_capture d c)),
     td_apply = (\<lambda>c. lift_op (td_apply d c)),
     td_restore = (\<lambda>us. lift_op (td_restore d us)),
     td_daemon_reload = lift_op (td_daemon_reload d),
     td_is_active = (\<lambda>s. lift_op (td_is_active d s)),
     td_restart = (\<lambda>s. lift_op (td_restart d s)),
     td_prove = (\<lambda>b. lift_op (td_prove d b)),
     td_service = td_service d\<rparr>"

definition refuse :: "string \<Rightarrow> outcome" where
  "refuse why = zero_outcome\<lparr>oc_refused := True, oc_reason := Reason why\<rparr>"

definition no_op :: outcome where
  "no_op = zero_outcome\<lparr>oc_no_op := True\<rparr>"

subsection \<open>Backend, speculation and tools mode\<close>

record 'h backend_deps =
  bd_tx :: "'h tx_deps"
  bd_fits_model :: "villa_config \<Rightarrow> 'h \<Rightarrow> bool \<times> string"
  bd_preflight_rocm :: "villa_config \<Rightarrow> 'h \<Rightarrow> bool \<times> string"

record swap_result =
  sr_outcome :: outcome
  sr_from :: string
  sr_to :: string

definition backend_change :: "'h backend_deps \<Rightarrow> string \<Rightarrow> ('h \<times> swap_result) change" where
  "backend_change d target cfg s =
     (case s of (h, r) \<Rightarrow>
       (let s = (h, r\<lparr>sr_from := cfg_backend cfg\<rparr>) in
        if cfg_backend cfg = target then ((cfg, Some no_op), s)
        else (case bd_fits_model d cfg h of (ok, why) \<Rightarrow>
          if \<not> ok then ((cfg, Some (refuse why)), s)
          else (case bd_preflight_rocm d (cfg\<lparr>cfg_backend := target\<rparr>) h of (ok, why) \<Rightarrow>
            if \<not> ok then ((cfg, Some (refuse why)), s)
            else ((cfg\<lparr>cfg_backend := target\<rparr>, None), s)))))"

definition speculation_change :: "'h backend_deps \<Rightarrow> string \<Rightarrow> ('h \<times> swap_result) change" where
  "speculation_change d target cfg s =
     (case s of (h, r) \<Rightarrow>
       (let from = (if cfg_speculation cfg = [] then speculation_off else cfg_speculation cfg);
            s = (h, r\<lparr>sr_from := from\<rparr>) in
        if from = target then ((cfg, Some no_op), s)
        else (let cfg = cfg\<lparr>cfg_speculation := target\<rparr> in
          (case bd_fits_model d cfg h of (ok, why) \<Rightarrow>
            if \<not> ok then ((cfg, Some (refuse why)), s) else ((cfg, None), s)))))"

definition tools_label :: "bool \<Rightarrow> string" where
  "tools_label on = (if on then ''on'' else ''off'')"

definition coding_implies_tools :: string where
  "coding_implies_tools =
     ''coding mode implies tools mode; run villa coding-mode exit to stop serving tool calls''"

definition tools_change :: "'h backend_deps \<Rightarrow> bool \<Rightarrow> ('h \<times> swap_result) change" where
  "tools_change d on cfg s =
     (case s of (h, r) \<Rightarrow>
       (let s = (h, r\<lparr>sr_from := tools_label (tools_on cfg)\<rparr>) in
        if tools_on cfg = on then ((cfg, Some no_op), s)
        else if \<not> on \<and> coding_mode_on cfg then ((cfg, Some (refuse coding_implies_tools)), s)
        else (let cfg = cfg\<lparr>cfg_tools_mode := on\<rparr> in
          (case bd_fits_model d cfg h of (ok, why) \<Rightarrow>
            if \<not> ok then ((cfg, Some (refuse why)), s) else ((cfg, None), s)))))"

definition run_swap ::
  "'h backend_deps \<Rightarrow> string \<Rightarrow> ('h \<times> swap_result) change \<Rightarrow> 'h \<Rightarrow> swap_result \<times> 'h" where
  "run_swap d to change h =
     (case transact (lift_deps (bd_tx d)) change (h, \<lparr>sr_outcome = zero_outcome, sr_from = [], sr_to = to\<rparr>) of
        (oc, (h, r)) \<Rightarrow> (r\<lparr>sr_outcome := oc\<rparr>, h))"

definition run_backend :: "'h backend_deps \<Rightarrow> string \<Rightarrow> 'h \<Rightarrow> swap_result \<times> 'h" where
  "run_backend d target = run_swap d target (backend_change d target)"

definition run_speculation :: "'h backend_deps \<Rightarrow> string \<Rightarrow> 'h \<Rightarrow> swap_result \<times> 'h" where
  "run_speculation d target = run_swap d target (speculation_change d target)"

definition run_tools :: "'h backend_deps \<Rightarrow> bool \<Rightarrow> 'h \<Rightarrow> swap_result \<times> 'h" where
  "run_tools d on = run_swap d (tools_label on) (tools_change d on)"

subsection \<open>Coding mode\<close>

datatype direction = Enter | Exit

record coder_target =
  ct_model :: string
  ct_quant :: string
  ct_agent_ctx :: int
  ct_residency :: string
  ct_downloaded :: bool

record 'h coding_deps =
  cd_tx :: "'h tx_deps"
  cd_resolve_coder :: "villa_config \<Rightarrow> 'h \<Rightarrow> coder_target \<times> bool \<times> string"
  cd_pull :: "coder_target \<Rightarrow> ('h, unit) eff"

record coding_result =
  cr_outcome :: outcome
  cr_direction :: direction
  cr_from_model :: string
  cr_to_model :: string
  cr_residency :: string

definition coding_exit :: "villa_config \<Rightarrow> villa_config" where
  "coding_exit cfg = cfg\<lparr>cfg_coding_mode := False, cfg_coder_model := [], cfg_coder_quant := [],
     cfg_coder_agent_ctx := 0\<rparr>"

definition pull_failed :: "stack_error \<Rightarrow> outcome" where
  "pull_failed e = zero_outcome\<lparr>oc_failed_step := ''pull'', oc_err := Some e\<rparr>"

definition coding_change :: "'h coding_deps \<Rightarrow> direction \<Rightarrow> ('h \<times> coding_result) change" where
  "coding_change d dir cfg s =
     (case s of (h, r) \<Rightarrow>
       (let r = r\<lparr>cr_from_model := cfg_model cfg, cr_to_model := cfg_model cfg\<rparr> in
        if coding_mode_on cfg = (dir = Enter) then ((cfg, Some no_op), (h, r))
        else if dir = Exit then ((coding_exit cfg, None), (h, r))
        else (case cd_resolve_coder d cfg h of (t, ok, why) \<Rightarrow>
          if \<not> ok then ((cfg, Some (refuse why)), (h, r))
          else
            (let r = r\<lparr>cr_residency := ct_residency t\<rparr>;
                 cfg = cfg\<lparr>cfg_coding_mode := True, cfg_coder_agent_ctx := ct_agent_ctx t\<rparr> in
             if ct_residency t = ''swap''
             then
               (let r = (if ct_model t \<noteq> [] then r\<lparr>cr_to_model := ct_model t\<rparr> else r);
                    done = (cfg\<lparr>cfg_coder_model := ct_model t, cfg_coder_quant := ct_quant t\<rparr>, None) in
                if ct_downloaded t then (done, (h, r))
                else (case cd_pull d t h of
                        (Inl e, h) \<Rightarrow> ((cfg, Some (pull_failed e)), (h, r))
                      | (Inr _, h) \<Rightarrow> (done, (h, r))))
             else ((cfg, None), (h, r))))))"

definition run_coding :: "'h coding_deps \<Rightarrow> direction \<Rightarrow> 'h \<Rightarrow> coding_result \<times> 'h" where
  "run_coding d dir h =
     (case transact (lift_deps (cd_tx d)) (coding_change d dir)
        (h, \<lparr>cr_outcome = zero_outcome, cr_direction = dir, cr_from_model = [], cr_to_model = [],
             cr_residency = []\<rparr>) of
        (oc, (h, r)) \<Rightarrow> (r\<lparr>cr_outcome := oc\<rparr>, h))"

subsection \<open>Model swap\<close>

record fit =
  ft_ok :: bool
  ft_over_envelope :: bool
  ft_detail :: string
  ft_vision :: bool

record 'h model_deps =
  md_tx :: "'h tx_deps"
  md_resolve_catalog :: "string \<Rightarrow> 'h \<Rightarrow> model option"
  md_fits :: "model \<Rightarrow> villa_config \<Rightarrow> 'h \<Rightarrow> fit"
  md_is_downloaded :: "model \<Rightarrow> 'h \<Rightarrow> bool"
  md_pull :: "model \<Rightarrow> ('h, unit) eff"
  md_on_pull :: "(model \<Rightarrow> 'h \<Rightarrow> 'h) option"

record model_result =
  mr_outcome :: outcome
  mr_unknown :: bool
  mr_over_envelope :: bool
  mr_pulled :: bool
  mr_from_model :: string
  mr_to_model :: string
  mr_from_vision :: bool
  mr_to_vision :: bool
  mr_from_ctx :: int
  mr_to_ctx :: int

definition size_swap :: "model \<Rightarrow> villa_config \<Rightarrow> (model \<Rightarrow> villa_config \<Rightarrow> fit) \<Rightarrow> fit \<times> villa_config" where
  "size_swap m cfg fits =
     (let fit = fits m cfg in
      if ft_ok fit \<or> \<not> ft_over_envelope fit \<or> cfg_ctx cfg \<le> m_default_ctx m then (fit, cfg)
      else (let cfg = cfg\<lparr>cfg_ctx := m_default_ctx m\<rparr> in (fits m cfg, cfg)))"

definition swap_target :: "villa_config \<Rightarrow> model \<Rightarrow> villa_config" where
  "swap_target cfg m =
     cfg\<lparr>cfg_model := m_id m, cfg_quant := (if m_quant m \<noteq> [] then m_quant m else cfg_quant cfg)\<rparr>"

definition model_change :: "'h model_deps \<Rightarrow> string \<Rightarrow> ('h \<times> model_result) change" where
  "model_change d name cfg s =
     (case s of (h, r) \<Rightarrow>
       (let r = r\<lparr>mr_from_model := cfg_model cfg, mr_from_vision := cfg_vision cfg,
                  mr_to_vision := cfg_vision cfg, mr_from_ctx := cfg_ctx cfg, mr_to_ctx := cfg_ctx cfg\<rparr> in
        case md_resolve_catalog d name h of
          None \<Rightarrow> ((cfg, Some (refuse ''unknown model'')), (h, r\<lparr>mr_unknown := True\<rparr>))
        | Some m \<Rightarrow>
            (let r = r\<lparr>mr_to_model := m_id m\<rparr> in
             case size_swap m (swap_target cfg m) (\<lambda>m c. md_fits d m c h) of (fit, sized) \<Rightarrow>
               if \<not> ft_ok fit
               then ((cfg, Some (refuse (ft_detail fit))), (h, r\<lparr>mr_over_envelope := ft_over_envelope fit\<rparr>))
               else
                 (let next = (sized\<lparr>cfg_vision := ft_vision fit\<rparr>, None);
                      lab = (\<lambda>r. r\<lparr>mr_to_vision := ft_vision fit, mr_to_ctx := cfg_ctx sized\<rparr>) in
                  if md_is_downloaded d m h then (next, (h, lab r))
                  else
                    (case md_pull d m (case md_on_pull d of None \<Rightarrow> h | Some f \<Rightarrow> f m h) of
                       (Inl e, h) \<Rightarrow> ((cfg, Some (pull_failed e)), (h, r))
                     | (Inr _, h) \<Rightarrow> (next, (h, lab (r\<lparr>mr_pulled := True\<rparr>))))))))"

definition run_model :: "'h model_deps \<Rightarrow> string \<Rightarrow> 'h \<Rightarrow> model_result \<times> 'h" where
  "run_model d name h =
     (case transact (lift_deps (md_tx d)) (model_change d name)
        (h, \<lparr>mr_outcome = zero_outcome, mr_unknown = False, mr_over_envelope = False, mr_pulled = False,
             mr_from_model = [], mr_to_model = name, mr_from_vision = False, mr_to_vision = False,
             mr_from_ctx = 0, mr_to_ctx = 0\<rparr>) of
        (oc, (h, r)) \<Rightarrow> (r\<lparr>mr_outcome := oc\<rparr>, h))"

subsection \<open>Properties\<close>

lemma backend_change_goes:
  assumes "snd (fst (backend_change d target cfg (h, r))) = None"
  shows "fst (fst (backend_change d target cfg (h, r))) = cfg\<lparr>cfg_backend := target\<rparr>
       \<and> cfg_backend cfg \<noteq> target \<and> fst (bd_fits_model d cfg h)
       \<and> fst (bd_preflight_rocm d (cfg\<lparr>cfg_backend := target\<rparr>) h)"
proof (cases "cfg_backend cfg = target")
  case True
  with assms show ?thesis by (simp add: backend_change_def)
next
  case False
  then show ?thesis
    using assms
    by (cases "bd_fits_model d cfg h"; cases "bd_preflight_rocm d (cfg\<lparr>cfg_backend := target\<rparr>) h";
        cases "fst (bd_fits_model d cfg h)"; cases "fst (bd_preflight_rocm d (cfg\<lparr>cfg_backend := target\<rparr>) h)")
      (simp_all add: backend_change_def)
qed

lemma speculation_change_eq:
  "speculation_change d target cfg (h, r) =
     (let from = (if cfg_speculation cfg = [] then speculation_off else cfg_speculation cfg);
          next = cfg\<lparr>cfg_speculation := target\<rparr>; s = (h, r\<lparr>sr_from := from\<rparr>);
          v = bd_fits_model d next h
      in if from = target then ((cfg, Some no_op), s)
         else if fst v then ((next, None), s) else ((next, Some (refuse (snd v))), s))"
  unfolding speculation_change_def Let_def prod.case split_beta if_not_P if_distrib by simp

lemma speculation_change_goes:
  assumes "snd (fst (speculation_change d target cfg (h, r))) = None"
  shows "fst (fst (speculation_change d target cfg (h, r))) = cfg\<lparr>cfg_speculation := target\<rparr>
       \<and> fst (bd_fits_model d (cfg\<lparr>cfg_speculation := target\<rparr>) h)"
  using assms unfolding speculation_change_eq Let_def
  by (auto simp only: fst_conv snd_conv option.distinct split: if_split_asm if_split)

lemma tools_change_eq:
  "tools_change d on cfg (h, r) =
     (let next = cfg\<lparr>cfg_tools_mode := on\<rparr>; s = (h, r\<lparr>sr_from := tools_label (tools_on cfg)\<rparr>);
          v = bd_fits_model d next h
      in if tools_on cfg = on then ((cfg, Some no_op), s)
         else if \<not> on \<and> coding_mode_on cfg then ((cfg, Some (refuse coding_implies_tools)), s)
         else if fst v then ((next, None), s) else ((next, Some (refuse (snd v))), s))"
  unfolding tools_change_def Let_def prod.case split_beta by simp

lemma tools_change_goes:
  assumes "snd (fst (tools_change d on cfg (h, r))) = None"
  shows "fst (fst (tools_change d on cfg (h, r))) = cfg\<lparr>cfg_tools_mode := on\<rparr>
       \<and> tools_on (cfg\<lparr>cfg_tools_mode := on\<rparr>) = on
       \<and> fst (bd_fits_model d (cfg\<lparr>cfg_tools_mode := on\<rparr>) h)"
proof -
  have g: "\<not> (tools_on cfg = on) \<and> \<not> (\<not> on \<and> coding_mode_on cfg)
      \<and> fst (bd_fits_model d (cfg\<lparr>cfg_tools_mode := on\<rparr>) h)"
    using assms unfolding tools_change_eq Let_def
    by (simp only: fst_conv snd_conv option.distinct simp_thms split: if_split_asm)
  then have "tools_on (cfg\<lparr>cfg_tools_mode := on\<rparr>) = on"
    by (auto simp: tools_on_def coding_mode_on_def)
  with g show ?thesis unfolding tools_change_eq Let_def by (simp only: if_False fst_conv simp_thms) simp
qed

text \<open>The three re-serving verbs go ahead only behind their guards, and write one field. A
  backend change passed the fit check of the preserved model and the ROCm preflight of the target;
  a speculation or tools-mode change passed the fit check of the config it will write; the target
  config differs from the loaded one in that field alone; and tools mode is never left while coding
  mode holds it on.\<close>

theorem serving_changes_guarded:
  "(snd (fst (backend_change d target cfg (h, r))) = None \<longrightarrow>
       fst (fst (backend_change d target cfg (h, r))) = cfg\<lparr>cfg_backend := target\<rparr>
     \<and> cfg_backend cfg \<noteq> target \<and> fst (bd_fits_model d cfg h)
     \<and> fst (bd_preflight_rocm d (cfg\<lparr>cfg_backend := target\<rparr>) h))
   \<and> (snd (fst (speculation_change d target cfg (h, r))) = None \<longrightarrow>
       fst (fst (speculation_change d target cfg (h, r))) = cfg\<lparr>cfg_speculation := target\<rparr>
     \<and> fst (bd_fits_model d (cfg\<lparr>cfg_speculation := target\<rparr>) h))
   \<and> (snd (fst (tools_change d on cfg (h, r))) = None \<longrightarrow>
       fst (fst (tools_change d on cfg (h, r))) = cfg\<lparr>cfg_tools_mode := on\<rparr>
     \<and> tools_on (cfg\<lparr>cfg_tools_mode := on\<rparr>) = on
     \<and> fst (bd_fits_model d (cfg\<lparr>cfg_tools_mode := on\<rparr>) h))"
  by (rule conjI [OF impI conjI [OF impI impI]])
    (rule backend_change_goes speculation_change_goes tools_change_goes, assumption)+

definition sample_guards :: "unit live_host backend_deps" where
  "sample_guards = \<lparr>bd_tx = live_tx working_env ''villa-llama.service'',
     bd_fits_model = (\<lambda>_ _. (True, [])), bd_preflight_rocm = (\<lambda>_ _. (True, []))\<rparr>"

theorem serving_changes_guarded_witness:
  "tools_on (fst (fst (tools_change sample_guards True sample_config
     (sample_lhost, \<lparr>sr_outcome = zero_outcome, sr_from = [], sr_to = []\<rparr>))))"
proof -
  let ?s = "(sample_lhost, \<lparr>sr_outcome = zero_outcome, sr_from = [], sr_to = []\<rparr>)"
  have go: "snd (fst (tools_change sample_guards True sample_config ?s)) = None"
    by (simp add: tools_change_eq Let_def sample_guards_def tools_on_def sample_config_def)
  note spec = serving_changes_guarded [of sample_guards "[]" sample_config sample_lhost
      "\<lparr>sr_outcome = zero_outcome, sr_from = [], sr_to = []\<rparr>" True]
  from spec [THEN conjunct2, THEN conjunct2, rule_format, OF go] show ?thesis by (metis (no_types))
qed

text \<open>Coding mode is entered to serve what its residency says and left to serve the chat model.
  An entry that goes ahead serves the coder at the agent context under swap residency and the chat
  model at the agent context otherwise, never touches the durable chat model, and needed a coder
  that resolved and, if it was not on disk, a pull that succeeded. An exit serves the chat model at
  the chat context.\<close>

theorem coding_mode_serves:
  assumes "fst (coding_change d dir cfg (h, r)) = (next, None)"
  shows "cfg_model next = cfg_model cfg \<and> cfg_ctx next = cfg_ctx cfg
       \<and> (dir = Exit \<longrightarrow> \<not> coding_mode_on next \<and> served_target next = (cfg_model cfg, cfg_ctx cfg))
       \<and> (dir = Enter \<longrightarrow> (\<exists>t why. cd_resolve_coder d cfg h = (t, True, why) \<and> coding_mode_on next
            \<and> (ct_residency t = ''swap'' \<longrightarrow> (ct_downloaded t \<or> fst (cd_pull d t h) = Inr ()))
            \<and> (cfg_coder_model cfg = [] \<longrightarrow> served_target next =
                 (if ct_residency t = ''swap'' \<and> ct_model t \<noteq> [] then ct_model t else cfg_model cfg,
                  ct_agent_ctx t))))"
proof (cases dir)
  case Exit
  show ?thesis
  proof (cases "coding_mode_on cfg")
    case True
    with Exit assms have "next = coding_exit cfg" by (simp add: coding_change_def Let_def)
    with Exit show ?thesis by (simp add: coding_exit_def served_target_def coding_mode_on_def)
  next
    case False
    with Exit assms show ?thesis by (simp add: coding_change_def Let_def)
  qed
next
  case Enter
  have off: "\<not> coding_mode_on cfg"
    using Enter assms by (auto simp: coding_change_def Let_def)
  obtain t ok why where t: "cd_resolve_coder d cfg h = (t, ok, why)" by (metis prod.exhaust)
  have ok: "ok" using Enter assms off t by (cases ok) (simp_all add: coding_change_def)
  show ?thesis
  proof (cases "ct_residency t = ''swap''")
    case False
    with Enter assms off t ok have
      "next = cfg\<lparr>cfg_coding_mode := True, cfg_coder_agent_ctx := ct_agent_ctx t\<rparr>"
      by (simp add: coding_change_def Let_def)
    with Enter t ok False show ?thesis by (simp add: served_target_def coding_mode_on_def)
  next
    case True
    have n: "next = cfg\<lparr>cfg_coding_mode := True, cfg_coder_agent_ctx := ct_agent_ctx t,
        cfg_coder_model := ct_model t, cfg_coder_quant := ct_quant t\<rparr>
      \<and> (ct_downloaded t \<or> fst (cd_pull d t h) = Inr ())"
    proof (cases "ct_downloaded t")
      case True
      with \<open>ct_residency t = ''swap''\<close> Enter assms off t ok show ?thesis
        by (simp add: coding_change_def Let_def)
    next
      case False
      obtain q g where q: "cd_pull d t h = (q, g)" by fastforce
      with False \<open>ct_residency t = ''swap''\<close> Enter assms off t ok show ?thesis
        by (cases q) (simp_all add: coding_change_def Let_def)
    qed
    with Enter t ok True show ?thesis by (simp add: served_target_def coding_mode_on_def)
  qed
qed

definition sample_coding :: "unit live_host coding_deps" where
  "sample_coding = \<lparr>cd_tx = live_tx working_env ''villa-llama.service'',
     cd_resolve_coder = (\<lambda>_ _. (\<lparr>ct_model = ''coder'', ct_quant = ''Q4'', ct_agent_ctx = 32768,
        ct_residency = ''swap'', ct_downloaded = True\<rparr>, True, [])),
     cd_pull = (\<lambda>_ h. (Inr (), h))\<rparr>"

definition zero_coding :: "direction \<Rightarrow> coding_result" where
  "zero_coding dir = \<lparr>cr_outcome = zero_outcome, cr_direction = dir, cr_from_model = [], cr_to_model = [],
     cr_residency = []\<rparr>"

theorem coding_mode_serves_witness:
  "served_target (fst (fst (coding_change sample_coding Enter sample_config
     (sample_lhost, zero_coding Enter)))) = (''coder'', 32768)"
proof -
  let ?r = "fst (coding_change sample_coding Enter sample_config (sample_lhost, zero_coding Enter))"
  have "snd ?r = None" by code_simp
  then have "?r = (fst ?r, None)" by (metis prod.collapse)
  from coding_mode_serves [OF this] show ?thesis
    by (auto simp: sample_coding_def sample_config_def)
qed

text \<open>The swap's context rule. The config a model swap would write keeps every field but the
  context; the context is the configured one, or the target's default when the target was over the
  envelope at a larger configured one; the context is never raised; the answer is the fit of the
  config it returns, and a fit that is refused at the configured context for any other reason than
  memory is not retried.\<close>

theorem size_swap_rule:
  assumes "size_swap m cfg fits = (fit, sized)"
  shows "fit = fits m sized \<and> cfg_ctx sized \<le> cfg_ctx cfg
       \<and> (if ft_ok (fits m cfg) \<or> \<not> ft_over_envelope (fits m cfg) \<or> cfg_ctx cfg \<le> m_default_ctx m
          then sized = cfg else sized = cfg\<lparr>cfg_ctx := m_default_ctx m\<rparr>)
       \<and> (\<not> ft_ok fit \<longrightarrow> \<not> ft_ok (fits m cfg))"
  using assms by (auto simp: size_swap_def Let_def split: if_splits)

theorem size_swap_rule_witness:
  "cfg_ctx (snd (size_swap sample_entry (sample_config\<lparr>cfg_ctx := 9\<rparr>)
     (\<lambda>m c. \<lparr>ft_ok = (cfg_ctx c \<le> 5), ft_over_envelope = (cfg_ctx c > 5), ft_detail = [],
             ft_vision = False\<rparr>))) = 1"
  using size_swap_rule [OF prod.collapse [symmetric], of sample_entry "sample_config\<lparr>cfg_ctx := 9\<rparr>"
      "\<lambda>m c. \<lparr>ft_ok = (cfg_ctx c \<le> 5), ft_over_envelope = (cfg_ctx c > 5), ft_detail = [],
             ft_vision = False\<rparr>"]
  by (simp add: sample_entry_def)

end
