(* ===== verification/Archive.thy ===== *)
theory Archive
  imports GoPaths
begin

text \<open>
  \<open>internal/backup\<close>, its pure part: the registry of archive entries, the manifest, the reading and
  verifying of an archive, and the comparison of a manifest with the current install. A tar stream is what
  Go's \<open>archive/tar\<close> yields: its members in order, a body that may fail to read, and the error it may
  end on. SHA-256 and the JSON of the manifest are parameters. Where the source walks a map, the first
  offending name in archive order stands for the one Go happens to meet.
\<close>

subsection \<open>The registry\<close>

definition entry_manifest :: string where "entry_manifest = ''manifest.json''"
definition entry_config :: string where "entry_config = ''config.toml''"
definition entry_owui_volume :: string where "entry_owui_volume = ''openwebui-volume.tar''"
definition entry_usage :: string where "entry_usage = ''usage.json''"
definition entry_bench_reports :: string where "entry_bench_reports = ''bench-reports.jsonl''"
definition entry_qdrant_volume :: string where "entry_qdrant_volume = ''qdrant-volume.tar''"
definition entry_recall_state :: string where "entry_recall_state = ''recall-state.json''"
definition entry_crush_config :: string where "entry_crush_config = ''crush.json''"
definition entry_searxng_settings :: string where "entry_searxng_settings = ''searxng-settings.yml''"
definition entry_eval_baselines :: string where "entry_eval_baselines = ''eval-baselines.json''"

named_theorems entry_names

lemmas entry_consts [entry_names] = entry_manifest_def entry_config_def entry_owui_volume_def entry_usage_def
  entry_bench_reports_def entry_qdrant_volume_def entry_recall_state_def entry_crush_config_def
  entry_searxng_settings_def entry_eval_baselines_def

datatype entry_kind = KindVolume | KindConfig | KindFile

record archive_row =
  ar_name :: string
  ar_label :: string
  ar_kind :: entry_kind
  ar_required :: bool

definition archive_registry :: "archive_row list" where
  "archive_registry =
     [\<lparr>ar_name = entry_owui_volume, ar_label = ''owui volume'', ar_kind = KindVolume, ar_required = True\<rparr>,
      \<lparr>ar_name = entry_config, ar_label = ''config.toml'', ar_kind = KindConfig, ar_required = True\<rparr>,
      \<lparr>ar_name = entry_usage, ar_label = ''usage.json'', ar_kind = KindFile, ar_required = False\<rparr>,
      \<lparr>ar_name = entry_bench_reports, ar_label = ''bench-reports.jsonl'', ar_kind = KindFile, ar_required = False\<rparr>,
      \<lparr>ar_name = entry_qdrant_volume, ar_label = ''qdrant volume'', ar_kind = KindVolume, ar_required = False\<rparr>,
      \<lparr>ar_name = entry_recall_state, ar_label = ''recall-state.json'', ar_kind = KindFile, ar_required = False\<rparr>,
      \<lparr>ar_name = entry_crush_config, ar_label = ''crush.json'', ar_kind = KindFile, ar_required = False\<rparr>,
      \<lparr>ar_name = entry_searxng_settings, ar_label = ''settings.yml'', ar_kind = KindFile, ar_required = False\<rparr>,
      \<lparr>ar_name = entry_eval_baselines, ar_label = ''eval-baselines.json'', ar_kind = KindFile, ar_required = False\<rparr>]"

definition rows_of_kind :: "entry_kind \<Rightarrow> archive_row list" where
  "rows_of_kind k = filter (\<lambda>r. ar_kind r = k) archive_registry"

definition file_rows :: "archive_row list" where
  "file_rows = rows_of_kind KindFile"

subsection \<open>The manifest\<close>

record entry_checksum =
  ec_name :: string
  ec_sha :: string

record excluded_model =
  xm_id :: string
  xm_quant :: string
  xm_ctx :: string
  xm_source :: string

record excluded_agent =
  xa_sha :: string
  xa_version :: string
  xa_pin :: string

record host_fingerprint =
  hf_arch :: string
  hf_igpu :: string
  hf_kernel :: string

record manifest_input =
  mi_created_at :: string
  mi_villa_version :: string
  mi_host :: host_fingerprint
  mi_inference_image :: string
  mi_owui_image :: string
  mi_config_schema :: int
  mi_usage_schema :: int
  mi_bench_schema :: int
  mi_entries :: "entry_checksum list"
  mi_excluded_models :: "excluded_model list"
  mi_embedding_model :: string
  mi_embedding_dim :: int
  mi_recall_schema :: int
  mi_eval_schema :: int
  mi_excluded_agent :: "excluded_agent option"

text \<open>The manifest is its input and the schema version stamped on it.\<close>

record backup_manifest = manifest_input +
  bm_schema :: int

definition backup_schema_version :: int where "backup_schema_version = 5"

definition build_manifest :: "manifest_input \<Rightarrow> backup_manifest" where
  "build_manifest i = manifest_input.extend i \<lparr>bm_schema = backup_schema_version\<rparr>"

subsection \<open>Reading an archive\<close>

definition max_entry_bytes :: nat where "max_entry_bytes = 8 * 2 ^ 30"
definition max_archive_bytes :: nat where "max_archive_bytes = 16 * 2 ^ 30"
definition max_entry_count :: nat where "max_entry_count = 64"

record tar_stream =
  tr_members :: "(string \<times> (string + string)) list"
  tr_error :: "string option"

datatype archive_error =
    NilOpener | OpenFailed string | TarBroken string | TooManyEntries | EntryEscapes string
  | BodyUnreadable string string | EntryTooLarge string | ArchiveTooLarge
  | ManifestNotFirst nat | ManifestUnreadable string | ManifestSchema int
  | EntryBeforeManifest string | DuplicateEntry string | NoManifest
  | EntryUnlisted string | EntryMissing string | ChecksumMismatch string | RequiredMissing string

text \<open>The tar-slip guard of one member's name, against the directory the process is in.\<close>

definition entry_inside :: "string option \<Rightarrow> string \<Rightarrow> bool" where
  "entry_inside cwd name \<longleftrightarrow> \<not> is_abs name \<and> inside cwd (join_path ''.'' name) ''.'' = Inr ()"

record collector =
  co_manifest :: "backup_manifest option"
  co_idx :: nat
  co_files :: "(string \<times> string) list"

definition manifest_schema_ok :: "backup_manifest \<Rightarrow> bool" where
  "manifest_schema_ok m \<longleftrightarrow> 0 < bm_schema m \<and> bm_schema m \<le> backup_schema_version"

definition add_manifest ::
  "(string \<Rightarrow> string + backup_manifest) \<Rightarrow> nat \<Rightarrow> string \<Rightarrow> collector \<Rightarrow> archive_error + collector" where
  "add_manifest parse idx data c =
     (if idx \<noteq> 0 then Inl (ManifestNotFirst idx)
      else (case parse data of
        Inl e \<Rightarrow> Inl (ManifestUnreadable e)
      | Inr m \<Rightarrow> if manifest_schema_ok m then Inr (c\<lparr>co_manifest := Some m\<rparr>) else Inl (ManifestSchema (bm_schema m))))"

definition add_entry :: "string \<Rightarrow> string \<Rightarrow> collector \<Rightarrow> archive_error + collector" where
  "add_entry name data c =
     (if co_manifest c = None then Inl (EntryBeforeManifest name)
      else if map_of (co_files c) name \<noteq> None then Inl (DuplicateEntry name)
      else Inr (c\<lparr>co_files := co_files c @ [(name, data)]\<rparr>))"

definition add_member ::
  "(string \<Rightarrow> string + backup_manifest) \<Rightarrow> string \<Rightarrow> string \<Rightarrow> collector \<Rightarrow> archive_error + collector" where
  "add_member parse name data c =
     (let c1 = c\<lparr>co_idx := co_idx c + 1\<rparr> in
      if name = entry_manifest then add_manifest parse (co_idx c) data c1 else add_entry name data c1)"

text \<open>\<open>readArchive\<close> from its \<open>count\<close>-th member and \<open>sofar\<close> bytes on.\<close>

fun read_members ::
  "string option \<Rightarrow> (string \<Rightarrow> string + backup_manifest) \<Rightarrow> nat \<Rightarrow> nat \<Rightarrow> (string \<times> (string + string)) list
     \<Rightarrow> string option \<Rightarrow> collector \<Rightarrow> archive_error + collector" where
  "read_members cwd parse count sofar [] err c = (case err of None \<Rightarrow> Inr c | Some e \<Rightarrow> Inl (TarBroken e))"
| "read_members cwd parse count sofar ((name, body) # ms) err c =
     (if count + 1 > max_entry_count then Inl TooManyEntries
      else if \<not> entry_inside cwd name then Inl (EntryEscapes name)
      else (case body of
        Inl e \<Rightarrow> Inl (BodyUnreadable name e)
      | Inr data \<Rightarrow>
          if length data > max_entry_bytes then Inl (EntryTooLarge name)
          else if sofar + length data > max_archive_bytes then Inl ArchiveTooLarge
          else (case add_member parse name data c of
            Inl e \<Rightarrow> Inl e
          | Inr c1 \<Rightarrow> read_members cwd parse (count + 1) (sofar + length data) ms err c1)))"

definition empty_collector :: collector where
  "empty_collector = \<lparr>co_manifest = None, co_idx = 0, co_files = []\<rparr>"

definition collect_archive ::
  "string option \<Rightarrow> (string \<Rightarrow> string + backup_manifest) \<Rightarrow> (string + tar_stream) option
     \<Rightarrow> archive_error + (backup_manifest \<times> (string \<times> string) list)" where
  "collect_archive cwd parse opened =
     (case opened of
        None \<Rightarrow> Inl NilOpener
      | Some (Inl e) \<Rightarrow> Inl (OpenFailed e)
      | Some (Inr ts) \<Rightarrow>
          (case read_members cwd parse 0 0 (tr_members ts) (tr_error ts) empty_collector of
             Inl e \<Rightarrow> Inl e
           | Inr c \<Rightarrow> (case co_manifest c of None \<Rightarrow> Inl NoManifest | Some m \<Rightarrow> Inr (m, co_files c))))"

subsection \<open>Verifying\<close>

text \<open>The checksums the manifest lists, the last row of a name winning.\<close>

definition listed_sums :: "entry_checksum list \<Rightarrow> string \<Rightarrow> string option" where
  "listed_sums es = map_of (rev (map (\<lambda>e. (ec_name e, ec_sha e)) es))"

definition reject_unlisted :: "(string \<Rightarrow> string option) \<Rightarrow> (string \<times> string) list \<Rightarrow> archive_error option" where
  "reject_unlisted want files =
     (case find (\<lambda>(n, _). want n = None) files of None \<Rightarrow> None | Some (n, _) \<Rightarrow> Some (EntryUnlisted n))"

fun verify_listed ::
  "(string \<Rightarrow> string) \<Rightarrow> (string \<Rightarrow> string option) \<Rightarrow> (string \<times> string) list \<Rightarrow> string list \<Rightarrow> archive_error option" where
  "verify_listed sha want files [] = None"
| "verify_listed sha want files (n # ns) =
     (case map_of files n of
        None \<Rightarrow> Some (EntryMissing n)
      | Some data \<Rightarrow> if Some (sha data) \<noteq> want n then Some (ChecksumMismatch n) else verify_listed sha want files ns)"

definition verify_members ::
  "(string \<Rightarrow> string) \<Rightarrow> backup_manifest \<Rightarrow> (string \<times> string) list \<Rightarrow> archive_error option" where
  "verify_members sha m files =
     (let want = listed_sums (mi_entries m) in
      case reject_unlisted want files of
        Some e \<Rightarrow> Some e
      | None \<Rightarrow> verify_listed sha want files (map ec_name (mi_entries m)))"

record extracted =
  ex_manifest :: backup_manifest
  ex_config :: string
  ex_owui :: string
  ex_qdrant :: "string option"
  ex_files :: "string \<Rightarrow> string option"

definition extract_payload :: "backup_manifest \<Rightarrow> (string \<times> string) list \<Rightarrow> archive_error + extracted" where
  "extract_payload m files =
     (case map_of files entry_config of
        None \<Rightarrow> Inl (RequiredMissing entry_config)
      | Some cfg \<Rightarrow>
          (case map_of files entry_owui_volume of
             None \<Rightarrow> Inl (RequiredMissing entry_owui_volume)
           | Some owui \<Rightarrow>
               Inr \<lparr>ex_manifest = m, ex_config = cfg, ex_owui = owui, ex_qdrant = map_of files entry_qdrant_volume,
                    ex_files = (\<lambda>n. if n \<in> ar_name ` set file_rows then map_of files n else None)\<rparr>))"

definition read_and_verify ::
  "string option \<Rightarrow> (string \<Rightarrow> string + backup_manifest) \<Rightarrow> (string \<Rightarrow> string) \<Rightarrow> (string + tar_stream) option
     \<Rightarrow> archive_error + extracted" where
  "read_and_verify cwd parse sha opened =
     result_bind (collect_archive cwd parse opened) (\<lambda>(m, files).
       case verify_members sha m files of Some e \<Rightarrow> Inl e | None \<Rightarrow> extract_payload m files)"

subsection \<open>Skew\<close>

record current_install =
  ci_villa_version :: string
  ci_inference_image :: string
  ci_owui_image :: string
  ci_host :: host_fingerprint
  ci_config_schema :: int
  ci_usage_schema :: int
  ci_bench_schema :: int
  ci_embedding_model :: string
  ci_embedding_dim :: int
  ci_recall_schema :: int
  ci_eval_schema :: int
  ci_checksum_failed :: bool

datatype skew_warning =
    VillaVersionSkew string string | InferenceImageSkew string string | OwuiImageSkew string string
  | HostSkew host_fingerprint host_fingerprint | EmbeddingSkew string int string int
  | OlderStore string int int | EvalUnreadable string

datatype skew_block = ChecksumBlock | ManifestBlock int | NewerStore string int int

definition store_versions :: "backup_manifest \<Rightarrow> current_install \<Rightarrow> (string \<times> int \<times> int) list" where
  "store_versions m cur =
     [(''config'', mi_config_schema m, ci_config_schema cur), (''usage'', mi_usage_schema m, ci_usage_schema cur),
      (''bench'', mi_bench_schema m, ci_bench_schema cur), (''recall'', mi_recall_schema m, ci_recall_schema cur),
      (''eval'', mi_eval_schema m, ci_eval_schema cur)]"

definition manifest_block :: "backup_manifest \<Rightarrow> current_install \<Rightarrow> skew_block option" where
  "manifest_block m cur =
     (if ci_checksum_failed cur then Some ChecksumBlock
      else if bm_schema m \<le> 0 \<or> bm_schema m > backup_schema_version then Some (ManifestBlock (bm_schema m))
      else None)"

definition block_on_newer :: "string \<times> int \<times> int \<Rightarrow> skew_block option" where
  "block_on_newer s = (case s of (n, v, c) \<Rightarrow> if v > 0 \<and> v > c then Some (NewerStore n v c) else None)"

fun store_block :: "(string \<times> int \<times> int) list \<Rightarrow> skew_block option" where
  "store_block [] = None"
| "store_block (s # ss) = (case block_on_newer s of Some b \<Rightarrow> Some b | None \<Rightarrow> store_block ss)"

definition block_reason :: "backup_manifest \<Rightarrow> current_install \<Rightarrow> skew_block option" where
  "block_reason m cur =
     (case manifest_block m cur of Some b \<Rightarrow> Some b | None \<Rightarrow> store_block (store_versions m cur))"

definition warn_older :: "string \<times> int \<times> int \<Rightarrow> skew_warning list" where
  "warn_older s = (case s of (n, v, c) \<Rightarrow> if v > 0 \<and> v < c then [OlderStore n v c] else [])"

definition skew_warnings :: "backup_manifest \<Rightarrow> current_install \<Rightarrow> skew_warning list" where
  "skew_warnings m cur =
     (if mi_villa_version m \<noteq> ci_villa_version cur then [VillaVersionSkew (mi_villa_version m) (ci_villa_version cur)] else [])
     @ (if mi_inference_image m \<noteq> ci_inference_image cur
        then [InferenceImageSkew (mi_inference_image m) (ci_inference_image cur)] else [])
     @ (if mi_owui_image m \<noteq> ci_owui_image cur then [OwuiImageSkew (mi_owui_image m) (ci_owui_image cur)] else [])
     @ (if mi_host m \<noteq> ci_host cur then [HostSkew (mi_host m) (ci_host cur)] else [])
     @ (if mi_embedding_model m \<noteq> []
           \<and> (mi_embedding_model m \<noteq> ci_embedding_model cur \<or> mi_embedding_dim m \<noteq> ci_embedding_dim cur)
        then [EmbeddingSkew (mi_embedding_model m) (mi_embedding_dim m) (ci_embedding_model cur) (ci_embedding_dim cur)]
        else [])
     @ concat (map warn_older (store_versions m cur))"

definition compare_skew :: "backup_manifest \<Rightarrow> current_install \<Rightarrow> skew_block + skew_warning list" where
  "compare_skew m cur =
     (case block_reason m cur of Some b \<Rightarrow> Inl b | None \<Rightarrow> Inr (skew_warnings m cur))"

end
