(* ===== verification/Flow.thy ===== *)
theory Flow
  imports Prelude
begin

text \<open>
  Long straight-line procedures of the source with early returns: a computation takes a state and
  either stops with an exit value or goes on with a result. The triples give a precondition, a
  postcondition for going on and one for stopping; \<open>flow_rules\<close> collects the rules by which a
  procedure's triple is found from those of its steps.
\<close>

named_theorems flow_rules

type_synonym ('s, 'e, 'a) flow = "'s \<Rightarrow> ('e + 'a) \<times> 's"

definition ret :: "'a \<Rightarrow> ('s, 'e, 'a) flow" where
  "ret a s = (Inr a, s)"

definition stop :: "'e \<Rightarrow> ('s, 'e, 'a) flow" where
  "stop e s = (Inl e, s)"

definition andthen :: "('s, 'e, 'a) flow \<Rightarrow> ('a \<Rightarrow> ('s, 'e, 'b) flow) \<Rightarrow> ('s, 'e, 'b) flow" where
  "andthen m f s = (case m s of (Inl e, s') \<Rightarrow> (Inl e, s') | (Inr a, s') \<Rightarrow> f a s')"

definition whenever :: "bool \<Rightarrow> ('s, 'e, unit) flow \<Rightarrow> ('s, 'e, unit) flow" where
  "whenever b m = (if b then m else ret ())"

definition current :: "('s \<Rightarrow> 'a) \<Rightarrow> ('s, 'e, 'a) flow" where
  "current f s = (Inr (f s), s)"

definition change :: "('s \<Rightarrow> 's) \<Rightarrow> ('s, 'e, unit) flow" where
  "change g s = (Inr (), g s)"

text \<open>A step whose failure is an error text.\<close>

definition attempt :: "(string \<Rightarrow> 'e) \<Rightarrow> ('h \<Rightarrow> string option \<times> 'h) \<Rightarrow> ('h, 'e, unit) flow" where
  "attempt err f h = (case f h of (None, h') \<Rightarrow> (Inr (), h') | (Some e, h') \<Rightarrow> (Inl (err e), h'))"

fun for_each :: "('x \<Rightarrow> ('s, 'e, unit) flow) \<Rightarrow> 'x list \<Rightarrow> ('s, 'e, unit) flow" where
  "for_each f [] = ret ()"
| "for_each f (x # xs) = andthen (f x) (\<lambda>_. for_each f xs)"

definition triple ::
  "('s \<Rightarrow> bool) \<Rightarrow> ('s, 'e, 'a) flow \<Rightarrow> ('a \<Rightarrow> 's \<Rightarrow> bool) \<Rightarrow> ('e \<Rightarrow> 's \<Rightarrow> bool) \<Rightarrow> bool" where
  "triple P m Q E \<longleftrightarrow> (\<forall>s. P s \<longrightarrow> (case m s of (Inr a, s') \<Rightarrow> Q a s' | (Inl e, s') \<Rightarrow> E e s'))"

lemma tripleI: "(\<And>s. P s \<Longrightarrow> (case m s of (Inr a, s') \<Rightarrow> Q a s' | (Inl e, s') \<Rightarrow> E e s')) \<Longrightarrow> triple P m Q E"
  by (simp add: triple_def)

lemma triple_Inr: "triple P m Q E \<Longrightarrow> P s \<Longrightarrow> m s = (Inr a, s') \<Longrightarrow> Q a s'"
  by (fastforce simp: triple_def)

lemma triple_Inl: "triple P m Q E \<Longrightarrow> P s \<Longrightarrow> m s = (Inl e, s') \<Longrightarrow> E e s'"
  by (fastforce simp: triple_def)

lemma triple_ret [flow_rules]: "(\<And>s. P s \<Longrightarrow> Q a s) \<Longrightarrow> triple P (ret a) Q E"
  by (simp add: triple_def ret_def)

lemma triple_stop [flow_rules]: "(\<And>s. P s \<Longrightarrow> E e s) \<Longrightarrow> triple P (stop e) Q E"
  by (simp add: triple_def stop_def)

lemma triple_current: "(\<And>s. P s \<Longrightarrow> Q (f s) s) \<Longrightarrow> triple P (current f) Q E"
  by (simp add: triple_def current_def)

lemma triple_change: "(\<And>s. P s \<Longrightarrow> Q () (g s)) \<Longrightarrow> triple P (change g) Q E"
  by (simp add: triple_def change_def)

lemma triple_andthen:
  assumes "triple P m R E" and "\<And>a. triple (R a) (f a) Q E"
  shows "triple P (andthen m f) Q E"
  using assms unfolding triple_def andthen_def by (fastforce split: prod.splits sum.splits)

lemma triple_weaken:
  assumes "triple P' m Q' E'" and "\<And>s. P s \<Longrightarrow> P' s" and "\<And>a s. Q' a s \<Longrightarrow> Q a s" and "\<And>e s. E' e s \<Longrightarrow> E e s"
  shows "triple P m Q E"
  using assms unfolding triple_def by (fastforce split: prod.splits sum.splits)

lemma triple_pre: "(\<And>s. P s \<Longrightarrow> P' s) \<Longrightarrow> triple P' m Q E \<Longrightarrow> triple P m Q E"
  by (simp add: triple_def)

lemma triple_if [flow_rules]:
  "(b \<Longrightarrow> triple P m Q E) \<Longrightarrow> (\<not> b \<Longrightarrow> triple P n Q E) \<Longrightarrow> triple P (if b then m else n) Q E"
  by simp

lemma triple_whenever [flow_rules]:
  "(b \<Longrightarrow> triple P m (\<lambda>_. Q ()) E) \<Longrightarrow> (\<And>s. \<not> b \<Longrightarrow> P s \<Longrightarrow> Q () s) \<Longrightarrow> triple P (whenever b m) Q E"
  by (simp add: whenever_def triple_def ret_def)

lemma triple_option [flow_rules]:
  "(x = None \<Longrightarrow> triple P m Q E) \<Longrightarrow> (\<And>a. x = Some a \<Longrightarrow> triple P (f a) Q E) \<Longrightarrow>
   triple P (case x of None \<Rightarrow> m | Some a \<Rightarrow> f a) Q E"
  by (cases x) auto

lemma triple_sum [flow_rules]:
  "(\<And>a. x = Inl a \<Longrightarrow> triple P (f a) Q E) \<Longrightarrow> (\<And>b. x = Inr b \<Longrightarrow> triple P (g b) Q E) \<Longrightarrow>
   triple P (case x of Inl a \<Rightarrow> f a | Inr b \<Rightarrow> g b) Q E"
  by (cases x) auto

lemma triple_prod [flow_rules]:
  "(\<And>a b. x = (a, b) \<Longrightarrow> triple P (f a b) Q E) \<Longrightarrow> triple P (case x of (a, b) \<Rightarrow> f a b) Q E"
  by (cases x) auto

lemma triple_for_each:
  assumes "\<And>x. x \<in> set xs \<Longrightarrow> triple P (f x) (\<lambda>_. P) E"
  shows "triple P (for_each f xs) (\<lambda>_. P) E"
  using assms
proof (induction xs)
  case Nil
  then show ?case by (simp add: triple_ret)
next
  case (Cons x xs)
  then show ?case by (auto intro: triple_andthen)
qed

text \<open>A computation that keeps a property of the state, whichever way it goes.\<close>

abbreviation keeps :: "('s \<Rightarrow> bool) \<Rightarrow> ('s, 'e, 'a) flow \<Rightarrow> bool" where
  "keeps P m \<equiv> triple P m (\<lambda>_. P) (\<lambda>_. P)"

lemma keeps_andthen [flow_rules]: "keeps P m \<Longrightarrow> (\<And>a. keeps P (f a)) \<Longrightarrow> keeps P (andthen m f)"
  by (rule triple_andthen)

lemma keeps_current [flow_rules]: "keeps P (current f)"
  by (simp add: triple_def current_def)

lemma keeps_for_each [flow_rules]: "(\<And>x. keeps P (f x)) \<Longrightarrow> keeps P (for_each f xs)"
  by (intro triple_for_each)

end
