(* ===== verification/Restore.thy ===== *)
theory Restore
  imports Archive Files Transact Flow
begin

text \<open>
  \<open>internal/backup/restore.go\<close>: the restore transaction. It reads and verifies the archive, asks about
  skew, captures what a rollback needs, then quiesces, writes, swaps the volumes, restarts and proves, and
  puts everything back when a step or the proof fails. Every host effect is a function of \<open>restore_deps\<close>;
  the live wiring supplies all of them, so the nil checks of \<open>WriteFile\<close> and \<open>RemoveFile\<close> are not
  branches here. A file that \<open>ReadFile\<close> reports as not existing is \<open>Absent\<close>.
\<close>

subsection \<open>The seams\<close>

record 'h restore_deps =
  rs_load_config :: "'h \<Rightarrow> (string + villa_config) \<times> 'h"
  rs_save_config :: "villa_config \<Rightarrow> 'h \<Rightarrow> string option \<times> 'h"
  rs_volume_export :: "string \<Rightarrow> string \<Rightarrow> 'h \<Rightarrow> string option \<times> 'h"
  rs_volume_import :: "string \<Rightarrow> string \<Rightarrow> 'h \<Rightarrow> string option \<times> 'h"
  rs_volume_rm :: "string \<Rightarrow> 'h \<Rightarrow> string option \<times> 'h"
  rs_ensure_volume :: "string \<Rightarrow> 'h \<Rightarrow> string option \<times> 'h"
  rs_read_file :: "string \<Rightarrow> 'h \<Rightarrow> file_read"
  rs_write_file :: "string \<Rightarrow> string \<Rightarrow> 'h \<Rightarrow> string option \<times> 'h"
  rs_remove_file :: "string \<Rightarrow> 'h \<Rightarrow> string option \<times> 'h"
  rs_stop :: "string \<Rightarrow> 'h \<Rightarrow> string option \<times> 'h"
  rs_start :: "string \<Rightarrow> 'h \<Rightarrow> string option \<times> 'h"
  rs_reconcile :: "villa_config \<Rightarrow> 'h \<Rightarrow> string option \<times> 'h"
  rs_prove :: "string \<Rightarrow> 'h \<Rightarrow> verdict \<times> 'h"
  rs_owui_service :: string
  rs_qdrant_service :: string

text \<open>What the input carries; the last four fields are the codecs and the hash the package calls.\<close>

record 'h restore_input =
  ri_open :: "'h \<Rightarrow> (string + tar_stream) option"
  ri_current :: current_install
  ri_consent :: "(skew_warning list \<Rightarrow> 'h \<Rightarrow> bool) option"
  ri_bypass :: bool
  ri_owui_volume :: string
  ri_temp_tar :: string
  ri_rollback_tar :: string
  ri_dests :: "string \<Rightarrow> string"
  ri_qdrant_volume :: string
  ri_temp_qdrant :: string
  ri_rollback_qdrant :: string
  ri_qdrant_exists :: bool
  ri_qdrant_unknown :: bool
  ri_eval_keys :: "(string \<Rightarrow> string + string list) option"
  ri_cwd :: "string option"
  ri_parse_manifest :: "string \<Rightarrow> string + backup_manifest"
  ri_sha :: "string \<Rightarrow> string"
  ri_toml :: "string \<Rightarrow> villa_config \<Rightarrow> string + villa_config"

datatype restore_error =
    ArchiveRefused archive_error | SkewBlocked skew_block | SkewDeclined
  | QdrantUnknown string | CaptureFailed string string | ArchiveConfigUnreadable "string config_error"
  | ServiceStop string string | ServiceStart string string | ConfigSave string
  | FileWrite string string | FileRemove string string | VolumeStage string string
  | VolumeRemove string string | UnitsReconcile string | VolumeEnsure string string | VolumeLoad string string

record restore_txn =
  tx_ex :: extracted
  tx_prior_cfg :: villa_config
  tx_restored_cfg :: villa_config
  tx_prior :: "string \<Rightarrow> string option"
  tx_eval_unreadable :: string

record restore_result =
  rr_refused :: bool
  rr_restored :: bool
  rr_rolled_back :: bool
  rr_incomplete :: bool
  rr_step :: string
  rr_err :: "restore_error option"
  rr_failures :: "restore_error list"
  rr_prove :: verdict
  rr_qdrant_restored :: bool
  rr_memory_enabled :: bool
  rr_files :: "string \<Rightarrow> (bool \<times> bool) option"
  rr_eval_dropped :: "string list"
  rr_eval_unreadable :: string
  rr_excluded_agent :: "excluded_agent option"

definition zero_restore :: restore_result where
  "zero_restore = \<lparr>rr_refused = False, rr_restored = False, rr_rolled_back = False, rr_incomplete = False,
     rr_step = [], rr_err = None, rr_failures = [], rr_prove = zero_verdict, rr_qdrant_restored = False,
     rr_memory_enabled = False, rr_files = (\<lambda>_. None), rr_eval_dropped = [], rr_eval_unreadable = [],
     rr_excluded_agent = None\<rparr>"

definition refuse_restore :: "string \<Rightarrow> restore_error \<Rightarrow> restore_result" where
  "refuse_restore step e = zero_restore\<lparr>rr_refused := True, rr_step := step, rr_err := Some e\<rparr>"

subsection \<open>The skew gate\<close>

definition capture_file :: "'h restore_deps \<Rightarrow> string \<Rightarrow> 'h \<Rightarrow> string + string option" where
  "capture_file d path h =
     (if path = [] then Inr None
      else (case rs_read_file d path h of
        Absent \<Rightarrow> Inr None | Unreadable e \<Rightarrow> Inl e | Content b \<Rightarrow> Inr (Some b)))"

definition replaced_eval :: "'h restore_deps \<Rightarrow> 'h restore_input \<Rightarrow> extracted \<Rightarrow> 'h \<Rightarrow> string option" where
  "replaced_eval d inp ex h =
     (if ex_files ex entry_eval_baselines = None \<or> ri_eval_keys inp = None then None
      else (case capture_file d (ri_dests inp entry_eval_baselines) h of Inl _ \<Rightarrow> None | Inr b \<Rightarrow> b))"

text \<open>Why the current eval baselines cannot be read, when this restore replaces them.\<close>

definition eval_unreadable :: "'h restore_deps \<Rightarrow> 'h restore_input \<Rightarrow> extracted \<Rightarrow> 'h \<Rightarrow> string option" where
  "eval_unreadable d inp ex h =
     (case (replaced_eval d inp ex h, ri_eval_keys inp) of
        (Some b, Some keys) \<Rightarrow> (case keys b of Inl e \<Rightarrow> Some e | Inr _ \<Rightarrow> None)
      | _ \<Rightarrow> None)"

definition declined :: "'h restore_input \<Rightarrow> skew_warning list \<Rightarrow> 'h \<Rightarrow> bool" where
  "declined inp ws h \<longleftrightarrow>
     ws \<noteq> [] \<and> \<not> ri_bypass inp \<and> (case ri_consent inp of None \<Rightarrow> True | Some ask \<Rightarrow> \<not> ask ws h)"

definition gate_warnings :: "'h restore_deps \<Rightarrow> 'h restore_input \<Rightarrow> extracted \<Rightarrow> skew_warning list \<Rightarrow> 'h \<Rightarrow> skew_warning list" where
  "gate_warnings d inp ex ws h =
     ws @ (case eval_unreadable d inp ex h of None \<Rightarrow> [] | Some e \<Rightarrow> [EvalUnreadable e])"

definition skew_gate :: "'h restore_deps \<Rightarrow> 'h restore_input \<Rightarrow> extracted \<Rightarrow> 'h \<Rightarrow> restore_error option" where
  "skew_gate d inp ex h =
     (case compare_skew (ex_manifest ex) ((ri_current inp)\<lparr>ci_checksum_failed := False\<rparr>) of
        Inl b \<Rightarrow> Some (SkewBlocked b)
      | Inr ws \<Rightarrow> if declined inp (gate_warnings d inp ex ws h) h then Some SkewDeclined else None)"

subsection \<open>Capture\<close>

definition qdrant_live :: "'h restore_input \<Rightarrow> extracted \<Rightarrow> bool" where
  "qdrant_live inp ex \<longleftrightarrow> ex_qdrant ex \<noteq> None \<and> ri_qdrant_exists inp"

definition will_write :: "'h restore_input \<Rightarrow> extracted \<Rightarrow> archive_row \<Rightarrow> bool" where
  "will_write inp ex r \<longleftrightarrow> ex_files ex (ar_name r) \<noteq> None \<and> ri_dests inp (ar_name r) \<noteq> []"

fun capture_files ::
  "'h restore_deps \<Rightarrow> 'h restore_input \<Rightarrow> extracted \<Rightarrow> archive_row list \<Rightarrow> 'h \<Rightarrow> restore_error + (string \<Rightarrow> string option)" where
  "capture_files d inp ex [] h = Inr (\<lambda>_. None)"
| "capture_files d inp ex (r # rs) h =
     (case capture_file d (ri_dests inp (ar_name r)) h of
        Inl e \<Rightarrow> if will_write inp ex r then Inl (CaptureFailed (ar_label r) e) else capture_files d inp ex rs h
      | Inr b \<Rightarrow> result_bind (capture_files d inp ex rs h)
                  (\<lambda>prior. Inr (case b of None \<Rightarrow> prior | Some x \<Rightarrow> prior(ar_name r \<mapsto> x))))"

text \<open>A call whose error ends the flow.\<close>

definition capture_all ::
  "'h restore_deps \<Rightarrow> 'h restore_input \<Rightarrow> extracted \<Rightarrow> string \<Rightarrow> ('h, restore_error, restore_txn) flow" where
  "capture_all d inp ex unreadable =
     andthen (if ex_qdrant ex \<noteq> None \<and> ri_qdrant_unknown inp
              then stop (QdrantUnknown (ri_qdrant_volume inp)) else ret ()) (\<lambda>_.
     andthen (\<lambda>h. case rs_load_config d h of
                (Inl e, h') \<Rightarrow> (Inl (CaptureFailed ''config'' e), h') | (Inr c, h') \<Rightarrow> (Inr c, h')) (\<lambda>cfg.
     andthen (attempt (CaptureFailed ''Open WebUI volume'')
                (rs_volume_export d (ri_owui_volume inp) (ri_rollback_tar inp))) (\<lambda>_.
     andthen (whenever (qdrant_live inp ex)
                (attempt (CaptureFailed ''Qdrant volume'')
                  (rs_volume_export d (ri_qdrant_volume inp) (ri_rollback_qdrant inp)))) (\<lambda>_.
     andthen (\<lambda>h. (capture_files d inp ex file_rows h, h)) (\<lambda>prior.
     (case parse_config (ri_toml inp) (ex_config ex) of
        Inl e \<Rightarrow> stop (ArchiveConfigUnreadable e)
      | Inr c \<Rightarrow> ret \<lparr>tx_ex = ex, tx_prior_cfg = cfg, tx_restored_cfg = c, tx_prior = prior,
                      tx_eval_unreadable = unreadable\<rparr>))))))"

subsection \<open>The forward steps\<close>

definition quiesce :: "'h restore_deps \<Rightarrow> 'h restore_input \<Rightarrow> restore_txn \<Rightarrow> ('h, restore_error, unit) flow" where
  "quiesce d inp t =
     andthen (attempt (ServiceStop (rs_owui_service d)) (rs_stop d (rs_owui_service d))) (\<lambda>_.
       whenever (qdrant_live inp (tx_ex t))
         (attempt (ServiceStop (rs_qdrant_service d)) (rs_stop d (rs_qdrant_service d))))"

definition save_config :: "'h restore_deps \<Rightarrow> restore_txn \<Rightarrow> ('h, restore_error, unit) flow" where
  "save_config d t = attempt ConfigSave (rs_save_config d (tx_restored_cfg t))"

definition write_row :: "'h restore_deps \<Rightarrow> 'h restore_input \<Rightarrow> archive_row \<Rightarrow> string \<Rightarrow> ('h, restore_error, unit) flow" where
  "write_row d inp r data = attempt (FileWrite (ar_label r)) (rs_write_file d (ri_dests inp (ar_name r)) data)"

definition write_files :: "'h restore_deps \<Rightarrow> 'h restore_input \<Rightarrow> restore_txn \<Rightarrow> ('h, restore_error, unit) flow" where
  "write_files d inp t =
     for_each (\<lambda>r. case ex_files (tx_ex t) (ar_name r) of
                      Some data \<Rightarrow> whenever (will_write inp (tx_ex t) r) (write_row d inp r data)
                    | None \<Rightarrow> ret ()) file_rows"

text \<open>An import merges, so the volume is removed and created again first.\<close>

definition clean_recreate_import ::
  "'h restore_deps \<Rightarrow> villa_config \<Rightarrow> string \<Rightarrow> string \<Rightarrow> ('h, restore_error, unit) flow" where
  "clean_recreate_import d cfg volume src =
     andthen (attempt (VolumeRemove volume) (rs_volume_rm d volume)) (\<lambda>_.
     andthen (attempt UnitsReconcile (rs_reconcile d cfg)) (\<lambda>_.
     andthen (attempt (VolumeEnsure volume) (rs_ensure_volume d volume)) (\<lambda>_.
       attempt (VolumeLoad volume) (rs_volume_import d volume src))))"

definition import_volume ::
  "'h restore_deps \<Rightarrow> restore_txn \<Rightarrow> string \<Rightarrow> string \<Rightarrow> string \<Rightarrow> ('h, restore_error, unit) flow" where
  "import_volume d t volume stage data =
     andthen (attempt (VolumeStage volume) (rs_write_file d stage data)) (\<lambda>_.
       clean_recreate_import d (tx_restored_cfg t) volume stage)"

definition swap_volumes :: "'h restore_deps \<Rightarrow> 'h restore_input \<Rightarrow> restore_txn \<Rightarrow> ('h, restore_error, unit) flow" where
  "swap_volumes d inp t =
     andthen (import_volume d t (ri_owui_volume inp) (ri_temp_tar inp) (ex_owui (tx_ex t))) (\<lambda>_.
       case ex_qdrant (tx_ex t) of
         None \<Rightarrow> ret ()
       | Some q \<Rightarrow> import_volume d t (ri_qdrant_volume inp) (ri_temp_qdrant inp) q)"

definition restart :: "'h restore_deps \<Rightarrow> 'h restore_input \<Rightarrow> restore_txn \<Rightarrow> ('h, restore_error, unit) flow" where
  "restart d inp t =
     andthen (attempt (ServiceStart (rs_owui_service d)) (rs_start d (rs_owui_service d))) (\<lambda>_.
       whenever (qdrant_live inp (tx_ex t))
         (attempt (ServiceStart (rs_qdrant_service d)) (rs_start d (rs_qdrant_service d))))"

definition forward_steps ::
  "'h restore_deps \<Rightarrow> 'h restore_input \<Rightarrow> restore_txn \<Rightarrow> (string \<times> ('h, restore_error, unit) flow) list" where
  "forward_steps d inp t =
     [(''quiesce'', quiesce d inp t), (''save'', save_config d t), (''data'', write_files d inp t),
      (''volume'', swap_volumes d inp t), (''restart'', restart d inp t)]"

text \<open>Steps run in order up to the first that fails, which is named.\<close>

fun run_steps :: "(string \<times> ('h, 'e, unit) flow) list \<Rightarrow> ('h, string \<times> 'e, unit) flow" where
  "run_steps [] = ret ()"
| "run_steps ((name, m) # ms) =
     (\<lambda>h. case m h of (Inl e, h') \<Rightarrow> (Inl (name, e), h') | (Inr _, h') \<Rightarrow> run_steps ms h')"

subsection \<open>The rollback\<close>

text \<open>A rollback step adds its error, if any, and the next one runs all the same.\<close>

fun run_all :: "('h, 'e, unit) flow list \<Rightarrow> 'h \<Rightarrow> 'e list \<times> 'h" where
  "run_all [] h = ([], h)"
| "run_all (m # ms) h =
     (case m h of (r, h1) \<Rightarrow> case run_all ms h1 of (es, h2) \<Rightarrow> ((case r of Inl e \<Rightarrow> e # es | Inr _ \<Rightarrow> es), h2))"

definition rollback_row :: "'h restore_deps \<Rightarrow> 'h restore_input \<Rightarrow> restore_txn \<Rightarrow> archive_row \<Rightarrow> ('h, restore_error, unit) flow" where
  "rollback_row d inp t r =
     (case tx_prior t (ar_name r) of
        Some b \<Rightarrow> write_row d inp r b
      | None \<Rightarrow> whenever (will_write inp (tx_ex t) r)
                 (attempt (FileRemove (ar_label r)) (rs_remove_file d (ri_dests inp (ar_name r)))))"

definition rollback_quiesce :: "'h restore_deps \<Rightarrow> 'h restore_input \<Rightarrow> restore_txn \<Rightarrow> ('h, restore_error, unit) flow list" where
  "rollback_quiesce d inp t =
     attempt (ServiceStop (rs_owui_service d)) (rs_stop d (rs_owui_service d))
     # (if qdrant_live inp (tx_ex t)
        then [attempt (ServiceStop (rs_qdrant_service d)) (rs_stop d (rs_qdrant_service d))] else [])"

definition rollback_qdrant :: "'h restore_deps \<Rightarrow> 'h restore_input \<Rightarrow> restore_txn \<Rightarrow> ('h, restore_error, unit) flow list" where
  "rollback_qdrant d inp t =
     (if ex_qdrant (tx_ex t) = None then []
      else if \<not> ri_qdrant_exists inp
      then [attempt (VolumeRemove (ri_qdrant_volume inp)) (rs_volume_rm d (ri_qdrant_volume inp))]
      else [clean_recreate_import d (tx_prior_cfg t) (ri_qdrant_volume inp) (ri_rollback_qdrant inp),
            attempt (ServiceStart (rs_qdrant_service d)) (rs_start d (rs_qdrant_service d))])"

definition restore_rollback :: "'h restore_deps \<Rightarrow> 'h restore_input \<Rightarrow> restore_txn \<Rightarrow> 'h \<Rightarrow> restore_error list \<times> 'h" where
  "restore_rollback d inp t =
     run_all
       (rollback_quiesce d inp t
        @ attempt ConfigSave (rs_save_config d (tx_prior_cfg t))
        # map (rollback_row d inp t) file_rows
        @ clean_recreate_import d (tx_prior_cfg t) (ri_owui_volume inp) (ri_rollback_tar inp)
        # rollback_qdrant d inp t
        @ [attempt (ServiceStart (rs_owui_service d)) (rs_start d (rs_owui_service d))])"

definition rolled_back ::
  "'h restore_deps \<Rightarrow> 'h restore_input \<Rightarrow> restore_txn \<Rightarrow> string \<Rightarrow> restore_error option \<Rightarrow> verdict \<Rightarrow> 'h
     \<Rightarrow> restore_result \<times> 'h" where
  "rolled_back d inp t step err v h =
     (case restore_rollback d inp t h of (fails, h') \<Rightarrow>
        (zero_restore\<lparr>rr_rolled_back := True, rr_step := step, rr_err := err, rr_prove := v,
           rr_incomplete := (fails \<noteq> []), rr_failures := fails\<rparr>, h'))"

subsection \<open>The result\<close>

definition missing_from :: "string list \<Rightarrow> string list \<Rightarrow> string list" where
  "missing_from have_keys keep = filter (\<lambda>k. k \<notin> set keep) have_keys"

definition eval_dropped :: "'h restore_input \<Rightarrow> restore_txn \<Rightarrow> string list" where
  "eval_dropped inp t =
     (case (ex_files (tx_ex t) entry_eval_baselines, tx_prior t entry_eval_baselines, ri_eval_keys inp) of
        (Some archived, Some now, Some keys) \<Rightarrow>
          (case keys now of
             Inl _ \<Rightarrow> []
           | Inr ks \<Rightarrow> missing_from ks (case keys archived of Inl _ \<Rightarrow> [] | Inr ks' \<Rightarrow> ks'))
      | _ \<Rightarrow> [])"

definition file_outcomes :: "'h restore_input \<Rightarrow> restore_txn \<Rightarrow> string \<Rightarrow> (bool \<times> bool) option" where
  "file_outcomes inp t n =
     (case find (\<lambda>r. ar_name r = n \<and> ex_files (tx_ex t) n \<noteq> None) file_rows of
        None \<Rightarrow> None
      | Some r \<Rightarrow> Some (will_write inp (tx_ex t) r, \<not> will_write inp (tx_ex t) r))"

definition restored_result :: "'h restore_input \<Rightarrow> restore_txn \<Rightarrow> verdict \<Rightarrow> restore_result" where
  "restored_result inp t v =
     zero_restore\<lparr>rr_restored := True, rr_prove := v, rr_qdrant_restored := (ex_qdrant (tx_ex t) \<noteq> None),
       rr_memory_enabled := cfg_memory_enabled (tx_restored_cfg t), rr_files := file_outcomes inp t,
       rr_eval_dropped := eval_dropped inp t, rr_eval_unreadable := tx_eval_unreadable t,
       rr_excluded_agent := mi_excluded_agent (ex_manifest (tx_ex t))\<rparr>"

definition apply_restore :: "'h restore_deps \<Rightarrow> 'h restore_input \<Rightarrow> restore_txn \<Rightarrow> 'h \<Rightarrow> restore_result \<times> 'h" where
  "apply_restore d inp t h =
     (case run_steps (forward_steps d inp t) h of
        (Inl (step, e), h1) \<Rightarrow> rolled_back d inp t step (Some e) zero_verdict h1
      | (Inr _, h1) \<Rightarrow>
          (case rs_prove d (cfg_backend (tx_restored_cfg t)) h1 of (v, h2) \<Rightarrow>
             if \<not> verdict_pass v then rolled_back d inp t ''prove'' None v h2
             else (restored_result inp t v, h2)))"

definition run_restore :: "'h restore_deps \<Rightarrow> 'h restore_input \<Rightarrow> 'h \<Rightarrow> restore_result \<times> 'h" where
  "run_restore d inp h =
     (case read_and_verify (ri_cwd inp) (ri_parse_manifest inp) (ri_sha inp) (ri_open inp h) of
        Inl e \<Rightarrow> (refuse_restore ''verify'' (ArchiveRefused e), h)
      | Inr ex \<Rightarrow>
          (case skew_gate d inp ex h of
             Some e \<Rightarrow> (refuse_restore ''skew'' e, h)
           | None \<Rightarrow>
               (case capture_all d inp ex (case eval_unreadable d inp ex h of None \<Rightarrow> [] | Some e \<Rightarrow> e) h of
                  (Inl e, h1) \<Rightarrow> (refuse_restore ''capture'' e, h1)
                | (Inr t, h1) \<Rightarrow> apply_restore d inp t h1)))"

end
