(* ===== verification/RestoreSafety.thy ===== *)
theory RestoreSafety
  imports Restore
begin

text \<open>
  What a restore leaves behind. The locale \<open>restore_site\<close> states what each seam changes of the
  configuration, the files and the volumes; under it a rollback that reports no failure brings back what was
  there, a refusal changes nothing but the rollback copies, and a restore that succeeds leaves the archive's
  contents. Bringing a volume back is an import of its export into an empty one.
\<close>

lemma triple_attempt:
  assumes "\<And>h r h'. P h \<Longrightarrow> f h = (r, h') \<Longrightarrow> (r = None \<longrightarrow> Q () h') \<and> (\<forall>e. r = Some e \<longrightarrow> E (err e) h')"
  shows "triple P (attempt err f) Q E"
  using assms by (auto simp: triple_def attempt_def split: prod.splits option.splits)

lemma run_all_ok:
  "run_all (m # ms) h = ([], h') \<longleftrightarrow> (\<exists>h1. m h = (Inr (), h1) \<and> run_all ms h1 = ([], h'))"
  by (auto split: prod.splits sum.splits)

lemma run_all_append:
  "run_all (ms @ ns) h = ([], h') \<longleftrightarrow> (\<exists>h1. run_all ms h = ([], h1) \<and> run_all ns h1 = ([], h'))"
proof (induction ms arbitrary: h)
  case (Cons m ms)
  show ?case unfolding append_Cons run_all_ok Cons.IH by blast
qed simp

lemma attempt_ok: "attempt err f h = (Inr (), h') \<longleftrightarrow> f h = (None, h')"
  by (auto simp: attempt_def split: prod.splits option.splits)

lemma andthen_ok: "andthen m f h = (Inr b, h') \<longleftrightarrow> (\<exists>a h1. m h = (Inr a, h1) \<and> f a h1 = (Inr b, h'))"
  by (auto simp: andthen_def split: prod.splits sum.splits)

text \<open>The temporary tars of a restore, and the paths its file entries go to.\<close>

definition temps :: "'h restore_input \<Rightarrow> string list" where
  "temps inp = [ri_temp_tar inp, ri_rollback_tar inp, ri_temp_qdrant inp, ri_rollback_qdrant inp]"

definition written :: "'h restore_input \<Rightarrow> extracted \<Rightarrow> archive_row set \<Rightarrow> string set" where
  "written inp ex rs = (\<lambda>r. ri_dests inp (ar_name r)) ` {r \<in> rs. will_write inp ex r}"

definition apart :: "string \<Rightarrow> 'h restore_input \<Rightarrow> bool" where
  "apart agent inp \<longleftrightarrow> distinct (temps inp) \<and> agent \<notin> set (temps inp)
     \<and> (\<forall>r \<in> set file_rows. ri_dests inp (ar_name r) \<notin> set (temps inp))
     \<and> inj_on (\<lambda>r. ri_dests inp (ar_name r)) {r \<in> set file_rows. ri_dests inp (ar_name r) \<noteq> []}
     \<and> ri_owui_volume inp \<noteq> ri_qdrant_volume inp"

text \<open>A configuration, or the one an apply makes of it when it lacks the inference secret.\<close>

definition healed :: "villa_config \<Rightarrow> villa_config \<Rightarrow> bool" where
  "healed c c' \<longleftrightarrow> c' = c \<or> (cfg_inference_secret c = [] \<and> (\<exists>s. c' = c\<lparr>cfg_inference_secret := s\<rparr>))"

lemma file_row_names [simp]: "r \<in> set file_rows \<Longrightarrow> ar_name r \<in> ar_name ` set file_rows"
  by blast

lemma distinct_file_rows: "distinct (map ar_name file_rows)"
  by (simp add: file_rows_def rows_of_kind_def archive_registry_def entry_names)

locale restore_site =
  fixes d :: "'h restore_deps"
    and conf :: "'h \<Rightarrow> villa_config option"
    and bytes :: "'h \<Rightarrow> string \<Rightarrow> string option"
    and vol :: "'h \<Rightarrow> string \<Rightarrow> 'v option"
    and reload :: "villa_config \<Rightarrow> villa_config option"
    and fresh :: 'v
    and merge :: "'v \<Rightarrow> string \<Rightarrow> 'v"
    and pack :: "'v \<Rightarrow> string"
    and agent :: string
  assumes load: "rs_load_config d h = (r, h') \<Longrightarrow>
      conf h' = conf h \<and> bytes h' = bytes h \<and> vol h' = vol h \<and> (\<forall>c. r = Inr c \<longrightarrow> conf h = Some c)"
    and save: "rs_save_config d c h = (e, h') \<Longrightarrow>
      bytes h' = bytes h \<and> vol h' = vol h \<and> (e = None \<longrightarrow> conf h' = reload c)"
    and export: "rs_volume_export d n out h = (e, h') \<Longrightarrow>
      conf h' = conf h \<and> vol h' = vol h \<and> (\<forall>p. p \<noteq> out \<longrightarrow> bytes h' p = bytes h p)
      \<and> (e = None \<longrightarrow> (\<exists>v. vol h n = Some v \<and> bytes h' out = Some (pack v)))"
    and load_volume: "rs_volume_import d n src h = (e, h') \<Longrightarrow>
      conf h' = conf h \<and> bytes h' = bytes h \<and> (\<forall>m. m \<noteq> n \<longrightarrow> vol h' m = vol h m)
      \<and> (e = None \<longrightarrow> (\<exists>v b. vol h n = Some v \<and> bytes h src = Some b \<and> vol h' n = Some (merge v b)))"
    and remove_volume: "rs_volume_rm d n h = (e, h') \<Longrightarrow>
      conf h' = conf h \<and> bytes h' = bytes h \<and> (\<forall>m. m \<noteq> n \<longrightarrow> vol h' m = vol h m) \<and> (e = None \<longrightarrow> vol h' n = None)"
    and ensure_volume: "rs_ensure_volume d n h = (e, h') \<Longrightarrow>
      conf h' = conf h \<and> bytes h' = bytes h \<and> (\<forall>m. m \<noteq> n \<longrightarrow> vol h' m = vol h m)
      \<and> (e = None \<longrightarrow> vol h' n = Some (case vol h n of None \<Rightarrow> fresh | Some v \<Rightarrow> v))"
    and read: "rs_read_file d p h = Content b \<Longrightarrow> bytes h p = Some b" "rs_read_file d p h = Absent \<Longrightarrow> bytes h p = None"
    and put: "rs_write_file d p b h = (e, h') \<Longrightarrow>
      conf h' = conf h \<and> vol h' = vol h \<and> (\<forall>q. q \<noteq> p \<longrightarrow> bytes h' q = bytes h q) \<and> (e = None \<longrightarrow> bytes h' p = Some b)"
    and remove: "rs_remove_file d p h = (e, h') \<Longrightarrow>
      conf h' = conf h \<and> vol h' = vol h \<and> (\<forall>q. q \<noteq> p \<longrightarrow> bytes h' q = bytes h q) \<and> (e = None \<longrightarrow> bytes h' p = None)"
    and stop_call: "rs_stop d s h = (e, h') \<Longrightarrow> conf h' = conf h \<and> bytes h' = bytes h \<and> vol h' = vol h"
    and start_call: "rs_start d s h = (e, h') \<Longrightarrow> conf h' = conf h \<and> bytes h' = bytes h \<and> vol h' = vol h"
    and prove_call: "rs_prove d b h = (v, h') \<Longrightarrow> conf h' = conf h \<and> bytes h' = bytes h \<and> vol h' = vol h"
    and reconcile_call: "rs_reconcile d c h = (e, h') \<Longrightarrow>
      vol h' = vol h \<and> (\<forall>p. p \<noteq> agent \<longrightarrow> bytes h' p = bytes h p)
      \<and> (e = None \<longrightarrow> conf h' = conf h \<or> (\<exists>c'. healed c c' \<and> conf h' = reload c'))"
begin

definition saved :: "'h restore_input \<Rightarrow> extracted \<Rightarrow> 'h \<Rightarrow> 'h \<Rightarrow> bool" where
  "saved inp ex h0 h \<longleftrightarrow>
     (\<exists>v. vol h0 (ri_owui_volume inp) = Some v \<and> bytes h (ri_rollback_tar inp) = Some (pack v))
     \<and> (qdrant_live inp ex \<longrightarrow>
         (\<exists>v. vol h0 (ri_qdrant_volume inp) = Some v \<and> bytes h (ri_rollback_qdrant inp) = Some (pack v)))"

text \<open>Only the temporaries, the agent's file, the written paths \<open>W\<close> and the volumes \<open>N\<close> may differ.\<close>

definition footprint :: "'h restore_input \<Rightarrow> string set \<Rightarrow> string set \<Rightarrow> 'h \<Rightarrow> 'h \<Rightarrow> bool" where
  "footprint inp W N h0 h \<longleftrightarrow>
     (\<forall>p. p \<notin> W \<and> p \<notin> set (temps inp) \<and> p \<noteq> agent \<longrightarrow> bytes h p = bytes h0 p) \<and> (\<forall>n. n \<notin> N \<longrightarrow> vol h n = vol h0 n)"

definition swapped :: "'h restore_input \<Rightarrow> extracted \<Rightarrow> string set" where
  "swapped inp ex = insert (ri_owui_volume inp) (if ex_qdrant ex = None then {} else {ri_qdrant_volume inp})"

definition underway :: "'h restore_input \<Rightarrow> extracted \<Rightarrow> 'h \<Rightarrow> 'h \<Rightarrow> bool" where
  "underway inp ex h0 h \<longleftrightarrow> saved inp ex h0 h \<and> footprint inp (written inp ex (set file_rows)) (swapped inp ex) h0 h"

subsection \<open>Every forward step stays in the footprint\<close>

lemma keeps_attempt:
  assumes "\<And>h e h'. underway inp ex h0 h \<Longrightarrow> f h = (e, h') \<Longrightarrow> underway inp ex h0 h'"
  shows "keeps (underway inp ex h0) (attempt err f)"
  by (rule triple_attempt) (use assms in blast)

lemma underway_same:
  "underway inp ex h0 h \<Longrightarrow> bytes h' = bytes h \<Longrightarrow> vol h' = vol h \<Longrightarrow> underway inp ex h0 h'"
  by (simp add: underway_def saved_def footprint_def)

lemma underway_file:
  assumes "underway inp ex h0 h" "vol h' = vol h" "\<forall>q. q \<noteq> p \<longrightarrow> bytes h' q = bytes h q"
    and "p \<in> written inp ex (set file_rows) \<or> p \<in> set (temps inp) \<or> p = agent"
    and "p \<noteq> ri_rollback_tar inp" "p \<noteq> ri_rollback_qdrant inp"
  shows "underway inp ex h0 h'"
  using assms by (auto simp: underway_def saved_def footprint_def)

lemma underway_volume:
  assumes "underway inp ex h0 h" "bytes h' = bytes h" "\<forall>m. m \<noteq> n \<longrightarrow> vol h' m = vol h m" "n \<in> swapped inp ex"
  shows "underway inp ex h0 h'"
  using assms by (fastforce simp: underway_def saved_def footprint_def)

lemma apart_tars:
  assumes "apart agent inp"
  shows "ri_temp_tar inp \<noteq> ri_rollback_tar inp" "ri_temp_tar inp \<noteq> ri_rollback_qdrant inp"
    "ri_temp_qdrant inp \<noteq> ri_rollback_tar inp" "ri_temp_qdrant inp \<noteq> ri_rollback_qdrant inp"
    "agent \<noteq> ri_rollback_tar inp" "agent \<noteq> ri_rollback_qdrant inp" "ri_rollback_tar inp \<noteq> ri_rollback_qdrant inp"
    "ri_temp_tar inp \<noteq> ri_temp_qdrant inp" "agent \<noteq> ri_temp_tar inp" "agent \<noteq> ri_temp_qdrant inp"
  using assms by (auto simp: apart_def temps_def)

lemma apart_dest:
  assumes "apart agent inp" "r \<in> set file_rows" "p = ri_dests inp (ar_name r)"
  shows "p \<noteq> ri_rollback_tar inp" "p \<noteq> ri_rollback_qdrant inp" "p \<noteq> ri_temp_tar inp" "p \<noteq> ri_temp_qdrant inp"
  using assms by (auto simp: apart_def temps_def)

lemma underway_swap:
  assumes a: "apart agent inp" and n: "n \<in> swapped inp ex"
  shows "keeps (underway inp ex h0) (clean_recreate_import d c n src)"
  unfolding clean_recreate_import_def
proof (intro keeps_andthen keeps_attempt)
  fix h e h' assume u: "underway inp ex h0 h"
  show "underway inp ex h0 h'" if "rs_volume_rm d n h = (e, h')"
    using underway_volume [OF u _ _ n] remove_volume [OF that] by blast
  show "underway inp ex h0 h'" if "rs_reconcile d c h = (e, h')"
    using underway_file [OF u, of h' agent] reconcile_call [OF that] apart_tars [OF a] by blast
  show "underway inp ex h0 h'" if "rs_ensure_volume d n h = (e, h')"
    using underway_volume [OF u _ _ n] ensure_volume [OF that] by blast
  show "underway inp ex h0 h'" if "rs_volume_import d n src h = (e, h')"
    using underway_volume [OF u _ _ n] load_volume [OF that] by blast
qed

lemma underway_import:
  assumes a: "apart agent inp" and n: "n \<in> swapped inp ex" and s: "stage = ri_temp_tar inp \<or> stage = ri_temp_qdrant inp"
  shows "keeps (underway inp ex h0) (import_volume d t n stage b)"
  unfolding import_volume_def
proof (intro keeps_andthen keeps_attempt underway_swap [OF a n])
  fix h e h' assume u: "underway inp ex h0 h" and w: "rs_write_file d stage b h = (e, h')"
  have "stage \<in> set (temps inp)" using s by (auto simp: temps_def)
  with s show "underway inp ex h0 h'"
    using underway_file [OF u, of h' stage] put [OF w] apart_tars [OF a] by metis
qed

lemma underway_write:
  assumes a: "apart agent inp" and r: "r \<in> set file_rows" "will_write inp ex r"
  shows "keeps (underway inp ex h0) (write_row d inp r b)"
  unfolding write_row_def
proof (intro keeps_attempt)
  fix h e h' assume u: "underway inp ex h0 h" and w: "rs_write_file d (ri_dests inp (ar_name r)) b h = (e, h')"
  have "ri_dests inp (ar_name r) \<in> written inp ex (set file_rows)" using r by (auto simp: written_def)
  then show "underway inp ex h0 h'"
    using underway_file [OF u, of h' "ri_dests inp (ar_name r)"] put [OF w] apart_dest [OF a r(1) refl] by blast
qed

lemma keeps_when: "(b \<Longrightarrow> keeps P m) \<Longrightarrow> keeps P (whenever b m)"
  by (simp add: whenever_def triple_ret)

lemma underway_stop: "keeps (underway inp ex h0) (attempt err (rs_stop d s))"
  by (rule keeps_attempt) (use underway_same stop_call in blast)

lemma underway_start: "keeps (underway inp ex h0) (attempt err (rs_start d s))"
  by (rule keeps_attempt) (use underway_same start_call in blast)

lemma underway_forward:
  assumes a: "apart agent inp" and ex: "tx_ex t = ex" and m: "m \<in> snd ` set (forward_steps d inp t)"
  shows "keeps (underway inp ex h0) m"
proof -
  have "keeps (underway inp ex h0) (quiesce d inp t)"
    unfolding quiesce_def by (intro keeps_andthen keeps_when underway_stop)
  moreover have "keeps (underway inp ex h0) (save_config d t)"
    unfolding save_config_def by (rule keeps_attempt) (use underway_same save in blast)
  moreover have "keeps (underway inp ex h0) (write_files d inp t)"
    unfolding write_files_def ex
    by (rule triple_for_each) (auto split: option.split intro!: keeps_when underway_write [OF a] simp: triple_ret)
  moreover have "keeps (underway inp ex h0) (swap_volumes d inp t)"
    unfolding swap_volumes_def ex
    by (intro keeps_andthen underway_import [OF a])
       (auto simp: swapped_def triple_ret split: option.split intro!: underway_import [OF a])
  moreover have "keeps (underway inp ex h0) (restart d inp t)"
    unfolding restart_def by (intro keeps_andthen keeps_when underway_start)
  ultimately show ?thesis using m by (auto simp: forward_steps_def)
qed

lemma run_steps_keeps:
  assumes "\<And>m. m \<in> snd ` set ms \<Longrightarrow> keeps P m" "P h" "run_steps ms h = (r, h')"
  shows "P h'"
  using assms
proof (induction ms arbitrary: h)
  case (Cons sm ms)
  obtain s m where sm: "sm = (s, m)" by fastforce
  obtain q h1 where m: "m h = (q, h1)" by fastforce
  have "P h1" using Cons.prems(1) [of m] Cons.prems(2) m by (auto simp: sm triple_def split: sum.splits prod.splits)
  then show ?case using Cons m by (auto simp: sm split: sum.splits)
qed (simp add: ret_def)

subsection \<open>The capture\<close>

definition only_temps :: "'h restore_input \<Rightarrow> 'h \<Rightarrow> 'h \<Rightarrow> bool" where
  "only_temps inp h0 h \<longleftrightarrow> conf h = conf h0 \<and> vol h = vol h0 \<and> (\<forall>p. p \<notin> set (temps inp) \<longrightarrow> bytes h p = bytes h0 p)"

definition remembered :: "'h restore_input \<Rightarrow> extracted \<Rightarrow> (string \<Rightarrow> string option) \<Rightarrow> 'h \<Rightarrow> archive_row \<Rightarrow> bool" where
  "remembered inp ex prior h0 r \<longleftrightarrow>
     (case prior (ar_name r) of
        Some b \<Rightarrow> bytes h0 (ri_dests inp (ar_name r)) = Some b
      | None \<Rightarrow> will_write inp ex r \<longrightarrow> bytes h0 (ri_dests inp (ar_name r)) = None)"

lemma capture_file_bytes:
  "capture_file d p h = Inr (Some b) \<Longrightarrow> bytes h p = Some b"
  "capture_file d p h = Inr None \<Longrightarrow> p \<noteq> [] \<Longrightarrow> bytes h p = None"
  by (auto simp: capture_file_def read split: if_splits file_read.splits)

lemma capture_files_remember:
  "capture_files d inp ex rs h = Inr prior \<Longrightarrow> distinct (map ar_name rs) \<Longrightarrow>
     (\<forall>r \<in> set rs. remembered inp ex prior h r) \<and> (\<forall>n. n \<notin> ar_name ` set rs \<longrightarrow> prior n = None)"
proof (induction rs arbitrary: prior)
  case (Cons r rs)
  let ?c = "capture_file d (ri_dests inp (ar_name r)) h"
  have fresh_name: "ar_name r \<notin> ar_name ` set rs" using Cons.prems(2) by simp
  show ?case
  proof (cases ?c)
    case (Inl e)
    with Cons.prems(1) have w: "\<not> will_write inp ex r" "capture_files d inp ex rs h = Inr prior"
      by (auto split: if_splits)
    from Cons.IH [OF w(2)] Cons.prems(2) have IH: "\<forall>r \<in> set rs. remembered inp ex prior h r"
      "\<forall>n. n \<notin> ar_name ` set rs \<longrightarrow> prior n = None" by auto
    with w(1) fresh_name show ?thesis by (auto simp: remembered_def split: option.split)
  next
    case (Inr b)
    with Cons.prems(1) obtain p where p: "capture_files d inp ex rs h = Inr p"
      "prior = (case b of None \<Rightarrow> p | Some x \<Rightarrow> p(ar_name r \<mapsto> x))"
      by (cases "capture_files d inp ex rs h") auto
    from Cons.IH [OF p(1)] Cons.prems(2) have IH: "\<forall>r \<in> set rs. remembered inp ex p h r"
      "\<forall>n. n \<notin> ar_name ` set rs \<longrightarrow> p n = None" by auto
    have same: "prior (ar_name q) = p (ar_name q)" if "q \<in> set rs" for q
    proof -
      from that fresh_name have "ar_name q \<noteq> ar_name r" by (metis imageI)
      then show ?thesis by (simp add: p(2) split: option.split)
    qed
    then have rest: "\<forall>r \<in> set rs. remembered inp ex prior h r" using IH(1) by (simp add: remembered_def)
    have "remembered inp ex prior h r"
    proof (cases b)
      case None
      then show ?thesis using capture_file_bytes(2) [of "ri_dests inp (ar_name r)" h] Inr IH(2) fresh_name
        by (auto simp: remembered_def p(2) will_write_def)
    next
      case (Some x)
      then show ?thesis using capture_file_bytes(1) Inr by (simp add: remembered_def p(2))
    qed
    with rest IH(2) show ?thesis by (auto simp: p(2) split: option.split)
  qed
qed simp

lemma exported:
  assumes out: "out \<in> set (temps inp)" and f: "only_temps inp h0 h" and e: "rs_volume_export d n out h = (r, h')"
  shows "only_temps inp h0 h'" "r = None \<Longrightarrow> \<exists>v. vol h0 n = Some v \<and> bytes h' out = Some (pack v)"
  using export [OF e] f out by (auto simp: only_temps_def)

lemma capture_steps:
  assumes a: "apart agent inp"
  shows "triple (only_temps inp h0) (\<lambda>h. case rs_load_config d h of
            (Inl e, h') \<Rightarrow> (Inl (err e), h') | (Inr c, h') \<Rightarrow> (Inr c, h'))
           (\<lambda>cfg h. only_temps inp h0 h \<and> conf h0 = Some cfg) (\<lambda>_. only_temps inp h0)" (is ?L)
    and "triple (\<lambda>h. only_temps inp h0 h \<and> conf h0 = Some cfg)
           (attempt err2 (rs_volume_export d (ri_owui_volume inp) (ri_rollback_tar inp)))
           (\<lambda>_ h. only_temps inp h0 h \<and> conf h0 = Some cfg
              \<and> (\<exists>v. vol h0 (ri_owui_volume inp) = Some v \<and> bytes h (ri_rollback_tar inp) = Some (pack v)))
           (\<lambda>_. only_temps inp h0)" (is ?O)
    and "triple (\<lambda>h. only_temps inp h0 h \<and> conf h0 = Some cfg
              \<and> (\<exists>v. vol h0 (ri_owui_volume inp) = Some v \<and> bytes h (ri_rollback_tar inp) = Some (pack v)))
           (whenever (qdrant_live inp ex) (attempt err3 (rs_volume_export d (ri_qdrant_volume inp) (ri_rollback_qdrant inp))))
           (\<lambda>_ h. only_temps inp h0 h \<and> conf h0 = Some cfg \<and> saved inp ex h0 h) (\<lambda>_. only_temps inp h0)" (is ?Q)
proof -
  have t: "ri_rollback_tar inp \<in> set (temps inp)" "ri_rollback_qdrant inp \<in> set (temps inp)" by (simp_all add: temps_def)
  show ?L
    by (rule tripleI) (auto simp: only_temps_def split: prod.splits sum.splits dest: load)
  show ?O by (rule triple_attempt) (use exported [OF t(1)] in blast)
  show ?Q
  proof (rule triple_whenever)
    show "triple (\<lambda>h. only_temps inp h0 h \<and> conf h0 = Some cfg
              \<and> (\<exists>v. vol h0 (ri_owui_volume inp) = Some v \<and> bytes h (ri_rollback_tar inp) = Some (pack v)))
           (attempt err3 (rs_volume_export d (ri_qdrant_volume inp) (ri_rollback_qdrant inp)))
           (\<lambda>_ h. only_temps inp h0 h \<and> conf h0 = Some cfg \<and> saved inp ex h0 h) (\<lambda>_. only_temps inp h0)"
    proof (rule triple_attempt)
      fix h e h' assume p: "only_temps inp h0 h \<and> conf h0 = Some cfg
              \<and> (\<exists>v. vol h0 (ri_owui_volume inp) = Some v \<and> bytes h (ri_rollback_tar inp) = Some (pack v))"
        and e: "rs_volume_export d (ri_qdrant_volume inp) (ri_rollback_qdrant inp) h = (e, h')"
      have "bytes h' (ri_rollback_tar inp) = bytes h (ri_rollback_tar inp)"
        using export [OF e] apart_tars [OF a] by metis
      with p exported [OF t(2) _ e]
      show "(e = None \<longrightarrow> only_temps inp h0 h' \<and> conf h0 = Some cfg \<and> saved inp ex h0 h')
        \<and> (\<forall>x. e = Some x \<longrightarrow> only_temps inp h0 h')"
        by (simp add: saved_def)
    qed
  qed (simp add: saved_def)
qed

lemma captured:
  assumes a: "apart agent inp"
  shows "triple (only_temps inp h0) (capture_all d inp ex un)
    (\<lambda>t h. only_temps inp h0 h \<and> tx_ex t = ex \<and> saved inp ex h0 h \<and> conf h0 = Some (tx_prior_cfg t)
        \<and> parse_config (ri_toml inp) (ex_config ex) = Inr (tx_restored_cfg t)
        \<and> (\<forall>r \<in> set file_rows. remembered inp ex (tx_prior t) h0 r)) (\<lambda>_. only_temps inp h0)"
  unfolding capture_all_def
proof (intro triple_andthen [OF _ triple_andthen [OF capture_steps(1) [OF a] triple_andthen [OF capture_steps(2) [OF a]
    triple_andthen [OF capture_steps(3) [OF a]]]]])
  show "triple (only_temps inp h0)
     (if ex_qdrant ex \<noteq> None \<and> ri_qdrant_unknown inp then stop (QdrantUnknown (ri_qdrant_volume inp)) else ret ())
     (\<lambda>_. only_temps inp h0) (\<lambda>_. only_temps inp h0)"
    by (simp add: triple_def stop_def ret_def)
  fix cfg
  let ?P = "\<lambda>h. only_temps inp h0 h \<and> conf h0 = Some cfg \<and> saved inp ex h0 h"
  let ?prior = "\<lambda>p. \<forall>r \<in> set file_rows. remembered inp ex p h0 r"
  show "triple ?P (andthen (\<lambda>h. (capture_files d inp ex file_rows h, h)) (\<lambda>prior.
     (case parse_config (ri_toml inp) (ex_config ex) of
        Inl e \<Rightarrow> stop (ArchiveConfigUnreadable e)
      | Inr c \<Rightarrow> ret \<lparr>tx_ex = ex, tx_prior_cfg = cfg, tx_restored_cfg = c, tx_prior = prior,
                      tx_eval_unreadable = un\<rparr>)))
    (\<lambda>t h. only_temps inp h0 h \<and> tx_ex t = ex \<and> saved inp ex h0 h \<and> conf h0 = Some (tx_prior_cfg t)
        \<and> parse_config (ri_toml inp) (ex_config ex) = Inr (tx_restored_cfg t)
        \<and> ?prior (tx_prior t)) (\<lambda>_. only_temps inp h0)"
  proof (rule triple_andthen [where R = "\<lambda>p h. ?P h \<and> ?prior p"])
    show "triple ?P (\<lambda>h. (capture_files d inp ex file_rows h, h)) (\<lambda>p h. ?P h \<and> ?prior p) (\<lambda>_. only_temps inp h0)"
    proof (rule tripleI)
      fix h assume p: "?P h"
      have "?prior prior" if c: "capture_files d inp ex file_rows h = Inr prior" for prior
      proof
        fix r assume r: "r \<in> set file_rows"
        have e: "bytes h (ri_dests inp (ar_name r)) = bytes h0 (ri_dests inp (ar_name r))"
          using p r a by (simp add: only_temps_def apart_def)
        have "remembered inp ex prior h r" using capture_files_remember [OF c distinct_file_rows] r by blast
        with e show "remembered inp ex prior h0 r" by (auto simp: remembered_def split: option.splits)
      qed
      with p show "case (capture_files d inp ex file_rows h, h) of
          (Inr q, h') \<Rightarrow> ?P h' \<and> ?prior q | (Inl e, h') \<Rightarrow> only_temps inp h0 h'"
        by (simp split: sum.split)
    qed
  qed (auto simp: triple_def stop_def ret_def split: sum.splits)
qed

subsection \<open>The rollback\<close>

lemma recreated:
  assumes m: "clean_recreate_import d c n src h = (Inr (), h')" and src: "src \<noteq> agent" "bytes h src = Some b"
  shows "vol h' n = Some (merge fresh b)" "\<forall>m. m \<noteq> n \<longrightarrow> vol h' m = vol h m"
    "\<forall>p. p \<noteq> agent \<longrightarrow> bytes h' p = bytes h p" "conf h' = conf h \<or> (\<exists>c'. healed c c' \<and> conf h' = reload c')"
proof -
  from m obtain h1 h2 h3 where s: "rs_volume_rm d n h = (None, h1)" "rs_reconcile d c h1 = (None, h2)"
    "rs_ensure_volume d n h2 = (None, h3)" "rs_volume_import d n src h3 = (None, h')"
    by (auto simp: clean_recreate_import_def andthen_ok attempt_ok)
  note r = remove_volume [OF s(1)] reconcile_call [OF s(2)] ensure_volume [OF s(3)] load_volume [OF s(4)]
  show "\<forall>m. m \<noteq> n \<longrightarrow> vol h' m = vol h m" using r by simp
  show "\<forall>p. p \<noteq> agent \<longrightarrow> bytes h' p = bytes h p" using r by simp
  show "conf h' = conf h \<or> (\<exists>c'. healed c c' \<and> conf h' = reload c')" using r by simp
  show "vol h' n = Some (merge fresh b)" using r src by auto
qed

text \<open>The rows still to be put back are those whose paths may differ.\<close>

lemma rollback_rows:
  assumes a: "apart agent inp" and rs: "set rs \<subseteq> set file_rows" "\<forall>r \<in> set rs. remembered inp (tx_ex t) (tx_prior t) h0 r"
    and f: "footprint inp (written inp (tx_ex t) (set rs)) N h0 h" "saved inp (tx_ex t) h0 h"
    and run: "run_all (map (rollback_row d inp t) rs) h = ([], h')"
  shows "footprint inp {} N h0 h' \<and> saved inp (tx_ex t) h0 h' \<and> conf h' = conf h"
  using rs f run
proof (induction rs arbitrary: h)
  case (Cons r rs)
  let ?p = "ri_dests inp (ar_name r)"
  from Cons.prems(5) obtain h1 where h1: "rollback_row d inp t r h = (Inr (), h1)"
    "run_all (map (rollback_row d inp t) rs) h1 = ([], h')" by (auto simp: run_all_ok simp del: run_all.simps)
  have r: "r \<in> set file_rows" "remembered inp (tx_ex t) (tx_prior t) h0 r" using Cons.prems(1,2) by auto
  have W: "written inp (tx_ex t) (set (r # rs)) =
      (if will_write inp (tx_ex t) r then insert ?p (written inp (tx_ex t) (set rs)) else written inp (tx_ex t) (set rs))"
    by (auto simp: written_def)
  have "conf h1 = conf h \<and> vol h1 = vol h \<and> (\<forall>q. q \<noteq> ?p \<longrightarrow> bytes h1 q = bytes h q)
      \<and> (bytes h1 ?p = bytes h0 ?p \<or> (\<not> will_write inp (tx_ex t) r \<and> bytes h1 ?p = bytes h ?p))"
  proof (cases "tx_prior t (ar_name r)")
    case None
    then show ?thesis
      using h1(1) r(2) remove [of ?p h] by (auto simp: rollback_row_def whenever_def ret_def attempt_ok remembered_def split: if_splits)
  next
    case (Some b)
    then show ?thesis
      using h1(1) r(2) put [of ?p b h] by (auto simp: rollback_row_def write_row_def attempt_ok remembered_def)
  qed
  then have "footprint inp (written inp (tx_ex t) (set rs)) N h0 h1" "saved inp (tx_ex t) h0 h1" "conf h1 = conf h"
    using Cons.prems(3,4) apart_dest [OF a r(1) refl] unfolding W
    by (auto simp: footprint_def saved_def split: if_splits; metis)+
  with Cons.IH [OF _ _ this(1,2) h1(2)] Cons.prems(1,2) show ?case by simp
qed (simp add: written_def)

lemma ok_same:
  "attempt err (rs_stop d s) h = (Inr (), h') \<Longrightarrow> conf h' = conf h \<and> bytes h' = bytes h \<and> vol h' = vol h"
  "attempt err (rs_start d s) h = (Inr (), h') \<Longrightarrow> conf h' = conf h \<and> bytes h' = bytes h \<and> vol h' = vol h"
  by (auto simp: attempt_ok dest: stop_call start_call)

lemma quiesced:
  "run_all (rollback_quiesce d inp t) h = ([], h') \<Longrightarrow> bytes h' = bytes h \<and> vol h' = vol h"
  by (auto simp: rollback_quiesce_def run_all_ok simp del: run_all.simps split: if_splits dest!: ok_same(1))
     (simp_all)

lemma rollback_volumes:
  assumes a: "apart agent inp" and n: "src = ri_rollback_tar inp \<or> src = ri_rollback_qdrant inp"
    and m: "clean_recreate_import d c n src h = (Inr (), h')"
    and b: "vol h0 n = Some v" "bytes h src = Some (pack v)" and again: "\<forall>n v. vol h0 n = Some v \<longrightarrow> merge fresh (pack v) = v"
    and f: "footprint inp {} N h0 h" and q: "conf h = reload c0" "healed c c0"
  shows "footprint inp {} (N - {n}) h0 h'" "\<exists>c'. healed c c' \<and> conf h' = reload c'"
    "\<forall>p. p \<noteq> agent \<longrightarrow> bytes h' p = bytes h p"
proof -
  have src: "src \<noteq> agent" using n apart_tars [OF a] by auto
  note r = recreated [OF m src b(2)]
  have "vol h' m = vol h0 m" if "m \<notin> N - {n}" for m
    using r(1,2) f b(1) again that by (cases "m = n") (auto simp: footprint_def)
  then show "footprint inp {} (N - {n}) h0 h'" using r(3) f by (simp add: footprint_def)
  show "\<exists>c'. healed c c' \<and> conf h' = reload c'" using r(4) q by auto
  show "\<forall>p. p \<noteq> agent \<longrightarrow> bytes h' p = bytes h p" by (rule r(3))
qed

lemma rollback_complete:
  assumes a: "apart agent inp" and u: "underway inp (tx_ex t) h0 h"
    and rem: "\<forall>r \<in> set file_rows. remembered inp (tx_ex t) (tx_prior t) h0 r"
    and truth: "ex_qdrant (tx_ex t) \<noteq> None \<Longrightarrow> \<not> ri_qdrant_exists inp \<Longrightarrow> vol h0 (ri_qdrant_volume inp) = None"
    and again: "\<forall>n v. vol h0 n = Some v \<longrightarrow> merge fresh (pack v) = v"
    and run: "restore_rollback d inp t h = ([], h')"
  shows "footprint inp {} {} h0 h' \<and> (\<exists>c'. healed (tx_prior_cfg t) c' \<and> conf h' = reload c')"
proof -
  let ?ex = "tx_ex t" and ?c = "tx_prior_cfg t"
  from run obtain h1 h2 h3 h4 h5 where s: "run_all (rollback_quiesce d inp t) h = ([], h1)"
    "rs_save_config d ?c h1 = (None, h2)" "run_all (map (rollback_row d inp t) file_rows) h2 = ([], h3)"
    "clean_recreate_import d ?c (ri_owui_volume inp) (ri_rollback_tar inp) h3 = (Inr (), h4)"
    "run_all (rollback_qdrant d inp t) h4 = ([], h5)"
    "rs_start d (rs_owui_service d) h5 = (None, h')"
    by (auto simp: restore_rollback_def run_all_append run_all_ok attempt_ok simp del: run_all.simps(2))
  have "underway inp ?ex h0 h2"
    using u quiesced [OF s(1)] save [OF s(2)] by (intro underway_same [OF underway_same [OF u]]) auto
  moreover have "conf h2 = reload ?c" using save [OF s(2)] by simp
  ultimately have rows: "footprint inp {} (swapped inp ?ex) h0 h3" "saved inp ?ex h0 h3" "conf h3 = reload ?c"
    using rollback_rows [OF a subset_refl rem _ _ s(3)] by (auto simp: underway_def)
  from rows(2) obtain v where v: "vol h0 (ri_owui_volume inp) = Some v" "bytes h3 (ri_rollback_tar inp) = Some (pack v)"
    by (auto simp: saved_def)
  have own: "healed ?c ?c" by (simp add: healed_def)
  note owui = rollback_volumes [OF a disjI1 [OF refl] s(4) v again rows(1,3) own]
  let ?Q = "swapped inp ?ex - {ri_owui_volume inp}"
  have "footprint inp {} {} h0 h5 \<and> (\<exists>c'. healed ?c c' \<and> conf h5 = reload c')"
  proof (cases "ex_qdrant ?ex")
    case None
    then have "?Q = {}" by (simp add: swapped_def)
    with None s(5) owui(1,2) show ?thesis by (simp add: rollback_qdrant_def)
  next
    case (Some q)
    have Q: "?Q = {ri_qdrant_volume inp}" using a Some by (auto simp: swapped_def apart_def)
    show ?thesis
    proof (cases "ri_qdrant_exists inp")
      case False
      with Some s(5) have "rs_volume_rm d (ri_qdrant_volume inp) h4 = (None, h5)"
        by (simp add: rollback_qdrant_def run_all_ok attempt_ok del: run_all.simps(2))
      from remove_volume [OF this] owui(1,2) truth Some False show ?thesis
        unfolding Q by (auto simp: footprint_def) metis
    next
      case True
      with Some s(5) obtain h6 where h6:
        "clean_recreate_import d ?c (ri_qdrant_volume inp) (ri_rollback_qdrant inp) h4 = (Inr (), h6)"
        "rs_start d (rs_qdrant_service d) h6 = (None, h5)"
        by (auto simp: rollback_qdrant_def run_all_ok attempt_ok simp del: run_all.simps(2))
      from rows(2) Some True obtain w where w: "vol h0 (ri_qdrant_volume inp) = Some w"
        "bytes h3 (ri_rollback_qdrant inp) = Some (pack w)" by (auto simp: saved_def qdrant_live_def)
      have "bytes h4 (ri_rollback_qdrant inp) = Some (pack w)" using w(2) owui(3) apart_tars [OF a] by simp
      moreover obtain c0 where "healed ?c c0" "conf h4 = reload c0" using owui(2) by blast
      ultimately have "footprint inp {} (?Q - {ri_qdrant_volume inp}) h0 h6" "\<exists>c'. healed ?c c' \<and> conf h6 = reload c'"
        using rollback_volumes(1,2) [OF a disjI2 [OF refl] h6(1) w(1) _ again owui(1)] by blast+
      then show ?thesis using start_call [OF h6(2)] unfolding Q by (simp add: footprint_def)
    qed
  qed
  then show ?thesis using start_call [OF s(6)] by (simp add: footprint_def)
qed

subsection \<open>A restore that succeeds\<close>

lemma files_written:
  assumes "for_each (\<lambda>r. case ex_files ex (ar_name r) of
             Some data \<Rightarrow> whenever (will_write inp ex r) (write_row d inp r data) | None \<Rightarrow> ret ()) rs h = (Inr (), h')"
    and "distinct rs" "inj_on (\<lambda>r. ri_dests inp (ar_name r)) {r \<in> set rs. ri_dests inp (ar_name r) \<noteq> []}"
  shows "conf h' = conf h \<and> vol h' = vol h
    \<and> (\<forall>r \<in> set rs. will_write inp ex r \<longrightarrow> bytes h' (ri_dests inp (ar_name r)) = ex_files ex (ar_name r))
    \<and> (\<forall>p. p \<notin> written inp ex (set rs) \<longrightarrow> bytes h' p = bytes h p)"
  using assms
proof (induction rs arbitrary: h)
  case (Cons r rs)
  let ?p = "ri_dests inp (ar_name r)"
  from Cons.prems(1) obtain h1 where h1: "(case ex_files ex (ar_name r) of
        Some data \<Rightarrow> whenever (will_write inp ex r) (write_row d inp r data) | None \<Rightarrow> ret ()) h = (Inr (), h1)"
      "for_each (\<lambda>r. case ex_files ex (ar_name r) of
         Some data \<Rightarrow> whenever (will_write inp ex r) (write_row d inp r data) | None \<Rightarrow> ret ()) rs h1 = (Inr (), h')"
    by (auto simp: andthen_ok)
  have "inj_on (\<lambda>r. ri_dests inp (ar_name r)) {r \<in> set rs. ri_dests inp (ar_name r) \<noteq> []}"
    using Cons.prems(3) by (rule inj_on_subset) auto
  note IH = Cons.IH [OF h1(2) _ this]
  have step: "conf h1 = conf h \<and> vol h1 = vol h \<and> (will_write inp ex r \<longrightarrow> bytes h1 ?p = ex_files ex (ar_name r))
      \<and> (\<forall>p. \<not> (will_write inp ex r \<and> p = ?p) \<longrightarrow> bytes h1 p = bytes h p)"
    using h1(1) by (auto simp: whenever_def ret_def write_row_def attempt_ok will_write_def split: option.splits if_splits
        dest!: put)
  have apart_rows: "?p \<notin> written inp ex (set rs)" if w: "will_write inp ex r"
  proof
    assume "?p \<in> written inp ex (set rs)"
    then obtain q where q: "q \<in> set rs" "will_write inp ex q" "ri_dests inp (ar_name q) = ?p" by (auto simp: written_def)
    with w have "q = r" using inj_onD [OF Cons.prems(3), of q r] by (auto simp: will_write_def)
    with q(1) Cons.prems(2) show False by simp
  qed
  have W: "written inp ex (set (r # rs)) = (if will_write inp ex r then insert ?p (written inp ex (set rs))
      else written inp ex (set rs))" by (auto simp: written_def)
  from IH step apart_rows Cons.prems(2) show ?case unfolding W by (auto split: if_splits)
qed (simp add: ret_def written_def)

definition holds_archive :: "'h restore_input \<Rightarrow> extracted \<Rightarrow> 'h \<Rightarrow> 'h \<Rightarrow> bool" where
  "holds_archive inp ex h0 h \<longleftrightarrow>
     (\<forall>r \<in> set file_rows. will_write inp ex r \<and> ri_dests inp (ar_name r) \<noteq> agent
        \<longrightarrow> bytes h (ri_dests inp (ar_name r)) = ex_files ex (ar_name r))
     \<and> vol h (ri_owui_volume inp) = Some (merge fresh (ex_owui ex))
     \<and> (\<forall>q. ex_qdrant ex = Some q \<longrightarrow> vol h (ri_qdrant_volume inp) = Some (merge fresh q))
     \<and> footprint inp (written inp ex (set file_rows)) (swapped inp ex) h0 h"

lemma imported:
  assumes a: "apart agent inp" and s: "stage = ri_temp_tar inp \<or> stage = ri_temp_qdrant inp"
    and m: "import_volume d t n stage b h = (Inr (), h')"
    and c: "healed (tx_restored_cfg t) c0" "conf h = reload c0"
  shows "vol h' n = Some (merge fresh b)" "\<forall>m. m \<noteq> n \<longrightarrow> vol h' m = vol h m"
    "\<forall>p. p \<notin> set (temps inp) \<and> p \<noteq> agent \<longrightarrow> bytes h' p = bytes h p" "\<exists>c'. healed (tx_restored_cfg t) c' \<and> conf h' = reload c'"
proof -
  from m obtain h1 where h1: "rs_write_file d stage b h = (None, h1)"
    "clean_recreate_import d (tx_restored_cfg t) n stage h1 = (Inr (), h')"
    by (auto simp: import_volume_def andthen_ok attempt_ok)
  have st: "stage \<noteq> agent" "stage \<in> set (temps inp)" using s apart_tars [OF a] by (auto simp: temps_def)
  note w = put [OF h1(1)]
  have "bytes h1 stage = Some b" using w by simp
  note r = recreated [OF h1(2) st(1) this]
  show "vol h' n = Some (merge fresh b)" by (rule r(1))
  show "\<forall>m. m \<noteq> n \<longrightarrow> vol h' m = vol h m" using r(2) w by simp
  show "\<forall>p. p \<notin> set (temps inp) \<and> p \<noteq> agent \<longrightarrow> bytes h' p = bytes h p" using r(3) w st by auto
  show "\<exists>c'. healed (tx_restored_cfg t) c' \<and> conf h' = reload c'" using r(4) w c by auto
qed

lemma ok_whenever_same:
  assumes "whenever b m h = (Inr (), h')" "\<And>h'. m h = (Inr (), h') \<Longrightarrow> conf h' = conf h \<and> bytes h' = bytes h \<and> vol h' = vol h"
  shows "conf h' = conf h \<and> bytes h' = bytes h \<and> vol h' = vol h"
  using assms by (auto simp: whenever_def ret_def split: if_splits)

lemma services_ok:
  "quiesce d inp t h = (Inr (), h') \<Longrightarrow> conf h' = conf h \<and> bytes h' = bytes h \<and> vol h' = vol h"
  "restart d inp t h = (Inr (), h') \<Longrightarrow> conf h' = conf h \<and> bytes h' = bytes h \<and> vol h' = vol h"
  by (auto simp: quiesce_def restart_def andthen_ok dest!: ok_same ok_whenever_same)

lemma forward_done:
  assumes a: "apart agent inp" and u: "underway inp (tx_ex t) h0 h"
    and run: "run_steps (forward_steps d inp t) h = (Inr (), h')"
  shows "holds_archive inp (tx_ex t) h0 h' \<and> (\<exists>c'. healed (tx_restored_cfg t) c' \<and> conf h' = reload c')"
proof -
  let ?ex = "tx_ex t" and ?c = "tx_restored_cfg t"
  have foot: "footprint inp (written inp ?ex (set file_rows)) (swapped inp ?ex) h0 h'"
    using run_steps_keeps [OF underway_forward [OF a refl] u run] by (simp add: underway_def)
  from run obtain h1 h2 h3 h4 where s: "quiesce d inp t h = (Inr (), h1)" "save_config d t h1 = (Inr (), h2)"
    "write_files d inp t h2 = (Inr (), h3)" "swap_volumes d inp t h3 = (Inr (), h4)" "restart d inp t h4 = (Inr (), h')"
    by (auto simp: forward_steps_def ret_def split: prod.splits sum.splits)
  have "conf h2 = reload ?c" using s(2) save by (auto simp: save_config_def attempt_ok)
  moreover have "distinct file_rows" using distinct_file_rows distinct_map by blast
  then have f: "conf h3 = conf h2"
    "\<forall>r \<in> set file_rows. will_write inp ?ex r \<longrightarrow> bytes h3 (ri_dests inp (ar_name r)) = ex_files ?ex (ar_name r)"
    using files_written [OF s(3) [unfolded write_files_def]] a by (auto simp: apart_def)
  ultimately have c3: "conf h3 = reload ?c" by simp
  from s(4) obtain h5 where v: "import_volume d t (ri_owui_volume inp) (ri_temp_tar inp) (ex_owui ?ex) h3 = (Inr (), h5)"
    "(case ex_qdrant ?ex of None \<Rightarrow> ret () | Some q \<Rightarrow> import_volume d t (ri_qdrant_volume inp) (ri_temp_qdrant inp) q) h5
       = (Inr (), h4)" by (auto simp: swap_volumes_def andthen_ok)
  have own: "healed ?c ?c" by (simp add: healed_def)
  note i = imported [OF a disjI1 [OF refl] v(1) own c3]
  have "vol h4 (ri_owui_volume inp) = Some (merge fresh (ex_owui ?ex))
      \<and> (\<forall>q. ex_qdrant ?ex = Some q \<longrightarrow> vol h4 (ri_qdrant_volume inp) = Some (merge fresh q))
      \<and> (\<forall>p. p \<notin> set (temps inp) \<and> p \<noteq> agent \<longrightarrow> bytes h4 p = bytes h3 p)
      \<and> (\<exists>c'. healed ?c c' \<and> conf h4 = reload c')"
  proof (cases "ex_qdrant ?ex")
    case None
    with v(2) i show ?thesis by (auto simp: ret_def)
  next
    case (Some q)
    obtain c0 where c0: "healed ?c c0" "conf h5 = reload c0" using i(4) by blast
    from Some v(2) have "import_volume d t (ri_qdrant_volume inp) (ri_temp_qdrant inp) q h5 = (Inr (), h4)" by simp
    note j = imported [OF a disjI2 [OF refl] this c0]
    show ?thesis using i j Some a by (auto simp: apart_def)
  qed
  moreover have "ri_dests inp (ar_name r) \<notin> set (temps inp)" if "r \<in> set file_rows" for r
    using a that by (simp add: apart_def)
  ultimately show ?thesis using f(2) services_ok(2) [OF s(5)] foot by (simp add: holds_archive_def)
qed

subsection \<open>The whole run\<close>

lemma only_temps_refl: "only_temps inp h h"
  by (simp add: only_temps_def)

lemma began:
  assumes a: "apart agent inp" and c: "capture_all d inp ex un h0 = (Inr t, h1)"
  shows "underway inp (tx_ex t) h0 h1" "tx_ex t = ex" "conf h0 = Some (tx_prior_cfg t)"
    "parse_config (ri_toml inp) (ex_config ex) = Inr (tx_restored_cfg t)"
    "\<forall>r \<in> set file_rows. remembered inp ex (tx_prior t) h0 r"
  using triple_Inr [OF captured [OF a] only_temps_refl c]
  by (auto simp: underway_def only_temps_def footprint_def)

lemma apply_rolled_back:
  assumes a: "apart agent inp" and u: "underway inp (tx_ex t) h0 h" and run: "apply_restore d inp t h = (res, h')"
  shows "(rr_rolled_back res \<and> \<not> rr_refused res \<and> \<not> rr_restored res
          \<and> (\<exists>h2. underway inp (tx_ex t) h0 h2 \<and> restore_rollback d inp t h2 = (rr_failures res, h'))
          \<and> (rr_incomplete res \<longleftrightarrow> rr_failures res \<noteq> []))
       \<or> (\<exists>h1 v. run_steps (forward_steps d inp t) h = (Inr (), h1)
            \<and> rs_prove d (cfg_backend (tx_restored_cfg t)) h1 = (v, h') \<and> verdict_pass v \<and> res = restored_result inp t v)"
proof -
  obtain q h1 where q: "run_steps (forward_steps d inp t) h = (q, h1)" by fastforce
  have u1: "underway inp (tx_ex t) h0 h1" by (rule run_steps_keeps [OF underway_forward [OF a refl] u q])
  show ?thesis
  proof (cases q)
    case (Inl se)
    with q run u1 show ?thesis
      by (cases se) (auto simp: apply_restore_def rolled_back_def zero_restore_def split: prod.splits)
  next
    case (Inr x)
    obtain v h2 where v: "rs_prove d (cfg_backend (tx_restored_cfg t)) h1 = (v, h2)" by fastforce
    have "underway inp (tx_ex t) h0 h2" using underway_same [OF u1] prove_call [OF v] by simp
    with q Inr run v show ?thesis
      by (auto simp: apply_restore_def rolled_back_def zero_restore_def split: prod.splits if_splits)
  qed
qed

lemma run_cases:
  assumes a: "apart agent inp" and run: "run_restore d inp h0 = (res, h')"
  shows "(rr_refused res \<and> \<not> rr_rolled_back res \<and> \<not> rr_restored res \<and> only_temps inp h0 h')
       \<or> (\<exists>ex un t h1. read_and_verify (ri_cwd inp) (ri_parse_manifest inp) (ri_sha inp) (ri_open inp h0) = Inr ex
            \<and> skew_gate d inp ex h0 = None \<and> capture_all d inp ex un h0 = (Inr t, h1)
            \<and> apply_restore d inp t h1 = (res, h'))"
proof -
  have cap: "only_temps inp h0 h1" if "capture_all d inp ex un h0 = (Inl e, h1)" for ex un e h1
    using triple_Inl [OF captured [OF a] only_temps_refl that] .
  show ?thesis
    using run cap
    by (auto simp: run_restore_def refuse_restore_def zero_restore_def only_temps_refl
        split: sum.splits option.splits prod.splits)
qed

lemma refused_quiet:
  assumes "apart agent inp" "run_restore d inp h0 = (res, h')" "rr_refused res"
  shows "only_temps inp h0 h'"
proof -
  have "\<not> rr_refused (restored_result inp t v)" for t v by (simp add: restored_result_def zero_restore_def)
  then show ?thesis using run_cases [OF assms(1,2)] assms(3) apply_rolled_back [OF assms(1) began(1) [OF assms(1)]] by metis
qed

lemma rolled_back_site:
  assumes a: "apart agent inp" and run: "run_restore d inp h0 = (res, h')"
    and rb: "rr_rolled_back res" "\<not> rr_incomplete res"
    and truth: "\<not> ri_qdrant_unknown inp \<Longrightarrow> ri_qdrant_exists inp \<longleftrightarrow> vol h0 (ri_qdrant_volume inp) \<noteq> None"
    and again: "\<forall>n v. vol h0 n = Some v \<longrightarrow> merge fresh (pack v) = v"
  shows "vol h' = vol h0" "\<forall>p. p \<notin> set (temps inp) \<and> p \<noteq> agent \<longrightarrow> bytes h' p = bytes h0 p"
    "\<exists>prior c'. conf h0 = Some prior \<and> healed prior c' \<and> conf h' = reload c'"
proof -
  from run_cases [OF a run] rb(1) obtain ex un t h1 where t: "capture_all d inp ex un h0 = (Inr t, h1)"
    "apply_restore d inp t h1 = (res, h')" by auto
  note b = began [OF a t(1)]
  have "\<not> rr_rolled_back (restored_result inp t v)" for v by (simp add: restored_result_def zero_restore_def)
  with apply_rolled_back [OF a b(1) t(2)] rb obtain h2 where h2: "underway inp (tx_ex t) h0 h2"
    "restore_rollback d inp t h2 = ([], h')" by auto
  have known: "\<not> ri_qdrant_unknown inp" if "ex_qdrant (tx_ex t) \<noteq> None"
    using that t(1) b(2) by (auto simp: capture_all_def andthen_def stop_def split: if_splits)
  have "footprint inp {} {} h0 h' \<and> (\<exists>c'. healed (tx_prior_cfg t) c' \<and> conf h' = reload c')"
    by (rule rollback_complete [OF a h2(1) _ _ again h2(2)]) (use b known truth in auto)
  then show "vol h' = vol h0" "\<forall>p. p \<notin> set (temps inp) \<and> p \<noteq> agent \<longrightarrow> bytes h' p = bytes h0 p"
    "\<exists>prior c'. conf h0 = Some prior \<and> healed prior c' \<and> conf h' = reload c'"
    using b(3) by (auto simp: footprint_def)
qed

lemma restored_site:
  assumes a: "apart agent inp" and run: "run_restore d inp h0 = (res, h')" and ok: "rr_restored res"
  shows "\<exists>ex c c'. read_and_verify (ri_cwd inp) (ri_parse_manifest inp) (ri_sha inp) (ri_open inp h0) = Inr ex
    \<and> verdict_pass (rr_prove res) \<and> parse_config (ri_toml inp) (ex_config ex) = Inr c
    \<and> healed c c' \<and> conf h' = reload c' \<and> holds_archive inp ex h0 h'"
proof -
  from run_cases [OF a run] ok obtain ex un t h1 where t:
    "read_and_verify (ri_cwd inp) (ri_parse_manifest inp) (ri_sha inp) (ri_open inp h0) = Inr ex"
    "capture_all d inp ex un h0 = (Inr t, h1)" "apply_restore d inp t h1 = (res, h')" by auto
  note b = began [OF a t(2)]
  from apply_rolled_back [OF a b(1) t(3)] ok obtain h2 v where h2: "run_steps (forward_steps d inp t) h1 = (Inr (), h2)"
    "rs_prove d (cfg_backend (tx_restored_cfg t)) h2 = (v, h')" "verdict_pass v" "res = restored_result inp t v" by auto
  from forward_done [OF a b(1) h2(1)] prove_call [OF h2(2)] b(2)
  have "holds_archive inp ex h0 h' \<and> (\<exists>c'. healed (tx_restored_cfg t) c' \<and> conf h' = reload c')"
    by (simp add: holds_archive_def footprint_def)
  with t(1) b(4) h2(3,4) show ?thesis by (auto simp: restored_result_def)
qed

end

text \<open>A restore that gets past its gate was agreed to, on an archive nothing blocks.\<close>

lemma gate_passed:
  assumes "run_restore d inp h0 = (res, h')" "\<not> rr_refused res"
  shows "\<exists>ex ws. read_and_verify (ri_cwd inp) (ri_parse_manifest inp) (ri_sha inp) (ri_open inp h0) = Inr ex
    \<and> compare_skew (ex_manifest ex) ((ri_current inp)\<lparr>ci_checksum_failed := False\<rparr>) = Inr ws
    \<and> (gate_warnings d inp ex ws h0 = [] \<or> ri_bypass inp
        \<or> (\<exists>ask. ri_consent inp = Some ask \<and> ask (gate_warnings d inp ex ws h0) h0))"
  using assms
  by (auto simp: run_restore_def skew_gate_def declined_def refuse_restore_def split: sum.splits option.splits if_splits)

end
