(* ===== verification/RestoreHost.thy ===== *)
theory RestoreHost
  imports RestoreSafety LiveHost Recommend
begin

text \<open>
  The live wiring of a restore (\<open>liveRestoreDeps\<close> in \<open>cmd/villa/restore.go\<close>): the configuration and the
  units are the two trees of \<open>LiveHost\<close>; every other file, and podman's volumes, are outside of them.
  A volume maps the paths in it to their bytes. Podman is a function from its arguments to the error it
  prints; as it documents, \<open>rm\<close> removes a volume, \<open>create\<close> adds an empty one, \<open>export\<close> writes its tar and
  \<open>import\<close> adds a tar's files to what the volume holds. A command that fails leaves its volume or its
  output in any state.
\<close>

subsection \<open>The host\<close>

type_synonym volume = "string \<Rightarrow> string option"

record 'x outside =
  ou_files :: "string \<Rightarrow> (string \<times> nat) option"
  ou_volumes :: "string \<Rightarrow> volume option"
  ou_world :: 'x

type_synonym 'x site = "'x outside live_host"

definition outer :: "('x \<Rightarrow> 'r \<times> 'x) \<Rightarrow> 'x outside \<Rightarrow> 'r \<times> 'x outside" where
  "outer f w = (case f (ou_world w) of (r, x) \<Rightarrow> (r, w\<lparr>ou_world := x\<rparr>))"

record 'x restore_env =
  re_live :: "'x live_env"
  re_start :: "string \<Rightarrow> 'x \<Rightarrow> (stack_error + unit) \<times> 'x"
  re_crush_path :: string
  re_heal :: "villa_config \<Rightarrow> string option \<Rightarrow> 'x \<Rightarrow> ((stack_error + unit) \<times> string option) \<times> 'x"
  re_data_root :: string
  re_write :: "string \<Rightarrow> 'x \<Rightarrow> string option \<times> 'x"
  re_file_left :: "string \<Rightarrow> 'x \<Rightarrow> (string \<times> nat) option"
  re_podman_found :: "'x \<Rightarrow> bool"
  re_podman :: "string list \<Rightarrow> 'x \<Rightarrow> string option \<times> 'x"
  re_volume_left :: "string \<Rightarrow> 'x \<Rightarrow> volume option"
  re_tar :: "volume \<Rightarrow> string"
  re_untar :: "string \<Rightarrow> volume"
  re_rocm_checks :: "backend \<Rightarrow> 'x \<Rightarrow> (bool \<times> string) list \<times> 'x"
  re_error_text :: "stack_error \<Rightarrow> string"
  re_owui_service :: string
  re_qdrant_service :: string

text \<open>The live environment over the wider world. Healing the agent's configuration leaves its file with the
  contents the function answers.\<close>

definition heal_crush :: "'x restore_env \<Rightarrow> villa_config \<Rightarrow> 'x outside \<Rightarrow> (stack_error + unit) \<times> 'x outside" where
  "heal_crush env c w =
     (case re_heal env c (map_option fst (ou_files w (re_crush_path env))) (ou_world w) of
        ((r, after), x) \<Rightarrow>
          (r, w\<lparr>ou_files := (ou_files w)(re_crush_path env := map_option (\<lambda>b. (b, 384)) after), ou_world := x\<rparr>))"

definition site_env :: "'x restore_env \<Rightarrow> 'x outside live_env" where
  "site_env env =
     (let e = re_live env in
      \<lparr>le_os = \<lparr>os_cwd = os_cwd (le_os e), os_write = (\<lambda>p. outer (os_write (le_os e) p)),
                os_read = (\<lambda>p w. os_read (le_os e) p (ou_world w)), os_remove = (\<lambda>p. outer (os_remove (le_os e) p))\<rparr>,
       le_sha = le_sha e, le_unit_dir = le_unit_dir e, le_config_dir = le_config_dir e, le_marshal = le_marshal e,
       le_unmarshal = le_unmarshal e, le_mkdir = (\<lambda>p. outer (le_mkdir e p)), le_catalog = outer (le_catalog e),
       le_models_dir = le_models_dir e, le_villa_path = le_villa_path e, le_render = (\<lambda>i. outer (le_render e i)),
       le_daemon_reload = outer (le_daemon_reload e), le_is_active = (\<lambda>s. outer (le_is_active e s)),
       le_stop = (\<lambda>s. outer (le_stop e s)), le_restart = (\<lambda>s. outer (le_restart e s)),
       le_secret_env = (\<lambda>n t. outer (le_secret_env e n t)), le_heal_agent = heal_crush env,
       le_rand = (\<lambda>n. outer (le_rand e n)),
       le_glob = (\<lambda>p h. le_glob e p \<lparr>lv_units = lv_units h, lv_config = lv_config h, lv_world = ou_world (lv_world h)\<rparr>),
       le_lock = outer (le_lock e), le_release = (\<lambda>w. w\<lparr>ou_world := le_release e (ou_world w)\<rparr>),
       le_prove = (\<lambda>b. outer (le_prove e b)), le_image_table = le_image_table e\<rparr>)"

definition set_file :: "string \<Rightarrow> (string \<times> nat) option \<Rightarrow> 'x site \<Rightarrow> 'x site" where
  "set_file p x h = h\<lparr>lv_world := (lv_world h)\<lparr>ou_files := (ou_files (lv_world h))(p := x)\<rparr>\<rparr>"

definition set_volume :: "string \<Rightarrow> volume option \<Rightarrow> 'x site \<Rightarrow> 'x site" where
  "set_volume n x h = h\<lparr>lv_world := (lv_world h)\<lparr>ou_volumes := (ou_volumes (lv_world h))(n := x)\<rparr>\<rparr>"

definition site_file :: "'x site \<Rightarrow> string \<Rightarrow> string option" where
  "site_file h p = map_option fst (ou_files (lv_world h) p)"

definition site_volume :: "'x site \<Rightarrow> string \<Rightarrow> volume option" where
  "site_volume h = ou_volumes (lv_world h)"

definition inner_world :: "'x site \<Rightarrow> 'x" where
  "inner_world h = ou_world (lv_world h)"

definition on_inner :: "('x \<Rightarrow> 'r \<times> 'x) \<Rightarrow> 'x site \<Rightarrow> 'r \<times> 'x site" where
  "on_inner f = on_world (outer f)"

subsection \<open>Podman's volumes\<close>

definition volume_export_args :: "string \<Rightarrow> string \<Rightarrow> string list" where
  "volume_export_args n out = [''volume'', ''export'', n, ''--output'', out]"

definition volume_import_args :: "string \<Rightarrow> string \<Rightarrow> string list" where
  "volume_import_args n src = [''volume'', ''import'', n, src]"

definition volume_rm_args :: "string \<Rightarrow> string list" where
  "volume_rm_args n = [''volume'', ''rm'', ''--force'', n]"

definition volume_create_args :: "string \<Rightarrow> string list" where
  "volume_create_args n = [''volume'', ''create'', n]"

definition is_volume_not_found :: "string \<Rightarrow> bool" where
  "is_volume_not_found e \<longleftrightarrow>
     contains_sub (to_lower e) ''no such volume'' \<or> contains_sub (to_lower e) ''no volume with name''"

definition is_volume_already_exists :: "string \<Rightarrow> bool" where
  "is_volume_already_exists e \<longleftrightarrow>
     contains_sub (to_lower e) ''already exists'' \<or> contains_sub (to_lower e) ''already in use''"

text \<open>A command, when podman is installed: \<open>ok\<close> says whether it can succeed here and what it then does,
  \<open>failed\<close> what an error leaves.\<close>

definition podman_call ::
  "'x restore_env \<Rightarrow> string list \<Rightarrow> ('x site \<Rightarrow> 'x site option) \<Rightarrow> (string \<Rightarrow> 'x site \<Rightarrow> string option \<times> 'x site)
     \<Rightarrow> 'x site \<Rightarrow> string option \<times> 'x site" where
  "podman_call env args ok failed h =
     (if \<not> re_podman_found env (inner_world h) then (Some ''podman not found'', h)
      else (case on_inner (re_podman env args) h of
        (Some e, h1) \<Rightarrow> failed e h1
      | (None, h1) \<Rightarrow> (case ok h1 of Some h2 \<Rightarrow> (None, h2) | None \<Rightarrow> failed ''no such volume or tar'' h1)))"

definition live_volume_export :: "'x restore_env \<Rightarrow> string \<Rightarrow> string \<Rightarrow> 'x site \<Rightarrow> string option \<times> 'x site" where
  "live_volume_export env n out =
     podman_call env (volume_export_args n out)
       (\<lambda>h. map_option (\<lambda>v. set_file out (Some (re_tar env v, 420)) h) (site_volume h n))
       (\<lambda>e h. (Some e, set_file out (re_file_left env out (inner_world h)) h))"

definition live_volume_import :: "'x restore_env \<Rightarrow> string \<Rightarrow> string \<Rightarrow> 'x site \<Rightarrow> string option \<times> 'x site" where
  "live_volume_import env n src =
     podman_call env (volume_import_args n src)
       (\<lambda>h. case (site_volume h n, site_file h src) of
          (Some v, Some b) \<Rightarrow> Some (set_volume n (Some (v ++ re_untar env b)) h) | _ \<Rightarrow> None)
       (\<lambda>e h. (Some e, set_volume n (re_volume_left env n (inner_world h)) h))"

definition live_volume_rm :: "'x restore_env \<Rightarrow> string \<Rightarrow> 'x site \<Rightarrow> string option \<times> 'x site" where
  "live_volume_rm env n =
     podman_call env (volume_rm_args n)
       (\<lambda>h. Some (set_volume n None h))
       (\<lambda>e h. if is_volume_not_found e then (None, set_volume n None h)
              else (Some e, set_volume n (re_volume_left env n (inner_world h)) h))"

definition live_ensure_volume :: "'x restore_env \<Rightarrow> string \<Rightarrow> 'x site \<Rightarrow> string option \<times> 'x site" where
  "live_ensure_volume env n =
     (let there = (\<lambda>h. set_volume n (Some (case site_volume h n of None \<Rightarrow> (\<lambda>_. None) | Some v \<Rightarrow> v)) h) in
      podman_call env (volume_create_args n) (\<lambda>h. Some (there h))
       (\<lambda>e h. if is_volume_already_exists e then (None, there h)
              else (Some e, set_volume n (re_volume_left env n (inner_world h)) h)))"

subsection \<open>Files\<close>

definition live_read_file :: "'x restore_env \<Rightarrow> string \<Rightarrow> 'x site \<Rightarrow> file_read" where
  "live_read_file env p h =
     read_file (le_os (re_live env)) p \<lparr>h_fs = ou_files (lv_world h), h_world = inner_world h\<rparr>"

definition on_files :: "('x host \<Rightarrow> 'r \<times> 'x host) \<Rightarrow> 'x site \<Rightarrow> 'r \<times> 'x site" where
  "on_files f h =
     (case f \<lparr>h_fs = ou_files (lv_world h), h_world = inner_world h\<rparr> of
        (r, g) \<Rightarrow> (r, h\<lparr>lv_world := (lv_world h)\<lparr>ou_files := h_fs g, ou_world := h_world g\<rparr>\<rparr>))"

text \<open>\<open>usage.WriteFileAtomic\<close>: the data root is checked, and the path, before the directory is made.\<close>

definition store_write :: "'x restore_env \<Rightarrow> string \<Rightarrow> string \<Rightarrow> ('x site, unit) eff" where
  "store_write env p b h =
     (case assert_root (re_data_root env) of
        Some e \<Rightarrow> (Inl (Io (PathError e)), h)
      | None \<Rightarrow>
          (case inside (os_cwd (le_os (re_live env))) p (re_data_root env) of
             Inl e \<Rightarrow> (Inl (Io (PathError e)), h)
           | Inr _ \<Rightarrow>
               eff_bind (on_inner (le_mkdir (re_live env) (dir_path p)))
                 (\<lambda>_ h. lift_io (on_files (write_file_atomic (le_os (re_live env)) (re_data_root env) p b 384) h)) h))"

text \<open>\<open>os.WriteFile\<close> keeps the mode of a file that is there; what a failed one leaves is not known.\<close>

definition plain_write :: "'x restore_env \<Rightarrow> string \<Rightarrow> string \<Rightarrow> 'x site \<Rightarrow> string option \<times> 'x site" where
  "plain_write env p b h =
     (case inside (os_cwd (le_os (re_live env))) p (dir_path p) of
        Inl e \<Rightarrow> (Some ''refusing to write outside its directory'', h)
      | Inr _ \<Rightarrow>
          (case on_inner (le_mkdir (re_live env) (dir_path p)) h of
             (Inl e, h1) \<Rightarrow> (Some (re_error_text env e), h1)
           | (Inr _, h1) \<Rightarrow>
               (case on_inner (re_write env p) h1 of
                  (Some e, h2) \<Rightarrow> (Some e, set_file p (re_file_left env p (inner_world h2)) h2)
                | (None, h2) \<Rightarrow>
                    (None, set_file p (Some (b, case ou_files (lv_world h2) p of None \<Rightarrow> 384 | Some (_, m) \<Rightarrow> m)) h2))))"

definition no_value :: "'x restore_env \<Rightarrow> ('x site, 'a) eff \<Rightarrow> 'x site \<Rightarrow> string option \<times> 'x site" where
  "no_value env m h =
     (case m h of (Inl e, h') \<Rightarrow> (Some (re_error_text env e), h') | (Inr _, h') \<Rightarrow> (None, h'))"

definition live_write_file :: "'x restore_env \<Rightarrow> string \<Rightarrow> string \<Rightarrow> 'x site \<Rightarrow> string option \<times> 'x site" where
  "live_write_file env p b =
     (if inside (os_cwd (le_os (re_live env))) p (re_data_root env) = Inr ()
      then no_value env (store_write env p b) else plain_write env p b)"

definition live_remove_file :: "'x restore_env \<Rightarrow> string \<Rightarrow> 'x site \<Rightarrow> string option \<times> 'x site" where
  "live_remove_file env p = no_value env (\<lambda>h. lift_io (on_files (remove_file (le_os (re_live env)) p) h))"

subsection \<open>Configuration, units and the proof\<close>

definition write_websafe_env :: "'x restore_env \<Rightarrow> villa_config \<Rightarrow> 'x site \<Rightarrow> string option \<times> 'x site" where
  "write_websafe_env env c h =
     (if \<not> web_search_on c then (None, h)
      else if cfg_web_loader_secret c = [] then (Some ''no web loader secret'', h)
      else (case render_websafe_secret_env (cfg_web_loader_secret c) of
        (name, txt) \<Rightarrow> no_value env (on_inner (le_secret_env (re_live env) name txt)) h))"

definition live_reconcile_write :: "'x restore_env \<Rightarrow> villa_config \<Rightarrow> 'x site \<Rightarrow> string option \<times> 'x site" where
  "live_reconcile_write env c h =
     (case write_websafe_env env c h of
        (Some e, h1) \<Rightarrow> (Some e, h1)
      | (None, h1) \<Rightarrow>
          (case apply_stack (le_image_table (re_live env)) (live_stack_deps (site_env env)) c h1 of
             ((_, e), h2) \<Rightarrow> (map_option (re_error_text env) e, h2)))"

definition live_restore_prove :: "'x restore_env \<Rightarrow> string \<Rightarrow> 'x site \<Rightarrow> verdict \<times> 'x site" where
  "live_restore_prove env target h =
     (if \<not> is_rocm_family target then on_inner (le_prove (re_live env) target) h
      else (case backend_for target of
        Inl e \<Rightarrow> (\<lparr>v_status = ''fail'', v_detail = re_error_text env e\<rparr>, h)
      | Inr b \<Rightarrow>
          (case on_inner (re_rocm_checks env b) h of (checks, h1) \<Rightarrow>
             (case find fst checks of
                Some (_, detail) \<Rightarrow> (\<lparr>v_status = ''fail'', v_detail = ''ROCm preflight: '' @ detail\<rparr>, h1)
              | None \<Rightarrow> on_inner (le_prove (re_live env) target) h1))))"

definition live_restore :: "'x restore_env \<Rightarrow> 'x site restore_deps" where
  "live_restore env =
     \<lparr>rs_load_config = (\<lambda>h. case live_load (site_env env) h of
        (Inl e, h') \<Rightarrow> (Inl (re_error_text env e), h') | (Inr c, h') \<Rightarrow> (Inr c, h')),
      rs_save_config = (\<lambda>c. no_value env (save_villa (site_env env) c)),
      rs_volume_export = live_volume_export env, rs_volume_import = live_volume_import env,
      rs_volume_rm = live_volume_rm env, rs_ensure_volume = live_ensure_volume env,
      rs_read_file = live_read_file env, rs_write_file = live_write_file env, rs_remove_file = live_remove_file env,
      rs_stop = (\<lambda>s. no_value env (on_inner (le_stop (re_live env) s))),
      rs_start = (\<lambda>s. no_value env (on_inner (re_start env s))),
      rs_reconcile = live_reconcile_write env, rs_prove = live_restore_prove env,
      rs_owui_service = re_owui_service env, rs_qdrant_service = re_qdrant_service env\<rparr>"

subsection \<open>What an apply keeps\<close>

lemma keepsI: "(\<And>h r h'. P h \<Longrightarrow> m h = (r, h') \<Longrightarrow> P h') \<Longrightarrow> keeps P m"
  by (auto simp: triple_def split: prod.splits sum.splits)

lemma keepsD: "keeps P m \<Longrightarrow> P h \<Longrightarrow> m h = (r, h') \<Longrightarrow> P h'"
  by (auto simp: triple_def split: sum.splits)

lemma eff_bind_andthen: "eff_bind m f = andthen m f"
  by (simp add: fun_eq_iff eff_bind_def andthen_def split: prod.splits sum.splits)

lemma keeps_eff [flow_rules]:
  "keeps P m \<Longrightarrow> (\<And>a. keeps P (f a)) \<Longrightarrow> keeps P (eff_bind m f)"
  "keeps P m \<Longrightarrow> keeps P (eff_at s m)" "keeps P (eff_ok a)" "keeps P (eff_fail e)"
  unfolding eff_bind_andthen
  by (rule keeps_andthen, assumption, assumption)
     (auto simp: triple_def eff_at_def eff_ok_def eff_fail_def split: prod.splits sum.splits)

definition calls_keep :: "('h \<Rightarrow> bool) \<Rightarrow> 'h stack_deps \<Rightarrow> bool" where
  "calls_keep P d \<longleftrightarrow> keeps P (sd_catalog d) \<and> (\<forall>i. keeps P (sd_render d i)) \<and> keeps P (sd_unit_dir d)
     \<and> (\<forall>u dir. keeps P (sd_reconcile d u dir)) \<and> (\<forall>p dir. keeps P (sd_write_units d p dir))
     \<and> (\<forall>p dir. keeps P (sd_remove_units d p dir)) \<and> keeps P (sd_daemon_reload d) \<and> (\<forall>s. keeps P (sd_is_active d s))
     \<and> (\<forall>s. keeps P (sd_stop d s)) \<and> (\<forall>n t. keeps P (sd_write_secret_env d n t))
     \<and> (\<forall>f c. sd_heal_agent_config d = Some f \<longrightarrow> keeps P (f c)) \<and> (\<forall>n. keeps P (sd_rand d n))"

lemma keeps_heal_agent: "calls_keep P d \<Longrightarrow> keeps P (heal_agent_config d c)"
  by (auto simp: heal_agent_config_def calls_keep_def split: option.split intro: keeps_eff)

lemma keeps_plan: "calls_keep P d \<Longrightarrow> keeps P (plan_stack tbl d c)"
  unfolding plan_stack_def render_stack_def render_inputs_def
  by (intro keeps_eff) (auto simp: calls_keep_def split: sum.splits intro!: keeps_eff)

lemma keeps_running_removed: "calls_keep P d \<Longrightarrow> keeps P (running_removed d us)"
proof (induction us)
  case (Cons u us)
  show ?case
  proof (cases "service (un_name u)")
    case (Some svc)
    have "keeps P (sd_is_active d svc)" "keeps P (running_removed d us)" using Cons by (simp_all add: calls_keep_def)
    then have "keeps P (\<lambda>h. case sd_is_active d svc h of (Inl e, h') \<Rightarrow> (Inl (UnreadableState (un_name u) svc e), h')
           | (Inr state, h') \<Rightarrow> eff_bind (running_removed d us) (\<lambda>up. eff_ok (if is_up state then svc # up else up)) h')"
    proof (intro keepsI)
      fix h r h' assume p: "P h" and m: "(case sd_is_active d svc h of
             (Inl e, h') \<Rightarrow> (Inl (UnreadableState (un_name u) svc e), h')
           | (Inr state, h') \<Rightarrow> eff_bind (running_removed d us) (\<lambda>up. eff_ok (if is_up state then svc # up else up)) h')
         = (r, h')"
      assume k: "keeps P (sd_is_active d svc)" "keeps P (running_removed d us)"
      obtain q h1 where q: "sd_is_active d svc h = (q, h1)" by fastforce
      have p1: "P h1" by (rule keepsD [OF k(1) p q])
      show "P h'"
      proof (cases q)
        case Inl
        with m q p1 show ?thesis by auto
      next
        case (Inr st)
        with m q have "eff_bind (running_removed d us) (\<lambda>up. eff_ok (if is_up st then svc # up else up)) h1 = (r, h')"
          by simp
        then show ?thesis by (rule keepsD [OF keeps_eff(1) [OF k(2) keeps_eff(3)] p1])
      qed
    qed
    then show ?thesis using Some by simp
  qed (use Cons in simp)
qed (simp add: keeps_eff)

lemma stop_each_keeps:
  "calls_keep P d \<Longrightarrow> P h \<Longrightarrow> stop_each d ss acc h = (r, h') \<Longrightarrow> P h'"
proof (induction ss arbitrary: acc h)
  case (Cons s ss)
  have "keeps P (sd_stop d s)" using Cons.prems(1) by (simp add: calls_keep_def)
  then show ?case using Cons by (fastforce simp: triple_def split: prod.splits sum.splits)
qed simp

lemma write_plan_keeps:
  assumes k: "calls_keep P d" and "P h" "write_plan d plan dir a h = (r, h')"
  shows "P h'"
proof -
  have k3: "keeps P (eff_at ''write units'' (sd_write_units d plan dir))"
    "keeps P (eff_at ''remove units'' (sd_remove_units d plan dir))" "keeps P (eff_at ''daemon-reload'' (sd_daemon_reload d))"
    using k by (auto simp: calls_keep_def intro: keeps_eff)
  obtain q1 a1 h1 where w: "(if pl_changed plan \<noteq> []
            then (case eff_at ''write units'' (sd_write_units d plan dir) h of
                    (r, h') \<Rightarrow> (r, a\<lparr>ap_changed := pl_changed plan\<rparr>, h'))
            else (Inr (), a, h)) = (q1, a1, h1)" using prod_cases3 by blast
  have p1: "P h1" using w \<open>P h\<close> keepsD [OF k3(1)] by (auto split: if_splits prod.splits)
  show ?thesis
  proof (cases q1)
    case (Inl e)
    with w assms(3) p1 show ?thesis by (simp add: write_plan_def)
  next
    case (Inr x)
    obtain q2 a2 h2 where m: "(if pl_removed plan \<noteq> []
                 then (case eff_at ''remove units'' (sd_remove_units d plan dir) h1 of
                         (r, h') \<Rightarrow> (r, a1\<lparr>ap_removed := pl_removed plan\<rparr>, h'))
                 else (Inr (), a1, h1)) = (q2, a2, h2)" using prod_cases3 by blast
    have p2: "P h2" using m p1 keepsD [OF k3(2)] by (auto split: if_splits prod.splits)
    obtain q3 h3 where r: "eff_at ''daemon-reload'' (sd_daemon_reload d) h2 = (q3, h3)" by fastforce
    have p3: "P h3" by (rule keepsD [OF k3(3) p2 r])
    from assms(3) w Inr m r p2 p3 show ?thesis by (cases q2; cases q3) (simp_all add: write_plan_def)
  qed
qed

lemma write_stack_keeps:
  assumes k: "calls_keep P d" and "P h" "write_stack d plan h = (r, h')"
  shows "P h'"
proof (cases "pl_changed plan = [] \<and> pl_removed plan = []")
  case True
  with assms show ?thesis by (simp add: write_stack_def)
next
  case False
  have kd: "keeps P (eff_at ''resolve unit dir'' (sd_unit_dir d))" using k by (auto simp: calls_keep_def intro: keeps_eff)
  obtain q1 h1 where 1: "eff_at ''resolve unit dir'' (sd_unit_dir d) h = (q1, h1)" by fastforce
  have p1: "P h1" by (rule keepsD [OF kd \<open>P h\<close> 1])
  obtain q2 h2 where 2: "running_removed d (pl_removed plan) h1 = (q2, h2)" by fastforce
  have p2: "P h2" by (rule keepsD [OF keeps_running_removed [OF k] p1 2])
  show ?thesis
  proof (cases q1)
    case Inl
    with assms(3) 1 p1 show ?thesis unfolding write_stack_def if_not_P [OF False] by simp
  next
    case (Inr dir)
    note q1 = this
    show ?thesis
    proof (cases q2)
      case Inl
      with assms(3) 1 q1 2 p2 show ?thesis unfolding write_stack_def if_not_P [OF False] by simp
    next
      case (Inr ss)
      obtain st e h3 where 3: "stop_each d ss [] h2 = ((st, e), h3)" by (metis surj_pair)
      have p3: "P h3" by (rule stop_each_keeps [OF k p2 3])
      show ?thesis using assms(3) 1 q1 2 Inr 3 p3 write_plan_keeps [OF k p3]
        unfolding write_stack_def if_not_P [OF False] by (cases e) simp_all
    qed
  qed
qed

lemma apply_stack_split:
  assumes "apply_stack tbl d c h = ((a, e), h')" "calls_keep P d"
  shows "\<exists>q h1. heal d c h = (q, h1) \<and> (P h1 \<longrightarrow> P h') \<and> (e = None \<longrightarrow> (\<exists>c1. q = Inr c1))"
proof -
  obtain q h1 where q: "heal d c h = (q, h1)" by fastforce
  have k: "keeps P (eff_bind (heal_agent_config d c1) (\<lambda>_. plan_stack tbl d c1))" for c1
    by (intro keeps_eff keeps_heal_agent keeps_plan assms(2))
  show ?thesis
  proof (cases q)
    case (Inl x)
    with assms(1) q show ?thesis by (auto simp: apply_stack_def eff_bind_def eff_at_def)
  next
    case (Inr c1)
    obtain q2 h2 where 2: "eff_bind (heal_agent_config d c1) (\<lambda>_. plan_stack tbl d c1) h1 = (q2, h2)" by fastforce
    have "eff_bind (eff_at ''ensure inference secret'' (heal d c)) (\<lambda>cfg.
           eff_bind (heal_agent_config d cfg) (\<lambda>_. plan_stack tbl d cfg)) h = (q2, h2)"
      using q Inr 2 by (simp add: eff_bind_def [of "eff_at _ _"] eff_at_def)
    then have a: "(case q2 of Inl e \<Rightarrow> ((no_applied, Some e), h2) | Inr plan \<Rightarrow> write_stack d plan h2) = ((a, e), h')"
      using assms(1) by (simp add: apply_stack_def)
    have "P h'" if "P h1"
    proof -
      have "P h2" by (rule keepsD [OF k that 2])
      with a show ?thesis using write_stack_keeps [OF assms(2)] by (cases q2) auto
    qed
    with q Inr show ?thesis by blast
  qed
qed

subsection \<open>The live host is a restore's site\<close>

definition kept_outside :: "'x outside \<Rightarrow> 'x outside \<Rightarrow> bool" where
  "kept_outside w w' \<longleftrightarrow> ou_files w' = ou_files w \<and> ou_volumes w' = ou_volumes w"

lemma outer_kept: "outer f w = (r, w') \<Longrightarrow> kept_outside w w'"
  by (auto simp: outer_def kept_outside_def split: prod.splits)

lemma kept_outside_trans: "kept_outside w w' \<Longrightarrow> kept_outside w' w'' \<Longrightarrow> kept_outside w w''"
  by (simp add: kept_outside_def)

lemma kept_outside_refl [simp]: "kept_outside w w"
  by (simp add: kept_outside_def)

lemma site_os [simp]:
  "os_write (le_os (site_env env)) p = outer (os_write (le_os (re_live env)) p)"
  "os_remove (le_os (site_env env)) p = outer (os_remove (le_os (re_live env)) p)"
  "os_cwd (le_os (site_env env)) = os_cwd (le_os (re_live env))"
  by (simp_all add: site_env_def Let_def)

lemma site_calls [simp]:
  "le_mkdir (site_env env) p = outer (le_mkdir (re_live env) p)"
  "le_catalog (site_env env) = outer (le_catalog (re_live env))"
  "le_render (site_env env) i = outer (le_render (re_live env) i)"
  "le_daemon_reload (site_env env) = outer (le_daemon_reload (re_live env))"
  "le_is_active (site_env env) n = outer (le_is_active (re_live env) n)"
  "le_stop (site_env env) n = outer (le_stop (re_live env) n)"
  "le_secret_env (site_env env) n t = outer (le_secret_env (re_live env) n t)"
  "le_heal_agent (site_env env) = heal_crush env"
  "le_rand (site_env env) k = outer (le_rand (re_live env) k)"
  by (simp_all add: site_env_def Let_def)

lemma on_inner_frame:
  assumes "on_inner f h = (r, h')"
  shows "kept_outside (lv_world h) (lv_world h') \<and> lv_config h' = lv_config h \<and> lv_units h' = lv_units h"
proof -
  obtain q w where w: "outer f (lv_world h) = (q, w)" by fastforce
  then have "h' = h\<lparr>lv_world := w\<rparr>" using assms by (simp add: on_inner_def on_world_def)
  with outer_kept [OF w] show ?thesis by simp
qed

lemma written_world:
  assumes "write_file_atomic os rt p b m h = (r, h')"
  shows "h_world h' = h_world h \<or> (\<exists>f. os_write os p (h_world h) = (f, h_world h'))"
proof (cases "assert_root rt = None \<and> inside (os_cwd os) p rt = Inr ()")
  case True
  obtain f w where f: "os_write os p (h_world h) = (f, w)" by fastforce
  have "h_world h' = w"
  proof (cases f)
    case None
    with assms True f show ?thesis by (auto simp: write_file_atomic_def)
  next
    case (Some st)
    with assms True f show ?thesis by (cases st) (auto simp: write_file_atomic_def)
  qed
  with f show ?thesis by blast
next
  case False
  then show ?thesis
    using assms by (cases "assert_root rt"; cases "inside (os_cwd os) p rt") (auto simp: write_file_atomic_def)
qed

lemma written_outside:
  assumes "write_file_atomic (le_os (site_env env)) rt p b m h = (r, h')"
  shows "kept_outside (h_world h) (h_world h')"
proof -
  from written_world [OF assms] consider "h_world h' = h_world h"
    | f where "outer (os_write (le_os (re_live env)) p) (h_world h) = (f, h_world h')" by (auto simp del: split_paired_Ex)
  then show ?thesis by cases (simp, rule outer_kept)
qed

lemma removed_outside:
  assumes "remove_file (le_os (site_env env)) p h = (q, h')"
  shows "kept_outside (h_world h) (h_world h')"
proof -
  obtain f w where o: "outer (os_remove (le_os (re_live env)) p) (h_world h) = (f, w)" by fastforce
  then have "h_world h' = w" using assms by (auto simp: remove_file_def split: option.splits)
  with outer_kept [OF o] show ?thesis by simp
qed

lemma write_each_outside:
  "write_each (le_os (site_env env)) dir us h = (r, h') \<Longrightarrow> kept_outside (h_world h) (h_world h')"
proof (induction us arbitrary: h)
  case (Cons u us)
  obtain q h1 where q: "write_file_atomic (le_os (site_env env)) dir (unit_path dir (un_name u)) (un_text u) unit_file_mode h = (q, h1)"
    by fastforce
  show ?case
  proof (cases q)
    case (Inr x)
    then have "write_each (le_os (site_env env)) dir us h1 = (r, h')" using Cons.prems q by simp
    from kept_outside_trans [OF written_outside [OF q] Cons.IH [OF this]] show ?thesis .
  qed (use Cons.prems q written_outside [OF q] in auto)
qed simp

lemma remove_each_outside:
  "remove_each (le_os (site_env env)) dir us h = (r, h') \<Longrightarrow> kept_outside (h_world h) (h_world h')"
proof (induction us arbitrary: h)
  case (Cons u us)
  obtain q h1 where q: "remove_file (le_os (site_env env)) (unit_path dir (un_name u)) h = (q, h1)" by fastforce
  show ?case
  proof (cases "inside (os_cwd (le_os (re_live env))) (unit_path dir (un_name u)) dir")
    case Inl
    with Cons.prems show ?thesis by simp
  next
    case ins: (Inr x)
    show ?thesis
    proof (cases q)
      case (Inr y)
      then have "remove_each (le_os (site_env env)) dir us h1 = (r, h')" using Cons.prems q ins by simp
      from kept_outside_trans [OF removed_outside [OF q] Cons.IH [OF this]] show ?thesis .
    qed (use Cons.prems q ins removed_outside [OF q] in auto)
  qed
qed simp

text \<open>All that an apply can do outside the two trees is to rewrite the agent's file.\<close>

definition healed_outside :: "'x restore_env \<Rightarrow> 'x site \<Rightarrow> 'x site \<Rightarrow> bool" where
  "healed_outside env h0 h \<longleftrightarrow> ou_volumes (lv_world h) = ou_volumes (lv_world h0)
     \<and> (\<forall>p. p \<noteq> re_crush_path env \<longrightarrow> ou_files (lv_world h) p = ou_files (lv_world h0) p)"

lemma healed_kept: "healed_outside env h0 h \<Longrightarrow> kept_outside (lv_world h) (lv_world h') \<Longrightarrow> healed_outside env h0 h'"
  by (simp add: healed_outside_def kept_outside_def)

lemma keeps_outer: "keeps (healed_outside env h0) (on_world (outer f))"
proof (intro keepsI)
  fix h r h' assume "healed_outside env h0 h" "on_world (outer f) h = (r, h')"
  then show "healed_outside env h0 h'" using on_inner_frame [of f h r h'] healed_kept by (auto simp: on_inner_def)
qed

lemma keeps_config_outer: "keeps (\<lambda>h. lv_config h = k) (on_world f)"
  by (intro keepsI) simp

lemma outside_calls: "calls_keep (healed_outside env h0) (live_stack_deps (site_env env))"
proof -
  have w: "keeps (healed_outside env h0) (\<lambda>h. lift_io (on_units f h))"
    if "\<And>g r g'. f g = (r, g') \<Longrightarrow> kept_outside (h_world g) (h_world g')" for f :: "'a outside host \<Rightarrow> (io_error + unit) \<times> 'a outside host"
  proof (intro keepsI)
    fix h r h' assume h: "healed_outside env h0 h" "lift_io (on_units f h) = (r, h')"
    obtain q g where g: "f \<lparr>h_fs = lv_units h, h_world = lv_world h\<rparr> = (q, g)" by fastforce
    then have "lv_world h' = h_world g" using h(2) by (auto simp: lift_io_def on_units_def split: sum.splits)
    with that [OF g] have "kept_outside (lv_world h) (lv_world h')" by simp
    with h(1) show "healed_outside env h0 h'" by (rule healed_kept)
  qed
  have hc: "keeps (healed_outside env h0) (on_world (heal_crush env c))" for c
  proof (intro keepsI)
    fix h r h' assume h: "healed_outside env h0 h" "on_world (heal_crush env c) h = (r, h')"
    obtain q after x where x: "re_heal env c (map_option fst (ou_files (lv_world h) (re_crush_path env))) (ou_world (lv_world h))
        = ((q, after), x)" by (metis surj_pair)
    then have "h' = h\<lparr>lv_world := (lv_world h)\<lparr>ou_files := (ou_files (lv_world h))(re_crush_path env := map_option (\<lambda>b. (b, 384)) after),
        ou_world := x\<rparr>\<rparr>" using h(2) by (simp add: on_world_def heal_crush_def)
    with h(1) show "healed_outside env h0 h'" by (simp add: healed_outside_def)
  qed
  have "keeps (healed_outside env h0) (live_reconcile (site_env env) us dir)" for us dir
    by (intro keepsI) (auto simp: live_reconcile_def split: sum.splits)
  moreover have "keeps (healed_outside env h0) (\<lambda>h. lift_io (on_units (write_units (le_os (site_env env)) p dir) h))" for p dir
    by (rule w) (simp add: write_units_def write_each_outside)
  moreover have "keeps (healed_outside env h0) (\<lambda>h. lift_io (on_units (remove_units (le_os (site_env env)) p dir) h))" for p dir
    by (rule w) (simp add: remove_units_def remove_each_outside)
  ultimately show ?thesis
    unfolding calls_keep_def live_stack_deps_def
    by (simp only: stack_deps.simps site_calls keeps_outer keeps_eff(3) option.inject simp_thms) (auto intro: hc)
qed

lemma config_calls: "calls_keep (\<lambda>h. lv_config h = k) (live_stack_deps (site_env env))"
proof -
  have "keeps (\<lambda>h. lv_config h = k) (\<lambda>h. lift_io (on_units f h))" for f :: "'a outside host \<Rightarrow> (io_error + unit) \<times> 'a outside host"
    by (intro keepsI) (auto simp: lift_io_eq on_units_eq)
  moreover have "keeps (\<lambda>h. lv_config h = k) (live_reconcile (site_env env) us dir)" for us dir
    by (intro keepsI) (auto simp: live_reconcile_def split: sum.splits)
  ultimately show ?thesis
    unfolding calls_keep_def live_stack_deps_def by (simp add: keeps_config_outer keeps_eff)
qed

lemma save_outside:
  assumes "save_villa (site_env env) c h = (r, h')"
  shows "kept_outside (lv_world h) (lv_world h')"
proof -
  have m: "kept_outside (lv_world h) (lv_world g)" if "on_world (outer f) h = (q, g)" for f :: "'a \<Rightarrow> (stack_error + unit) \<times> 'a" and q g
    using on_inner_frame [of f h] that by (simp add: on_inner_def)
  have w: "kept_outside (lv_world g) (lv_world g')"
    if "on_config (write_file_atomic (le_os (site_env env)) a p b k) g = (q, g')" for a p b k g q g'
    using that by (auto simp: on_config_eq dest: written_outside)
  show ?thesis
  proof (cases "abs_path (os_cwd (le_os (site_env env))) (le_config_dir (site_env env))")
    case None
    with assms show ?thesis by (simp add: save_villa_def)
  next
    case dir: (Some dir)
    show ?thesis
    proof (cases "inside (os_cwd (le_os (site_env env))) (join_path dir ''config.toml'') dir")
      case Inl
      with assms dir show ?thesis by (simp add: save_villa_def)
    next
      case ins: (Inr x)
      obtain q g where q: "on_world (le_mkdir (site_env env) dir) h = (q, g)" by fastforce
      have k: "kept_outside (lv_world h) (lv_world g)" using q m by simp
      show ?thesis
      proof (cases q)
        case Inl
        with assms dir ins q k show ?thesis by (simp add: save_villa_def)
      next
        case (Inr y)
        with assms dir ins q obtain z where "on_config (write_file_atomic (le_os (site_env env)) dir
            (join_path dir ''config.toml'') (marshal_villa (le_marshal (site_env env)) c) config_file_mode) g = (z, h')"
          by (auto simp: save_villa_def lift_io_eq)
        from kept_outside_trans [OF k w [OF this]] show ?thesis .
      qed
    qed
  qed
qed

lemma heal_outside: "keeps (healed_outside env h0) (heal (live_stack_deps (site_env env)) c)"
proof -
  have "keeps (healed_outside env h0) (save_villa (site_env env) c)" for c
    by (intro keepsI) (blast intro: healed_kept save_outside)
  then show ?thesis
    unfolding heal_def generate_inference_secret_def live_stack_deps_def
    by (intro keeps_eff) (auto split: prod.split intro!: keeps_eff keeps_outer)
qed

lemma on_world_conf: "on_world f h = (r, h') \<Longrightarrow> live_conf env h' = live_conf env h"
  using on_world_live [of f h r h' env] by simp

lemma heal_conf:
  assumes "heal (live_stack_deps env) c h = (Inr c1, h1)"
  shows "live_conf env h1 = live_conf env h \<or> (\<exists>c'. healed c c' \<and> live_conf env h1 = live_reload env c')"
proof (cases "cfg_inference_secret c = []")
  case False
  with assms show ?thesis
    by (auto simp: heal_def live_stack_deps_def eff_bind_def eff_at_def eff_ok_def dest: on_world_conf split: prod.splits sum.splits)
next
  case True
  from assms True obtain s h2 h3 n t where s: "save_villa env (c\<lparr>cfg_inference_secret := s\<rparr>) h2 = (Inr (), h3)"
    "on_world (le_secret_env env n t) h3 = (Inr (), h1)"
    by (auto simp: heal_def live_stack_deps_def eff_bind_def eff_at_def eff_ok_def split: prod.splits sum.splits)
  have "live_conf env h1 = live_reload env (c\<lparr>cfg_inference_secret := s\<rparr>)"
    using save_villa_law [OF s(1)] on_world_conf [OF s(2), of env] by simp
  moreover have "healed c (c\<lparr>cfg_inference_secret := s\<rparr>)" using True by (auto simp: healed_def)
  ultimately show ?thesis by blast
qed

definition site_conf :: "'x restore_env \<Rightarrow> 'x site \<Rightarrow> villa_config option" where
  "site_conf env h = live_conf (site_env env) h"

lemma site_conf_same: "lv_config h' = lv_config h \<Longrightarrow> site_conf env h' = site_conf env h"
  unfolding site_conf_def by (rule live_frame(2))

lemma inner_same:
  assumes "on_inner f h = (r, h')"
  shows "site_conf env h' = site_conf env h \<and> site_file h' = site_file h \<and> site_volume h' = site_volume h"
  using on_inner_frame [OF assms] site_conf_same [of h' h env]
  by (simp add: kept_outside_def site_file_def site_volume_def fun_eq_iff)

lemma site_sets [simp]:
  "site_conf env (set_file p x h) = site_conf env h" "site_volume (set_file p x h) = site_volume h"
  "site_file (set_file p x h) q = (if q = p then map_option fst x else site_file h q)"
  "site_conf env (set_volume n v h) = site_conf env h" "site_file (set_volume n v h) = site_file h"
  "site_volume (set_volume n v h) m = (if m = n then v else site_volume h m)"
  by (auto simp: set_file_def set_volume_def site_file_def site_volume_def fun_eq_iff intro!: site_conf_same)

lemma no_value_same:
  assumes "no_value env (on_inner f) h = (e, h')"
  shows "site_conf env h' = site_conf env h \<and> site_file h' = site_file h \<and> site_volume h' = site_volume h"
  using assms inner_same by (fastforce simp: no_value_def split: prod.splits sum.splits)

lemma podman_cases:
  assumes "podman_call env args ok failed h = (e, h')"
  shows "(e \<noteq> None \<and> h' = h)
    \<or> (\<exists>h1. site_conf env h1 = site_conf env h \<and> site_file h1 = site_file h \<and> site_volume h1 = site_volume h
          \<and> ((e = None \<and> ok h1 = Some h') \<or> (\<exists>m. failed m h1 = (e, h'))))"
proof (cases "re_podman_found env (inner_world h)")
  case True
  obtain q h1 where q: "on_inner (re_podman env args) h = (q, h1)" by fastforce
  from assms True q have "(e = None \<and> ok h1 = Some h') \<or> (\<exists>m. failed m h1 = (e, h'))"
    by (auto simp: podman_call_def split: option.splits)
  with inner_same [OF q] show ?thesis by blast
next
  case False
  with assms have "e = Some ''podman not found''" "h' = h" by (simp_all add: podman_call_def)
  then show ?thesis by simp
qed

lemma on_files_effect:
  assumes "on_files f h = (r, h')" "f \<lparr>h_fs = ou_files (lv_world h), h_world = inner_world h\<rparr> = (q, g)"
  shows "r = q" "site_conf env h' = site_conf env h" "site_volume h' = site_volume h"
    "site_file h' p = map_option fst (h_fs g p)"
  using assms by (auto simp: on_files_def site_volume_def site_file_def intro!: site_conf_same)

lemma files_lifted:
  assumes "lift_io (on_files f h) = (r, h')"
  obtains q g where "f \<lparr>h_fs = ou_files (lv_world h), h_world = inner_world h\<rparr> = (q, g)"
    "on_files f h = (q, h')" "r = (case q of Inl e \<Rightarrow> Inl (Io e) | Inr a \<Rightarrow> Inr a)"
proof -
  obtain q g where g: "f \<lparr>h_fs = ou_files (lv_world h), h_world = inner_world h\<rparr> = (q, g)" by fastforce
  then have "fst (on_files f h) = q" by (simp add: on_files_def)
  then have "on_files f h = (q, h')" "r = (case q of Inl e \<Rightarrow> Inl (Io e) | Inr a \<Rightarrow> Inr a)"
    using assms by (auto simp: lift_io_eq)
  with g show ?thesis by (rule that)
qed

lemma store_write_effect:
  assumes "store_write env p b h = (r, h')"
  shows "site_conf env h' = site_conf env h \<and> site_volume h' = site_volume h
    \<and> (\<forall>q. q \<noteq> p \<longrightarrow> site_file h' q = site_file h q) \<and> (r = Inr () \<longrightarrow> site_file h' p = Some b)"
proof (cases "assert_root (re_data_root env) = None
    \<and> inside (os_cwd (le_os (re_live env))) p (re_data_root env) = Inr ()")
  case False
  with assms show ?thesis by (auto simp: store_write_def split: option.splits sum.splits)
next
  case True
  obtain q h1 where q: "on_inner (le_mkdir (re_live env) (dir_path p)) h = (q, h1)" by fastforce
  note k = inner_same [OF q, of env]
  show ?thesis
  proof (cases q)
    case Inl
    with assms True q k show ?thesis by (auto simp: store_write_def eff_bind_def)
  next
    case (Inr x)
    with assms True q have "lift_io (on_files (write_file_atomic (le_os (re_live env)) (re_data_root env) p b 384) h1) = (r, h')"
      by (simp add: store_write_def eff_bind_def)
    then obtain z g where z: "write_file_atomic (le_os (re_live env)) (re_data_root env) p b 384
        \<lparr>h_fs = ou_files (lv_world h1), h_world = inner_world h1\<rparr> = (z, g)"
      "on_files (write_file_atomic (le_os (re_live env)) (re_data_root env) p b 384) h1 = (z, h')"
      "r = (case z of Inl e \<Rightarrow> Inl (Io e) | Inr a \<Rightarrow> Inr a)" by (rule files_lifted)
    note e = on_files_effect [OF z(2,1)]
    have "\<forall>q. q \<noteq> p \<longrightarrow> h_fs g q = ou_files (lv_world h1) q" "z = Inr () \<Longrightarrow> h_fs g p = Some (b, 384)"
      using write_file_atomic_cases [OF z(1)] by auto
    then have "\<forall>q. q \<noteq> p \<longrightarrow> site_file h' q = site_file h1 q" "z = Inr () \<Longrightarrow> site_file h' p = Some b"
      using e(4) by (simp_all add: site_file_def)
    then show ?thesis using e(2,3) k z(3) by (auto split: sum.splits)
  qed
qed

lemma plain_write_effect:
  assumes "plain_write env p b h = (r, h')"
  shows "site_conf env h' = site_conf env h \<and> site_volume h' = site_volume h
    \<and> (\<forall>q. q \<noteq> p \<longrightarrow> site_file h' q = site_file h q) \<and> (r = None \<longrightarrow> site_file h' p = Some b)"
proof (cases "inside (os_cwd (le_os (re_live env))) p (dir_path p)")
  case Inl
  with assms show ?thesis by (auto simp: plain_write_def)
next
  case ins: (Inr x)
  obtain q h1 where q: "on_inner (le_mkdir (re_live env) (dir_path p)) h = (q, h1)" by fastforce
  obtain z h2 where z: "on_inner (re_write env p) h1 = (z, h2)" by fastforce
  note k = inner_same [OF q, of env] inner_same [OF z, of env]
  show ?thesis
  proof (cases q)
    case Inl
    with assms ins q k show ?thesis by (auto simp: plain_write_def)
  next
    case (Inr y)
    with assms ins q z k show ?thesis by (cases z) (auto simp: plain_write_def)
  qed
qed

lemma write_file_effect:
  assumes "live_write_file env p b h = (r, h')"
  shows "site_conf env h' = site_conf env h \<and> site_volume h' = site_volume h
    \<and> (\<forall>q. q \<noteq> p \<longrightarrow> site_file h' q = site_file h q) \<and> (r = None \<longrightarrow> site_file h' p = Some b)"
proof (cases "inside (os_cwd (le_os (re_live env))) p (re_data_root env) = Inr ()")
  case False
  with assms show ?thesis by (intro plain_write_effect) (simp add: live_write_file_def)
next
  case True
  obtain z g where z: "store_write env p b h = (z, g)" by fastforce
  with assms True have "h' = g" "r = None \<longrightarrow> z = Inr ()"
    by (auto simp: live_write_file_def no_value_def split: sum.splits)
  with store_write_effect [OF z] show ?thesis by auto
qed

lemma remove_file_effect:
  assumes "live_remove_file env p h = (r, h')"
  shows "site_conf env h' = site_conf env h \<and> site_volume h' = site_volume h
    \<and> (\<forall>q. q \<noteq> p \<longrightarrow> site_file h' q = site_file h q) \<and> (r = None \<longrightarrow> site_file h' p = None)"
proof -
  obtain z g where z: "lift_io (on_files (remove_file (le_os (re_live env)) p) h) = (z, g)" by fastforce
  with assms have r: "h' = g" "r = None \<longrightarrow> z = Inr ()"
    by (auto simp: live_remove_file_def no_value_def split: sum.splits)
  from z obtain q w where q: "remove_file (le_os (re_live env)) p \<lparr>h_fs = ou_files (lv_world h), h_world = inner_world h\<rparr> = (q, w)"
    "on_files (remove_file (le_os (re_live env)) p) h = (q, g)" "z = (case q of Inl e \<Rightarrow> Inl (Io e) | Inr a \<Rightarrow> Inr a)"
    by (rule files_lifted)
  note e = on_files_effect [OF q(2,1)]
  have "(\<forall>x. x \<noteq> p \<longrightarrow> h_fs w x = ou_files (lv_world h) x) \<and> (q = Inr () \<longrightarrow> h_fs w p = None)"
    using q(1) by (auto simp: remove_file_def split: prod.splits option.splits)
  then have "(\<forall>x. x \<noteq> p \<longrightarrow> site_file g x = site_file h x) \<and> (q = Inr () \<longrightarrow> site_file g p = None)"
    using e(4) by (simp add: site_file_def)
  then show ?thesis using e(2,3) r q(3) by (auto split: sum.splits)
qed

lemma websafe_same:
  assumes "write_websafe_env env c h = (e, h')"
  shows "site_conf env h' = site_conf env h \<and> site_file h' = site_file h \<and> site_volume h' = site_volume h"
  using assms no_value_same by (fastforce simp: write_websafe_env_def split: if_splits prod.splits)

lemma reconcile_effect:
  assumes "live_reconcile_write env c h = (e, h')"
  shows "site_volume h' = site_volume h \<and> (\<forall>p. p \<noteq> re_crush_path env \<longrightarrow> site_file h' p = site_file h p)
    \<and> (e = None \<longrightarrow> site_conf env h' = site_conf env h
         \<or> (\<exists>c'. healed c c' \<and> site_conf env h' = live_reload (site_env env) c'))"
proof -
  obtain q h1 where q: "write_websafe_env env c h = (q, h1)" by fastforce
  note k = websafe_same [OF q]
  show ?thesis
  proof (cases q)
    case (Some x)
    with assms q k show ?thesis by (simp add: live_reconcile_write_def)
  next
    case None
    let ?d = "live_stack_deps (site_env env)"
    obtain a e2 where a: "apply_stack (le_image_table (re_live env)) ?d c h1 = ((a, e2), h')" "e = map_option (re_error_text env) e2"
      using assms q None by (auto simp: live_reconcile_write_def split: prod.splits)
    obtain z h2 where z: "heal ?d c h1 = (z, h2)" "healed_outside env h1 h2 \<longrightarrow> healed_outside env h1 h'"
      using apply_stack_split [OF a(1) outside_calls [of env h1]] by blast
    have "healed_outside env h1 h1" by (simp add: healed_outside_def)
    with keepsD [OF heal_outside _ z(1)] z(2) have o: "healed_outside env h1 h'" by blast
    have "site_conf env h' = site_conf env h1 \<or> (\<exists>c'. healed c c' \<and> site_conf env h' = live_reload (site_env env) c')"
      if "e2 = None"
    proof -
      from apply_stack_split [OF a(1) config_calls [of "lv_config h2"]] z(1) that obtain c1 where
        c1: "heal ?d c h1 = (Inr c1, h2)" "lv_config h' = lv_config h2" by auto
      from heal_conf [OF c1(1)] site_conf_same [OF c1(2), of env] show ?thesis by (simp add: site_conf_def)
    qed
    moreover have "site_volume h' = site_volume h1 \<and> (\<forall>p. p \<noteq> re_crush_path env \<longrightarrow> site_file h' p = site_file h1 p)"
      using o by (simp add: healed_outside_def site_volume_def site_file_def)
    ultimately show ?thesis using k a(2) by auto
  qed
qed

lemma prove_same:
  assumes "live_restore_prove env b h = (v, h')"
  shows "site_conf env h' = site_conf env h \<and> site_file h' = site_file h \<and> site_volume h' = site_volume h"
proof -
  have p: "site_conf env g' = site_conf env g \<and> site_file g' = site_file g \<and> site_volume g' = site_volume g"
    if "on_inner (le_prove (re_live env) b) g = (v, g')" for g g' using inner_same [OF that] .
  show ?thesis
  proof (cases "backend_for b")
    case (Inr be)
    obtain q h1 where q: "on_inner (re_rocm_checks env be) h = (q, h1)" by fastforce
    note k = inner_same [OF q, of env]
    show ?thesis
      using assms Inr q k p [of h h'] p [of h1 h']
      by (cases "find fst q") (auto simp: live_restore_prove_def split: if_splits)
  qed (use assms p in \<open>auto simp: live_restore_prove_def split: if_splits\<close>)
qed

interpretation site: restore_site "live_restore env" "site_conf env" site_file site_volume
  "live_reload (site_env env)" "\<lambda>_. None" "\<lambda>v b. v ++ re_untar env b" "re_tar env" "re_crush_path env"
  for env :: "'x restore_env"
proof (unfold_locales, goal_cases)
  case (1 h r h')
  then show ?case using live_load_law [of "site_env env" h]
    by (auto simp: live_restore_def live_load_def site_conf_def live_conf_def split: option.splits sum.splits prod.splits)
next
  case (2 c h e h')
  obtain q g where q: "save_villa (site_env env) c h = (q, g)" by fastforce
  with 2 have "h' = g" "e = None \<longrightarrow> q = Inr ()" by (auto simp: live_restore_def no_value_def split: sum.splits)
  with save_outside [OF q] save_villa_law [OF q] show ?case
    by (simp add: kept_outside_def site_file_def site_volume_def site_conf_def fun_eq_iff)
next
  case (3 n out h e h')
  then show ?case by (auto simp: live_restore_def live_volume_export_def dest!: podman_cases)
next
  case (4 n src h e h')
  then show ?case by (auto simp: live_restore_def live_volume_import_def dest!: podman_cases split: option.splits)
next
  case (5 n h e h')
  then show ?case by (auto simp: live_restore_def live_volume_rm_def dest!: podman_cases split: if_splits)
next
  case (6 n h e h')
  then show ?case by (auto simp: live_restore_def live_ensure_volume_def Let_def dest!: podman_cases split: if_splits)
next
  case (7 p h b)
  then show ?case by (auto simp: live_restore_def live_read_file_def read_file_def site_file_def split: option.splits)
next
  case (8 p h)
  then show ?case by (auto simp: live_restore_def live_read_file_def read_file_def site_file_def split: option.splits)
next
  case (9 p b h e h')
  then show ?case using write_file_effect by (simp add: live_restore_def)
next
  case (10 p h e h')
  then show ?case using remove_file_effect by (simp add: live_restore_def)
next
  case (11 s h e h')
  then show ?case using no_value_same by (simp add: live_restore_def)
next
  case (12 s h e h')
  then show ?case using no_value_same by (simp add: live_restore_def)
next
  case (13 b h v h')
  then show ?case using prove_same by (simp add: live_restore_def)
next
  case (14 c h e h')
  then show ?case using reconcile_effect by (simp add: live_restore_def)
qed

end
