(* ===== verification/RestoreProps.thy ===== *)
theory RestoreProps
  imports RestoreHost
begin

text \<open>
  What a restore promises on the live host, with the configuration, the files and the volumes written out:
  the facts of \<open>RestoreSafety\<close>'s locale read through its interpretation in \<open>RestoreHost\<close>. A sample host holds
  one volume and one archive; its proof passes or fails.
\<close>

subsection \<open>A sample restore\<close>

definition sample_manifest :: backup_manifest where
  "sample_manifest = build_manifest \<lparr>mi_created_at = [], mi_villa_version = ''v1'',
     mi_host = \<lparr>hf_arch = [], hf_igpu = [], hf_kernel = []\<rparr>, mi_inference_image = [], mi_owui_image = [],
     mi_config_schema = 1, mi_usage_schema = 1, mi_bench_schema = 1,
     mi_entries = [\<lparr>ec_name = entry_config, ec_sha = ''vulkan''\<rparr>, \<lparr>ec_name = entry_owui_volume, ec_sha = ''chats''\<rparr>,
       \<lparr>ec_name = entry_usage, ec_sha = ''u''\<rparr>],
     mi_excluded_models = [], mi_embedding_model = [], mi_embedding_dim = 0, mi_recall_schema = 0,
     mi_eval_schema = 0, mi_excluded_agent = None\<rparr>"

definition sample_archive :: tar_stream where
  "sample_archive = \<lparr>tr_members = [(entry_manifest, Inr ''m''), (entry_config, Inr ''vulkan''),
     (entry_owui_volume, Inr ''chats''), (entry_usage, Inr ''u'')], tr_error = None\<rparr>"

definition sample_install :: "string \<Rightarrow> current_install" where
  "sample_install version = \<lparr>ci_villa_version = version, ci_inference_image = [], ci_owui_image = [],
     ci_host = \<lparr>hf_arch = [], hf_igpu = [], hf_kernel = []\<rparr>, ci_config_schema = 1, ci_usage_schema = 1,
     ci_bench_schema = 1, ci_embedding_model = [], ci_embedding_dim = 0, ci_recall_schema = 0, ci_eval_schema = 0,
     ci_checksum_failed = False\<rparr>"

definition sample_restore_input :: "string \<Rightarrow> unit site restore_input" where
  "sample_restore_input version = \<lparr>ri_open = (\<lambda>_. Some (Inr sample_archive)), ri_current = sample_install version,
     ri_consent = Some (\<lambda>ws _. length ws = 1 \<and> version = ''v2''), ri_bypass = False, ri_owui_volume = ''owui'',
     ri_temp_tar = ''/t/1'',
     ri_rollback_tar = ''/t/2'', ri_dests = (\<lambda>n. if n = entry_usage then ''/d/usage'' else []),
     ri_qdrant_volume = ''qdrant'', ri_temp_qdrant = ''/t/3'',
     ri_rollback_qdrant = ''/t/4'', ri_qdrant_exists = False, ri_qdrant_unknown = False, ri_eval_keys = None,
     ri_cwd = Some ''/w'', ri_parse_manifest = (\<lambda>_. Inr sample_manifest), ri_sha = (\<lambda>s. s),
     ri_toml = le_unmarshal sample_env\<rparr>"

definition sample_restore_env :: "string \<Rightarrow> unit restore_env" where
  "sample_restore_env verdict = \<lparr>re_live = working_env\<lparr>le_glob := (\<lambda>_ _. Inr []), le_render := (\<lambda>_ _. (Inr [], ())), le_prove := (\<lambda>_ _. (\<lparr>v_status = verdict, v_detail = []\<rparr>, ()))\<rparr>,
     re_start = (\<lambda>_ _. (Inr (), ())), re_crush_path = ''/crush'', re_heal = (\<lambda>_ s _. ((Inr (), s), ())),
     re_data_root = ''/d'', re_write = (\<lambda>_ _. (None, ())), re_file_left = (\<lambda>_ _. None), re_podman_found = (\<lambda>_. True),
     re_podman = (\<lambda>_ _. (None, ())), re_volume_left = (\<lambda>_ _. None),
     re_tar = (\<lambda>v. case v ''/db'' of None \<Rightarrow> [] | Some s \<Rightarrow> s),
     re_untar = (\<lambda>s p. if p = ''/db'' \<and> s \<noteq> [] then Some s else None), re_rocm_checks = (\<lambda>_ _. ([], ())),
     re_error_text = (\<lambda>_. ''error''), re_owui_service = ''owui.service'', re_qdrant_service = ''qdrant.service''\<rparr>"

definition sample_at :: "string \<Rightarrow> (string \<times> nat) option \<Rightarrow> (string \<Rightarrow> (string \<times> nat) option) \<Rightarrow> volume option \<Rightarrow> unit site" where
  "sample_at b usage temp v = \<lparr>lv_units = Map.empty, lv_config = [''/c/config.toml'' \<mapsto> (b, 384)],
     lv_world = \<lparr>ou_files = (\<lambda>p. if p = ''/d/usage'' then usage else if p \<in> {''/t/1'', ''/t/2''} then temp p else None),
       ou_volumes = (\<lambda>n. if n = ''owui'' then v else None), ou_world = ()\<rparr>\<rparr>"

definition sample_site :: "unit site" where
  "sample_site = sample_at ''rocm'' (Some (''old'', 420)) Map.empty (Some [''/db'' \<mapsto> ''talk''])"

definition sample_extracted :: extracted where
  "sample_extracted = \<lparr>ex_manifest = sample_manifest, ex_config = ''vulkan'', ex_owui = ''chats'', ex_qdrant = None,
     ex_files = [entry_usage \<mapsto> ''u'']\<rparr>"

lemma sample_inside:
  "entry_inside (Some ''/w'') entry_manifest" "entry_inside (Some ''/w'') entry_config" "entry_inside (Some ''/w'') entry_owui_volume"
  "entry_inside (Some ''/w'') entry_usage" by code_simp+

lemma sample_verified:
  "read_and_verify (ri_cwd (sample_restore_input v)) (ri_parse_manifest (sample_restore_input v))
     (ri_sha (sample_restore_input v)) (ri_open (sample_restore_input v) h) = Inr sample_extracted"
proof -
  have sums: "listed_sums (mi_entries sample_manifest) =
      [entry_config \<mapsto> ''vulkan'', entry_owui_volume \<mapsto> ''chats'', entry_usage \<mapsto> ''u'']"
    by (simp add: listed_sums_def sample_manifest_def build_manifest_def manifest_input.defs fun_eq_iff entry_names)
  have ok: "manifest_schema_ok sample_manifest"
    by (simp add: manifest_schema_ok_def sample_manifest_def build_manifest_def manifest_input.defs backup_schema_version_def)
  have rows: "ar_name ` set file_rows = {entry_usage, entry_bench_reports, entry_recall_state, entry_crush_config,
      entry_searxng_settings, entry_eval_baselines}"
    by (simp add: file_rows_def rows_of_kind_def archive_registry_def)
  have want: "map ec_name (mi_entries sample_manifest) = [entry_config, entry_owui_volume, entry_usage]"
    by (simp add: sample_manifest_def build_manifest_def manifest_input.defs)
  have c: "collect_archive (Some ''/w'') (\<lambda>_. Inr sample_manifest) (Some (Inr sample_archive)) =
      Inr (sample_manifest, [(entry_config, ''vulkan''), (entry_owui_volume, ''chats''), (entry_usage, ''u'')])"
    by (simp add: collect_archive_def sample_archive_def sample_inside [unfolded entry_names] max_entry_count_def
        max_entry_bytes_def max_archive_bytes_def add_member_def add_manifest_def add_entry_def ok empty_collector_def entry_names)
  have "verify_members (\<lambda>s. s) sample_manifest
      [(entry_config, ''vulkan''), (entry_owui_volume, ''chats''), (entry_usage, ''u'')] = None"
    unfolding verify_members_def sums want by (simp add: reject_unlisted_def) (simp add: entry_names)
  moreover have "extract_payload sample_manifest
      [(entry_config, ''vulkan''), (entry_owui_volume, ''chats''), (entry_usage, ''u'')] = Inr sample_extracted"
    unfolding extract_payload_def rows by (auto simp: sample_extracted_def entry_names fun_eq_iff)
  ultimately show ?thesis by (simp add: read_and_verify_def sample_restore_input_def c)
qed

lemma sample_gate:
  "skew_gate d (sample_restore_input ''v1'') sample_extracted h = None"
  "skew_gate d (sample_restore_input ''v2'') sample_extracted h = None"
  "skew_gate d (sample_restore_input ''v3'') sample_extracted h = Some SkewDeclined"
  by (simp_all add: skew_gate_def compare_skew_def block_reason_def manifest_block_def block_on_newer_def backup_schema_version_def skew_warnings_def store_versions_def warn_older_def
      sample_extracted_def sample_restore_input_def sample_install_def sample_manifest_def build_manifest_def
      manifest_input.defs declined_def gate_warnings_def eval_unreadable_def replaced_eval_def entry_names)

definition sample_txn :: restore_txn where
  "sample_txn = \<lparr>tx_ex = sample_extracted, tx_prior_cfg = sample_config\<lparr>cfg_backend := ''rocm''\<rparr>,
     tx_restored_cfg = sample_config\<lparr>cfg_backend := ''vulkan''\<rparr>, tx_prior = [entry_usage \<mapsto> ''old''], tx_eval_unreadable = []\<rparr>"

abbreviation sample_run :: "string \<Rightarrow> string \<Rightarrow> restore_result \<times> unit site" where
  "sample_run verdict version \<equiv>
     run_restore (live_restore (sample_restore_env verdict)) (sample_restore_input version) sample_site"

lemma sample_run_eq:
  assumes "version = ''v1'' \<or> version = ''v2''"
  shows "sample_run verdict version =
    (case capture_all (live_restore (sample_restore_env verdict)) (sample_restore_input version) sample_extracted [] sample_site of
       (Inl e, h1) \<Rightarrow> (refuse_restore ''capture'' e, h1)
     | (Inr t, h1) \<Rightarrow> apply_restore (live_restore (sample_restore_env verdict)) (sample_restore_input version) t h1)"
proof -
  have "eval_unreadable d (sample_restore_input v) ex h = None" for d v ex h
    by (simp add: eval_unreadable_def sample_restore_input_def split: option.split)
  then show ?thesis using assms by (auto simp: run_restore_def sample_verified sample_gate)
qed

text \<open>The sample's calls, on any state that has a configuration and no file of the agent's.\<close>

lemma sample_outer: "on_world (outer f) (h :: unit site) = (fst (f ()), h)"
proof -
  obtain r where r: "f () = (r, ())" by (cases "f ()") auto
  have w: "(lv_world h)\<lparr>ou_world := ()\<rparr> = lv_world h" by (rule outside.equality) simp_all
  have "ou_world (lv_world h) = ()" by simp
  then have "outer f (lv_world h) = (r, (lv_world h)\<lparr>ou_world := ()\<rparr>)"
    unfolding outer_def by (simp only: r prod.case)
  then show ?thesis unfolding on_world_def w r fst_conv by (simp only: prod.case) simp
qed

lemma sample_inner [simp]: "on_inner f (h :: unit site) = (fst (f ()), h)"
  by (simp add: on_inner_def sample_outer)

lemma sample_podman: "podman_call (sample_restore_env v) args ok failed (h :: unit site) =
    (case ok h of Some h2 \<Rightarrow> (None, h2) | None \<Rightarrow> failed ''no such volume or tar'' h)"
  by (simp add: podman_call_def sample_restore_env_def)

lemma sample_env_os [simp]:
  "le_os (re_live (sample_restore_env v)) = sample_os" "re_data_root (sample_restore_env v) = ''/d''"
  by (simp_all add: sample_restore_env_def working_env_def sample_env_def)

lemma sample_dirs:
  "assert_root ''/d'' = None" "inside None ''/d/usage'' ''/d'' = Inr ()" "inside None ''/t/1'' ''/d'' \<noteq> Inr ()"
  "dir_path ''/t/1'' = ''/t''" "inside None ''/t/1'' ''/t'' = Inr ()" "dir_path ''/d/usage'' = ''/d''"
  "assert_root ''/c'' = None"
  by code_simp+

lemma sample_write_usage:
  "live_write_file (sample_restore_env w) ''/d/usage'' b h = (None, set_file ''/d/usage'' (Some (b, 384)) h)"
proof -
  have m: "le_mkdir (re_live (sample_restore_env w)) p () = (Inr (), ())" for p
    by (simp add: sample_restore_env_def working_env_def sample_env_def)
  show ?thesis
    by (cases h; cases "lv_world h")
      (simp add: live_write_file_def no_value_def store_write_def sample_dirs sample_os_def eff_bind_def m lift_io_def
        on_files_def write_file_atomic_def set_file_def inner_world_def)
qed

lemma sample_stage:
  "live_write_file (sample_restore_env w) ''/t/1'' b h =
     (None, set_file ''/t/1'' (Some (b, case ou_files (lv_world h) ''/t/1'' of None \<Rightarrow> 384 | Some (_, m) \<Rightarrow> m)) h)"
proof -
  have m: "le_mkdir (re_live (sample_restore_env w)) p () = (Inr (), ())" "re_write (sample_restore_env w) p () = (None, ())" for p
    by (simp_all add: sample_restore_env_def working_env_def sample_env_def)
  show ?thesis
    by (simp add: live_write_file_def plain_write_def sample_dirs sample_os_def m)
qed

lemma sample_save:
  assumes "lv_config h = [''/c/config.toml'' \<mapsto> (b, 384)]"
  shows "save_villa (site_env (sample_restore_env w)) c h =
    (Inr (), h\<lparr>lv_config := [''/c/config.toml'' \<mapsto> (cfg_backend c, 384)]\<rparr>)"
proof -
  have "cfg_backend (omit_when_off c) = cfg_backend c" by (simp add: omit_when_off_def)
  then show ?thesis using assms
    by (cases h; cases "lv_world h")
      (simp add: save_villa_def site_env_def sample_restore_env_def working_env_def sample_env_def sample_os_def sample_paths
        sample_dirs Let_def on_world_def outer_def lift_io_def on_config_def write_file_atomic_def marshal_villa_def
        config_file_mode_def)
qed

lemma no_orphans: "(\<And>n. read n = Absent) \<Longrightarrow> orphans rendered ns read = Inr []"
  by (induction ns) auto

lemma sample_apply:
  assumes u: "lv_units h = Map.empty" "ou_files (lv_world h) ''/crush'' = None" and b: "b = ''vulkan'' \<or> b = ''rocm''"
  shows "apply_stack (le_image_table (re_live (sample_restore_env w))) (live_stack_deps (site_env (sample_restore_env w)))
     (sample_config\<lparr>cfg_backend := b\<rparr>) h = ((no_applied, None), h)"
proof -
  let ?env = "site_env (sample_restore_env w)" let ?d = "live_stack_deps ?env" let ?c = "sample_config\<lparr>cfg_backend := b\<rparr>"
  have heal: "heal ?d ?c h = (Inr ?c, h)"
    by (simp add: heal_def sample_config_def eff_bind_def eff_ok_def eff_at_def live_stack_deps_def site_env_def Let_def sample_outer
        sample_restore_env_def working_env_def sample_env_def split: prod.splits)
  have agent: "heal_agent_config ?d ?c h = (Inr (), h)"
    using u by (cases h; cases "lv_world h")
      (auto simp: heal_agent_config_def live_stack_deps_def site_env_def Let_def eff_at_def on_world_def heal_crush_def
        sample_restore_env_def working_env_def sample_env_def fun_upd_idem)
  have input: "\<exists>i. input_from [] ?d ?c be \<lparr>ct_schema_version = 5, ct_catalog_version = [], ct_models = [sample_entry]\<rparr> = Inr i" for be
    by (simp add: input_from_def find_by_id_def sample_entry_def served_target_def sample_config_def default_config_def zero_config_def
        image_serve_for_def image_on_def)
  have be: "\<exists>be. backend_for b = Inr be" using b by (auto simp: backend_for_def)
  have read: "live_read_unit ?env ''/u'' h n = Absent" for n
    using u by (simp add: live_read_unit_def read_unit_def read_file_def site_env_def Let_def sample_restore_env_def
      working_env_def sample_env_def sample_os_def)
  have reconcile: "live_reconcile ?env [] ''/u'' h = (Inr empty_plan, h)"
    by (simp add: live_reconcile_def reconcile_def no_orphans [OF read] empty_plan_def)
  have calls: "sd_catalog ?d h = (Inr \<lparr>ct_schema_version = 5, ct_catalog_version = [], ct_models = [sample_entry]\<rparr>, h)"
    "sd_render ?d i h = (Inr [], h)" for i
    by (simp_all add: live_stack_deps_def site_env_def Let_def sample_outer sample_restore_env_def working_env_def)
  have dir: "sd_unit_dir ?d = eff_ok ''/u''" "sd_reconcile ?d = live_reconcile ?env"
    by (simp_all add: live_stack_deps_def site_env_def Let_def sample_restore_env_def working_env_def sample_env_def)
  obtain e where e: "backend_for b = Inr e" using be by blast
  obtain i where i: "input_from [] ?d ?c e \<lparr>ct_schema_version = 5, ct_catalog_version = [], ct_models = [sample_entry]\<rparr> = Inr i"
    using input by blast
  have plan: "plan_stack [] ?d ?c h = (Inr empty_plan, h)"
    by (simp add: plan_stack_def render_stack_def render_inputs_def eff_bind_def eff_at_def eff_ok_def calls dir e i reconcile)
  have tbl: "le_image_table (re_live (sample_restore_env w)) = []"
    by (simp add: sample_restore_env_def working_env_def sample_env_def)
  show ?thesis unfolding tbl
    by (simp add: apply_stack_def eff_bind_def eff_at_def heal agent plan write_stack_def empty_plan_def)
qed

lemma sample_reconcile:
  assumes "lv_units h = Map.empty" "ou_files (lv_world h) ''/crush'' = None" "b = ''vulkan'' \<or> b = ''rocm''"
  shows "live_reconcile_write (sample_restore_env w) (sample_config\<lparr>cfg_backend := b\<rparr>) h = (None, h)"
proof -
  have "\<not> web_search_on (sample_config\<lparr>cfg_backend := b\<rparr>)"
    by (simp add: web_search_on_def sample_config_def default_config_def zero_config_def)
  then show ?thesis by (simp add: live_reconcile_write_def write_websafe_env_def sample_apply [OF assms])
qed

lemma sample_parsed:
  "parse_config (le_unmarshal sample_env) b = Inr (sample_config\<lparr>cfg_backend := b\<rparr>)"
proof -
  let ?c = "sample_config\<lparr>cfg_backend := b\<rparr>"
  have b: "cfg_backend (omit_when_off ?c) = b" by (simp add: omit_when_off_def)
  have u: "le_unmarshal sample_env s d = Inr (toml_overlay (omit_when_off (sample_config\<lparr>cfg_backend := s\<rparr>)) d)" for s d
    by (simp add: sample_env_def)
  have "toml_codec_at cfg_backend (le_unmarshal sample_env) ?c" unfolding toml_codec_at_def b u by simp
  note l = load_marshal [OF this]
  have "validate_villa ?c = (None :: string config_error option)"
    by (simp add: validate_villa_def valid_speculation_def sample_config_def)
  with l show ?thesis by (simp add: load_villa_def marshal_villa_def b sample_config_saved)
qed

lemma sample_site_env:
  "os_cwd (le_os (site_env (sample_restore_env w))) = None" "os_read (le_os (site_env (sample_restore_env w))) = (\<lambda>_ _. None)"
  "le_config_dir (site_env (sample_restore_env w)) = ''/c''"
  "le_unmarshal (site_env (sample_restore_env w)) = le_unmarshal sample_env"
  by (simp_all add: site_env_def Let_def sample_restore_env_def working_env_def sample_env_def sample_os_def)

lemma sample_config_path: "config_path (site_env (sample_restore_env w)) = ''/c/config.toml''"
  unfolding config_path_def sample_site_env by (simp add: sample_paths)

lemma sample_loaded:
  assumes "lv_config h = [''/c/config.toml'' \<mapsto> (b, 384)]"
  shows "live_load (site_env (sample_restore_env w)) h = (Inr (sample_config\<lparr>cfg_backend := b\<rparr>), h)"
    "site_conf (sample_restore_env w) h = Some (sample_config\<lparr>cfg_backend := b\<rparr>)"
  using assms sample_parsed [of b]
  by (simp_all add: live_load_def site_conf_def live_conf_def config_view_def sample_site_env sample_config_path load_villa_def)

lemma sample_restore_services:
  "rs_stop (live_restore (sample_restore_env w)) s h = (None, h)" "rs_start (live_restore (sample_restore_env w)) s h = (None, h)"
  by (simp_all add: live_restore_def no_value_def sample_restore_env_def working_env_def sample_env_def)

lemma sample_volumes:
  "rs_volume_rm (live_restore (sample_restore_env w)) n h = (None, set_volume n None h)"
  "rs_ensure_volume (live_restore (sample_restore_env w)) n h =
     (None, set_volume n (Some (case site_volume h n of None \<Rightarrow> (\<lambda>_. None) | Some v \<Rightarrow> v)) h)"
  "site_volume h n = Some v \<Longrightarrow> rs_volume_export (live_restore (sample_restore_env w)) n out h =
     (None, set_file out (Some (re_tar (sample_restore_env w) v, 420)) h)"
  "site_volume h n = Some v \<Longrightarrow> site_file h src = Some b \<Longrightarrow> rs_volume_import (live_restore (sample_restore_env w)) n src h =
     (None, set_volume n (Some (v ++ re_untar (sample_restore_env w) b)) h)"
  by (simp_all add: live_restore_def live_volume_rm_def live_ensure_volume_def live_volume_export_def live_volume_import_def
      sample_podman Let_def)

lemma sample_calls:
  "rs_write_file (live_restore (sample_restore_env w)) = live_write_file (sample_restore_env w)"
  "rs_reconcile (live_restore (sample_restore_env w)) = live_reconcile_write (sample_restore_env w)"
  "lv_config h = [''/c/config.toml'' \<mapsto> (b, 384)] \<Longrightarrow> rs_load_config (live_restore (sample_restore_env w)) h =
     (Inr (sample_config\<lparr>cfg_backend := b\<rparr>), h)"
  "lv_config h = [''/c/config.toml'' \<mapsto> (b, 384)] \<Longrightarrow> rs_save_config (live_restore (sample_restore_env w)) c h =
     (None, h\<lparr>lv_config := [''/c/config.toml'' \<mapsto> (cfg_backend c, 384)]\<rparr>)"
  by (simp_all add: live_restore_def sample_loaded no_value_def sample_save)

lemma sample_at:
  "set_file ''/d/usage'' x (sample_at b usage temp v) = sample_at b x temp v"
  "q \<in> {''/t/1'', ''/t/2''} \<Longrightarrow> set_file q x (sample_at b usage temp v) = sample_at b usage (temp(q := x)) v"
  "set_volume ''owui'' y (sample_at b usage temp v) = sample_at b usage temp y"
  "sample_at b usage temp v\<lparr>lv_config := [''/c/config.toml'' \<mapsto> (b', 384)]\<rparr> = sample_at b' usage temp v"
  "lv_config (sample_at b usage temp v) = [''/c/config.toml'' \<mapsto> (b, 384)]" "lv_units (sample_at b usage temp v) = Map.empty"
  "site_volume (sample_at b usage temp v) ''owui'' = v" "ou_files (lv_world (sample_at b usage temp v)) ''/crush'' = None"
  "ou_files (lv_world (sample_at b usage temp v)) ''/t/1'' = temp ''/t/1''"
  "site_file (sample_at b usage temp v) ''/t/1'' = map_option fst (temp ''/t/1'')"
  "site_file (sample_at b usage temp v) ''/t/2'' = map_option fst (temp ''/t/2'')"
  "site_file (sample_at b usage temp v) ''/d/usage'' = map_option fst usage"
  "live_read_file (sample_restore_env w) ''/d/usage'' (sample_at b usage temp v) =
     (case usage of None \<Rightarrow> Absent | Some (x, _) \<Rightarrow> Content x)"
  by (auto simp: sample_at_def set_file_def set_volume_def site_volume_def site_file_def live_read_file_def
      read_file_def sample_os_def fun_eq_iff split: option.split)

lemma sample_inputs [simp]:
  "ri_owui_volume (sample_restore_input v) = ''owui''" "ri_temp_tar (sample_restore_input v) = ''/t/1''"
  "ri_rollback_tar (sample_restore_input v) = ''/t/2''"
  "ri_dests (sample_restore_input v) n = (if n = entry_usage then ''/d/usage'' else [])"
  "ri_qdrant_exists (sample_restore_input v) = False" "ri_toml (sample_restore_input v) = le_unmarshal sample_env"
  "ri_qdrant_unknown (sample_restore_input v) = False"
  by (simp_all add: sample_restore_input_def)

lemma sample_rows:
  "file_rows = [\<lparr>ar_name = entry_usage, ar_label = ''usage.json'', ar_kind = KindFile, ar_required = False\<rparr>,
      \<lparr>ar_name = entry_bench_reports, ar_label = ''bench-reports.jsonl'', ar_kind = KindFile, ar_required = False\<rparr>,
      \<lparr>ar_name = entry_recall_state, ar_label = ''recall-state.json'', ar_kind = KindFile, ar_required = False\<rparr>,
      \<lparr>ar_name = entry_crush_config, ar_label = ''crush.json'', ar_kind = KindFile, ar_required = False\<rparr>,
      \<lparr>ar_name = entry_searxng_settings, ar_label = ''settings.yml'', ar_kind = KindFile, ar_required = False\<rparr>,
      \<lparr>ar_name = entry_eval_baselines, ar_label = ''eval-baselines.json'', ar_kind = KindFile, ar_required = False\<rparr>]"
  by (simp add: file_rows_def rows_of_kind_def archive_registry_def)

lemma sample_entry_names [simp]:
  "entry_bench_reports \<noteq> entry_usage" "entry_recall_state \<noteq> entry_usage" "entry_crush_config \<noteq> entry_usage"
  "entry_searxng_settings \<noteq> entry_usage" "entry_eval_baselines \<noteq> entry_usage"
  by (simp_all add: entry_names)

lemma sample_extract [simp]:
  "ex_qdrant sample_extracted = None" "ex_config sample_extracted = ''vulkan''" "ex_owui sample_extracted = ''chats''"
  "ex_files sample_extracted = [entry_usage \<mapsto> ''u'']" "tx_ex sample_txn = sample_extracted"
  "tx_prior_cfg sample_txn = sample_config\<lparr>cfg_backend := ''rocm''\<rparr>"
  "tx_restored_cfg sample_txn = sample_config\<lparr>cfg_backend := ''vulkan''\<rparr>" "tx_prior sample_txn = [entry_usage \<mapsto> ''old'']"
  by (simp_all add: sample_extracted_def sample_txn_def)

lemma sample_tar [simp]:
  "re_tar (sample_restore_env w) [''/db'' \<mapsto> t] = t" "t \<noteq> [] \<Longrightarrow> re_untar (sample_restore_env w) t = [''/db'' \<mapsto> t]"
  by (simp_all add: sample_restore_env_def fun_eq_iff)

lemma sample_read: "rs_read_file (live_restore (sample_restore_env w)) = live_read_file (sample_restore_env w)"
  by (simp add: live_restore_def)

lemma sample_restore_captured:
  "capture_all (live_restore (sample_restore_env w)) (sample_restore_input version) sample_extracted [] sample_site =
     (Inr sample_txn, sample_at ''rocm'' (Some (''old'', 420)) [''/t/2'' \<mapsto> (''talk'', 420)] (Some [''/db'' \<mapsto> ''talk'']))"
  by (simp add: capture_all_def sample_site_def andthen_def ret_def whenever_def qdrant_live_def sample_calls sample_at
      attempt_def sample_volumes sample_rows capture_file_def sample_read sample_parsed sample_txn_def)

lemma sample_files_written:
  "write_files (live_restore (sample_restore_env w)) (sample_restore_input version) sample_txn (sample_at b usage temp v) =
     (Inr (), sample_at b (Some (''u'', 384)) temp v)"
  by (simp add: write_files_def sample_rows andthen_def ret_def whenever_def will_write_def write_row_def attempt_def sample_calls
      sample_write_usage sample_at)

lemma sample_imported:
  assumes "c = ''vulkan'' \<or> c = ''rocm''" "src = ''/t/1'' \<or> src = ''/t/2''" "temp src = Some (t, m)" "t \<noteq> []"
  shows "clean_recreate_import (live_restore (sample_restore_env w)) (sample_config\<lparr>cfg_backend := c\<rparr>) ''owui'' src
     (sample_at b usage temp v) = (Inr (), sample_at b usage temp (Some [''/db'' \<mapsto> t]))"
proof -
  have "site_file (sample_at b usage temp x) src = Some t" for x using assms(2,3) by (auto simp: sample_at)
  then show ?thesis
    by (simp add: clean_recreate_import_def andthen_def attempt_def sample_volumes sample_calls sample_at
        sample_reconcile [OF _ _ assms(1)] assms(4))
qed

lemma sample_forward:
  assumes "temp ''/t/1'' = None"
  shows "run_steps (forward_steps (live_restore (sample_restore_env w)) (sample_restore_input version) sample_txn)
     (sample_at b usage temp v) =
     (Inr (), sample_at ''vulkan'' (Some (''u'', 384)) (temp(''/t/1'' \<mapsto> (''chats'', 384))) (Some [''/db'' \<mapsto> ''chats'']))"
  using assms sample_imported [of "''vulkan''" "''/t/1''" "temp(''/t/1'' \<mapsto> (''chats'', 384))" "''chats''" 384]
  by (simp add: forward_steps_def quiesce_def save_config_def sample_files_written swap_volumes_def import_volume_def restart_def
      andthen_def ret_def whenever_def qdrant_live_def attempt_def sample_restore_services sample_calls sample_at sample_stage)

lemma sample_proved:
  "rs_prove (live_restore (sample_restore_env w)) ''vulkan'' h = (\<lparr>v_status = w, v_detail = []\<rparr>, h)"
proof -
  have "\<not> is_rocm_family ''vulkan''" by code_simp
  then show ?thesis by (simp add: live_restore_def live_restore_prove_def sample_restore_env_def)
qed

lemma sample_rollback:
  assumes "temp ''/t/2'' = Some (''talk'', 420)"
  shows "restore_rollback (live_restore (sample_restore_env w)) (sample_restore_input version) sample_txn
     (sample_at b usage temp v) = ([], sample_at ''rocm'' (Some (''old'', 384)) temp (Some [''/db'' \<mapsto> ''talk'']))"
  using assms
  by (simp add: restore_rollback_def rollback_quiesce_def rollback_qdrant_def qdrant_live_def sample_rows rollback_row_def
      write_row_def whenever_def will_write_def attempt_def ret_def sample_restore_services sample_calls sample_at sample_write_usage
      sample_imported [of "''rocm''" "''/t/2''" temp "''talk''" 420])

text \<open>The run with a passing and with a failing proof.\<close>

lemma sample_passing:
  assumes "version = ''v1'' \<or> version = ''v2''"
  shows "rr_restored (fst (sample_run ''pass'' version))"
  unfolding sample_run_eq [OF assms]
  by (simp add: sample_restore_captured apply_restore_def sample_forward sample_proved verdict_pass_def restored_result_def)

lemma sample_failing:
  "\<exists>res temp. sample_run ''fail'' ''v2'' = (res, sample_at ''rocm'' (Some (''old'', 384)) temp (Some [''/db'' \<mapsto> ''talk'']))
     \<and> rr_rolled_back res \<and> \<not> rr_incomplete res"
  unfolding sample_run_eq [OF disjI2 [OF refl]]
  by (simp add: sample_restore_captured apply_restore_def sample_forward sample_proved verdict_pass_def rolled_back_def sample_rollback)
    blast

lemma sample_refused: "sample_run verdict ''v3'' = (refuse_restore ''skew'' SkewDeclined, sample_site)"
  by (simp add: run_restore_def sample_verified sample_gate)

lemma sample_apart: "apart (re_crush_path (sample_restore_env w)) (sample_restore_input v)"
  by (auto simp: apart_def temps_def sample_restore_input_def sample_restore_env_def inj_on_def sample_rows)

subsection \<open>What a restore promises\<close>

lemma live_reload_valid:
  fixes c :: villa_config
  assumes "toml_codec_at (le_marshal env) (le_unmarshal env) c" "live_conf env h = Some prior" "healed prior c"
  shows "live_reload env c = Some (saved_form c)"
proof -
  from assms(2) have "config_view env h = Inr prior" by (auto simp: live_conf_def split: sum.splits)
  then have "validate_villa prior = (None :: string config_error option)"
    unfolding config_view_def by (rule load_villa_valid)
  with assms(3) have "validate_villa c = (None :: string config_error option)"
    by (auto simp: healed_def validate_villa_def split: if_splits)
  with load_marshal [OF assms(1)] show ?thesis by (simp add: live_reload_def)
qed



text \<open>A restore that is refused (a bad archive, a newer store, no agreement to the skew, a failed capture)
  has changed nothing but its temporary tars.\<close>

theorem refused_restore_touches_nothing:
  assumes "run_restore (live_restore env) inp h = (res, h')" "rr_refused res" "apart (re_crush_path env) inp"
  shows "site_conf env h' = site_conf env h \<and> site_volume h' = site_volume h
    \<and> (\<forall>p. p \<notin> set (temps inp) \<longrightarrow> site_file h' p = site_file h p)"
  using site.refused_quiet [OF assms(3,1,2)] by (simp add: site.only_temps_def)

theorem refused_restore_touches_nothing_witness:
  "rr_refused (fst (sample_run ''pass'' ''v3'')) \<and> site_volume (snd (sample_run ''pass'' ''v3'')) = site_volume sample_site"
proof -
  have r: "rr_refused (refuse_restore ''skew'' SkewDeclined)" by (simp add: refuse_restore_def)
  from refused_restore_touches_nothing [OF sample_refused r sample_apart] show ?thesis by (simp add: sample_refused r)
qed



text \<open>C10: Nothing of a restore runs unagreed: one that is not refused had an archive that verifies and that no
  newer store blocks, and either there was nothing to warn of, or the caller bypassed the question, or the
  operator was shown exactly the warnings and agreed.\<close>

theorem restore_needs_agreement:
  assumes "run_restore d inp h = (res, h')" "\<not> rr_refused res"
  shows "\<exists>ex ws. read_and_verify (ri_cwd inp) (ri_parse_manifest inp) (ri_sha inp) (ri_open inp h) = Inr ex
    \<and> (\<forall>(n, v, cur) \<in> set (store_versions (ex_manifest ex) (ri_current inp)). v \<le> 0 \<or> v \<le> cur)
    \<and> ws = skew_warnings (ex_manifest ex) (ri_current inp)
         @ (case eval_unreadable d inp ex h of None \<Rightarrow> [] | Some e \<Rightarrow> [EvalUnreadable e])
    \<and> (ws = [] \<or> ri_bypass inp \<or> (\<exists>ask. ri_consent inp = Some ask \<and> ask ws h))"
proof -
  have block: "store_block ss = None \<Longrightarrow> (n, v, cur) \<in> set ss \<Longrightarrow> v \<le> 0 \<or> v \<le> cur" for ss n v cur
    by (induction ss) (auto simp: block_on_newer_def split: option.splits if_splits)
  from gate_passed [OF assms] obtain ex ws where g:
    "read_and_verify (ri_cwd inp) (ri_parse_manifest inp) (ri_sha inp) (ri_open inp h) = Inr ex"
    "compare_skew (ex_manifest ex) ((ri_current inp)\<lparr>ci_checksum_failed := False\<rparr>) = Inr ws"
    "gate_warnings d inp ex ws h = [] \<or> ri_bypass inp
        \<or> (\<exists>ask. ri_consent inp = Some ask \<and> ask (gate_warnings d inp ex ws h) h)" by blast
  have s: "store_versions m (c\<lparr>ci_checksum_failed := x\<rparr>) = store_versions m c"
    "skew_warnings m (c\<lparr>ci_checksum_failed := x\<rparr>) = skew_warnings m c" for m c x
    by (simp_all add: store_versions_def skew_warnings_def)
  from g(2) have "store_block (store_versions (ex_manifest ex) (ri_current inp)) = None"
    "ws = skew_warnings (ex_manifest ex) (ri_current inp)"
    by (auto simp: compare_skew_def block_reason_def s split: option.splits)
  with g block show ?thesis by (auto simp: gate_warnings_def)
qed

theorem restore_needs_agreement_witness:
  "\<exists>ask. ri_consent (sample_restore_input ''v2'') = Some ask \<and> ask [VillaVersionSkew ''v1'' ''v2''] sample_site"
proof -
  obtain res h where run: "sample_run ''pass'' ''v2'' = (res, h)" by fastforce
  then have "\<not> rr_refused res"
    by (auto simp: sample_run_eq [OF disjI2 [OF refl]] sample_restore_captured apply_restore_def sample_forward
        sample_proved verdict_pass_def restored_result_def zero_restore_def)
  note r = restore_needs_agreement [OF run this]
  have w: "skew_warnings (ex_manifest sample_extracted) (ri_current (sample_restore_input ''v2'')) = [VillaVersionSkew ''v1'' ''v2'']"
    by (simp add: skew_warnings_def store_versions_def warn_older_def sample_extracted_def sample_restore_input_def
        sample_install_def sample_manifest_def build_manifest_def manifest_input.defs)
  have u: "eval_unreadable d (sample_restore_input ''v2'') sample_extracted h = None" for d h
    by (simp add: eval_unreadable_def sample_restore_input_def split: option.split)
  from r w u show ?thesis by (auto simp: sample_verified) (simp_all add: sample_restore_input_def)
qed

end
