(* ===== verification/ArchiveFacts.thy ===== *)
theory ArchiveFacts
  imports Archive
begin

text \<open>
  When an archive is accepted: the manifest first, then exactly the entries it lists, each once, inside the
  archive, with the bytes its checksum names and within the size limits.
\<close>

abbreviation members_of :: "(string \<times> string) list \<Rightarrow> (string \<times> (string + string)) list" where
  "members_of fs \<equiv> map (\<lambda>(n, b). (n, Inr b)) fs"

lemma members_inj: "members_of fs = members_of gs \<longleftrightarrow> fs = gs"
  by (intro inj_map_eq_map injI) (auto split: prod.splits)

definition total_bytes :: "(string \<times> string) list \<Rightarrow> nat" where
  "total_bytes fs = sum_list (map (\<lambda>(n, b). length b) fs)"

text \<open>Members that a reader which has the manifest and the entries \<open>old\<close> takes.\<close>

definition takes :: "string option \<Rightarrow> (string \<times> string) list \<Rightarrow> (string \<times> string) list \<Rightarrow> bool" where
  "takes cwd old fs \<longleftrightarrow> distinct (map fst fs)
     \<and> (\<forall>(n, b) \<in> set fs. n \<noteq> entry_manifest \<and> entry_inside cwd n \<and> length b \<le> max_entry_bytes \<and> n \<notin> fst ` set old)"

lemma takes_Cons:
  "takes cwd old ((n, b) # fs) \<longleftrightarrow> n \<noteq> entry_manifest \<and> entry_inside cwd n \<and> length b \<le> max_entry_bytes
     \<and> n \<notin> fst ` set old \<and> takes cwd (old @ [(n, b)]) fs"
proof -
  have "n \<notin> fst ` set fs \<longleftrightarrow> (\<forall>x \<in> set fs. fst x \<noteq> n)" by force
  then show ?thesis unfolding takes_def case_prod_beta by (simp add: ball_conj_distrib) blast
qed

lemma read_rest:
  assumes "co_manifest c = Some m" "count \<le> max_entry_count" "sofar \<le> max_archive_bytes" "co_idx c \<noteq> 0"
  shows "read_members cwd parse count sofar ms err c = Inr c' \<longleftrightarrow>
    err = None \<and> (\<exists>fs. ms = members_of fs \<and> takes cwd (co_files c) fs \<and> count + length fs \<le> max_entry_count
      \<and> sofar + total_bytes fs \<le> max_archive_bytes
      \<and> c' = c\<lparr>co_idx := co_idx c + length fs, co_files := co_files c @ fs\<rparr>)"
  using assms
proof (induction ms arbitrary: count sofar c)
  case Nil
  then show ?case by (auto simp: takes_def total_bytes_def split: option.split)
next
  case (Cons nb ms)
  obtain n body where nb: "nb = (n, body)" by fastforce
  show ?case
  proof (cases body)
    case (Inl e)
    then show ?thesis by (auto simp: nb Cons_eq_map_conv)
  next
    case (Inr b)
    let ?c = "c\<lparr>co_idx := co_idx c + 1, co_files := co_files c @ [(n, b)]\<rparr>"
    have add: "add_member parse n b c = Inr c1 \<longleftrightarrow> n \<noteq> entry_manifest \<and> n \<notin> fst ` set (co_files c) \<and> c1 = ?c" for c1
      using Cons.prems(1,4) by (auto simp: add_member_def Let_def add_manifest_def add_entry_def map_of_eq_None_iff)
    have step: "read_members cwd parse count sofar (nb # ms) err c = Inr c' \<longleftrightarrow>
        count + 1 \<le> max_entry_count \<and> entry_inside cwd n \<and> length b \<le> max_entry_bytes \<and> sofar + length b \<le> max_archive_bytes
        \<and> n \<noteq> entry_manifest \<and> n \<notin> fst ` set (co_files c)
        \<and> read_members cwd parse (count + 1) (sofar + length b) ms err ?c = Inr c'"
    proof (cases "add_member parse n b c")
      case (Inl e)
      then have "\<not> (n \<noteq> entry_manifest \<and> n \<notin> fst ` set (co_files c))" using add [of ?c] by simp
      then show ?thesis using Inl by (auto simp: nb \<open>body = Inr b\<close>)
    next
      case (Inr c1)
      then have "n \<noteq> entry_manifest \<and> n \<notin> fst ` set (co_files c) \<and> c1 = ?c" using add by blast
      then show ?thesis using Inr by (auto simp: nb \<open>body = Inr b\<close>)
    qed
    have IH: "count + 1 \<le> max_entry_count \<Longrightarrow> sofar + length b \<le> max_archive_bytes \<Longrightarrow>
      read_members cwd parse (count + 1) (sofar + length b) ms err ?c = Inr c' \<longleftrightarrow>
      err = None \<and> (\<exists>fs. ms = members_of fs \<and> takes cwd (co_files ?c) fs \<and> count + 1 + length fs \<le> max_entry_count
        \<and> sofar + length b + total_bytes fs \<le> max_archive_bytes
        \<and> c' = ?c\<lparr>co_idx := co_idx ?c + length fs, co_files := co_files ?c @ fs\<rparr>)"
      using Cons.prems by (intro Cons.IH) auto
    have split: "(\<exists>fs. nb # ms = members_of fs \<and> Q fs) \<longleftrightarrow> (\<exists>fs. ms = members_of fs \<and> Q ((n, b) # fs))" for Q
      by (auto simp: nb Inr Cons_eq_map_conv)
    show ?thesis
      unfolding step split using IH
      by (cases "count + 1 \<le> max_entry_count \<and> sofar + length b \<le> max_archive_bytes")
         (auto simp: takes_Cons total_bytes_def)
  qed
qed

text \<open>What is accepted, member by member.\<close>

definition sound_archive ::
  "string option \<Rightarrow> (string \<Rightarrow> string + backup_manifest) \<Rightarrow> (string \<Rightarrow> string) \<Rightarrow> tar_stream \<Rightarrow> backup_manifest
     \<Rightarrow> (string \<times> string) list \<Rightarrow> bool" where
  "sound_archive cwd parse sha ts m files \<longleftrightarrow>
     tr_error ts = None
     \<and> (\<exists>md. tr_members ts = members_of ((entry_manifest, md) # files) \<and> parse md = Inr m \<and> length md \<le> max_entry_bytes
          \<and> length md + total_bytes files \<le> max_archive_bytes)
     \<and> entry_inside cwd entry_manifest \<and> 0 < bm_schema m \<and> bm_schema m \<le> 5
     \<and> length files < 64 \<and> distinct (map fst files)
     \<and> (\<forall>(n, b) \<in> set files. n \<noteq> entry_manifest \<and> entry_inside cwd n \<and> length b \<le> max_entry_bytes
          \<and> listed_sums (mi_entries m) n = Some (sha b))
     \<and> (\<forall>e \<in> set (mi_entries m). ec_name e \<in> fst ` set files)"

lemma verify_listed_None:
  "verify_listed sha want files ns = None \<longleftrightarrow> (\<forall>n \<in> set ns. \<exists>b. map_of files n = Some b \<and> want n = Some (sha b))"
  by (induction ns) (auto split: option.splits if_splits)

lemma reject_unlisted_None: "reject_unlisted want files = None \<longleftrightarrow> (\<forall>(n, b) \<in> set files. want n \<noteq> None)"
  by (induction files) (auto simp: reject_unlisted_def split: option.splits)

lemma listed_sums_dom: "listed_sums es n \<noteq> None \<longleftrightarrow> n \<in> ec_name ` set es"
  by (auto simp: listed_sums_def map_of_eq_None_iff image_image)

lemma verify_members_None:
  assumes "distinct (map fst files)"
  shows "verify_members sha m files = None \<longleftrightarrow>
    (\<forall>(n, b) \<in> set files. listed_sums (mi_entries m) n = Some (sha b)) \<and> (\<forall>e \<in> set (mi_entries m). ec_name e \<in> fst ` set files)"
    (is "?L \<longleftrightarrow> ?R")
proof -
  let ?w = "listed_sums (mi_entries m)"
  have L: "?L \<longleftrightarrow> (\<forall>(n, b) \<in> set files. ?w n \<noteq> None)
      \<and> (\<forall>e \<in> set (mi_entries m). \<exists>b. map_of files (ec_name e) = Some b \<and> ?w (ec_name e) = Some (sha b))"
    using reject_unlisted_None [of ?w files]
    by (cases "reject_unlisted ?w files") (auto simp: verify_members_def Let_def verify_listed_None)
  show ?thesis unfolding L
  proof safe
    fix n b assume "\<forall>(n, b) \<in> set files. ?w n \<noteq> None" "(n, b) \<in> set files"
      "\<forall>e \<in> set (mi_entries m). \<exists>b. map_of files (ec_name e) = Some b \<and> ?w (ec_name e) = Some (sha b)"
    moreover from this(1,2) have "n \<in> ec_name ` set (mi_entries m)" using listed_sums_dom by fastforce
    moreover from \<open>(n, b) \<in> set files\<close> have "map_of files n = Some b" using assms by simp
    ultimately show "?w n = Some (sha b)" by auto
  next
    fix e assume "e \<in> set (mi_entries m)"
      "\<forall>e \<in> set (mi_entries m). \<exists>b. map_of files (ec_name e) = Some b \<and> ?w (ec_name e) = Some (sha b)"
    then show "ec_name e \<in> fst ` set files" by (metis map_of_SomeD fst_conv imageI)
  next
    fix e assume e: "e \<in> set (mi_entries m)" "\<forall>(n, b) \<in> set files. ?w n = Some (sha b)"
      "\<forall>e \<in> set (mi_entries m). ec_name e \<in> fst ` set files"
    then obtain b where "(ec_name e, b) \<in> set files" by fastforce
    with e(2) assms show "\<exists>b. map_of files (ec_name e) = Some b \<and> ?w (ec_name e) = Some (sha b)" by auto
  qed auto
qed

lemma read_archive:
  "read_members cwd parse 0 0 ms err empty_collector = Inr c \<and> co_manifest c = Some m \<longleftrightarrow>
    err = None \<and> (\<exists>md fs. ms = members_of ((entry_manifest, md) # fs) \<and> parse md = Inr m \<and> manifest_schema_ok m
      \<and> entry_inside cwd entry_manifest \<and> length md \<le> max_entry_bytes \<and> takes cwd [] fs \<and> 1 + length fs \<le> max_entry_count
      \<and> length md + total_bytes fs \<le> max_archive_bytes
      \<and> c = \<lparr>co_manifest = Some m, co_idx = 1 + length fs, co_files = fs\<rparr>)"
proof (cases ms)
  case Nil
  then show ?thesis by (auto simp: empty_collector_def split: option.splits)
next
  case (Cons nb rest)
  obtain n body where nb: "nb = (n, body)" by fastforce
  show ?thesis
  proof (cases body)
    case (Inl e)
    then show ?thesis by (auto simp: Cons nb)
  next
    case (Inr md)
    show ?thesis
    proof (cases "n = entry_manifest")
      case False
      then show ?thesis by (auto simp: Cons nb Inr add_member_def add_entry_def empty_collector_def Let_def)
    next
      case True
      let ?c = "\<lambda>m. \<lparr>co_manifest = Some m, co_idx = 1, co_files = []\<rparr>"
      have big: "max_entry_bytes \<le> max_archive_bytes" by (simp add: max_entry_bytes_def max_archive_bytes_def)
      have R: "read_members cwd parse 1 (length md) rest err (?c m1) = Inr c \<longleftrightarrow> err = None \<and>
          (\<exists>fs. rest = members_of fs \<and> takes cwd [] fs \<and> 1 + length fs \<le> max_entry_count
            \<and> length md + total_bytes fs \<le> max_archive_bytes \<and> c = \<lparr>co_manifest = Some m1, co_idx = 1 + length fs, co_files = fs\<rparr>)"
        if "length md \<le> max_archive_bytes" for m1
        using read_rest [of "?c m1" m1 1 "length md" cwd parse rest err c] that by (auto simp: max_entry_count_def)
      have A: "read_members cwd parse 0 0 ms err empty_collector = Inr c \<longleftrightarrow> entry_inside cwd entry_manifest
          \<and> length md \<le> max_entry_bytes \<and> (\<exists>m1. parse md = Inr m1 \<and> manifest_schema_ok m1
             \<and> read_members cwd parse 1 (length md) rest err (?c m1) = Inr c)"
        using big by (auto simp: Cons nb Inr True max_entry_count_def add_member_def add_manifest_def empty_collector_def Let_def
            split: sum.splits if_splits)
      show ?thesis
        unfolding A by (cases "length md \<le> max_entry_bytes") (use R big in \<open>auto simp: Cons nb Inr True\<close>)
    qed
  qed
qed

lemma accept_iff_sound:
  "read_and_verify cwd parse sha (Some (Inr ts)) = Inr ex \<longleftrightarrow>
     (\<exists>m files. sound_archive cwd parse sha ts m files \<and> extract_payload m files = Inr ex)"
proof -
  have C: "collect_archive cwd parse (Some (Inr ts)) = Inr (m, files) \<longleftrightarrow>
      (\<exists>c. (read_members cwd parse 0 0 (tr_members ts) (tr_error ts) empty_collector = Inr c \<and> co_manifest c = Some m)
           \<and> co_files c = files)" for m files
    by (auto simp: collect_archive_def split: sum.splits option.splits)
  have D: "collect_archive cwd parse (Some (Inr ts)) = Inr (m, files) \<longleftrightarrow> tr_error ts = None
      \<and> (\<exists>md. tr_members ts = members_of ((entry_manifest, md) # files) \<and> parse md = Inr m \<and> length md \<le> max_entry_bytes
          \<and> length md + total_bytes files \<le> max_archive_bytes)
      \<and> manifest_schema_ok m \<and> entry_inside cwd entry_manifest \<and> takes cwd [] files \<and> 1 + length files \<le> max_entry_count"
    for m files
    unfolding C read_archive by (auto simp: members_inj)
  have S: "sound_archive cwd parse sha ts m files \<longleftrightarrow>
      collect_archive cwd parse (Some (Inr ts)) = Inr (m, files) \<and> verify_members sha m files = None" for m files
  proof (cases "distinct (map fst files)")
    case False
    then show ?thesis by (simp add: sound_archive_def D takes_def)
  next
    case True
    note v = verify_members_None [OF True, of sha m]
    show ?thesis unfolding D v sound_archive_def takes_def manifest_schema_ok_def backup_schema_version_def max_entry_count_def
      by (auto simp: case_prod_beta)
  qed
  have "read_and_verify cwd parse sha (Some (Inr ts)) = Inr ex \<longleftrightarrow>
      (\<exists>m files. (collect_archive cwd parse (Some (Inr ts)) = Inr (m, files) \<and> verify_members sha m files = None)
         \<and> extract_payload m files = Inr ex)"
    by (cases "collect_archive cwd parse (Some (Inr ts))") (auto simp: read_and_verify_def split: option.splits)
  then show ?thesis unfolding S .
qed


end
