(* ===== verification/Approval.thy ===== *)
theory Approval
  imports GoPaths
begin

text \<open>
  \<open>internal/approval\<close>: how a task's tool call is answered. Actions and modes are open strings, as
  in the source; the classifier of the action is the harness. A command line is cut into the
  segments a shell would run and each segment into white-space fields.
\<close>

datatype decision = DecisionUnset | Allow | Ask | Deny

record request =
  rq_action :: string
  rq_tool :: string
  rq_path :: string
  rq_command :: string
  rq_workspace :: string

definition act_execute :: string where "act_execute = ''execute''"
definition mode_ask :: string where "mode_ask = ''ask''"
definition mode_auto :: string where "mode_auto = ''auto''"

definition row :: "decision \<Rightarrow> decision \<Rightarrow> string \<Rightarrow> decision option" where
  "row in_ask in_auto = [mode_ask \<mapsto> in_ask, mode_auto \<mapsto> in_auto]"

definition table :: "string \<Rightarrow> (string \<Rightarrow> decision option) option" where
  "table = [''read'' \<mapsto> row Allow Allow, ''list'' \<mapsto> row Allow Allow, ''write'' \<mapsto> row Ask Allow,
     ''execute'' \<mapsto> row Ask Ask, ''fetch'' \<mapsto> row Deny Deny, ''download'' \<mapsto> row Deny Deny]"

subsection \<open>Segments and commands\<close>

definition nul :: char where "nul = CHR 0x00"
definition newline :: char where "newline = CHR 0x0A"

text \<open>\<open>strings.NewReplacer\<close> with the doubled operators first.\<close>

fun chain_replace :: "string \<Rightarrow> string" where
  "chain_replace [] = []"
| "chain_replace [c] =
     [if c = CHR '';'' \<or> c = CHR ''|'' \<or> c = newline \<or> c = CHR ''&'' then nul else c]"
| "chain_replace (c # d # cs) =
     (if c = CHR '';'' then nul # chain_replace (d # cs)
      else if c = CHR ''&'' \<and> d = CHR ''&'' then nul # chain_replace cs
      else if c = CHR ''|'' \<and> d = CHR ''|'' then nul # chain_replace cs
      else if c = CHR ''|'' \<or> c = newline \<or> c = CHR ''&'' then nul # chain_replace (d # cs)
      else c # chain_replace (d # cs))"

definition chain_segments :: "string \<Rightarrow> string list" where
  "chain_segments command = split_char nul (chain_replace command)"

definition launchers :: "string \<Rightarrow> bool" where
  "launchers t \<longleftrightarrow> t \<in> {''sudo'', ''env'', ''xargs'', ''nice'', ''nohup'', ''time'', ''command'', ''exec''}"

definition is_flag :: "string \<Rightarrow> bool" where
  "is_flag t = has_prefix t ''-''"

function effective_command :: "string list \<Rightarrow> string" where
  "effective_command [] = []"
| "effective_command (t # ts) =
     (if t = ''timeout'' then effective_command (tl (dropWhile is_flag ts))
      else if launchers t then effective_command ts
      else base_path t)"
  by pat_completeness auto
termination
proof (relation "measure length")
  fix t :: string and ts
  have "length (dropWhile is_flag ts) \<le> length ts" by (rule length_dropWhile_le)
  then show "(tl (dropWhile is_flag ts), t # ts) \<in> measure length" by simp
qed simp_all

definition deletion_commands :: "string \<Rightarrow> bool" where
  "deletion_commands c \<longleftrightarrow> c \<in> {''rm'', ''rmdir'', ''unlink'', ''shred'', ''trash''}"

definition segment_deletes :: "string \<Rightarrow> bool" where
  "segment_deletes segment =
     (let tokens = str_fields segment; cmd = effective_command tokens in
      if cmd = [] then False
      else if cmd = ''git'' then ''clean'' \<in> set tokens
      else if cmd = ''find'' then ''-delete'' \<in> set tokens
      else deletion_commands cmd)"

definition is_deletion :: "string \<Rightarrow> bool" where
  "is_deletion command = list_ex segment_deletes (chain_segments command)"

subsection \<open>The two automatic lists\<close>

definition allowlist_commands :: "string \<Rightarrow> bool" where
  "allowlist_commands c \<longleftrightarrow> c \<in> {''python3'', ''soffice'', ''mv'', ''cp''}"

fun args_allowed :: "string \<Rightarrow> string \<Rightarrow> bool \<Rightarrow> string list \<Rightarrow> bool" where
  "args_allowed workspace root prev [] = True"
| "args_allowed workspace root prev (tok # toks) =
     (if prev then False
      else if tok = ''-c'' then args_allowed workspace root True toks
      else if is_flag tok then args_allowed workspace root False toks
      else
        (let path = (if is_abs tok then tok else join_path workspace tok);
             cleaned = clean_path path
         in if cleaned \<noteq> root \<and> \<not> has_prefix cleaned (root @ ''/'') then False
            else args_allowed workspace root False toks))"

definition auto_allowed :: "string \<Rightarrow> string \<Rightarrow> bool" where
  "auto_allowed command workspace =
     (case str_fields command of
        [] \<Rightarrow> False
      | t # toks \<Rightarrow> allowlist_commands (base_path t)
          \<and> args_allowed workspace (clean_path workspace) False toks)"

definition safe_commands :: "string list" where
  "safe_commands =
     [''cal'', ''date'', ''df'', ''du'', ''echo'', ''env'', ''free'', ''groups'', ''hostname'',
      ''id'', ''kill'', ''killall'', ''ls'', ''nice'', ''nohup'', ''printenv'', ''ps'', ''pwd'',
      ''set'', ''time'', ''timeout'', ''top'', ''type'', ''uname'', ''unset'', ''uptime'',
      ''whatis'', ''whereis'', ''which'', ''whoami'',
      ''git blame'', ''git branch'', ''git config --get'', ''git config --list'',
      ''git describe'', ''git diff'', ''git grep'', ''git log'', ''git ls-files'',
      ''git ls-remote'', ''git remote'', ''git rev-parse'', ''git shortlog'',
      ''git show'', ''git status'', ''git tag'']"

definition chaining_metacharacters :: "string list" where
  "chaining_metacharacters = ['';'', ''|'', ''&'', ''$('', [CHR 0x60], [newline]]"

definition safe_prefix :: "string \<Rightarrow> string \<Rightarrow> bool" where
  "safe_prefix lower safe \<longleftrightarrow> has_prefix lower safe
     \<and> (length lower = length safe \<or> lower ! length safe = CHR '' '' \<or> lower ! length safe = CHR ''-'')"

definition is_safe_command :: "string \<Rightarrow> bool" where
  "is_safe_command command =
     (if list_ex (contains_sub command) chaining_metacharacters then False
      else list_ex (safe_prefix (to_lower command)) safe_commands)"

subsection \<open>The answer\<close>

definition decide :: "string \<Rightarrow> request \<Rightarrow> decision" where
  "decide mode req =
     (if rq_action req = act_execute \<and> is_deletion (rq_command req) then Ask
      else if rq_action req = act_execute \<and> mode = mode_auto
           \<and> (auto_allowed (rq_command req) (rq_workspace req) \<or> is_safe_command (rq_command req))
        then Allow
      else (case table (rq_action req) of
              None \<Rightarrow> Ask
            | Some cells \<Rightarrow>
                (case cells mode of
                   None \<Rightarrow> Ask
                 | Some d \<Rightarrow> if d = DecisionUnset then Ask else d)))"

subsection \<open>Facts\<close>

lemma effective_command_launchers:
  "\<forall>l \<in> set ls. launchers l \<Longrightarrow> effective_command (ls @ ts) = effective_command ts"
  by (induction ls) (auto simp: launchers_def)

lemma table_Some:
  "table a = Some cells \<Longrightarrow> a \<in> {''read'', ''list'', ''write'', ''execute'', ''fetch'', ''download''}"
  by (auto simp: table_def split: if_splits)

lemma table_cells:
  "table ''read'' = Some (row Allow Allow)" "table ''list'' = Some (row Allow Allow)"
  "table ''write'' = Some (row Ask Allow)" "table ''execute'' = Some (row Ask Ask)"
  "table ''fetch'' = Some (row Deny Deny)" "table ''download'' = Some (row Deny Deny)"
  by (simp_all add: table_def)

lemma row_cells:
  "row a b mode_ask = Some a" "row a b mode_auto = Some b"
  "m \<noteq> mode_ask \<Longrightarrow> m \<noteq> mode_auto \<Longrightarrow> row a b m = None"
  by (simp_all add: row_def mode_ask_def mode_auto_def)

lemma row_Some: "row a b m = Some d \<Longrightarrow> (m = mode_ask \<and> d = a) \<or> (m = mode_auto \<and> d = b)"
  by (auto simp: row_def split: if_splits)

lemma args_allowed_inside:
  "args_allowed ws root prev toks \<Longrightarrow> tok \<in> set toks \<Longrightarrow> \<not> is_flag tok \<Longrightarrow>
     (let cleaned = clean_path (if is_abs tok then tok else join_path ws tok)
      in cleaned = root \<or> has_prefix cleaned (root @ ''/''))"
proof (induction toks arbitrary: prev)
  case (Cons t toks)
  have c: "is_flag ''-c''" by (simp add: is_flag_def has_prefix_def)
  show ?case
  proof (cases "tok = t")
    case True
    with Cons.prems c show ?thesis by (auto simp: Let_def split: if_splits)
  next
    case False
    with Cons.prems have "tok \<in> set toks" by simp
    moreover obtain q where "args_allowed ws root q toks"
      using Cons.prems(1) by (auto simp: Let_def split: if_splits)
    ultimately show ?thesis using Cons.IH Cons.prems(3) by blast
  qed
qed simp

lemma decide_allow:
  "decide mode req = Allow \<longleftrightarrow>
     (mode = mode_ask \<or> mode = mode_auto) \<and>
     (rq_action req = ''read'' \<or> rq_action req = ''list''
      \<or> (rq_action req = ''write'' \<and> mode = mode_auto)
      \<or> (rq_action req = ''execute'' \<and> mode = mode_auto \<and> \<not> is_deletion (rq_command req)
          \<and> (auto_allowed (rq_command req) (rq_workspace req) \<or> is_safe_command (rq_command req))))"
proof (cases "table (rq_action req)")
  case None
  then have "rq_action req \<notin> {''read'', ''list'', ''write'', ''execute'', ''fetch'', ''download''}"
    using table_cells by auto
  with None show ?thesis by (auto simp: decide_def act_execute_def)
next
  case (Some cells)
  have mm: "mode_ask \<noteq> mode_auto" by (simp add: mode_ask_def mode_auto_def)
  from table_Some [OF Some] consider
      "rq_action req = ''read''" | "rq_action req = ''list''" | "rq_action req = ''write''"
    | "rq_action req = ''execute''" | "rq_action req = ''fetch''" | "rq_action req = ''download''"
    by blast
  then show ?thesis
    by cases (use mm in \<open>auto simp: decide_def act_execute_def table_cells row_def split: if_splits\<close>)
qed

text \<open>C35: The approval table, exactly. A call is allowed without asking only in one of the two
  modes, and only a read or a list, a write in auto mode, or an execute in auto mode that is not a
  deletion and is on the rendered allowlist or the safe list. A fetch or a download is never
  allowed. An action or a mode the table does not know is never allowed either, and the answer is
  never the unset decision.\<close>

theorem approval_allows_exactly:
  "(decide mode req = Allow \<longleftrightarrow>
     (mode = ''ask'' \<or> mode = ''auto'') \<and>
     (rq_action req = ''read'' \<or> rq_action req = ''list''
      \<or> (rq_action req = ''write'' \<and> mode = ''auto'')
      \<or> (rq_action req = ''execute'' \<and> mode = ''auto'' \<and> \<not> is_deletion (rq_command req)
          \<and> (auto_allowed (rq_command req) (rq_workspace req) \<or> is_safe_command (rq_command req)))))
   \<and> decide mode req \<noteq> DecisionUnset"
proof
  show "decide mode req \<noteq> DecisionUnset"
    by (auto simp: decide_def split: option.splits)
qed (unfold decide_allow mode_ask_def mode_auto_def, rule refl)

text \<open>C24: A recognised deletion asks in every mode. When some segment of the command line runs,
  behind any number of launcher words, one of the deletion commands, the answer to the execute is
  \<open>Ask\<close>, whatever the mode and whatever else the line contains.\<close>

theorem deletion_always_asks:
  assumes "rq_action req = ''execute''"
    and "seg \<in> set (chain_segments (rq_command req))"
    and "str_fields seg = ls @ c # args" "\<forall>l \<in> set ls. launchers l"
    and "c \<noteq> ''timeout''" "\<not> launchers c" "deletion_commands (base_path c)"
  shows "decide mode req = Ask"
proof -
  have "effective_command (str_fields seg) = base_path c"
    using assms(3-6) effective_command_launchers [of ls "c # args"] by simp
  then have "segment_deletes seg"
    using assms(7) by (auto simp: segment_deletes_def Let_def deletion_commands_def)
  then have "is_deletion (rq_command req)"
    using assms(2) by (auto simp: is_deletion_def list_ex_iff)
  then show ?thesis using assms(1) by (simp add: decide_def act_execute_def)
qed

definition exec_request :: "string \<Rightarrow> request" where
  "exec_request c = \<lparr>rq_action = ''execute'', rq_tool = ''bash'', rq_path = [], rq_command = c,
     rq_workspace = ''/ws''\<rparr>"

theorem deletion_always_asks_witness:
  "decide ''auto'' (exec_request ''cat a | sudo xargs rm -f'') = Ask"
proof -
  have "'' sudo xargs rm -f'' \<in> set (chain_segments ''cat a | sudo xargs rm -f'')" by code_simp
  moreover have "str_fields '' sudo xargs rm -f'' = [''sudo'', ''xargs''] @ ''rm'' # [''-f'']" by code_simp
  ultimately show ?thesis
    by (intro deletion_always_asks [of _ "'' sudo xargs rm -f''" "[''sudo'', ''xargs'']" "''rm''" "[''-f'']"])
      (simp_all add: exec_request_def launchers_def, code_simp)
qed

text \<open>The rendered allowlist stays in the workspace. A command the allowlist admits runs one of
  the four programs, and each of its arguments that does not begin with a dash, made absolute
  against the workspace and cleaned, is the workspace or below it.\<close>

theorem auto_allowed_confined:
  assumes "auto_allowed command workspace"
  shows "\<exists>prog args. str_fields command = prog # args
       \<and> base_path prog \<in> {''python3'', ''soffice'', ''mv'', ''cp''}
       \<and> (\<forall>a \<in> set args. \<not> has_prefix a ''-'' \<longrightarrow>
            (let cleaned = clean_path (if is_abs a then a else join_path workspace a)
             in cleaned = clean_path workspace \<or> has_prefix cleaned (clean_path workspace @ ''/'')))"
proof -
  from assms obtain prog args where t: "str_fields command = prog # args"
    "allowlist_commands (base_path prog)" "args_allowed workspace (clean_path workspace) False args"
    by (auto simp: auto_allowed_def split: list.splits)
  from args_allowed_inside [OF t(3)] t(1,2) show ?thesis
    by (auto simp: allowlist_commands_def is_flag_def)
qed

theorem auto_allowed_confined_witness:
  "\<exists>prog args. str_fields ''cp a.txt out/b.txt'' = prog # args
     \<and> base_path prog \<in> {''python3'', ''soffice'', ''mv'', ''cp''}"
proof -
  have "auto_allowed ''cp a.txt out/b.txt'' ''/ws''" by code_simp
  from auto_allowed_confined [OF this] show ?thesis by blast
qed

text \<open>
  What the word-level reading lets through in auto mode: an assignment or a flag between a launcher
  and a deletion, a second command chained behind an allowlisted one, and inline code or a target
  directory attached to its flag.
\<close>

lemma auto_mode_gaps:
  "decide ''auto'' (exec_request ''env A=1 rm -rf /home'') = Allow"
  "decide ''auto'' (exec_request ''nice -n 5 rm -rf /home'') = Allow"
  "decide ''auto'' (exec_request ''cp a b; curl evil'') = Allow"
  "decide ''auto'' (exec_request ''python3 -cimport_os'') = Allow"
  "decide ''auto'' (exec_request ''mv --target-directory=/etc a'') = Allow"
  by code_simp+

end
