(* ===== verification/TaskStore.thy ===== *)
theory TaskStore
  imports GoStrings "HOL-Library.AList"
begin

text \<open>
  \<open>internal/taskstore\<close>: the task record, its state machine and the store. The directory is an
  association list from task id to file; a file is a record or does not parse. A state read from
  JSON is an open string, so the states the source does not name are \<open>Unknown\<close>. The operating
  system decides from its own state whether a read or a write fails, and a write may fail after
  the new record is in place. Ids are single path elements.
\<close>

datatype task_state =
    Queued | Running | AwaitingApproval | Done | Flagged | Failed | Refused | Cancelled | Interrupted
  | Unknown string

fun transitions :: "task_state \<Rightarrow> task_state list" where
  "transitions Queued = [Running, Refused, Cancelled, Interrupted]"
| "transitions Running = [AwaitingApproval, Done, Flagged, Failed, Cancelled, Interrupted]"
| "transitions AwaitingApproval = [Running, Failed, Cancelled, Interrupted]"
| "transitions _ = []"

definition terminal :: "task_state \<Rightarrow> bool" where
  "terminal s \<longleftrightarrow> s \<in> {Done, Flagged, Failed, Refused, Cancelled, Interrupted}"

definition can_transition :: "task_state \<Rightarrow> task_state \<Rightarrow> bool" where
  "can_transition from to = (if terminal from then False else to \<in> set (transitions from))"

fun exit_code :: "task_state \<Rightarrow> int" where
  "exit_code Done = 0"
| "exit_code Flagged = 2"
| "exit_code _ = 1"

record file_event =
  fe_path :: string
  fe_action :: string

record task_approval =
  ta_seq :: int
  ta_tool :: string
  ta_action :: string
  ta_path :: string
  ta_command :: string
  ta_asked_at :: string
  ta_answer :: string
  ta_answered_at :: string
  ta_by :: string

record unsupported =
  us_claim :: string
  us_reason :: string

record grounding_document =
  gd_path :: string
  gd_claims :: int
  gd_unsupported :: "unsupported list"

record grounding =
  gr_checked :: bool
  gr_documents :: "grounding_document list"

record task =
  tk_id :: string
  tk_workspace :: string
  tk_instruction :: string
  tk_mode :: string
  tk_state :: task_state
  tk_exit :: "int option"
  tk_submitted_at :: string
  tk_started_at :: string
  tk_finished_at :: string
  tk_harness :: "string \<times> string"
  tk_files :: "file_event list"
  tk_approvals :: "task_approval list"
  tk_grounding :: grounding
  tk_schema :: int

definition schema_version :: int where "schema_version = 1"

datatype task_file = Corrupt | Stored task

datatype write_outcome = Written | NotWritten string | WrittenThenFailed string

datatype task_error =
    EmptyId
  | BadInitialState task_state
  | AlreadyExists string
  | NotFound string
  | LoadFailed string string
  | CorruptRecord string
  | NotALegalEdge string task_state task_state
  | WriteFailed string
  | ListFailed string

record 'x task_host =
  th_files :: "(string \<times> task_file) list"
  th_world :: 'x

record 'x task_os =
  to_list :: "'x \<Rightarrow> string option"
  to_read :: "string \<Rightarrow> 'x \<Rightarrow> string option"
  to_write :: "string \<Rightarrow> 'x \<Rightarrow> write_outcome \<times> 'x"

definition digits :: "string \<Rightarrow> bool" where
  "digits s = list_all (\<lambda>c. c \<in> set ''0123456789'') s"

definition valid_id :: "string \<Rightarrow> bool" where
  "valid_id i \<longleftrightarrow> length i = 20 \<and> digits (take 8 i) \<and> i ! 8 = CHR ''-'' \<and> digits (take 6 (drop 9 i))
     \<and> i ! 15 = CHR ''-'' \<and> list_all (\<lambda>c. c \<in> set ''0123456789abcdef'') (drop 16 i)"

definition load_task :: "'x task_os \<Rightarrow> string \<Rightarrow> 'x task_host \<Rightarrow> task_error + task" where
  "load_task os i h =
     (if \<not> valid_id i then Inl (NotFound i)
      else (case to_read os i (th_world h) of
        Some e \<Rightarrow> Inl (LoadFailed i e)
      | None \<Rightarrow> (case map_of (th_files h) i of
          None \<Rightarrow> Inl (NotFound i)
        | Some Corrupt \<Rightarrow> Inl (CorruptRecord i)
        | Some (Stored t) \<Rightarrow> Inr t)))"

definition write_record :: "'x task_os \<Rightarrow> task \<Rightarrow> 'x task_host \<Rightarrow> (task_error + unit) \<times> 'x task_host" where
  "write_record os t h =
     (case to_write os (tk_id t) (th_world h) of (w, x) \<Rightarrow>
        (let h' = h\<lparr>th_world := x\<rparr>;
             put = h'\<lparr>th_files := AList.update (tk_id t) (Stored t) (th_files h')\<rparr> in
         case w of
           Written \<Rightarrow> (Inr (), put)
         | WrittenThenFailed e \<Rightarrow> (Inl (WriteFailed e), put)
         | NotWritten e \<Rightarrow> (Inl (WriteFailed e), h')))"

definition create_task :: "'x task_os \<Rightarrow> task \<Rightarrow> 'x task_host \<Rightarrow> (task_error + unit) \<times> 'x task_host" where
  "create_task os t h =
     (if tk_id t = [] then (Inl EmptyId, h)
      else if tk_state t \<noteq> Queued \<and> tk_state t \<noteq> Refused then (Inl (BadInitialState (tk_state t)), h)
      else (case to_read os (tk_id t) (th_world h) of
        Some e \<Rightarrow> (Inl (LoadFailed (tk_id t) e), h)
      | None \<Rightarrow>
          (case map_of (th_files h) (tk_id t) of
             Some _ \<Rightarrow> (Inl (AlreadyExists (tk_id t)), h)
           | None \<Rightarrow>
               write_record os
                 (t\<lparr>tk_exit := (if terminal (tk_state t) then Some (exit_code (tk_state t)) else tk_exit t),
                    tk_schema := schema_version\<rparr>) h)))"

definition transition ::
  "'x task_os \<Rightarrow> string \<Rightarrow> task_state \<Rightarrow> (task \<Rightarrow> task) \<Rightarrow> 'x task_host
     \<Rightarrow> (task_error + task) \<times> 'x task_host" where
  "transition os i to mutate h =
     (case load_task os i h of
        Inl e \<Rightarrow> (Inl e, h)
      | Inr t \<Rightarrow>
          if \<not> can_transition (tk_state t) to then (Inl (NotALegalEdge i (tk_state t) to), h)
          else
            (let t = mutate (t\<lparr>tk_state := to\<rparr>);
                 t = (if terminal to then t\<lparr>tk_exit := Some (exit_code to)\<rparr> else t)
             in case write_record os t h of
                  (Inl e, h') \<Rightarrow> (Inl e, h')
                | (Inr _, h') \<Rightarrow> (Inr t, h')))"

definition list_ids :: "'x task_host \<Rightarrow> string list" where
  "list_ids h = sort_strings (map fst (th_files h))"

fun load_all :: "'x task_os \<Rightarrow> string list \<Rightarrow> 'x task_host \<Rightarrow> task_error + task list" where
  "load_all os [] h = Inr []"
| "load_all os (i # is) h =
     result_bind (load_task os i h) (\<lambda>t. result_bind (load_all os is h) (\<lambda>ts. Inr (t # ts)))"

definition list_tasks :: "'x task_os \<Rightarrow> 'x task_host \<Rightarrow> task_error + task list" where
  "list_tasks os h =
     (case to_list os (th_world h) of Some e \<Rightarrow> Inl (ListFailed e) | None \<Rightarrow> load_all os (list_ids h) h)"

fun recover_each ::
  "'x task_os \<Rightarrow> string list \<Rightarrow> 'x task_host \<Rightarrow> (string list \<times> task_error list) \<times> 'x task_host" where
  "recover_each os [] h = (([], []), h)"
| "recover_each os (i # is) h =
     (case load_task os i h of
        Inl e \<Rightarrow> (case recover_each os is h of ((rs, es), h') \<Rightarrow> ((rs, e # es), h'))
      | Inr t \<Rightarrow>
          if terminal (tk_state t) then recover_each os is h
          else (case transition os i Interrupted id h of
                  (Inl e, h1) \<Rightarrow> (case recover_each os is h1 of ((rs, es), h') \<Rightarrow> ((rs, e # es), h'))
                | (Inr _, h1) \<Rightarrow> (case recover_each os is h1 of ((rs, es), h') \<Rightarrow> ((i # rs, es), h'))))"

definition recover :: "'x task_os \<Rightarrow> 'x task_host \<Rightarrow> (string list \<times> task_error list) \<times> 'x task_host" where
  "recover os h =
     (case to_list os (th_world h) of
        Some e \<Rightarrow> (([], [ListFailed e]), h)
      | None \<Rightarrow> recover_each os (list_ids h) h)"

record list_view_task =
  lt_id :: string
  lt_workspace :: string
  lt_state :: task_state
  lt_submitted_at :: string
  lt_finished_at :: string
  lt_exit :: "int option"

definition new_list_view :: "task list \<Rightarrow> int \<times> list_view_task list" where
  "new_list_view tasks = (schema_version,
     map (\<lambda>t. \<lparr>lt_id = tk_id t, lt_workspace = tk_workspace t, lt_state = tk_state t,
               lt_submitted_at = tk_submitted_at t, lt_finished_at = tk_finished_at t,
               lt_exit = tk_exit t\<rparr>) tasks)"

subsection \<open>The state machine\<close>

text \<open>One legal step of a task, as a relation.\<close>

inductive state_step :: "task_state \<Rightarrow> task_state \<Rightarrow> bool" where
  start: "state_step Queued Running"
| refuse: "state_step Queued Refused"
| ask: "state_step Running AwaitingApproval"
| answered: "state_step AwaitingApproval Running"
| finish: "s \<in> {Done, Flagged} \<Longrightarrow> state_step Running s"
| fail: "s \<in> {Running, AwaitingApproval} \<Longrightarrow> state_step s Failed"
| stop: "s \<in> {Queued, Running, AwaitingApproval} \<Longrightarrow> e \<in> {Cancelled, Interrupted} \<Longrightarrow> state_step s e"

code_pred state_step .

inductive_simps state_step_from: "state_step s e"
inductive_cases state_stepE: "state_step s e"

lemma can_transition_iff: "can_transition s e \<longleftrightarrow> state_step s e"
  by (cases s; cases e) (auto simp: can_transition_def terminal_def state_step_from)

lemma terminal_no_step: "terminal s \<Longrightarrow> \<not> state_step s e"
  by (auto simp: terminal_def elim!: state_stepE)

lemma known_nonterminal: "\<not> terminal s \<longleftrightarrow> s \<in> {Queued, Running, AwaitingApproval} \<or> (\<exists>u. s = Unknown u)"
  by (cases s) (auto simp: terminal_def)

subsection \<open>The store's invariant\<close>

definition wf_task :: "string \<Rightarrow> task \<Rightarrow> bool" where
  "wf_task i t \<longleftrightarrow> tk_id t = i \<and> (\<forall>u. tk_state t \<noteq> Unknown u)
     \<and> tk_exit t = (if terminal (tk_state t) then Some (exit_code (tk_state t)) else None)"

definition wf_store :: "'x task_host \<Rightarrow> bool" where
  "wf_store h \<longleftrightarrow> distinct (map fst (th_files h))
     \<and> (\<forall>(i, f) \<in> set (th_files h). valid_id i \<and> (\<exists>t. f = Stored t \<and> wf_task i t))"

text \<open>A mutation as the runner writes them: it leaves the id, the state and the exit alone.\<close>

definition tame_mutation :: "(task \<Rightarrow> task) \<Rightarrow> bool" where
  "tame_mutation f \<longleftrightarrow>
     (\<forall>t. tk_id (f t) = tk_id t \<and> tk_state (f t) = tk_state t \<and> tk_exit (f t) = tk_exit t)"

text \<open>What any caller may do to the store.\<close>

inductive store_step :: "'x task_os \<Rightarrow> 'x task_host \<Rightarrow> 'x task_host \<Rightarrow> bool" for os where
  do_create: "valid_id (tk_id t) \<Longrightarrow> tk_exit t = None \<Longrightarrow> create_task os t h = (r, h') \<Longrightarrow> store_step os h h'"
| do_transition: "tame_mutation f \<Longrightarrow> transition os i to f h = (r, h') \<Longrightarrow> store_step os h h'"
| do_recover: "recover os h = (r, h') \<Longrightarrow> store_step os h h'"

inductive store_reachable :: "'x task_os \<Rightarrow> 'x task_host \<Rightarrow> 'x task_host \<Rightarrow> bool" for os where
  here: "store_reachable os h h"
| more: "store_reachable os h h1 \<Longrightarrow> store_step os h1 h2 \<Longrightarrow> store_reachable os h h2"

definition record_at :: "'x task_host \<Rightarrow> string \<Rightarrow> task option" where
  "record_at h i = (case map_of (th_files h) i of Some (Stored t) \<Rightarrow> Some t | _ \<Rightarrow> None)"

lemma wf_store_at: "wf_store h \<Longrightarrow> map_of (th_files h) i = Some f \<Longrightarrow> \<exists>t. f = Stored t \<and> wf_task i t \<and> valid_id i"
  by (auto simp: wf_store_def dest!: map_of_SomeD)

lemma write_record_cases:
  assumes "write_record os t h = (r, h')"
  shows "(th_files h' = th_files h \<and> (\<exists>e. r = Inl e))
       \<or> th_files h' = AList.update (tk_id t) (Stored t) (th_files h)"
  using assms by (auto simp: write_record_def Let_def split: prod.splits write_outcome.splits)

lemma write_record_ok:
  "write_record os t h = (Inr x, h') \<Longrightarrow> th_files h' = AList.update (tk_id t) (Stored t) (th_files h)"
  using write_record_cases by fastforce

lemma wf_store_update:
  assumes "wf_store h" "valid_id i" "wf_task i t" "th_files h' = AList.update i (Stored t) (th_files h)"
  shows "wf_store h'"
proof -
  have d: "distinct (map fst (th_files h'))"
    using assms(1) by (simp add: assms(4) wf_store_def distinct_update)
  have "valid_id j \<and> (\<exists>u. f = Stored u \<and> wf_task j u)" if "(j, f) \<in> set (th_files h')" for j f
  proof -
    have "map_of (th_files h') j = Some f" using d that by simp
    then have "((map_of (th_files h))(i \<mapsto> Stored t)) j = Some f" by (simp add: assms(4) update_conv')
    then show ?thesis
      using assms(2,3) wf_store_at [OF assms(1), of j f] by (auto split: if_splits)
  qed
  with d show ?thesis by (auto simp: wf_store_def)
qed

lemma load_task_Inr:
  "load_task os i h = Inr t \<Longrightarrow> valid_id i \<and> map_of (th_files h) i = Some (Stored t)"
  by (auto simp: load_task_def split: if_splits option.splits task_file.splits)

text \<open>A legal transition writes the record it read, moved along one edge.\<close>

lemma transition_cases:
  assumes "transition os i to f h = (r, h')" "tame_mutation f" "wf_store h"
  shows "th_files h' = th_files h
       \<or> (\<exists>t t'. map_of (th_files h) i = Some (Stored t) \<and> state_step (tk_state t) to \<and> wf_task i t'
            \<and> tk_state t' = to \<and> valid_id i \<and> th_files h' = AList.update i (Stored t') (th_files h))"
proof (cases "load_task os i h")
  case (Inl e)
  with assms(1) show ?thesis by (auto simp: transition_def)
next
  case (Inr t)
  note l = load_task_Inr [OF Inr]
  have wt: "wf_task i t" using wf_store_at [OF assms(3)] l by blast
  show ?thesis
  proof (cases "can_transition (tk_state t) to")
    case False
    with assms(1) Inr show ?thesis by (simp add: transition_def)
  next
    case True
    then have st: "state_step (tk_state t) to" by (simp add: can_transition_iff)
    define t1 where "t1 = f (t\<lparr>tk_state := to\<rparr>)"
    define t2 where "t2 = (if terminal to then t1\<lparr>tk_exit := Some (exit_code to)\<rparr> else t1)"
    have nt: "\<not> terminal (tk_state t)" using st terminal_no_step by blast
    have nu: "\<forall>u. to \<noteq> Unknown u" using st by (auto elim: state_stepE)
    have f1: "tk_id t1 = i" "tk_state t1 = to" "tk_exit t1 = None"
      using assms(2) wt nt by (simp_all add: t1_def tame_mutation_def wf_task_def)
    then have w2: "wf_task i t2" "tk_state t2 = to" "tk_id t2 = i"
      using nu by (simp_all add: t2_def wf_task_def)
    obtain q h1 where w: "write_record os t2 h = (q, h1)" by fastforce
    with assms(1) Inr True have "h' = h1"
      by (auto simp: transition_def t1_def [symmetric] t2_def [symmetric] split: sum.splits)
    with write_record_cases [OF w] w2 l st show ?thesis by auto
  qed
qed

lemma tame_id: "tame_mutation id"
  by (simp add: tame_mutation_def)

text \<open>What may happen to the records on disk: each keeps its place, as it is or moved along edges.\<close>

definition moves :: "'x task_host \<Rightarrow> 'x task_host \<Rightarrow> bool" where
  "moves h h' \<longleftrightarrow> (\<forall>i f. map_of (th_files h) i = Some f \<longrightarrow>
     map_of (th_files h') i = Some f
     \<or> (\<exists>t t'. f = Stored t \<and> map_of (th_files h') i = Some (Stored t')
          \<and> state_step\<^sup>+\<^sup>+ (tk_state t) (tk_state t')))"

lemma moves_refl: "th_files h' = th_files h \<Longrightarrow> moves h h'"
  by (simp add: moves_def)

lemma moves_trans:
  assumes "moves h1 h2" "moves h2 h3"
  shows "moves h1 h3"
  unfolding moves_def
proof (intro allI impI)
  fix i f assume a: "map_of (th_files h1) i = Some f"
  consider (same) "map_of (th_files h2) i = Some f"
    | (moved) t t' where "f = Stored t" "map_of (th_files h2) i = Some (Stored t')"
        "state_step\<^sup>+\<^sup>+ (tk_state t) (tk_state t')"
    using assms(1) a unfolding moves_def by blast
  then show "map_of (th_files h3) i = Some f
     \<or> (\<exists>t t'. f = Stored t \<and> map_of (th_files h3) i = Some (Stored t')
          \<and> state_step\<^sup>+\<^sup>+ (tk_state t) (tk_state t'))"
  proof cases
    case same
    then show ?thesis using assms(2) unfolding moves_def by blast
  next
    case moved
    from assms(2) moved(2) consider "map_of (th_files h3) i = Some (Stored t')"
      | t'' where "map_of (th_files h3) i = Some (Stored t'')" "state_step\<^sup>+\<^sup>+ (tk_state t') (tk_state t'')"
      unfolding moves_def by blast
    then show ?thesis using moved tranclp_trans [OF moved(3)] by cases blast+
  qed
qed

lemma transition_facts:
  assumes "transition os i to f h = (r, h')" "tame_mutation f" "wf_store h"
  shows "wf_store h' \<and> moves h h'"
  using transition_cases [OF assms]
proof (elim disjE exE conjE)
  assume "th_files h' = th_files h"
  with assms(3) show ?thesis by (simp add: wf_store_def moves_refl)
next
  fix t t'
  assume a: "map_of (th_files h) i = Some (Stored t)" "state_step (tk_state t) to" "wf_task i t'"
    "tk_state t' = to" "valid_id i" "th_files h' = AList.update i (Stored t') (th_files h)"
  have "wf_store h'" using wf_store_update [OF assms(3) a(5,3,6)] .
  moreover have "moves h h'"
    using a by (auto simp: moves_def update_conv' intro!: tranclp.r_into_trancl)
  ultimately show ?thesis ..
qed

lemma create_task_facts:
  assumes "create_task os t h = (r, h')" "tk_exit t = None" "valid_id (tk_id t)" "wf_store h"
  shows "wf_store h' \<and> moves h h'"
proof -
  define t1 where "t1 = t\<lparr>tk_exit := (if terminal (tk_state t) then Some (exit_code (tk_state t)) else tk_exit t),
                    tk_schema := schema_version\<rparr>"
  have "th_files h' = th_files h \<or>
      (map_of (th_files h) (tk_id t) = None \<and> (tk_state t = Queued \<or> tk_state t = Refused)
        \<and> th_files h' = AList.update (tk_id t) (Stored t1) (th_files h))"
    using assms(1) write_record_cases [of os t1 h r h']
    by (auto simp: create_task_def t1_def [symmetric] split: if_splits option.splits)
       (simp_all add: t1_def)
  then consider "th_files h' = th_files h"
    | (new) "map_of (th_files h) (tk_id t) = None" "tk_state t = Queued \<or> tk_state t = Refused"
      "th_files h' = AList.update (tk_id t) (Stored t1) (th_files h)"
    by metis
  then show ?thesis
  proof cases
    case 1
    with assms(4) show ?thesis by (simp add: wf_store_def moves_refl)
  next
    case new
    have "wf_task (tk_id t) t1"
      using new(2) assms(2) by (auto simp: wf_task_def t1_def)
    from wf_store_update [OF assms(4,3) this new(3)] have "wf_store h'" .
    moreover have "moves h h'" using new(1,3) by (auto simp: moves_def update_conv')
    ultimately show ?thesis ..
  qed
qed

lemma recover_each_facts:
  "recover_each os is h = (q, h') \<Longrightarrow> wf_store h \<Longrightarrow> wf_store h' \<and> moves h h'"
proof (induction "is" arbitrary: h q)
  case Nil
  then show ?case by (simp add: moves_refl)
next
  case (Cons i "is")
  show ?case
  proof (cases "load_task os i h")
    case (Inl e)
    then show ?thesis using Cons.prems Cons.IH by (auto split: prod.splits)
  next
    case (Inr t)
    show ?thesis
    proof (cases "terminal (tk_state t)")
      case True
      with Inr show ?thesis using Cons.prems Cons.IH by auto
    next
      case False
      obtain r h1 where w: "transition os i Interrupted id h = (r, h1)" by fastforce
      have h1: "wf_store h1" "moves h h1" using transition_facts [OF w tame_id Cons.prems(2)] by auto
      obtain q' where "recover_each os is h1 = (q', h')"
        using Cons.prems(1) Inr False w by (auto split: prod.splits sum.splits)
      from Cons.IH [OF this h1(1)] h1(2) show ?thesis using moves_trans by blast
    qed
  qed
qed

lemma store_step_facts:
  assumes "store_step os h h'" "wf_store h"
  shows "wf_store h' \<and> moves h h'"
  using assms(1)
proof cases
  case (do_create t r)
  then show ?thesis using create_task_facts assms(2) by blast
next
  case (do_transition f i to r)
  then show ?thesis using transition_facts assms(2) by blast
next
  case (do_recover r)
  then show ?thesis using recover_each_facts [of os "list_ids h" h] assms(2)
    by (auto simp: recover_def moves_refl split: option.splits)
qed

lemma store_reachable_facts:
  "store_reachable os h h' \<Longrightarrow> wf_store h \<Longrightarrow> wf_store h' \<and> moves h h'"
proof (induction rule: store_reachable.induct)
  case (here h)
  then show ?case by (simp add: moves_refl)
next
  case (more h h1 h2)
  then show ?case using store_step_facts [of os h1 h2] moves_trans by blast
qed

lemma terminal_no_steps: "terminal s \<Longrightarrow> \<not> state_step\<^sup>+\<^sup>+ s e"
  using terminal_no_step by (blast elim: converse_tranclpE)

lemma moves_terminal:
  "moves h h' \<Longrightarrow> map_of (th_files h) i = Some (Stored t) \<Longrightarrow> terminal (tk_state t)
     \<Longrightarrow> map_of (th_files h') i = Some (Stored t)"
  unfolding moves_def using terminal_no_steps by blast

subsection \<open>Recovery when nothing fails\<close>

definition faultless :: "'x task_os \<Rightarrow> bool" where
  "faultless os \<longleftrightarrow> (\<forall>x. to_list os x = None) \<and> (\<forall>i x. to_read os i x = None)
     \<and> (\<forall>i x. fst (to_write os i x) = Written)"

definition interrupted :: "task \<Rightarrow> task" where
  "interrupted t = t\<lparr>tk_state := Interrupted, tk_exit := Some (exit_code Interrupted)\<rparr>"

definition nonterminal_at :: "'x task_host \<Rightarrow> string \<Rightarrow> bool" where
  "nonterminal_at h i = (case record_at h i of Some t \<Rightarrow> \<not> terminal (tk_state t) | None \<Rightarrow> False)"

lemma faultless_load:
  assumes "faultless os" "wf_store h" "map_of (th_files h) i = Some f"
  shows "\<exists>t. load_task os i h = Inr t \<and> f = Stored t \<and> wf_task i t"
  using assms(1,3) wf_store_at [OF assms(2,3)] by (auto simp: load_task_def faultless_def)

lemma nonterminal_to_interrupted:
  assumes "wf_task i t" "\<not> terminal (tk_state t)"
  shows "can_transition (tk_state t) Interrupted"
  using assms by (cases "tk_state t") (auto simp: wf_task_def can_transition_def terminal_def)

lemma faultless_transition:
  assumes "faultless os" "load_task os i h = Inr t" "wf_task i t" "\<not> terminal (tk_state t)"
  shows "\<exists>h1. transition os i Interrupted id h = (Inr (interrupted t), h1)
           \<and> th_files h1 = AList.update i (Stored (interrupted t)) (th_files h)"
proof -
  obtain w x where wr: "to_write os i (th_world h) = (w, x)" by fastforce
  with assms(1) have "w = Written" unfolding faultless_def by (metis fst_conv)
  moreover have "tk_id (interrupted t) = i" using assms(3) by (simp add: interrupted_def wf_task_def)
  ultimately show ?thesis
    using assms(2) nonterminal_to_interrupted [OF assms(3,4)] wr
    by (simp add: transition_def terminal_def interrupted_def write_record_def Let_def)
qed

lemma record_at_update:
  "th_files h1 = AList.update i (Stored u) (th_files h) \<Longrightarrow> record_at h1 j = (if j = i then Some u else record_at h j)"
  by (simp add: record_at_def update_conv')

text \<open>Every record still open ends interrupted, everything else stays, and the ids come back.\<close>

lemma recover_each_faultless:
  "faultless os \<Longrightarrow> wf_store h \<Longrightarrow> distinct is \<Longrightarrow> set is \<subseteq> fst ` set (th_files h) \<Longrightarrow>
     \<exists>h'. recover_each os is h = ((filter (nonterminal_at h) is, []), h')
        \<and> (\<forall>j. record_at h' j = (if j \<in> set is \<and> nonterminal_at h j
                                   then map_option interrupted (record_at h j) else record_at h j))"
proof (induction "is" arbitrary: h)
  case Nil
  then show ?case by simp
next
  case (Cons i "is")
  from Cons.prems(4) have "i \<in> fst ` set (th_files h)" by simp
  then obtain f where "map_of (th_files h) i = Some f" by (metis domD dom_map_of_conv_image_fst)
  then obtain t where t: "load_task os i h = Inr t" "map_of (th_files h) i = Some (Stored t)" "wf_task i t"
    using faultless_load [OF Cons.prems(1,2)] by blast
  then have ri: "record_at h i = Some t" by (simp add: record_at_def)
  show ?case
  proof (cases "terminal (tk_state t)")
    case True
    with ri have "\<not> nonterminal_at h i" by (simp add: nonterminal_at_def)
    moreover obtain h' where "recover_each os is h = ((filter (nonterminal_at h) is, []), h')"
        "\<forall>j. record_at h' j = (if j \<in> set is \<and> nonterminal_at h j
                                   then map_option interrupted (record_at h j) else record_at h j)"
      using Cons.IH [OF Cons.prems(1,2)] Cons.prems(3,4) by auto
    ultimately show ?thesis using t(1) True by auto
  next
    case False
    with ri have n: "nonterminal_at h i" by (simp add: nonterminal_at_def)
    obtain h1 where h1: "transition os i Interrupted id h = (Inr (interrupted t), h1)"
        "th_files h1 = AList.update i (Stored (interrupted t)) (th_files h)"
      using faultless_transition [OF Cons.prems(1) t(1,3) False] by blast
    have wf1: "wf_store h1" using transition_facts [OF h1(1) tame_id Cons.prems(2)] by simp
    note r1 = record_at_update [OF h1(2)]
    have same: "nonterminal_at h1 j = nonterminal_at h j" if "j \<noteq> i" for j
      using that by (simp add: nonterminal_at_def r1)
    have "set is \<subseteq> fst ` set (th_files h1)"
      using Cons.prems(4) by (auto simp: h1(2) dom_update)
    then obtain h' where h': "recover_each os is h1 = ((filter (nonterminal_at h1) is, []), h')"
        "\<forall>j. record_at h' j = (if j \<in> set is \<and> nonterminal_at h1 j
                                   then map_option interrupted (record_at h1 j) else record_at h1 j)"
      using Cons.IH [OF Cons.prems(1) wf1] Cons.prems(3) by auto
    have "filter (nonterminal_at h1) is = filter (nonterminal_at h) is"
    proof (rule filter_cong [OF refl])
      fix x assume "x \<in> set is"
      with Cons.prems(3) have "x \<noteq> i" by auto
      then show "nonterminal_at h1 x = nonterminal_at h x" by (rule same)
    qed
    moreover have "record_at h' j = (if j \<in> set (i # is) \<and> nonterminal_at h j
                     then map_option interrupted (record_at h j) else record_at h j)" for j
      using h'(2) Cons.prems(3) n ri same [of j] by (cases "j = i") (auto simp: r1)
    ultimately show ?thesis using t(1) False h1(1) h'(1) n by auto
  qed
qed

lemma recover_each_idle:
  "faultless os \<Longrightarrow> (\<forall>i \<in> set is. \<exists>t. load_task os i h = Inr t \<and> terminal (tk_state t))
     \<Longrightarrow> recover_each os is h = (([], []), h)"
  by (induction "is") auto

lemma wf_store_record: "wf_store h \<Longrightarrow> record_at h i = Some t \<Longrightarrow> wf_task i t"
  using wf_store_at [of h i] by (fastforce simp: record_at_def split: option.splits task_file.splits)

lemma list_ids_keys: "set (list_ids h) = dom (map_of (th_files h))"
  by (simp add: list_ids_def dom_map_of_conv_image_fst)

lemma record_at_listed: "record_at h i = Some t \<Longrightarrow> i \<in> set (list_ids h)"
  by (auto simp: list_ids_keys record_at_def split: option.splits)

lemma recover_faultless:
  assumes "faultless os" "wf_store h"
  shows "\<exists>h'. recover os h = ((filter (nonterminal_at h) (list_ids h), []), h') \<and> wf_store h'
     \<and> (\<forall>j. record_at h' j = (if nonterminal_at h j then map_option interrupted (record_at h j) else record_at h j))"
proof -
  have d: "distinct (list_ids h)" using assms(2) by (simp add: list_ids_def wf_store_def)
  have sub: "set (list_ids h) \<subseteq> fst ` set (th_files h)" by (simp add: list_ids_def)
  obtain h' where h': "recover_each os (list_ids h) h = ((filter (nonterminal_at h) (list_ids h), []), h')"
     "\<forall>j. record_at h' j = (if j \<in> set (list_ids h) \<and> nonterminal_at h j
                                   then map_option interrupted (record_at h j) else record_at h j)"
    using recover_each_faultless [OF assms d sub] by blast
  have "nonterminal_at h j \<Longrightarrow> j \<in> set (list_ids h)" for j
    using record_at_listed [of h j] by (auto simp: nonterminal_at_def split: option.splits)
  then have "\<forall>j. record_at h' j = (if nonterminal_at h j then map_option interrupted (record_at h j) else record_at h j)"
    using h'(2) by auto
  moreover have "wf_store h'" using recover_each_facts [OF h'(1) assms(2)] ..
  moreover have "recover os h = recover_each os (list_ids h) h"
    using assms(1) by (simp add: recover_def faultless_def)
  ultimately show ?thesis using h'(1) by auto
qed

lemma interrupted_terminal: "terminal (tk_state (interrupted t))"
  by (simp add: interrupted_def terminal_def)

subsection \<open>Properties\<close>

definition sample_task :: "string \<Rightarrow> task_state \<Rightarrow> task" where
  "sample_task i s = \<lparr>tk_id = i, tk_workspace = ''docs'', tk_instruction = ''tidy'', tk_mode = ''ask'',
     tk_state = s, tk_exit = (if terminal s then Some (exit_code s) else None), tk_submitted_at = ''t0'',
     tk_started_at = [], tk_finished_at = [], tk_harness = (''crush'', ''1''), tk_files = [],
     tk_approvals = [], tk_grounding = \<lparr>gr_checked = False, gr_documents = []\<rparr>, tk_schema = 1\<rparr>"

definition sample_id :: "string" where "sample_id = ''20260910-120115-4f2a''"
definition sample_id2 :: "string" where "sample_id2 = ''20260910-120116-0b00''"

definition sample_store :: "unit task_host" where
  "sample_store = \<lparr>th_files = [(sample_id, Stored (sample_task sample_id Running)),
                             (sample_id2, Stored (sample_task sample_id2 Done))], th_world = ()\<rparr>"

definition sample_os :: "unit task_os" where
  "sample_os = \<lparr>to_list = (\<lambda>_. None), to_read = (\<lambda>_ _. None), to_write = (\<lambda>_ _. (Written, ()))\<rparr>"

lemma sample_valid: "valid_id sample_id" "valid_id sample_id2" "sample_id \<noteq> sample_id2"
  by code_simp+

lemma sample_wf: "wf_store sample_store" "faultless sample_os"
  using sample_valid
  by (auto simp: wf_store_def sample_store_def wf_task_def sample_task_def terminal_def faultless_def sample_os_def)

lemma sample_step:
  "store_step sample_os sample_store (snd (transition sample_os sample_id Flagged id sample_store))"
  by (rule do_transition [OF tame_id]) (rule prod.collapse [symmetric])

text \<open>C29: whatever callers do with the store (create a task under a fresh id with no exit code,
  transition with a mutation that leaves identity, state and exit alone, recover), and whatever the
  operating system answers, it stays well formed: one record per id, each readable, under its own
  id, in a known state, with an exit code exactly when that state is terminal, and the code the
  state calls for.\<close>
theorem store_stays_well_formed:
  assumes "wf_store h" "store_reachable os h h'" "record_at h' i = Some t"
  shows "wf_store h' \<and> tk_id t = i \<and> (\<forall>u. tk_state t \<noteq> Unknown u)
    \<and> (tk_exit t = None \<longleftrightarrow> \<not> terminal (tk_state t))
    \<and> (terminal (tk_state t) \<longrightarrow> tk_exit t = Some (exit_code (tk_state t)))"
proof -
  have "wf_store h'" using store_reachable_facts [OF assms(2,1)] ..
  then show ?thesis using wf_store_record [OF _ assms(3)] by (simp add: wf_task_def)
qed

theorem store_stays_well_formed_witness:
  "tk_exit (sample_task sample_id Flagged) = Some 2
   \<and> wf_store (snd (transition sample_os sample_id Flagged id sample_store))"
proof -
  let ?h = "snd (transition sample_os sample_id Flagged id sample_store)"
  have "record_at ?h sample_id2 = Some (sample_task sample_id2 Done)" by code_simp
  from store_stays_well_formed [OF sample_wf(1) store_reachable.more [OF store_reachable.here sample_step] this]
  show ?thesis by (simp add: sample_task_def terminal_def)
qed

text \<open>a record once in a terminal state never changes again, and never disappears: every later
  store content reached by any sequence of creates, transitions and recoveries holds it as it was.\<close>
theorem terminal_records_final:
  assumes "wf_store h" "store_reachable os h h'" "record_at h i = Some t" "terminal (tk_state t)"
  shows "record_at h' i = Some t"
proof -
  have "map_of (th_files h) i = Some (Stored t)"
    using assms(3) by (simp add: record_at_def split: option.splits task_file.splits)
  from moves_terminal [OF _ this assms(4)] store_reachable_facts [OF assms(2,1)]
  show ?thesis by (simp add: record_at_def)
qed

theorem terminal_records_final_witness:
  "record_at (snd (transition sample_os sample_id Flagged id sample_store)) sample_id2
     = Some (sample_task sample_id2 Done)"
proof -
  have a: "record_at sample_store sample_id2 = Some (sample_task sample_id2 Done)" by code_simp
  show ?thesis
    by (rule terminal_records_final [OF sample_wf(1) store_reachable.more [OF store_reachable.here sample_step] a])
       (simp add: sample_task_def terminal_def)
qed

text \<open>a transition succeeds only along an edge of the state machine: from the state on disk,
  which is not terminal, to the state asked for, and what is then on disk is the record it returns.\<close>
theorem transition_follows_edges:
  assumes "wf_store h" "tame_mutation f" "transition os i to f h = (Inr t', h')"
  shows "\<exists>t. record_at h i = Some t \<and> state_step (tk_state t) to \<and> \<not> terminal (tk_state t)
    \<and> tk_state t' = to \<and> record_at h' i = Some t' \<and> (\<forall>j. j \<noteq> i \<longrightarrow> record_at h' j = record_at h j)"
proof (cases "load_task os i h")
  case (Inl e)
  with assms(3) show ?thesis by (simp add: transition_def)
next
  case (Inr t)
  have l: "map_of (th_files h) i = Some (Stored t)" using load_task_Inr [OF Inr] by blast
  have wt: "wf_task i t" using wf_store_at [OF assms(1) l] by auto
  have c: "can_transition (tk_state t) to" using assms(3) Inr by (auto simp: transition_def split: if_splits)
  define t2 where "t2 = (let t1 = f (t\<lparr>tk_state := to\<rparr>) in
    if terminal to then t1\<lparr>tk_exit := Some (exit_code to)\<rparr> else t1)"
  have w: "write_record os t2 h = (Inr (), h')" "t' = t2"
    using assms(3) Inr c by (auto simp: transition_def t2_def Let_def split: sum.splits prod.splits)
  have id2: "tk_id t2 = i" "tk_state t2 = to"
    using assms(2) wt by (simp_all add: t2_def Let_def tame_mutation_def wf_task_def)
  have u: "th_files h' = AList.update i (Stored t2) (th_files h)"
    using write_record_ok [OF w(1)] id2(1) by simp
  have "record_at h i = Some t" using l by (simp add: record_at_def)
  then show ?thesis
    using c id2 w(2) record_at_update [OF u] terminal_no_step by (auto simp: can_transition_iff)
qed

theorem transition_follows_edges_witness:
  "\<exists>t. record_at sample_store sample_id = Some t \<and> state_step (tk_state t) Flagged"
proof -
  have e: "transition sample_os sample_id Flagged id sample_store =
    (Inr (sample_task sample_id Flagged), snd (transition sample_os sample_id Flagged id sample_store))"
    by code_simp
  from transition_follows_edges [OF sample_wf(1) tame_id e] show ?thesis by blast
qed

text \<open>with a disk that works, \<open>Recover\<close> reports exactly the ids of the records still open, in
  order and without an error; those records end interrupted with exit code 1, every other record is
  as it was, and a second \<open>Recover\<close> finds nothing to do and writes nothing.\<close>
theorem recover_closes_open_records:
  assumes "faultless os" "wf_store h" "recover os h = (r, h')"
  shows "r = (filter (nonterminal_at h) (list_ids h), [])
    \<and> (\<forall>i. record_at h' i = (if nonterminal_at h i then map_option interrupted (record_at h i) else record_at h i))
    \<and> (\<forall>i t. record_at h' i = Some t \<longrightarrow> terminal (tk_state t))
    \<and> recover os h' = (([], []), h')"
proof -
  from recover_faultless [OF assms(1,2)] assms(3)
  have r: "r = (filter (nonterminal_at h) (list_ids h), [])" and w: "wf_store h'"
    and at: "\<forall>i. record_at h' i = (if nonterminal_at h i then map_option interrupted (record_at h i) else record_at h i)"
    by auto
  have t: "terminal (tk_state t)" if "record_at h' i = Some t" for i t
    using that at by (auto simp: interrupted_terminal nonterminal_at_def split: if_splits option.splits)
  have "\<exists>t. load_task os i h' = Inr t \<and> terminal (tk_state t)" if i: "i \<in> set (list_ids h')" for i
  proof -
    from i obtain f where f: "map_of (th_files h') i = Some f" by (auto simp: list_ids_keys)
    from faultless_load [OF assms(1) w f] obtain u where u: "load_task os i h' = Inr u" "f = Stored u" by blast
    with f have "record_at h' i = Some u" by (simp add: record_at_def)
    with u(1) t show ?thesis by blast
  qed
  then have "recover os h' = (([], []), h')"
    using recover_each_idle [OF assms(1), of "list_ids h'" h'] assms(1) by (simp add: recover_def faultless_def)
  with r at t show ?thesis by blast
qed

theorem recover_closes_open_records_witness:
  "fst (recover sample_os sample_store) = ([sample_id], [])
   \<and> record_at (snd (recover sample_os sample_store)) sample_id = Some (interrupted (sample_task sample_id Running))"
proof -
  have e: "recover sample_os sample_store = (fst (recover sample_os sample_store), snd (recover sample_os sample_store))"
    by simp
  have f: "filter (nonterminal_at sample_store) (list_ids sample_store) = [sample_id]" by code_simp
  have n: "nonterminal_at sample_store sample_id" by code_simp
  have a: "record_at sample_store sample_id = Some (sample_task sample_id Running)" by code_simp
  from recover_closes_open_records [OF sample_wf(2,1) e] show ?thesis using f n a by simp
qed

end
