(* ===== verification/Workspace.thy ===== *)
theory Workspace
  imports Config GoPaths
begin

text \<open>
  \<open>internal/workspace\<close>: the registered folders a task may work in. The registry is the \<open>workspace\<close>
  list of the configuration; registering is a chain of refusals, each decided on cleaned paths with
  \<open>pathsafe.Inside\<close>. Home, the roots, \<open>Stat\<close>, \<open>EvalSymlinks\<close> and the running executable are the
  arguments \<open>Deps\<close> names; the remediation texts are not modelled.
\<close>

datatype refusal_kind =
    Relative | NotResolved | Home | OutsideHome | VillaRoot | Nested | Missing | NotDir
  | Sensitive | ContainsExecutable

fun refusal_string :: "refusal_kind \<Rightarrow> string" where
  "refusal_string Relative = ''relative''"
| "refusal_string NotResolved = ''not-resolved''"
| "refusal_string Home = ''home''"
| "refusal_string OutsideHome = ''outside-home''"
| "refusal_string VillaRoot = ''villa-root''"
| "refusal_string Nested = ''nested''"
| "refusal_string Missing = ''missing''"
| "refusal_string NotDir = ''not-dir''"
| "refusal_string Sensitive = ''sensitive''"
| "refusal_string ContainsExecutable = ''contains-executable''"

datatype grant_error =
    Refusal refusal_kind string
  | HomeUnresolved string
  | NotRegistered string

datatype stat_result = StatAbsent | StatFailed string | StatInfo bool

record ws_deps =
  wd_home :: "string + string"
  wd_config_root :: string
  wd_data_root :: string
  wd_stat :: "string \<Rightarrow> stat_result"
  wd_eval_symlinks :: "string \<Rightarrow> string + string"
  wd_executable :: "(string + string) option"
  wd_cwd :: "string option"

definition overlaps :: "string option \<Rightarrow> string \<Rightarrow> string \<Rightarrow> bool" where
  "overlaps cwd a b =
     (if b = [] then False else inside cwd a b = Inr () \<or> inside cwd b a = Inr ())"

definition sensitive_dirs :: "string \<Rightarrow> string list" where
  "sensitive_dirs home =
     [join_path home ''bin'',
      join_path (join_path home ''.local'') ''bin'',
      join_path (join_path home ''.config'') ''systemd'',
      join_path (join_path home ''.config'') ''autostart'',
      join_path home ''.ssh'',
      join_path home ''.gnupg'']"

definition check_grant :: "string \<Rightarrow> ws_deps \<Rightarrow> grant_error option" where
  "check_grant resolved d =
     (case wd_home d of
        Inl e \<Rightarrow> Some (HomeUnresolved e)
      | Inr h \<Rightarrow>
          let home = clean_path h in
          if list_ex (\<lambda>deny. overlaps (wd_cwd d) resolved deny) (sensitive_dirs home)
            then Some (Refusal Sensitive resolved)
          else (case wd_executable d of
            None \<Rightarrow> None
          | Some (Inl _) \<Rightarrow> None
          | Some (Inr exe) \<Rightarrow>
              (case wd_eval_symlinks d exe of
                 Inl _ \<Rightarrow> None
               | Inr exe' \<Rightarrow>
                   if inside (wd_cwd d) exe' resolved = Inr ()
                     then Some (Refusal ContainsExecutable resolved) else None)))"

text \<open>The loop over the existing grants: already there, nested with one, or new.\<close>

fun scan_grants :: "string option \<Rightarrow> string \<Rightarrow> string list \<Rightarrow> grant_error + bool" where
  "scan_grants cwd resolved [] = Inr False"
| "scan_grants cwd resolved (existing # rest) =
     (if resolved = existing then Inr True
      else if overlaps cwd resolved existing then Inl (Refusal Nested resolved)
      else scan_grants cwd resolved rest)"

definition register :: "villa_config \<Rightarrow> string \<Rightarrow> ws_deps \<Rightarrow> grant_error + villa_config" where
  "register cfg path d =
     (if \<not> is_abs path then Inl (Refusal Relative path)
      else (case wd_stat d path of
        StatAbsent \<Rightarrow> Inl (Refusal Missing path)
      | StatFailed _ \<Rightarrow> Inl (Refusal NotResolved path)
      | StatInfo is_dir \<Rightarrow>
          if \<not> is_dir then Inl (Refusal NotDir path)
          else (case wd_eval_symlinks d path of
            Inl _ \<Rightarrow> Inl (Refusal NotResolved path)
          | Inr r \<Rightarrow>
              let resolved = clean_path r in
              (case wd_home d of
                 Inl e \<Rightarrow> Inl (HomeUnresolved e)
               | Inr h \<Rightarrow>
                   let home = clean_path h in
                   if resolved = home then Inl (Refusal Home resolved)
                   else if inside (wd_cwd d) resolved home \<noteq> Inr () then Inl (Refusal OutsideHome resolved)
                   else (case check_grant resolved d of
                     Some e \<Rightarrow> Inl e
                   | None \<Rightarrow>
                       if overlaps (wd_cwd d) resolved (wd_config_root d)
                          \<or> overlaps (wd_cwd d) resolved (wd_data_root d)
                         then Inl (Refusal VillaRoot resolved)
                       else (case scan_grants (wd_cwd d) resolved (cfg_workspace cfg) of
                         Inl e \<Rightarrow> Inl e
                       | Inr True \<Rightarrow> Inr cfg
                       | Inr False \<Rightarrow> Inr (cfg\<lparr>cfg_workspace := cfg_workspace cfg @ [resolved]\<rparr>)))))))"

definition remove_grant :: "villa_config \<Rightarrow> string \<Rightarrow> grant_error + villa_config" where
  "remove_grant cfg path =
     (if path \<notin> set (cfg_workspace cfg) then Inl (NotRegistered path)
      else Inr (cfg\<lparr>cfg_workspace := remove1 path (cfg_workspace cfg)\<rparr>))"

definition registered :: "villa_config \<Rightarrow> string \<Rightarrow> ws_deps \<Rightarrow> string option" where
  "registered cfg path d =
     (if \<not> is_abs path then None
      else (case wd_eval_symlinks d path of
        Inl _ \<Rightarrow> None
      | Inr r \<Rightarrow> if clean_path r \<in> set (cfg_workspace cfg) then Some (clean_path r) else None))"

subsection \<open>What a grant may be\<close>

text \<open>A grant next to the home directory \<open>home\<close> and the places no task may reach.\<close>

definition forbidden_roots :: "ws_deps \<Rightarrow> string \<Rightarrow> string list" where
  "forbidden_roots d home = wd_config_root d # wd_data_root d # sensitive_dirs home"

definition grant_ok :: "ws_deps \<Rightarrow> string \<Rightarrow> string \<Rightarrow> bool" where
  "grant_ok d home g \<longleftrightarrow> g \<noteq> home \<and> inside (wd_cwd d) g home = Inr ()
     \<and> list_all (\<lambda>r. \<not> overlaps (wd_cwd d) g r) (forbidden_roots d home)"

definition apart :: "string option \<Rightarrow> string \<Rightarrow> string \<Rightarrow> bool" where
  "apart cwd old new \<longleftrightarrow> new \<noteq> old \<and> \<not> overlaps cwd new old"

definition wf_grants :: "ws_deps \<Rightarrow> string \<Rightarrow> string list \<Rightarrow> bool" where
  "wf_grants d home gs \<longleftrightarrow> list_all (grant_ok d home) gs
     \<and> sorted_wrt (apart (wd_cwd d)) gs"

lemma check_grant_None:
  "check_grant resolved d = None \<Longrightarrow> wd_home d = Inr h \<Longrightarrow>
     \<forall>r \<in> set (sensitive_dirs (clean_path h)). \<not> overlaps (wd_cwd d) resolved r"
  by (auto simp: check_grant_def Let_def list_ex_iff split: if_splits)

lemma scan_grants_False:
  "scan_grants cwd r gs = Inr False \<Longrightarrow> list_all (\<lambda>g. apart cwd g r) gs"
  by (induction gs) (auto simp: apart_def split: if_splits)

lemma scan_grants_True: "scan_grants cwd r gs = Inr True \<Longrightarrow> r \<in> set gs"
  by (induction gs) (auto split: if_splits)

lemma scan_grants_appended:
  "scan_grants cwd r gs = Inr False \<Longrightarrow> scan_grants cwd r (gs @ [r]) = Inr True"
  by (induction gs) (auto split: if_splits)

text \<open>What a successful registration passed.\<close>

lemma register_Inr:
  assumes "register cfg path d = Inr cfg'"
  obtains r h where "is_abs path" "wd_stat d path = StatInfo True" "wd_eval_symlinks d path = Inr r"
    "wd_home d = Inr h" "clean_path r \<noteq> clean_path h" "inside (wd_cwd d) (clean_path r) (clean_path h) = Inr ()"
    "check_grant (clean_path r) d = None"
    "\<not> overlaps (wd_cwd d) (clean_path r) (wd_config_root d)"
    "\<not> overlaps (wd_cwd d) (clean_path r) (wd_data_root d)"
    "scan_grants (wd_cwd d) (clean_path r) (cfg_workspace cfg) = Inr True \<and> cfg' = cfg
     \<or> scan_grants (wd_cwd d) (clean_path r) (cfg_workspace cfg) = Inr False
       \<and> cfg' = cfg\<lparr>cfg_workspace := cfg_workspace cfg @ [clean_path r]\<rparr>"
proof -
  have ab: "is_abs path" using assms by (cases "is_abs path") (simp_all add: register_def)
  have st: "wd_stat d path = StatInfo True"
    using assms ab by (cases "wd_stat d path") (simp_all add: register_def split: if_splits)
  obtain r where ev: "wd_eval_symlinks d path = Inr r"
    using assms ab st by (cases "wd_eval_symlinks d path") (simp_all add: register_def)
  obtain h where ho: "wd_home d = Inr h"
    using assms ab st ev by (cases "wd_home d") (simp_all add: register_def)
  note e = assms [unfolded register_def Let_def, simplified ab st ev ho, simplified]
  have c: "clean_path r \<noteq> clean_path h" "inside (wd_cwd d) (clean_path r) (clean_path h) = Inr ()"
    using e by (simp_all split: if_splits)
  have g: "check_grant (clean_path r) d = None" using e c by (cases "check_grant (clean_path r) d") simp_all
  have o: "\<not> overlaps (wd_cwd d) (clean_path r) (wd_config_root d)"
    "\<not> overlaps (wd_cwd d) (clean_path r) (wd_data_root d)"
    using e c g by (simp_all split: if_splits)
  have "scan_grants (wd_cwd d) (clean_path r) (cfg_workspace cfg) = Inr True \<and> cfg' = cfg
     \<or> scan_grants (wd_cwd d) (clean_path r) (cfg_workspace cfg) = Inr False
       \<and> cfg' = cfg\<lparr>cfg_workspace := cfg_workspace cfg @ [clean_path r]\<rparr>"
  proof (cases "scan_grants (wd_cwd d) (clean_path r) (cfg_workspace cfg)")
    case (Inl x)
    with e c g o show ?thesis by simp
  next
    case (Inr b)
    show ?thesis
    proof (cases b)
      case True
      with Inr e c g o show ?thesis by simp
    next
      case False
      with Inr e c g o have "cfg' = cfg\<lparr>cfg_workspace := cfg_workspace cfg @ [clean_path r]\<rparr>" by simp
      with Inr False show ?thesis by simp
    qed
  qed
  from that [OF ab st ev ho c g o this] show thesis .
qed

lemma register_grant_ok:
  assumes "register cfg path d = Inr cfg'" "wd_home d = Inr h" "wd_eval_symlinks d path = Inr r"
  shows "grant_ok d (clean_path h) (clean_path r)"
proof -
  from assms(1) show ?thesis
  proof (rule register_Inr)
    fix r' h'
    assume a: "wd_eval_symlinks d path = Inr r'" "wd_home d = Inr h'" "clean_path r' \<noteq> clean_path h'"
      "inside (wd_cwd d) (clean_path r') (clean_path h') = Inr ()" "check_grant (clean_path r') d = None"
      "\<not> overlaps (wd_cwd d) (clean_path r') (wd_config_root d)"
      "\<not> overlaps (wd_cwd d) (clean_path r') (wd_data_root d)"
    have r: "r' = r" "h' = h" using a(1,2) assms(2,3) by simp_all
    have "list_all (\<lambda>q. \<not> overlaps (wd_cwd d) (clean_path r') q) (forbidden_roots d (clean_path h'))"
      unfolding forbidden_roots_def list.pred_inject
      using a(6,7) check_grant_None [OF a(5,2)] unfolding list_all_iff by blast
    with a(3,4) show ?thesis unfolding grant_ok_def r by blast
  qed
qed

lemma sorted_wrt_remove1: "sorted_wrt P xs \<Longrightarrow> sorted_wrt P (remove1 x xs)"
proof (induction xs)
  case (Cons y ys)
  then show ?case using set_remove1_subset [of x ys] by auto
qed simp

lemma wf_grants_snoc:
  assumes "wf_grants d home gs" "grant_ok d home g" "list_all (\<lambda>x. apart (wd_cwd d) x g) gs"
  shows "wf_grants d home (gs @ [g])"
proof -
  have "sorted_wrt (apart (wd_cwd d)) (gs @ [g])"
    using assms(1,3) by (simp add: wf_grants_def sorted_wrt_append list_all_iff)
  moreover have "list_all (grant_ok d home) (gs @ [g])" using assms(1,2) by (simp add: wf_grants_def)
  ultimately show ?thesis by (simp add: wf_grants_def)
qed

lemma wf_grants_remove1:
  assumes "wf_grants d home gs"
  shows "wf_grants d home (remove1 g gs)"
proof -
  have "sorted_wrt (apart (wd_cwd d)) (remove1 g gs)"
    using assms by (simp add: wf_grants_def sorted_wrt_remove1)
  moreover have "list_all (grant_ok d home) (remove1 g gs)"
    using assms set_remove1_subset [of g gs] by (auto simp: wf_grants_def list_all_iff)
  ultimately show ?thesis by (simp add: wf_grants_def)
qed

subsection \<open>Grants on cleaned absolute paths\<close>

lemma overlaps_abs:
  assumes "is_abs a" "is_abs b"
  shows "overlaps cwd a b \<longleftrightarrow> prefix (abs_elems b) (abs_elems a) \<or> prefix (abs_elems a) (abs_elems b)"
proof -
  have "b \<noteq> []" using assms(2) by (auto simp: is_abs_def has_prefix_def)
  then show ?thesis using assms by (simp add: overlaps_def inside_abs)
qed

text \<open>A file below two directories makes them overlap.\<close>

lemma shared_file_overlap:
  assumes "is_abs f" "is_abs a" "is_abs b" "inside cwd f a = Inr ()" "inside cwd f b = Inr ()"
  shows "overlaps cwd a b"
proof -
  have "prefix (abs_elems a) (abs_elems f)" "prefix (abs_elems b) (abs_elems f)"
    using assms by (simp_all add: inside_abs split: if_splits)
  then have "prefix (abs_elems a) (abs_elems b) \<or> prefix (abs_elems b) (abs_elems a)"
    using prefix_same_cases by blast
  then show ?thesis using assms(2,3) by (auto simp: overlaps_abs)
qed

subsection \<open>Properties\<close>

lemma workspace_update_id: "(cfg :: villa_config)\<lparr>cfg_workspace := cfg_workspace cfg\<rparr> = cfg"
  by (rule villa_config.equality) simp_all

lemma scan_grants_again:
  assumes "register cfg path d = Inr cfg'" "wd_eval_symlinks d path = Inr r"
  shows "scan_grants (wd_cwd d) (clean_path r) (cfg_workspace cfg') = Inr True"
  using assms(1)
proof (rule register_Inr)
  fix r' h
  assume "wd_eval_symlinks d path = Inr r'"
  then have r: "r' = r" using assms(2) by simp
  assume "scan_grants (wd_cwd d) (clean_path r') (cfg_workspace cfg) = Inr True \<and> cfg' = cfg
     \<or> scan_grants (wd_cwd d) (clean_path r') (cfg_workspace cfg) = Inr False
       \<and> cfg' = cfg\<lparr>cfg_workspace := cfg_workspace cfg @ [clean_path r']\<rparr>"
  then show ?thesis unfolding r
  proof (elim disjE conjE)
    assume "scan_grants (wd_cwd d) (clean_path r) (cfg_workspace cfg) = Inr True" "cfg' = cfg"
    then show ?thesis by simp
  next
    assume "scan_grants (wd_cwd d) (clean_path r) (cfg_workspace cfg) = Inr False"
      "cfg' = cfg\<lparr>cfg_workspace := cfg_workspace cfg @ [clean_path r]\<rparr>"
    then show ?thesis using scan_grants_appended by simp
  qed
qed

lemma register_again:
  assumes "register cfg path d = Inr cfg'"
  shows "register cfg' path d = Inr cfg'"
  using assms
proof (rule register_Inr)
  fix r h
  assume a: "is_abs path" "wd_stat d path = StatInfo True" "wd_eval_symlinks d path = Inr r"
    "wd_home d = Inr h" "clean_path r \<noteq> clean_path h" "inside (wd_cwd d) (clean_path r) (clean_path h) = Inr ()"
    "check_grant (clean_path r) d = None" "\<not> overlaps (wd_cwd d) (clean_path r) (wd_config_root d)"
    "\<not> overlaps (wd_cwd d) (clean_path r) (wd_data_root d)"
  from a scan_grants_again [OF assms a(3)] show ?thesis by (simp add: register_def)
qed

lemma register_workspace:
  assumes "register cfg path d = Inr cfg'" "wd_eval_symlinks d path = Inr r"
  shows "cfg' = cfg \<and> clean_path r \<in> set (cfg_workspace cfg)
    \<or> cfg' = cfg\<lparr>cfg_workspace := cfg_workspace cfg @ [clean_path r]\<rparr>
      \<and> list_all (\<lambda>g. apart (wd_cwd d) g (clean_path r)) (cfg_workspace cfg)"
  using assms(1)
proof (rule register_Inr)
  fix r' h
  assume "wd_eval_symlinks d path = Inr r'"
  then have r: "r' = r" using assms(2) by simp
  assume c: "scan_grants (wd_cwd d) (clean_path r') (cfg_workspace cfg) = Inr True \<and> cfg' = cfg
     \<or> scan_grants (wd_cwd d) (clean_path r') (cfg_workspace cfg) = Inr False
       \<and> cfg' = cfg\<lparr>cfg_workspace := cfg_workspace cfg @ [clean_path r']\<rparr>"
  show ?thesis
    using c [unfolded r] scan_grants_True [of "wd_cwd d" "clean_path r" "cfg_workspace cfg"]
      scan_grants_False [of "wd_cwd d" "clean_path r" "cfg_workspace cfg"]
    by argo
qed

definition sample_ws_deps :: ws_deps where
  "sample_ws_deps = \<lparr>wd_home = Inr ''/home/u'', wd_config_root = ''/home/u/.config/villa'',
     wd_data_root = ''/home/u/.local/share/villa'', wd_stat = (\<lambda>_. StatInfo True), wd_eval_symlinks = Inr,
     wd_executable = Some (Inr ''/usr/bin/villa''), wd_cwd = None\<rparr>"

definition sample_ws_cfg :: villa_config where
  "sample_ws_cfg = default_config\<lparr>cfg_workspace := [''/home/u/papers'']\<rparr>"

text \<open>C28: registering keeps the grants sound. When every grant lies strictly below the home directory,
  apart from villa's own roots and the sensitive directories, and no two overlap, a successful
  registration keeps it so, changes nothing but the grant list, leaves the folder registered under its
  resolved path, and repeating it changes nothing. Removing a grant keeps the invariant too.\<close>

theorem register_keeps_grants_sound:
  assumes "wf_grants d (clean_path h) (cfg_workspace cfg)" "wd_home d = Inr h"
    and "register cfg path d = Inr cfg'"
  shows "wf_grants d (clean_path h) (cfg_workspace cfg')
    \<and> cfg'\<lparr>cfg_workspace := cfg_workspace cfg\<rparr> = cfg
    \<and> (\<exists>g. registered cfg' path d = Some g \<and> g \<in> set (cfg_workspace cfg') \<and> grant_ok d (clean_path h) g)
    \<and> register cfg' path d = Inr cfg'
    \<and> (\<forall>g cfg''. remove_grant cfg' g = Inr cfg'' \<longrightarrow> wf_grants d (clean_path h) (cfg_workspace cfg''))"
proof -
  obtain r where r: "wd_eval_symlinks d path = Inr r" and ab: "is_abs path"
    using assms(3) by (rule register_Inr)
  note ok = register_grant_ok [OF assms(3,2) r]
  consider (same) "cfg' = cfg" "clean_path r \<in> set (cfg_workspace cfg)"
    | (new) "cfg' = cfg\<lparr>cfg_workspace := cfg_workspace cfg @ [clean_path r]\<rparr>"
        "list_all (\<lambda>g. apart (wd_cwd d) g (clean_path r)) (cfg_workspace cfg)"
    using register_workspace [OF assms(3) r] by argo
  then have "wf_grants d (clean_path h) (cfg_workspace cfg')
      \<and> cfg'\<lparr>cfg_workspace := cfg_workspace cfg\<rparr> = cfg \<and> clean_path r \<in> set (cfg_workspace cfg')"
  proof cases
    case same
    with assms(1) show ?thesis by (simp add: workspace_update_id)
  next
    case new
    with wf_grants_snoc [OF assms(1) ok new(2)] show ?thesis by (simp add: workspace_update_id)
  qed
  then have c: "wf_grants d (clean_path h) (cfg_workspace cfg')"
      "cfg'\<lparr>cfg_workspace := cfg_workspace cfg\<rparr> = cfg" "clean_path r \<in> set (cfg_workspace cfg')"
    by simp_all
  have "registered cfg' path d = Some (clean_path r)" using ab r c(3) by (simp add: registered_def)
  moreover have "wf_grants d (clean_path h) (cfg_workspace cfg'')" if "remove_grant cfg' g = Inr cfg''" for g cfg''
    using that wf_grants_remove1 [OF c(1)] by (auto simp: remove_grant_def split: if_splits)
  ultimately show ?thesis using c ok register_again [OF assms(3)] by metis
qed

theorem register_keeps_grants_sound_witness:
  "\<exists>cfg'. register sample_ws_cfg ''/home/u/work/../notes'' sample_ws_deps = Inr cfg'
     \<and> cfg_workspace cfg' = [''/home/u/papers'', ''/home/u/notes'']
     \<and> wf_grants sample_ws_deps ''/home/u'' (cfg_workspace cfg')"
proof -
  have w: "wf_grants sample_ws_deps (clean_path ''/home/u'') (cfg_workspace sample_ws_cfg)" by code_simp
  have h: "wd_home sample_ws_deps = Inr ''/home/u''" by (simp add: sample_ws_deps_def)
  have r: "register sample_ws_cfg ''/home/u/work/../notes'' sample_ws_deps =
    Inr (sample_ws_cfg\<lparr>cfg_workspace := [''/home/u/papers'', ''/home/u/notes'']\<rparr>)" by code_simp
  have c: "clean_path ''/home/u'' = ''/home/u''" by code_simp
  from register_keeps_grants_sound [OF w h r] r c show ?thesis by simp
qed

text \<open>what a registered grant confines. With sound grants on absolute paths, a file inside one grant
  is inside the home directory, inside no other grant, and inside none of the places a task must not
  reach: villa's configuration and data roots, the executable directories of the home, the systemd and
  autostart directories, \<open>.ssh\<close> and \<open>.gnupg\<close>.\<close>

theorem grant_confines:
  assumes "wf_grants d home gs" "g \<in> set gs" "inside (wd_cwd d) f g = Inr ()"
    and "is_abs f" "is_abs g" "is_abs home"
  shows "inside (wd_cwd d) f home = Inr ()
    \<and> (\<forall>r \<in> set (forbidden_roots d home). is_abs r \<longrightarrow> inside (wd_cwd d) f r \<noteq> Inr ())
    \<and> (\<forall>g' \<in> set gs. g' \<noteq> g \<and> is_abs g' \<longrightarrow> inside (wd_cwd d) f g' \<noteq> Inr ())"
proof (intro conjI ballI impI notI)
  have ok: "grant_ok d home g" using assms(1,2) by (simp add: wf_grants_def list_all_iff)
  then have "inside (wd_cwd d) g home = Inr ()" by (simp add: grant_ok_def)
  then show "inside (wd_cwd d) f home = Inr ()"
    using assms(3-6) by (auto simp: inside_abs split: if_splits intro: prefix_order.trans)
  fix r assume "r \<in> set (forbidden_roots d home)" "is_abs r" "inside (wd_cwd d) f r = Inr ()"
  then show False
    using ok shared_file_overlap [OF assms(4,5) _ assms(3)] by (auto simp: grant_ok_def list_all_iff)
next
  fix g' assume g': "g' \<in> set gs" "g' \<noteq> g \<and> is_abs g'" "inside (wd_cwd d) f g' = Inr ()"
  then have o: "overlaps (wd_cwd d) g g'" "overlaps (wd_cwd d) g' g"
    using shared_file_overlap assms(3-5) by blast+
  have "sorted_wrt (apart (wd_cwd d)) gs" using assms(1) by (simp add: wf_grants_def)
  with assms(2) g'(1,2) have "apart (wd_cwd d) g g' \<or> apart (wd_cwd d) g' g"
    by (auto simp: in_set_conv_nth sorted_wrt_iff_nth_less) (metis linorder_neqE_nat)
  with o show False by (auto simp: apart_def)
qed

theorem grant_confines_witness:
  "inside None ''/home/u/papers/draft.txt'' ''/home/u/.ssh'' \<noteq> Inr ()"
proof -
  have w: "wf_grants sample_ws_deps ''/home/u'' [''/home/u/papers'']" by code_simp
  have m: "''/home/u/papers'' \<in> set [''/home/u/papers'']" by simp
  have i: "inside (wd_cwd sample_ws_deps) ''/home/u/papers/draft.txt'' ''/home/u/papers'' = Inr ()" by code_simp
  have a: "is_abs ''/home/u/papers/draft.txt''" "is_abs ''/home/u/papers''" "is_abs ''/home/u''"
    "is_abs ''/home/u/.ssh''" "''/home/u/.ssh'' \<in> set (forbidden_roots sample_ws_deps ''/home/u'')"
    by code_simp+
  from grant_confines [OF w m i a(1-3)] a(4,5) show ?thesis by (simp add: sample_ws_deps_def)
qed

end
