(* ===== verification/Pins.thy ===== *)
theory Pins
  imports Subsystem "HOL-Library.AList"
begin

text \<open>
  \<open>internal/pins\<close>, \<open>internal/pinstate\<close> and \<open>internal/pinresolve\<close>: the compiled-in table of
  pinned components with its vetted pins, the document that records what this host runs, and the rule
  that joins them. A Go map is an association list read with \<open>map_of\<close>. The JSON codec of the store
  is a parameter, as everywhere.
\<close>

subsection \<open>The compiled-in table\<close>

datatype shape = RollingDigest | VersionTag | ChecksummedAsset

fun shape_string :: "shape \<Rightarrow> string" where
  "shape_string RollingDigest = ''rolling_digest''"
| "shape_string VersionTag = ''version_tag''"
| "shape_string ChecksummedAsset = ''checksummed_asset''"

record pin =
  pin_ref :: string
  pin_checksum :: string

definition image_pin :: "string \<Rightarrow> pin" where
  "image_pin r = \<lparr>pin_ref = r, pin_checksum = []\<rparr>"

record floor =
  fl_kernel :: string
  fl_kernel_tested :: string
  fl_firmware :: string
  fl_firmware_deny :: string

text \<open>\<open>preflight.Floors\<close> on the embedded \<open>rocm-policy.json\<close>.\<close>

definition policy_floors :: floor where
  "policy_floors = \<lparr>fl_kernel = ''6.18.4'', fl_kernel_tested = ''6.18.9'',
     fl_firmware = ''20260110'', fl_firmware_deny = ''20251125''\<rparr>"

record pin_entry =
  en_component :: string
  en_subsystem :: kind
  en_unit :: string
  en_shape :: shape
  en_registry :: string
  en_version :: string
  en_floors :: "floor option"
  en_vetted :: pin

definition vetted_serial :: u64 where "vetted_serial = 2"

abbreviation docker_io :: string where "docker_io \<equiv> ''docker.io''"
abbreviation ghcr_io :: string where "ghcr_io \<equiv> ''ghcr.io''"

definition plain_entry :: "string \<Rightarrow> kind \<Rightarrow> shape \<Rightarrow> string \<Rightarrow> string \<Rightarrow> string \<Rightarrow> pin_entry" where
  "plain_entry c k s reg ver ref =
     \<lparr>en_component = c, en_subsystem = k, en_unit = [], en_shape = s, en_registry = reg,
      en_version = ver, en_floors = None, en_vetted = image_pin ref\<rparr>"

definition rocm_entry :: "string \<Rightarrow> shape \<Rightarrow> string \<Rightarrow> string \<Rightarrow> pin_entry" where
  "rocm_entry c s ver ref =
     (plain_entry c Inference s docker_io ver ref)\<lparr>en_floors := Some policy_floors\<rparr>"

definition pin_table :: "pin_entry list" where
  "pin_table =
    [rocm_entry ''backend-rocm-7.2.4'' VersionTag ''7.2.4''
       ''docker.io/kyuz0/amd-strix-halo-toolboxes:rocm-7.2.4@sha256:2da150c1f0252f383b0b400f6cfa6630d3d34cf7c57132fe8445393b40531a89'',
     rocm_entry ''backend-rocm-10.0'' RollingDigest []
       ''docker.io/kyuz0/amd-strix-halo-toolboxes:rocm-10.0@sha256:3893b3e5474b7aaf0c4fab5632527f5fb4eef5c4a9f7e8eed8045fd20fc79bb1'',
     rocm_entry ''backend-rocm-6.4.4'' VersionTag ''6.4.4''
       ''docker.io/kyuz0/amd-strix-halo-toolboxes:rocm-6.4.4@sha256:1c655ca0443655f2e7603d054770b07cd8c79267145728b3261295f005053947'',
     rocm_entry ''backend-rocm-6.4.4-rocwmma'' VersionTag ''6.4.4-rocwmma''
       ''docker.io/kyuz0/amd-strix-halo-toolboxes:rocm-6.4.4-rocwmma@sha256:9a97129af2c1a2f0080f234787f6978551a43e354f3eb26a8ebc868f643c0141'',
     plain_entry ''backend-vulkan-radv'' Inference RollingDigest docker_io []
       ''docker.io/kyuz0/amd-strix-halo-toolboxes:vulkan-radv@sha256:521fd5994e73d40d9af168a81f560ebb13590c060ee0ea62262388ef3ecfc5ab'',
     plain_entry ''open-webui'' Chat RollingDigest ghcr_io []
       ''ghcr.io/open-webui/open-webui:main@sha256:1a6399d237dc392a2313e0ca826020b3fd5d22536357840eb63393d18dc8b924'',
     plain_entry ''qdrant'' Memory VersionTag docker_io ''1.18.2''
       ''docker.io/qdrant/qdrant:v1.18.2-unprivileged@sha256:b79aaa49ce7a7e5b7e9cf3fe76be400c911457084b4b7af47487c1c9ae5962e5'',
     plain_entry ''embedder'' Memory RollingDigest docker_io []
       ''docker.io/kyuz0/amd-strix-halo-toolboxes:vulkan-radv@sha256:521fd5994e73d40d9af168a81f560ebb13590c060ee0ea62262388ef3ecfc5ab'',
     (plain_entry ''extractor'' Memory VersionTag docker_io ''3.3.1.0''
       ''docker.io/apache/tika:3.3.1.0-full@sha256:d8e6ed96260ad89307a93195a1b856102987a818ac648502f8efbaf313d32470'')
       \<lparr>en_unit := ''villa-extract.container''\<rparr>,
     plain_entry ''searxng'' WebSearch RollingDigest ghcr_io []
       ''ghcr.io/searxng/searxng@sha256:bf271ec8e347ceb21e0d388c928c5ecb17b44adec5bfaaa42a6518214ba3644b'',
     plain_entry ''websafe-base'' WebSearch RollingDigest ''gcr.io'' []
       ''gcr.io/distroless/static-debian12@sha256:d75cdd72874d4790092fcb1b058493ecf6bb5bf2b2b897045b00ff01d91843f2'',
     (plain_entry ''crush'' Agent ChecksummedAsset ''github.com'' ''v0.93.1'' ''v0.93.1'')
       \<lparr>en_vetted := \<lparr>pin_ref = ''v0.93.1'',
          pin_checksum = ''3086719c3e4ff592b567c22691157457158b87245469009e530447481c975102''\<rparr>\<rparr>,
     plain_entry ''sandbox-image'' Sandbox RollingDigest ''localhost'' []
       ''localhost/villa-sandbox:office@sha256:8d58b22aebd6efcb212335d0c612a3e882069f8c85d41d589a8056bacd21e937'',
     plain_entry ''whisper'' Voice RollingDigest ghcr_io []
       ''ghcr.io/ggml-org/whisper.cpp:main-vulkan@sha256:8bbf6a98c256b67fed7664fc379755d724560bcab7714906f449b97b7bc88955'',
     plain_entry ''kokoro'' Voice VersionTag ghcr_io ''0.9.0''
       ''ghcr.io/remsky/kokoro-fastapi-cpu:v0.9.0@sha256:7f9a256919eff7a84e9a77b757de0f3fe95c48fcf4fbe1e008deacbc7d9f2985'',
     plain_entry ''image-server'' Image RollingDigest ghcr_io []
       ''ghcr.io/leejet/stable-diffusion.cpp:master-vulkan@sha256:367ccc4e2b09e3c9948cb3b93bd530466547416722171409f968241c50659181'']"

definition pin_lookup :: "string \<Rightarrow> pin_entry option" where
  "pin_lookup i = find (\<lambda>e. en_component e = i) pin_table"

definition rendered_by :: "villa_config \<Rightarrow> pin_entry \<Rightarrow> bool" where
  "rendered_by cfg e = (if en_unit e = [] then True else en_unit e \<in> set (fst (kind_units (en_subsystem e) cfg)))"

definition pins_for :: "kind \<Rightarrow> villa_config \<Rightarrow> pin_entry list" where
  "pins_for k cfg = filter (\<lambda>e. en_subsystem e = k \<and> rendered_by cfg e) pin_table"

definition registry_allowed :: "string \<Rightarrow> bool" where
  "registry_allowed host = list_ex (\<lambda>e. en_registry e = host) pin_table"

subsection \<open>The host's record\<close>

record data_snapshot =
  ds_volume :: string
  ds_path :: string
  ds_bytes :: int
  ds_taken_at :: string

definition zero_snapshot :: data_snapshot where
  "zero_snapshot = \<lparr>ds_volume = [], ds_path = [], ds_bytes = 0, ds_taken_at = []\<rparr>"

definition taken :: "data_snapshot \<Rightarrow> bool" where
  "taken d \<longleftrightarrow> ds_path d \<noteq> []"

type_synonym pin_refs = "(string \<times> string) list"

record previous =
  pv_refs :: pin_refs
  pv_units :: "(string \<times> string) list"
  pv_config :: string
  pv_data :: data_snapshot
  pv_captured_at :: string

record effective =
  ef_ref :: string
  ef_checksum :: string
  ef_updated_at :: string

record pin_state =
  ps_schema_version :: int
  ps_pins :: "(string \<times> effective) list"
  ps_previous :: "(string \<times> previous) list"
  ps_serial :: u64
  ps_checked_at :: string

definition zero_state :: pin_state where
  "zero_state = \<lparr>ps_schema_version = 0, ps_pins = [], ps_previous = [], ps_serial = 0, ps_checked_at = []\<rparr>"

definition pin_state_schema :: int where "pin_state_schema = 1"

text \<open>\<open>jsonstore\<close>'s save and load of this document. A seam may be absent; an absent store is read as
  no bytes.\<close>

datatype store_error = NilSeam | StoreRead string | StoreWrite string

definition save_state ::
  "(pin_state \<Rightarrow> 'doc) \<Rightarrow> ('doc \<Rightarrow> store_error + unit) option \<Rightarrow> pin_state \<Rightarrow> store_error + unit" where
  "save_state enc write_all s =
     (case write_all of
        None \<Rightarrow> Inl NilSeam
      | Some w \<Rightarrow> w (enc (s\<lparr>ps_schema_version := pin_state_schema\<rparr>)))"

definition load_state ::
  "('doc \<Rightarrow> pin_state option) \<Rightarrow> (store_error + 'doc option) option \<Rightarrow> store_error + pin_state" where
  "load_state dec read_all =
     (case read_all of
        None \<Rightarrow> Inl NilSeam
      | Some (Inl e) \<Rightarrow> Inl e
      | Some (Inr None) \<Rightarrow> Inr zero_state
      | Some (Inr (Some data)) \<Rightarrow>
          (case dec data of
             None \<Rightarrow> Inr zero_state
           | Some v \<Rightarrow> if ps_schema_version v \<noteq> pin_state_schema then Inr zero_state else Inr v))"

definition effective_for :: "pin_state \<Rightarrow> string \<Rightarrow> effective option" where
  "effective_for s i = map_of (ps_pins s) i"

definition previous_for :: "pin_state \<Rightarrow> kind \<Rightarrow> previous option" where
  "previous_for s k = map_of (ps_previous s) (kind_string k)"

definition serial_floor :: "pin_state \<Rightarrow> u64" where
  "serial_floor s = (if ps_serial s > vetted_serial then ps_serial s else vetted_serial)"

text \<open>Every reference the record holds, blank ones left out.\<close>

definition state_refs :: "pin_state \<Rightarrow> string set" where
  "state_refs s = {r. r \<noteq> [] \<and> ((\<exists>i e. map_of (ps_pins s) i = Some e \<and> ef_ref e = r)
     \<or> (\<exists>k p i. map_of (ps_previous s) k = Some p \<and> map_of (pv_refs p) i = Some r))}"

text \<open>The entries of a Go map, one per key.\<close>

definition map_entries :: "('a \<times> 'b) list \<Rightarrow> ('a \<times> 'b) list" where
  "map_entries m = AList.clearjunk m"

definition referenced_refs ::
  "('doc \<Rightarrow> pin_state option) \<Rightarrow> (store_error + 'doc option) option \<Rightarrow> store_error + (string list \<times> bool)" where
  "referenced_refs dec read_all =
     result_bind (load_state dec read_all) (\<lambda>s.
       let refs = filter (\<lambda>r. r \<noteq> []) (map (ef_ref \<circ> snd) (map_entries (ps_pins s)))
                @ filter (\<lambda>r. r \<noteq> []) (concat (map (\<lambda>p. map snd (map_entries (pv_refs (snd p))))
                    (map_entries (ps_previous s))))
       in Inr (refs, refs \<noteq> []))"

subsection \<open>The resolver\<close>

record resolved =
  rs_component :: string
  rs_subsystem :: kind
  rs_shape :: shape
  rs_current :: pin
  rs_vetted :: pin
  rs_from_store :: bool

definition diverged :: "resolved \<Rightarrow> bool" where
  "diverged r \<longleftrightarrow> pin_ref (rs_current r) \<noteq> pin_ref (rs_vetted r)"

definition resolve_entry :: "pin_state \<Rightarrow> pin_entry \<Rightarrow> resolved" where
  "resolve_entry s e =
     (let out = \<lparr>rs_component = en_component e, rs_subsystem = en_subsystem e, rs_shape = en_shape e,
                 rs_current = en_vetted e, rs_vetted = en_vetted e, rs_from_store = False\<rparr>
      in case effective_for s (en_component e) of
           None \<Rightarrow> out
         | Some eff \<Rightarrow>
             if ef_ref eff \<noteq> []
             then out\<lparr>rs_current := \<lparr>pin_ref = ef_ref eff, pin_checksum = ef_checksum eff\<rparr>, rs_from_store := True\<rparr>
             else out)"

definition resolve :: "pin_entry list \<Rightarrow> pin_state \<Rightarrow> string \<Rightarrow> resolved option" where
  "resolve table s i = map_option (resolve_entry s) (find (\<lambda>e. en_component e = i) table)"

definition resolve_all :: "pin_entry list \<Rightarrow> pin_state \<Rightarrow> resolved list" where
  "resolve_all table s = map (resolve_entry s) table"

definition resolve_for :: "pin_entry list \<Rightarrow> pin_state \<Rightarrow> kind \<Rightarrow> villa_config \<Rightarrow> resolved list" where
  "resolve_for table s k cfg =
     map (resolve_entry s) (filter (\<lambda>e. en_subsystem e = k \<and> rendered_by cfg e) table)"

definition resolve_diverged :: "pin_entry list \<Rightarrow> pin_state \<Rightarrow> resolved list" where
  "resolve_diverged table s = filter diverged (resolve_all table s)"

subsection \<open>Facts\<close>

lemma map_entries_iff [simp]: "(k, v) \<in> set (map_entries m) \<longleftrightarrow> map_of m k = Some v"
proof
  assume "(k, v) \<in> set (map_entries m)"
  with distinct_clearjunk [of m] have "map_of (map_entries m) k = Some v"
    by (simp add: map_entries_def)
  then show "map_of m k = Some v" by (simp add: map_entries_def map_of_clearjunk)
next
  assume "map_of m k = Some v"
  then have "map_of (map_entries m) k = Some v" by (simp add: map_entries_def map_of_clearjunk)
  then show "(k, v) \<in> set (map_entries m)" by (rule map_of_SomeD)
qed

lemma map_entries_values: "v \<in> snd ` set (map_entries m) \<longleftrightarrow> (\<exists>k. map_of m k = Some v)"
proof
  assume "v \<in> snd ` set (map_entries m)"
  then obtain k where "(k, v) \<in> set (map_entries m)" by auto
  then show "\<exists>k. map_of m k = Some v" by auto
next
  assume "\<exists>k. map_of m k = Some v"
  then obtain k where "(k, v) \<in> set (map_entries m)" by auto
  then show "v \<in> snd ` set (map_entries m)" by (metis image_eqI snd_conv)
qed

lemma referenced_refs_spec:
  assumes "referenced_refs dec read_all = Inr (rs, known)"
  obtains s where "load_state dec read_all = Inr s" "set rs = state_refs s" "known \<longleftrightarrow> state_refs s \<noteq> {}"
proof -
  from assms obtain s where s: "load_state dec read_all = Inr s"
    and rs: "rs = filter (\<lambda>r. r \<noteq> []) (map (ef_ref \<circ> snd) (map_entries (ps_pins s)))
                @ filter (\<lambda>r. r \<noteq> []) (concat (map (\<lambda>p. map snd (map_entries (pv_refs (snd p))))
                    (map_entries (ps_previous s))))"
    and k: "known = (rs \<noteq> [])"
    by (auto simp: referenced_refs_def Let_def)
  have p: "r \<in> ef_ref ` snd ` set (map_entries (ps_pins s)) \<longleftrightarrow>
      (\<exists>i e. map_of (ps_pins s) i = Some e \<and> ef_ref e = r)" for r
  proof -
    have "r \<in> ef_ref ` snd ` set (map_entries (ps_pins s)) \<longleftrightarrow>
        (\<exists>e. e \<in> snd ` set (map_entries (ps_pins s)) \<and> ef_ref e = r)" by blast
    then show ?thesis unfolding map_entries_values by blast
  qed
  have q: "(\<exists>x \<in> set (map_entries (ps_previous s)). r \<in> snd ` set (map_entries (pv_refs (snd x)))) \<longleftrightarrow>
      (\<exists>k p i. map_of (ps_previous s) k = Some p \<and> map_of (pv_refs p) i = Some r)" for r
    unfolding map_entries_values by (auto simp: Bex_def)
  have "r \<in> set rs \<longleftrightarrow> r \<in> state_refs s" for r
    using p [of r] q [of r] unfolding rs state_refs_def
    by (simp add: image_comp Bex_def) blast
  then have "set rs = state_refs s" by blast
  then show ?thesis using that s k by fastforce
qed

lemma serial_floor_bounds:
  "ps_serial s \<le> serial_floor s" "vetted_serial \<le> serial_floor s"
  by (auto simp: serial_floor_def)

lemma resolve_entry_current:
  "rs_current (resolve_entry s e) =
     (case effective_for s (en_component e) of
        Some eff \<Rightarrow> if ef_ref eff \<noteq> [] then \<lparr>pin_ref = ef_ref eff, pin_checksum = ef_checksum eff\<rparr> else en_vetted e
      | None \<Rightarrow> en_vetted e)"
  "rs_vetted (resolve_entry s e) = en_vetted e"
  "rs_component (resolve_entry s e) = en_component e"
  by (simp_all add: resolve_entry_def Let_def split: option.splits)

lemmas entry_defs = rocm_entry_def plain_entry_def image_pin_def

lemma table_components:
  "map en_component pin_table =
     [''backend-rocm-7.2.4'', ''backend-rocm-10.0'', ''backend-rocm-6.4.4'', ''backend-rocm-6.4.4-rocwmma'',
      ''backend-vulkan-radv'', ''open-webui'', ''qdrant'', ''embedder'', ''extractor'', ''searxng'',
      ''websafe-base'', ''crush'', ''sandbox-image'', ''whisper'', ''kokoro'', ''image-server'']"
  by (simp add: pin_table_def entry_defs)

lemma table_distinct: "distinct (map en_component pin_table)"
  by (simp add: table_components)

lemma pin_lookup_Some: "pin_lookup i = Some e \<Longrightarrow> e \<in> set pin_table \<and> en_component e = i"
  unfolding pin_lookup_def by (drule find_Some_iff_nth) simp

lemma pin_lookup_table: "e \<in> set pin_table \<Longrightarrow> pin_lookup (en_component e) = Some e"
proof -
  assume e: "e \<in> set pin_table"
  then have "pin_lookup (en_component e) \<noteq> None" by (auto simp: pin_lookup_def find_None_all)
  then obtain f where f: "pin_lookup (en_component e) = Some f" by blast
  with pin_lookup_Some have "f \<in> set pin_table" "en_component f = en_component e" by blast+
  with e table_distinct have "f = e" by (auto simp: distinct_map dest: inj_onD)
  with f show ?thesis by simp
qed

end
