(* ===== verification/Prune.thy ===== *)
theory Prune
  imports Pins
begin

text \<open>
  \<open>internal/prune\<close> and \<open>internal/snapshotprune\<close>: which superseded images and which displaced data
  snapshots an update may delete. Both decide on the whole host record. A reason is kept as data,
  without its wording.
\<close>

datatype prune_reason =
    StillReferenced "string list"
  | Unreferenced
  | VanishedPrevious kind
  | RollbackTarget string
  | Displaced
  | VanishedSnapshot string

datatype prune_action = Remove | Retain | MissingPrevious

record image_decision =
  id_ref :: string
  id_action :: prune_action
  id_reason :: prune_reason

record image_plan =
  ip_decisions :: "image_decision list"
  ip_blocked :: bool

record prune_input =
  pi_state :: pin_state
  pi_state_known :: bool
  pi_superseded :: pin_refs
  pi_subsystem :: kind
  pi_present :: "(string \<Rightarrow> bool) option"

definition removable :: "image_plan \<Rightarrow> string list" where
  "removable p = map id_ref (filter (\<lambda>d. id_action d = Remove) (ip_decisions p))"

definition pin_holders :: "pin_state \<Rightarrow> string \<Rightarrow> string list" where
  "pin_holders s r =
     map (\<lambda>(i, e). ''the current pin for '' @ i) (filter (\<lambda>(i, e). ef_ref e \<noteq> [] \<and> ef_ref e = r) (map_entries (ps_pins s)))"

definition tuple_holders :: "string \<Rightarrow> previous \<Rightarrow> string \<Rightarrow> string list" where
  "tuple_holders sub prev r =
     map (\<lambda>(i, x). ''the retained previous for '' @ sub @ '' ('' @ i @ '')'')
       (filter (\<lambda>(i, x). x \<noteq> [] \<and> x = r) (map_entries (pv_refs prev)))"

definition previous_holders :: "pin_state \<Rightarrow> string \<Rightarrow> string list" where
  "previous_holders s r = concat (map (\<lambda>(sub, prev). tuple_holders sub prev r) (map_entries (ps_previous s)))"

text \<open>\<open>referenceSet\<close> read at one reference: its holders, sorted.\<close>

definition reference_set :: "pin_state \<Rightarrow> string \<Rightarrow> string list" where
  "reference_set s r = sort_strings (pin_holders s r @ previous_holders s r)"

definition missing_previous :: "prune_input \<Rightarrow> image_decision list" where
  "missing_previous inp =
     (case pi_present inp of
        None \<Rightarrow> []
      | Some present \<Rightarrow>
          (case previous_for (pi_state inp) (pi_subsystem inp) of
             None \<Rightarrow> []
           | Some prev \<Rightarrow>
               map (\<lambda>r. \<lparr>id_ref = r, id_action = MissingPrevious, id_reason = VanishedPrevious (pi_subsystem inp)\<rparr>)
                 (filter (\<lambda>r. \<not> present r)
                   (sort_strings (filter (\<lambda>r. r \<noteq> []) (map snd (map_entries (pv_refs prev))))))))"

definition image_verdict :: "pin_state \<Rightarrow> string \<Rightarrow> image_decision" where
  "image_verdict s r =
     (let holders = reference_set s r
      in if holders \<noteq> []
         then \<lparr>id_ref = r, id_action = Retain, id_reason = StillReferenced holders\<rparr>
         else \<lparr>id_ref = r, id_action = Remove, id_reason = Unreferenced\<rparr>)"

definition superseded_refs :: "prune_input \<Rightarrow> string list" where
  "superseded_refs inp = sort_strings (remdups (filter (\<lambda>r. r \<noteq> []) (map snd (map_entries (pi_superseded inp)))))"

definition decide_images :: "prune_input \<Rightarrow> image_plan" where
  "decide_images inp =
     (if \<not> pi_state_known inp then \<lparr>ip_decisions = [], ip_blocked = True\<rparr>
      else \<lparr>ip_decisions = map (image_verdict (pi_state inp)) (superseded_refs inp) @ missing_previous inp,
            ip_blocked = False\<rparr>)"

subsection \<open>Snapshots\<close>

record snapshot_decision =
  sd_subsystem :: kind
  sd_path :: string
  sd_bytes :: int
  sd_action :: prune_action
  sd_reason :: prune_reason

record snapshot_plan =
  sp_decisions :: "snapshot_decision list"
  sp_blocked :: bool

record snapshot_input =
  si_state :: pin_state
  si_state_known :: bool
  si_superseded :: data_snapshot
  si_subsystem :: kind
  si_present :: "(string \<Rightarrow> bool) option"

definition removable_snapshots :: "snapshot_plan \<Rightarrow> string list" where
  "removable_snapshots p = map sd_path (filter (\<lambda>d. sd_action d = Remove) (sp_decisions p))"

text \<open>The subsystems whose retained tuple points at a path; the source keeps one of them for its
  report, whichever the map iteration ends with.\<close>

definition live_targets :: "pin_state \<Rightarrow> string \<Rightarrow> string list" where
  "live_targets s path =
     map fst (filter (\<lambda>(sub, prev). taken (pv_data prev) \<and> ds_path (pv_data prev) = path) (map_entries (ps_previous s)))"

definition subsystem_by_name :: "string \<Rightarrow> kind" where
  "subsystem_by_name n = (case find (\<lambda>k. kind_string k = n) every_kind of Some k \<Rightarrow> k | None \<Rightarrow> Memory)"

definition missing_snapshots :: "snapshot_input \<Rightarrow> snapshot_decision list" where
  "missing_snapshots inp =
     (case si_present inp of
        None \<Rightarrow> []
      | Some present \<Rightarrow>
          concat (map (\<lambda>sub. case map_of (ps_previous (si_state inp)) sub of
              None \<Rightarrow> []
            | Some prev \<Rightarrow>
                if \<not> taken (pv_data prev) \<or> present (ds_path (pv_data prev)) then []
                else [\<lparr>sd_subsystem = subsystem_by_name sub, sd_path = ds_path (pv_data prev),
                       sd_bytes = ds_bytes (pv_data prev), sd_action = MissingPrevious,
                       sd_reason = VanishedSnapshot sub\<rparr>])
            (sort_strings (map fst (map_entries (ps_previous (si_state inp)))))))"

definition decide_snapshots :: "snapshot_input \<Rightarrow> snapshot_plan" where
  "decide_snapshots inp =
     (if \<not> si_state_known inp then \<lparr>sp_decisions = [], sp_blocked = True\<rparr>
      else
        \<lparr>sp_decisions =
           (if taken (si_superseded inp)
            then (let base = \<lparr>sd_subsystem = si_subsystem inp, sd_path = ds_path (si_superseded inp),
                              sd_bytes = ds_bytes (si_superseded inp), sd_action = Remove, sd_reason = Displaced\<rparr>
                  in case live_targets (si_state inp) (ds_path (si_superseded inp)) of
                       sub # _ \<Rightarrow> [base\<lparr>sd_action := Retain, sd_reason := RollbackTarget sub\<rparr>]
                     | [] \<Rightarrow> [base])
            else [])
           @ missing_snapshots inp,
         sp_blocked = False\<rparr>)"

subsection \<open>Facts\<close>

lemma pin_holders_Nil:
  "pin_holders s r = [] \<longleftrightarrow> (\<forall>i e. map_of (ps_pins s) i = Some e \<longrightarrow> ef_ref e = [] \<or> ef_ref e \<noteq> r)"
proof -
  have "pin_holders s r = [] \<longleftrightarrow> (\<forall>(i, e) \<in> set (map_entries (ps_pins s)). ef_ref e = [] \<or> ef_ref e \<noteq> r)"
    by (auto simp: pin_holders_def filter_empty_conv)
  then show ?thesis by (simp add: split_beta Ball_def)
qed

lemma tuple_holders_Nil:
  "tuple_holders sub p r = [] \<longleftrightarrow> (\<forall>i x. map_of (pv_refs p) i = Some x \<longrightarrow> x = [] \<or> x \<noteq> r)"
proof -
  have "tuple_holders sub p r = [] \<longleftrightarrow> (\<forall>(i, x) \<in> set (map_entries (pv_refs p)). x = [] \<or> x \<noteq> r)"
    by (auto simp: tuple_holders_def filter_empty_conv)
  then show ?thesis by (simp add: split_beta Ball_def)
qed

lemma previous_holders_Nil:
  "previous_holders s r = [] \<longleftrightarrow>
     (\<forall>k p. map_of (ps_previous s) k = Some p \<longrightarrow> (\<forall>i x. map_of (pv_refs p) i = Some x \<longrightarrow> x = [] \<or> x \<noteq> r))"
proof -
  have "previous_holders s r = [] \<longleftrightarrow> (\<forall>(k, p) \<in> set (map_entries (ps_previous s)). tuple_holders k p r = [])"
    unfolding previous_holders_def concat_eq_Nil_conv by auto
  then show ?thesis by (simp add: split_beta Ball_def tuple_holders_Nil)
qed

lemma sort_strings_Nil [simp]: "sort_strings xs = [] \<longleftrightarrow> xs = []"
  using set_sort_strings [of xs] by (metis set_empty)

lemma reference_set_Nil: "reference_set s r = [] \<longleftrightarrow> r = [] \<or> r \<notin> state_refs s"
  unfolding reference_set_def sort_strings_Nil append_is_Nil_conv pin_holders_Nil previous_holders_Nil state_refs_def
  by blast

lemma missing_previous_action: "d \<in> set (missing_previous inp) \<Longrightarrow> id_action d = MissingPrevious"
  by (auto simp: missing_previous_def split: option.splits)

lemma filter_missing_previous: "filter (\<lambda>d. id_action d = Remove) (missing_previous inp) = []"
  using missing_previous_action by (fastforce simp: filter_empty_conv)

lemma removable_verdicts:
  "map id_ref (filter (\<lambda>d. id_action d = Remove) (map (image_verdict s) refs)) =
     filter (\<lambda>r. reference_set s r = []) refs"
  by (induction refs) (simp_all add: image_verdict_def Let_def)

lemma superseded_refs_iff:
  "r \<in> set (superseded_refs inp) \<longleftrightarrow> r \<noteq> [] \<and> (\<exists>i. map_of (pi_superseded inp) i = Some r)"
  by (auto simp: superseded_refs_def map_entries_values)

lemma removable_iff:
  "r \<in> set (removable (decide_images inp)) \<longleftrightarrow>
     pi_state_known inp \<and> r \<noteq> [] \<and> (\<exists>i. map_of (pi_superseded inp) i = Some r) \<and> r \<notin> state_refs (pi_state inp)"
proof (cases "pi_state_known inp")
  case False
  then show ?thesis by (simp add: removable_def decide_images_def)
next
  case True
  then have "removable (decide_images inp) =
      filter (\<lambda>r. reference_set (pi_state inp) r = []) (superseded_refs inp)"
    by (simp add: removable_def decide_images_def filter_missing_previous removable_verdicts)
  with True show ?thesis by (auto simp: superseded_refs_iff reference_set_Nil)
qed

definition snapshot_paths :: "pin_state \<Rightarrow> string set" where
  "snapshot_paths s = ds_path ` {d. taken d \<and> d \<in> pv_data ` snd ` set (map_entries (ps_previous s))}"

lemma live_targets_Nil: "live_targets s path = [] \<longleftrightarrow> path \<notin> snapshot_paths s"
proof -
  have "live_targets s path = [] \<longleftrightarrow>
      (\<forall>x \<in> set (map_entries (ps_previous s)). \<not> (taken (pv_data (snd x)) \<and> ds_path (pv_data (snd x)) = path))"
    by (simp add: live_targets_def filter_empty_conv split_beta)
  then show ?thesis unfolding snapshot_paths_def by blast
qed

lemma missing_snapshots_action: "d \<in> set (missing_snapshots inp) \<Longrightarrow> sd_action d = MissingPrevious"
  by (auto simp: missing_snapshots_def split: option.splits if_splits)

lemma filter_missing_snapshots: "filter (\<lambda>d. sd_action d = Remove) (missing_snapshots inp) = []"
  using missing_snapshots_action by (fastforce simp: filter_empty_conv)

lemma removable_snapshots_eq:
  "removable_snapshots (decide_snapshots inp) =
     (if si_state_known inp \<and> taken (si_superseded inp) \<and> live_targets (si_state inp) (ds_path (si_superseded inp)) = []
      then [ds_path (si_superseded inp)] else [])"
  by (auto simp: removable_snapshots_def decide_snapshots_def filter_missing_snapshots Let_def split: list.splits)

subsection \<open>Properties\<close>

definition sample_state :: pin_state where
  "sample_state = zero_state\<lparr>ps_schema_version := 1,
     ps_pins := [(''qdrant'', \<lparr>ef_ref = ''q2'', ef_checksum = [], ef_updated_at = []\<rparr>),
                 (''backend-vulkan-radv'', \<lparr>ef_ref = ''shared'', ef_checksum = [], ef_updated_at = []\<rparr>)],
     ps_previous := [(''memory'', \<lparr>pv_refs = [(''qdrant'', ''q1''), (''embedder'', ''e1'')], pv_units = [],
        pv_config = [], pv_data = \<lparr>ds_volume = ''villa-qdrant'', ds_path = ''/s/new.tar'', ds_bytes = 9,
        ds_taken_at = []\<rparr>, pv_captured_at = []\<rparr>)]\<rparr>"

definition sample_prune :: prune_input where
  "sample_prune = \<lparr>pi_state = sample_state, pi_state_known = True,
     pi_superseded = [(''qdrant'', ''q0''), (''embedder'', ''shared'')], pi_subsystem = Memory, pi_present = None\<rparr>"



text \<open>the data snapshot an update displaced is removed only when the record is readable and no
  retained tuple of any subsystem points at it; nothing else is ever removed.\<close>

theorem snapshot_prune_spares_targets:
  "set (removable_snapshots (decide_snapshots inp)) =
     (if si_state_known inp \<and> taken (si_superseded inp) then {ds_path (si_superseded inp)} - snapshot_paths (si_state inp)
      else {})"
  unfolding removable_snapshots_eq live_targets_Nil by auto

end
