(* ===== verification/Manifest.thy ===== *)
theory Manifest
  imports Pins
begin

text \<open>
  \<open>internal/manifest\<close>, \<open>internal/manifestverify\<close> and \<open>internal/updatecheck\<close>: a signed document may
  supply new values for the components the table already names; a check compares what this host
  runs with what an accepted document offers. Ed25519, the JSON decoder and the RFC 3339 clock are the
  standard library's and arrive as arguments. Messages are not modelled.
\<close>

subsection \<open>The document\<close>

record offer =
  of_id :: string
  of_registry :: string
  of_shape :: string
  of_version :: string
  of_ref :: string
  of_checksum :: string
  of_floors :: "floor option"

record document =
  dc_schema_version :: int
  dc_serial :: u64
  dc_valid_until :: string
  dc_villa_version :: string
  dc_villa_checksum :: string
  dc_components :: "offer list"

definition zero_document :: document where
  "zero_document = \<lparr>dc_schema_version = 0, dc_serial = 0, dc_valid_until = [], dc_villa_version = [],
     dc_villa_checksum = [], dc_components = []\<rparr>"

definition manifest_schema :: int where "manifest_schema = 1"

definition parse_manifest :: "(string \<Rightarrow> document option) \<Rightarrow> string \<Rightarrow> document option" where
  "parse_manifest decode data =
     (case decode data of
        None \<Rightarrow> None
      | Some doc \<Rightarrow> if dc_schema_version doc \<noteq> manifest_schema then None else Some doc)"

definition verify_signature :: "(string \<Rightarrow> string \<Rightarrow> string \<Rightarrow> bool) \<Rightarrow> string \<Rightarrow> string \<Rightarrow> string \<Rightarrow> bool" where
  "verify_signature ed key data sig = (if length key \<noteq> 32 then False else ed key data sig)"

datatype problem =
    NotInTable string
  | WrongRegistry string
  | WrongShape string
  | EmptyPin string
  | NoChecksum string
  | ForeignHost string
  | SerialZero
  | NoExpiry
  | BadExpiry string
  | NoComponents

definition ref_matches_registry :: "shape \<Rightarrow> string \<Rightarrow> string \<Rightarrow> bool" where
  "ref_matches_registry s ref registry =
     (if s = ChecksummedAsset then True
      else (case cut_char CHR ''/'' ref of (host, _, found) \<Rightarrow> if \<not> found then False else host = registry))"

definition offer_problems :: "offer \<Rightarrow> problem list" where
  "offer_problems c =
     (case pin_lookup (of_id c) of
        None \<Rightarrow> [NotInTable (of_id c)]
      | Some e \<Rightarrow>
          (if of_registry c \<noteq> en_registry e then [WrongRegistry (of_id c)] else [])
        @ (if of_shape c \<noteq> shape_string (en_shape e) then [WrongShape (of_id c)] else [])
        @ (if trim_space (of_ref c) = [] then [EmptyPin (of_id c)] else [])
        @ (if en_shape e = ChecksummedAsset \<and> trim_space (of_checksum c) = [] then [NoChecksum (of_id c)] else [])
        @ (if of_ref c \<noteq> [] \<and> \<not> ref_matches_registry (en_shape e) (of_ref c) (en_registry e)
           then [ForeignHost (of_id c)] else []))"

definition check_allowlist :: "(string \<Rightarrow> 't option) \<Rightarrow> document \<Rightarrow> problem list" where
  "check_allowlist parse_time doc =
     concat (map offer_problems (dc_components doc))
     @ (if dc_serial doc = 0 then [SerialZero] else [])
     @ (if dc_valid_until doc = [] then [NoExpiry]
        else case parse_time (dc_valid_until doc) of None \<Rightarrow> [BadExpiry (dc_valid_until doc)] | Some _ \<Rightarrow> [])
     @ (if dc_components doc = [] then [NoComponents] else [])"

definition table_offer :: "pin_entry \<Rightarrow> offer" where
  "table_offer e = \<lparr>of_id = en_component e, of_registry = en_registry e,
     of_shape = shape_string (en_shape e), of_version = en_version e, of_ref = pin_ref (en_vetted e),
     of_checksum = pin_checksum (en_vetted e), of_floors = en_floors e\<rparr>"

definition from_table :: "('t \<Rightarrow> string) \<Rightarrow> u64 \<Rightarrow> 't \<Rightarrow> document" where
  "from_table format_utc serial valid_until =
     zero_document\<lparr>dc_schema_version := manifest_schema, dc_serial := serial,
       dc_valid_until := format_utc valid_until, dc_components := map table_offer pin_table\<rparr>"

subsection \<open>Verification\<close>

datatype verify_outcome = Accepted | Absent | Refused

datatype verify_reason =
    ReasonNone | NotPublished | Expired | BadSignature | NoKey | Malformed | Downgrade | Allowlist

record 't verify_input =
  vi_data :: string
  vi_signature :: string
  vi_public_key :: string
  vi_serial_floor :: u64
  vi_now :: 't

record manifest_verdict =
  mv_outcome :: verify_outcome
  mv_reason :: verify_reason
  mv_doc :: document

definition verdict_of :: "verify_outcome \<Rightarrow> verify_reason \<Rightarrow> manifest_verdict" where
  "verdict_of out why = \<lparr>mv_outcome = out, mv_reason = why, mv_doc = zero_document\<rparr>"

text \<open>The standard library: the signature check, the strict decoder and the clock.\<close>

record 't std =
  sd_ed25519 :: "string \<Rightarrow> string \<Rightarrow> string \<Rightarrow> bool"
  sd_decode :: "string \<Rightarrow> document option"
  sd_parse_time :: "string \<Rightarrow> 't option"
  sd_after :: "'t \<Rightarrow> 't \<Rightarrow> bool"

definition is_expired :: "'t std \<Rightarrow> string \<Rightarrow> 't \<Rightarrow> bool option" where
  "is_expired std valid_until now =
     (if trim_space valid_until = [] then None
      else (case sd_parse_time std valid_until of
        None \<Rightarrow> None
      | Some expiry \<Rightarrow> Some (sd_after std now expiry)))"

definition verify_manifest :: "'t std \<Rightarrow> 't verify_input \<Rightarrow> manifest_verdict" where
  "verify_manifest std inp =
     (if vi_data inp = [] then verdict_of Absent NotPublished
      else if vi_public_key inp = [] then verdict_of Refused NoKey
      else if vi_signature inp = [] then verdict_of Refused BadSignature
      else if \<not> verify_signature (sd_ed25519 std) (vi_public_key inp) (vi_data inp) (vi_signature inp)
        then verdict_of Refused BadSignature
      else (case parse_manifest (sd_decode std) (vi_data inp) of
        None \<Rightarrow> verdict_of Refused Malformed
      | Some doc \<Rightarrow>
          if dc_serial doc < vi_serial_floor inp then verdict_of Refused Downgrade
          else (case is_expired std (dc_valid_until doc) (vi_now inp) of
            None \<Rightarrow> verdict_of Refused Malformed
          | Some True \<Rightarrow> verdict_of Absent Expired
          | Some False \<Rightarrow>
              if check_allowlist (sd_parse_time std) doc \<noteq> [] then verdict_of Refused Allowlist
              else \<lparr>mv_outcome = Accepted, mv_reason = ReasonNone, mv_doc = doc\<rparr>)))"

subsection \<open>The check\<close>

datatype change_kind = ChangeUnset | ChangeNone | ChangeRebuilt | ChangeNewVersion

datatype row_state = StateCurrent | StateUpdateAvailable | StateSkipped

record component_row =
  cr_name :: string
  cr_shape :: shape
  cr_vetted :: string
  cr_effective :: string
  cr_available :: string
  cr_change :: change_kind

record subsystem_row =
  sr_name :: string
  sr_state :: row_state
  sr_skip_reason :: string
  sr_components :: "component_row list"

record summary =
  sm_updatable :: nat
  sm_current :: nat
  sm_skipped :: nat

record villa_release =
  vr_current :: string
  vr_available :: string
  vr_change :: change_kind
  vr_applied_by_update :: bool

record report =
  rp_checked :: bool
  rp_checked_at :: string
  rp_last_successful :: string
  rp_manifest_state :: verify_outcome
  rp_manifest_reason :: verify_reason
  rp_manifest_serial :: u64
  rp_manifest_valid_until :: string
  rp_subsystems :: "subsystem_row list"
  rp_villa :: "villa_release option"
  rp_summary :: "summary option"
  rp_diverged :: "component_row list"

record check_input =
  ci_cfg :: villa_config
  ci_table :: "pin_entry list"
  ci_state :: pin_state
  ci_verdict :: manifest_verdict
  ci_checked_at :: string
  ci_last_successful :: string
  ci_villa_version :: string

definition is_active_backend :: "villa_config \<Rightarrow> string \<Rightarrow> bool" where
  "is_active_backend cfg i =
     (case map_of [([], ''backend-rocm-10.0''), (''rocm'', ''backend-rocm-10.0''),
        (''rocm-7.2.4'', ''backend-rocm-7.2.4''), (''rocm-10.0'', ''backend-rocm-10.0''),
        (''rocm-6.4.4'', ''backend-rocm-6.4.4''), (''rocm-6.4.4-rocwmma'', ''backend-rocm-6.4.4-rocwmma''),
        (''vulkan'', ''backend-vulkan-radv'')] (cfg_backend cfg) of
        None \<Rightarrow> False | Some active \<Rightarrow> active = i)"

definition declared_version :: "string \<Rightarrow> string" where
  "declared_version ref =
     (let rest = (case cut_char CHR ''/'' ref of (_, rest, found) \<Rightarrow> if found then rest else ref);
          rest = (case cut_char CHR ''@'' rest of (before, _, found) \<Rightarrow> if found then before else rest)
      in case after_last CHR '':'' rest of Some v \<Rightarrow> v | None \<Rightarrow> [])"

fun classify :: "shape \<Rightarrow> pin \<Rightarrow> offer \<Rightarrow> change_kind" where
  "classify RollingDigest current off = ChangeRebuilt"
| "classify ChecksummedAsset current off =
     (if of_ref off \<noteq> pin_ref current then ChangeNewVersion else ChangeNone)"
| "classify VersionTag current off =
     (if declared_version (of_ref off) = declared_version (pin_ref current) then ChangeRebuilt else ChangeNewVersion)"

text \<open>The offers by component id; of two with one id the later one stays.\<close>

definition offered :: "document \<Rightarrow> string \<Rightarrow> offer option" where
  "offered doc = map_of (rev (map (\<lambda>c. (of_id c, c)) (dc_components doc)))"

definition considered :: "villa_config \<Rightarrow> kind \<Rightarrow> pin_entry \<Rightarrow> bool" where
  "considered cfg k e = (\<not> (k = Inference \<and> \<not> is_active_backend cfg (en_component e)))"

definition component_row_for :: "check_input \<Rightarrow> pin_entry \<Rightarrow> component_row list" where
  "component_row_for inp e =
     (case resolve (ci_table inp) (ci_state inp) (en_component e) of
        None \<Rightarrow> []
      | Some res \<Rightarrow>
          (let c = \<lparr>cr_name = en_component e, cr_shape = en_shape e, cr_vetted = pin_ref (rs_vetted res),
                    cr_effective = pin_ref (rs_current res), cr_available = [], cr_change = ChangeNone\<rparr>
           in case offered (mv_doc (ci_verdict inp)) (en_component e) of
                None \<Rightarrow> [c]
              | Some off \<Rightarrow>
                  if of_ref off \<noteq> pin_ref (rs_current res)
                  then [c\<lparr>cr_available := of_ref off, cr_change := classify (en_shape e) (rs_current res) off\<rparr>]
                  else [c]))"

text \<open>Whether an entry moves its row to \<open>update_available\<close>.\<close>

definition offers_update :: "check_input \<Rightarrow> pin_entry \<Rightarrow> bool" where
  "offers_update inp e =
     (case resolve (ci_table inp) (ci_state inp) (en_component e) of
        None \<Rightarrow> False
      | Some res \<Rightarrow>
          (case offered (mv_doc (ci_verdict inp)) (en_component e) of
             None \<Rightarrow> False | Some off \<Rightarrow> of_ref off \<noteq> pin_ref (rs_current res)))"

definition subsystem_row_for :: "check_input \<Rightarrow> kind \<Rightarrow> subsystem_row option" where
  "subsystem_row_for inp k =
     (let entries = pins_for k (ci_cfg inp) in
      if entries = [] then None
      else if \<not> gate_on (ci_cfg inp) k
        then Some \<lparr>sr_name = kind_string k, sr_state = StateSkipped,
                   sr_skip_reason = config_key k @ '' = false'', sr_components = []\<rparr>
      else (let es = filter (considered (ci_cfg inp) k) entries
            in Some \<lparr>sr_name = kind_string k,
                     sr_state = (if list_ex (offers_update inp) es then StateUpdateAvailable else StateCurrent),
                     sr_skip_reason = [], sr_components = concat (map (component_row_for inp) es)\<rparr>))"

definition villa_row :: "check_input \<Rightarrow> villa_release" where
  "villa_row inp =
     (let off = dc_villa_version (mv_doc (ci_verdict inp)) in
      if off \<noteq> [] \<and> off \<noteq> ci_villa_version inp
      then \<lparr>vr_current = ci_villa_version inp, vr_available = off, vr_change = ChangeNewVersion, vr_applied_by_update = False\<rparr>
      else \<lparr>vr_current = ci_villa_version inp, vr_available = [], vr_change = ChangeNone, vr_applied_by_update = False\<rparr>)"

definition diverged_rows :: "check_input \<Rightarrow> component_row list" where
  "diverged_rows inp =
     concat (map (\<lambda>k. concat (map (\<lambda>e.
        case resolve (ci_table inp) (ci_state inp) (en_component e) of
          None \<Rightarrow> []
        | Some res \<Rightarrow> if diverged res
            then [\<lparr>cr_name = en_component e, cr_shape = en_shape e, cr_vetted = pin_ref (rs_vetted res),
                   cr_effective = pin_ref (rs_current res), cr_available = [], cr_change = ChangeUnset\<rparr>] else [])
        (filter (considered (ci_cfg inp) k) (pins_for k (ci_cfg inp)))))
      (filter (gate_on (ci_cfg inp)) every_kind))"

definition count_state :: "row_state \<Rightarrow> subsystem_row list \<Rightarrow> nat" where
  "count_state s rows = length (filter (\<lambda>r. sr_state r = s) rows)"

definition reject_check :: "check_input \<Rightarrow> report" where
  "reject_check inp =
     \<lparr>rp_checked = False, rp_checked_at = [], rp_last_successful = ci_last_successful inp,
      rp_manifest_state = mv_outcome (ci_verdict inp), rp_manifest_reason = mv_reason (ci_verdict inp),
      rp_manifest_serial = 0, rp_manifest_valid_until = [], rp_subsystems = [], rp_villa = None,
      rp_summary = None, rp_diverged = diverged_rows inp\<rparr>"

definition check_update :: "check_input \<Rightarrow> report" where
  "check_update inp =
     (if mv_outcome (ci_verdict inp) \<noteq> Accepted then reject_check inp
      else
        (let rows = List.map_filter (subsystem_row_for inp) every_kind
         in \<lparr>rp_checked = True, rp_checked_at = ci_checked_at inp, rp_last_successful = [],
             rp_manifest_state = mv_outcome (ci_verdict inp), rp_manifest_reason = ReasonNone,
             rp_manifest_serial = dc_serial (mv_doc (ci_verdict inp)),
             rp_manifest_valid_until = dc_valid_until (mv_doc (ci_verdict inp)),
             rp_subsystems = rows, rp_villa = Some (villa_row inp),
             rp_summary = Some \<lparr>sm_updatable = count_state StateUpdateAvailable rows,
                                sm_current = count_state StateCurrent rows,
                                sm_skipped = count_state StateSkipped rows\<rparr>,
             rp_diverged = []\<rparr>))"

text \<open>\<open>Updatable\<close>: the names with updates, in the order apply walks.\<close>

definition kind_order :: "string \<Rightarrow> nat" where
  "kind_order n = length (takeWhile (\<lambda>k. kind_string k \<noteq> n) every_kind)"

definition updatable_names :: "report \<Rightarrow> string list" where
  "updatable_names r =
     sort_key kind_order (map sr_name (filter (\<lambda>s. sr_state s = StateUpdateAvailable) (rp_subsystems r)))"

subsection \<open>What an accepted document says\<close>

definition offer_ok :: "offer \<Rightarrow> bool" where
  "offer_ok c \<longleftrightarrow> (\<exists>e \<in> set pin_table. en_component e = of_id c \<and> of_registry c = en_registry e
     \<and> of_shape c = shape_string (en_shape e) \<and> trim_space (of_ref c) \<noteq> []
     \<and> (en_shape e = ChecksummedAsset \<longrightarrow> trim_space (of_checksum c) \<noteq> [])
     \<and> (en_shape e \<noteq> ChecksummedAsset \<longrightarrow> (\<exists>rest. of_ref c = en_registry e @ ''/'' @ rest)))"

lemma cut_char_found: "cut_char c s = (b, a, True) \<Longrightarrow> s = b @ c # a"
  by (induction s arbitrary: b a) (auto split: if_splits prod.splits)

lemma cut_char_no: "c \<notin> set b \<Longrightarrow> cut_char c (b @ c # a) = (b, a, True)"
  by (induction b) auto

lemma table_registries: "e \<in> set pin_table \<Longrightarrow> CHR ''/'' \<notin> set (en_registry e)"
proof -
  have "list_all (\<lambda>e. CHR ''/'' \<notin> set (en_registry e)) pin_table"
    by (simp add: pin_table_def entry_defs)
  then show "e \<in> set pin_table \<Longrightarrow> CHR ''/'' \<notin> set (en_registry e)" by (simp add: list_all_iff)
qed

lemma ref_matches_registry_iff:
  assumes "e \<in> set pin_table"
  shows "ref_matches_registry (en_shape e) ref (en_registry e) \<longleftrightarrow>
     en_shape e = ChecksummedAsset \<or> (\<exists>rest. ref = en_registry e @ ''/'' @ rest)"
proof -
  obtain b a f where c: "cut_char CHR ''/'' ref = (b, a, f)" by (metis prod_cases3)
  show ?thesis
  proof (cases f)
    case True
    with c cut_char_found [of _ ref b a] have r: "ref = b @ CHR ''/'' # a" by simp
    show ?thesis
    proof
      assume "ref_matches_registry (en_shape e) ref (en_registry e)"
      with c True r show "en_shape e = ChecksummedAsset \<or> (\<exists>rest. ref = en_registry e @ ''/'' @ rest)"
        by (auto simp: ref_matches_registry_def split: if_splits)
    next
      assume "en_shape e = ChecksummedAsset \<or> (\<exists>rest. ref = en_registry e @ ''/'' @ rest)"
      then show "ref_matches_registry (en_shape e) ref (en_registry e)"
        using c cut_char_no [OF table_registries [OF assms]] by (auto simp: ref_matches_registry_def)
    qed
  next
    case False
    then have "ref \<noteq> en_registry e @ ''/'' @ rest" for rest
      using c cut_char_no [OF table_registries [OF assms], of rest] by auto
    with c False show ?thesis by (auto simp: ref_matches_registry_def)
  qed
qed

lemma offer_problems_Nil: "offer_problems c = [] \<longleftrightarrow> offer_ok c"
proof (cases "pin_lookup (of_id c)")
  case None
  then have "\<not> offer_ok c" using pin_lookup_table by (force simp: offer_ok_def)
  with None show ?thesis by (simp add: offer_problems_def)
next
  case (Some e)
  note e = pin_lookup_Some [OF Some]
  have "f = e" if "f \<in> set pin_table" "en_component f = of_id c" for f
    using pin_lookup_table [OF that(1)] that(2) Some by simp
  then have "offer_ok c \<longleftrightarrow> of_registry c = en_registry e
     \<and> of_shape c = shape_string (en_shape e) \<and> trim_space (of_ref c) \<noteq> []
     \<and> (en_shape e = ChecksummedAsset \<longrightarrow> trim_space (of_checksum c) \<noteq> [])
     \<and> (en_shape e \<noteq> ChecksummedAsset \<longrightarrow> (\<exists>rest. of_ref c = en_registry e @ ''/'' @ rest))"
    unfolding offer_ok_def using e by blast
  moreover have "of_ref c \<noteq> []" if "trim_space (of_ref c) \<noteq> []"
    using that by (auto simp: trim_space_def)
  ultimately show ?thesis
    using Some ref_matches_registry_iff [of e "of_ref c"] e by (auto simp: offer_problems_def)
qed

text \<open>Soundness of a whole document, as the verifier's caller may rely on it.\<close>

definition genuine :: "'t std \<Rightarrow> 't verify_input \<Rightarrow> document \<Rightarrow> bool" where
  "genuine std inp doc \<longleftrightarrow>
     vi_data inp \<noteq> [] \<and> vi_signature inp \<noteq> [] \<and> length (vi_public_key inp) = 32
     \<and> sd_ed25519 std (vi_public_key inp) (vi_data inp) (vi_signature inp)
     \<and> sd_decode std (vi_data inp) = Some doc \<and> dc_schema_version doc = manifest_schema
     \<and> vi_serial_floor inp \<le> dc_serial doc \<and> dc_serial doc \<noteq> 0
     \<and> trim_space (dc_valid_until doc) \<noteq> []
     \<and> (\<exists>t. sd_parse_time std (dc_valid_until doc) = Some t \<and> \<not> sd_after std (vi_now inp) t)
     \<and> dc_components doc \<noteq> [] \<and> list_all offer_ok (dc_components doc)"

lemma check_allowlist_Nil:
  "check_allowlist pt doc = [] \<longleftrightarrow> list_all offer_ok (dc_components doc) \<and> dc_serial doc \<noteq> 0
     \<and> dc_valid_until doc \<noteq> [] \<and> pt (dc_valid_until doc) \<noteq> None \<and> dc_components doc \<noteq> []"
  by (auto simp: check_allowlist_def list_all_iff offer_problems_Nil split: option.splits)

lemma is_expired_False:
  "is_expired std v now = Some False \<longleftrightarrow>
     trim_space v \<noteq> [] \<and> (\<exists>t. sd_parse_time std v = Some t \<and> \<not> sd_after std now t)"
  by (auto simp: is_expired_def split: option.splits)

lemma verdict_of_not_accepted: "mv_outcome (verdict_of out why) = Accepted \<longleftrightarrow> out = Accepted"
  by (simp add: verdict_of_def)

lemma verify_accepted:
  "mv_outcome (verify_manifest std inp) = Accepted \<longleftrightarrow> genuine std inp (mv_doc (verify_manifest std inp))"
  (is "?l = ?r")
proof -
  have out: "\<not> genuine std inp zero_document"
    by (simp add: genuine_def zero_document_def manifest_schema_def)
  consider (pre) "vi_data inp = [] \<or> vi_public_key inp = [] \<or> vi_signature inp = []
      \<or> \<not> verify_signature (sd_ed25519 std) (vi_public_key inp) (vi_data inp) (vi_signature inp)
      \<or> parse_manifest (sd_decode std) (vi_data inp) = None"
    | (doc) doc where "vi_data inp \<noteq> []" "vi_public_key inp \<noteq> []" "vi_signature inp \<noteq> []"
      "verify_signature (sd_ed25519 std) (vi_public_key inp) (vi_data inp) (vi_signature inp)"
      "parse_manifest (sd_decode std) (vi_data inp) = Some doc"
    by (meson option.exhaust)
  then show ?thesis
  proof cases
    case pre
    then have "mv_outcome (verify_manifest std inp) \<noteq> Accepted" "mv_doc (verify_manifest std inp) = zero_document"
      by (auto simp: verify_manifest_def verdict_of_def)
    with out show ?thesis by simp
  next
    case doc
    note s = doc(1-4) doc(5)
    have p: "sd_decode std (vi_data inp) = Some doc" "dc_schema_version doc = manifest_schema"
      using doc(5) by (auto simp: parse_manifest_def split: option.splits if_splits)
    have k: "length (vi_public_key inp) = 32" "sd_ed25519 std (vi_public_key inp) (vi_data inp) (vi_signature inp)"
      using doc(4) by (auto simp: verify_signature_def split: if_splits)
    show ?thesis
    proof (cases "dc_serial doc < vi_serial_floor inp")
      case True
      with s out show ?thesis by (simp add: verify_manifest_def verdict_of_def)
    next
      case serial: False
      show ?thesis
      proof (cases "is_expired std (dc_valid_until doc) (vi_now inp) = Some False")
        case False
        then have "is_expired std (dc_valid_until doc) (vi_now inp) = None
            \<or> is_expired std (dc_valid_until doc) (vi_now inp) = Some True" by (metis (full_types) not_Some_eq)
        with s out serial show ?thesis by (auto simp: verify_manifest_def verdict_of_def)
      next
        case exp: True
        show ?thesis
        proof (cases "check_allowlist (sd_parse_time std) doc = []")
          case False
          with s out serial exp show ?thesis by (simp add: verify_manifest_def verdict_of_def)
        next
          case True
          with s serial exp have "mv_outcome (verify_manifest std inp) = Accepted" "mv_doc (verify_manifest std inp) = doc"
            by (simp_all add: verify_manifest_def)
          moreover have "genuine std inp doc"
            using s p k serial True exp unfolding genuine_def check_allowlist_Nil is_expired_False
            by (simp add: not_less)
          ultimately show ?thesis by simp
        qed
      qed
    qed
  qed
qed

lemma verify_rejected_doc:
  "mv_outcome (verify_manifest std inp) \<noteq> Accepted \<Longrightarrow> mv_doc (verify_manifest std inp) = zero_document"
  by (simp add: verify_manifest_def verdict_of_def split: option.splits bool.splits if_splits)

subsection \<open>The rows of a check\<close>

lemma count_state_total:
  "count_state StateUpdateAvailable rows + count_state StateCurrent rows + count_state StateSkipped rows = length rows"
proof (induction rows)
  case (Cons r rows)
  then show ?case by (cases "sr_state r") (simp_all add: count_state_def)
qed (simp add: count_state_def)

lemma subsystem_row_name: "subsystem_row_for inp k = Some r \<Longrightarrow> sr_name r = kind_string k"
  by (auto simp: subsystem_row_for_def Let_def split: if_splits)

text \<open>A row says an update is available exactly when a shown component runs another reference than the
  document offers for it.\<close>

lemma row_state_update:
  assumes "subsystem_row_for inp k = Some r"
  shows "sr_state r = StateUpdateAvailable \<longleftrightarrow>
     gate_on (ci_cfg inp) k \<and> (\<exists>e \<in> set (pins_for k (ci_cfg inp)). considered (ci_cfg inp) k e \<and> offers_update inp e)"
  using assms by (auto simp: subsystem_row_for_def Let_def list_ex_iff split: if_splits)

lemma offers_update_iff:
  "offers_update inp e \<longleftrightarrow> (\<exists>res off. resolve (ci_table inp) (ci_state inp) (en_component e) = Some res
     \<and> offered (mv_doc (ci_verdict inp)) (en_component e) = Some off \<and> of_ref off \<noteq> pin_ref (rs_current res))"
  by (auto simp: offers_update_def split: option.splits)

lemma map_filter_names:
  "map sr_name (List.map_filter (subsystem_row_for inp) ks)
     = map kind_string (filter (\<lambda>k. subsystem_row_for inp k \<noteq> None) ks)"
  by (induction ks) (auto simp: map_filter_simps subsystem_row_name split: option.splits)

lemma kind_order_strings:
  "map kind_order (map kind_string every_kind) = [0..<9]"
  by (simp add: kind_order_def every_kind_def upt_rec)

lemma sorted_kind_names: "sorted (map kind_order (map kind_string (filter P every_kind)))"
proof -
  have "sorted (map (kind_order \<circ> kind_string) every_kind)" using kind_order_strings by simp
  then show ?thesis using sorted_filter [of "kind_order \<circ> kind_string" every_kind P] by simp
qed

lemma filter_map_filter:
  "map sr_name (filter (\<lambda>r. sr_state r = s) (List.map_filter (subsystem_row_for inp) ks))
     = map kind_string (filter (\<lambda>k. \<exists>r. subsystem_row_for inp k = Some r \<and> sr_state r = s) ks)"
  by (induction ks) (auto simp: map_filter_simps subsystem_row_name split: option.splits)

lemma updatable_names_checked:
  assumes "mv_outcome (ci_verdict inp) = Accepted"
  shows "updatable_names (check_update inp) =
     map kind_string (filter (\<lambda>k. \<exists>r. subsystem_row_for inp k = Some r \<and> sr_state r = StateUpdateAvailable) every_kind)"
proof -
  have "map sr_name (filter (\<lambda>s. sr_state s = StateUpdateAvailable) (rp_subsystems (check_update inp))) =
     map kind_string (filter (\<lambda>k. \<exists>r. subsystem_row_for inp k = Some r \<and> sr_state r = StateUpdateAvailable) every_kind)"
    using assms by (simp add: check_update_def Let_def filter_map_filter)
  moreover have "sort_key kind_order (map kind_string (filter P every_kind)) = map kind_string (filter P every_kind)" for P
    using sorted_kind_names [of P] by (rule sort_key_id_if_sorted)
  ultimately show ?thesis by (simp add: updatable_names_def)
qed

lemma diverged_rows_diverge:
  "c \<in> set (diverged_rows inp) \<Longrightarrow> cr_effective c \<noteq> cr_vetted c"
  by (auto simp: diverged_rows_def diverged_def split: option.splits if_splits)

subsection \<open>Properties\<close>


lemma table_offers_ok: "list_all offer_ok (map table_offer pin_table)"
proof -
  have "concat (map offer_problems (map table_offer pin_table)) = []" by code_simp
  then show ?thesis by (simp add: list_all_iff offer_problems_Nil)
qed

text \<open>the manifest villa writes is one villa accepts: the document rendered from the compiled-in table
  passes its own allowlist, so with a serial at or above the floor, an expiry not past and a signature
  that verifies, it is accepted, and what it offers is what the table vets.\<close>

theorem table_manifest_accepted:
  assumes "vi_data inp \<noteq> []" "vi_signature inp \<noteq> []" "length (vi_public_key inp) = 32"
    and "sd_ed25519 std (vi_public_key inp) (vi_data inp) (vi_signature inp)"
    and "sd_decode std (vi_data inp) = Some (from_table fmt serial until)"
    and "vi_serial_floor inp \<le> serial" "serial \<noteq> 0"
    and "trim_space (fmt until) \<noteq> []" "sd_parse_time std (fmt until) = Some until" "\<not> sd_after std (vi_now inp) until"
  shows "verify_manifest std inp = \<lparr>mv_outcome = Accepted, mv_reason = ReasonNone, mv_doc = from_table fmt serial until\<rparr>
    \<and> (\<forall>e \<in> set pin_table. \<exists>off. offered (from_table fmt serial until) (en_component e) = Some off
         \<and> of_ref off = pin_ref (en_vetted e))"
proof
  have v: "dc_valid_until (from_table fmt serial until) = fmt until"
    "dc_components (from_table fmt serial until) = map table_offer pin_table"
    "dc_serial (from_table fmt serial until) = serial" "dc_schema_version (from_table fmt serial until) = manifest_schema"
    by (simp_all add: from_table_def)
  have "fmt until \<noteq> []" using assms(8) by (auto simp: trim_space_def)
  then have al: "check_allowlist (sd_parse_time std) (from_table fmt serial until) = []"
    using assms(7,9) table_offers_ok unfolding check_allowlist_Nil v by (simp add: pin_table_def)
  have ex: "is_expired std (dc_valid_until (from_table fmt serial until)) (vi_now inp) = Some False"
    unfolding is_expired_False v using assms(8-10) by blast
  have "vi_public_key inp \<noteq> []" using assms(3) by auto
  moreover have "parse_manifest (sd_decode std) (vi_data inp) = Some (from_table fmt serial until)"
    using assms(5) v by (simp add: parse_manifest_def)
  ultimately show "verify_manifest std inp =
      \<lparr>mv_outcome = Accepted, mv_reason = ReasonNone, mv_doc = from_table fmt serial until\<rparr>"
    using assms(1-4,6) al ex by (simp add: verify_manifest_def verify_signature_def v not_less)
  show "\<forall>e \<in> set pin_table. \<exists>off. offered (from_table fmt serial until) (en_component e) = Some off
         \<and> of_ref off = pin_ref (en_vetted e)"
  proof
    fix e assume e: "e \<in> set pin_table"
    have d: "distinct (map fst (map (\<lambda>c. (of_id c, c)) (map table_offer pin_table)))"
      using table_distinct by (simp add: o_def table_offer_def)
    have "(of_id (table_offer e), table_offer e) \<in> set (map (\<lambda>c. (of_id c, c)) (map table_offer pin_table))"
      using e by simp
    then have "map_of (rev (map (\<lambda>c. (of_id c, c)) (map table_offer pin_table))) (of_id (table_offer e)) = Some (table_offer e)"
      using d by (simp add: rev_map [symmetric] del: map_map)
    then show "\<exists>off. offered (from_table fmt serial until) (en_component e) = Some off
         \<and> of_ref off = pin_ref (en_vetted e)"
      by (simp add: offered_def v table_offer_def)
  qed
qed

definition sample_std :: "nat std" where
  "sample_std = \<lparr>sd_ed25519 = (\<lambda>k d s. s = d), sd_decode = (\<lambda>_. Some (from_table (\<lambda>_ :: nat. ''later'') 3 9)),
     sd_parse_time = (\<lambda>_. Some 9), sd_after = (\<lambda>a b. a > b)\<rparr>"

definition sample_verify :: "nat verify_input" where
  "sample_verify = \<lparr>vi_data = ''m'', vi_signature = ''m'', vi_public_key = replicate 32 CHR ''k'',
     vi_serial_floor = 2, vi_now = 4\<rparr>"

theorem table_manifest_accepted_witness:
  "mv_outcome (verify_manifest sample_std sample_verify) = Accepted"
proof -
  have "verify_manifest sample_std sample_verify =
      \<lparr>mv_outcome = Accepted, mv_reason = ReasonNone, mv_doc = from_table (\<lambda>_ :: nat. ''later'') 3 9\<rparr>"
  proof (rule conjunct1 [OF table_manifest_accepted])
    have "trim_space ''later'' = ''later''" by code_simp
    then show "trim_space ((\<lambda>_. ''later'') (9 :: nat)) \<noteq> []" by simp
  qed (simp_all add: sample_std_def sample_verify_def)
  then show ?thesis by simp
qed

text \<open>what an update check reports. After an accepted document there is one row for each subsystem
  with a pinned component this configuration renders, in the fixed order, counted once each in the
  summary; a row says an update is available exactly when its gate is on and some component of it that
  is in use resolves to another reference than the document offers; and the names apply walks are the
  names of those rows in the same order. Without an accepted document nothing is claimed: no row, no
  summary, nothing to apply.\<close>

theorem update_check_exact:
  "if mv_outcome (ci_verdict inp) = Accepted
   then map sr_name (rp_subsystems (check_update inp))
          = map kind_string (filter (\<lambda>k. pins_for k (ci_cfg inp) \<noteq> []) every_kind)
      \<and> (\<exists>sm. rp_summary (check_update inp) = Some sm
            \<and> sm_updatable sm + sm_current sm + sm_skipped sm = length (rp_subsystems (check_update inp)))
      \<and> updatable_names (check_update inp) = map kind_string (filter (\<lambda>k. gate_on (ci_cfg inp) k
          \<and> list_ex (\<lambda>e. considered (ci_cfg inp) k e \<and> offers_update inp e) (pins_for k (ci_cfg inp))) every_kind)
   else rp_subsystems (check_update inp) = [] \<and> rp_summary (check_update inp) = None
      \<and> updatable_names (check_update inp) = [] \<and> \<not> rp_checked (check_update inp)"
proof (cases "mv_outcome (ci_verdict inp) = Accepted")
  case False
  then show ?thesis by (simp add: check_update_def reject_check_def updatable_names_def)
next
  case True
  have n: "subsystem_row_for inp k \<noteq> None \<longleftrightarrow> pins_for k (ci_cfg inp) \<noteq> []" for k
    by (simp add: subsystem_row_for_def Let_def)
  have u: "(\<exists>r. subsystem_row_for inp k = Some r \<and> sr_state r = StateUpdateAvailable) \<longleftrightarrow>
      gate_on (ci_cfg inp) k \<and> list_ex (\<lambda>e. considered (ci_cfg inp) k e \<and> offers_update inp e) (pins_for k (ci_cfg inp))"
    for k
    using row_state_update [of inp k] n [of k] by (fastforce simp: list_ex_iff)
  have "map sr_name (rp_subsystems (check_update inp)) =
      map kind_string (filter (\<lambda>k. pins_for k (ci_cfg inp) \<noteq> []) every_kind)"
    using True by (simp add: check_update_def Let_def map_filter_names n del: not_None_eq)
  moreover have "\<exists>sm. rp_summary (check_update inp) = Some sm
      \<and> sm_updatable sm + sm_current sm + sm_skipped sm = length (rp_subsystems (check_update inp))"
    using True by (simp add: check_update_def Let_def count_state_total)
  ultimately show ?thesis using True updatable_names_checked [OF True] u by simp
qed

end
