(* ===== verification/UpdateFlow.thy ===== *)
theory UpdateFlow
  imports Pins
begin

text \<open>
  \<open>internal/updateflow\<close>: the transaction that moves one subsystem's pins and commits or puts
  everything back, and the run over several subsystems. Every host effect is a field of
  \<open>update_deps\<close> over an abstract host state; a seam the source allows to be nil is an option. A
  context is abstract too: \<open>ud_budget\<close> derives one, \<open>ud_without_cancel\<close> is the standard
  library's \<open>context.WithoutCancel\<close>. Texts are kept as data.
\<close>

datatype update_outcome =
    Committed | RefusedUnhealthy | RolledBackFail | RolledBackReject | NotTried | NothingToDo

definition halts :: "update_outcome \<Rightarrow> bool" where
  "halts oc \<longleftrightarrow> oc \<in> {RefusedUnhealthy, RolledBackFail, RolledBackReject}"

datatype proof_status = ProofPass | ProofFail | ProofReject | ProofOther string

datatype detail =
    Said string | NotCaptured | NotPulled | NoSnapshotSeam | NotStopped | NotSnapshotted string
  | NotMoved string | NotStarted string

record check_proof =
  cp_status :: proof_status
  cp_detail :: detail

definition passes :: "check_proof \<Rightarrow> bool" where
  "passes p \<longleftrightarrow> cp_status p = ProofPass"

definition rejected :: "detail \<Rightarrow> check_proof" where
  "rejected d = \<lparr>cp_status = ProofReject, cp_detail = d\<rparr>"

definition no_proof :: check_proof where
  "no_proof = \<lparr>cp_status = ProofOther [], cp_detail = Said []\<rparr>"

record target =
  tg_subsystem :: kind
  tg_pins :: pin_refs

record capture =
  cap_refs :: pin_refs
  cap_units :: "(string \<times> string) list"
  cap_config :: string
  cap_data :: data_snapshot
  cap_prior_snapshot :: data_snapshot

datatype flow_error =
    Failed string
  | NoSeam
  | StillStopped string
  | StopForRestore string
  | DataNotRestored string
  | ServicesNotStarted string
  | RollbackFailed string
  | RestoredNotStarted string
  | RestoredNotProven detail

record subsystem_result =
  sr_subsystem :: kind
  sr_outcome :: update_outcome
  sr_proof :: check_proof
  sr_committed :: pin_refs
  sr_previous :: pin_refs
  sr_snapshot :: data_snapshot
  sr_superseded_snapshot :: data_snapshot
  sr_incomplete :: bool
  sr_err :: "flow_error list"
  sr_failed_step :: string

definition fresh_result :: "kind \<Rightarrow> update_outcome \<Rightarrow> subsystem_result" where
  "fresh_result k oc = \<lparr>sr_subsystem = k, sr_outcome = oc, sr_proof = no_proof, sr_committed = [], sr_previous = [],
     sr_snapshot = zero_snapshot, sr_superseded_snapshot = zero_snapshot, sr_incomplete = False, sr_err = [],
     sr_failed_step = []\<rparr>"

type_synonym ('c, 'h) step_dep = "'c \<Rightarrow> kind \<Rightarrow> 'h \<Rightarrow> string option \<times> 'h"

record ('c, 'h) update_deps =
  ud_prove_current :: "'c \<Rightarrow> kind \<Rightarrow> 'h \<Rightarrow> check_proof \<times> 'h"
  ud_capture :: "kind \<Rightarrow> 'h \<Rightarrow> (string + capture) \<times> 'h"
  ud_pull :: "('c \<Rightarrow> pin_refs \<Rightarrow> 'h \<Rightarrow> string option \<times> 'h) option"
  ud_mutate :: "'c \<Rightarrow> kind \<Rightarrow> pin_refs \<Rightarrow> 'h \<Rightarrow> (string list \<times> string option) \<times> 'h"
  ud_stop :: "('c, 'h) step_dep option"
  ud_snapshot :: "('c \<Rightarrow> kind \<Rightarrow> 'h \<Rightarrow> (string + data_snapshot) \<times> 'h) option"
  ud_start :: "('c, 'h) step_dep option"
  ud_prove_new :: "'c \<Rightarrow> kind \<Rightarrow> 'h \<Rightarrow> check_proof \<times> 'h"
  ud_restore :: "'c \<Rightarrow> kind \<Rightarrow> capture \<Rightarrow> string list \<Rightarrow> 'h \<Rightarrow> string option \<times> 'h"
  ud_restore_data :: "('c \<Rightarrow> kind \<Rightarrow> data_snapshot \<Rightarrow> 'h \<Rightarrow> string option \<times> 'h) option"
  ud_prove_restored :: "('c \<Rightarrow> kind \<Rightarrow> 'h \<Rightarrow> check_proof \<times> 'h) option"
  ud_commit :: "kind \<Rightarrow> pin_refs \<Rightarrow> previous \<Rightarrow> 'h \<Rightarrow> string option \<times> 'h"
  ud_budget :: "('c \<Rightarrow> kind \<Rightarrow> 'c) option"
  ud_without_cancel :: "'c \<Rightarrow> 'c"
  ud_now :: "('h \<Rightarrow> string \<times> 'h) option"

definition budgeted :: "('c, 'h) update_deps \<Rightarrow> 'c \<Rightarrow> kind \<Rightarrow> 'c" where
  "budgeted d c k = (case ud_budget d of None \<Rightarrow> c | Some b \<Rightarrow> b c k)"

text \<open>A seam that may be nil, called where the source calls it under a nil check.\<close>

definition call_if :: "('c, 'h) step_dep option \<Rightarrow> 'c \<Rightarrow> kind \<Rightarrow> 'h \<Rightarrow> string option \<times> 'h" where
  "call_if f c k h = (case f of None \<Rightarrow> (None, h) | Some g \<Rightarrow> g c k h)"

definition err_if :: "(string \<Rightarrow> flow_error) \<Rightarrow> string option \<Rightarrow> flow_error list" where
  "err_if mk e = (case e of None \<Rightarrow> [] | Some x \<Rightarrow> [mk x])"

subsection \<open>The rollback\<close>

text \<open>A rollback never runs on the context that may just have expired.\<close>

definition rollback_context :: "('c, 'h) update_deps \<Rightarrow> 'c \<Rightarrow> kind \<Rightarrow> 'c" where
  "rollback_context d c k = (case ud_budget d of None \<Rightarrow> c | Some b \<Rightarrow> b (ud_without_cancel d c) k)"

text \<open>The second half: the captured tuple, the services, the proof of the restored state.\<close>

definition rollback_tuple ::
  "('c, 'h) update_deps \<Rightarrow> 'c \<Rightarrow> subsystem_result \<Rightarrow> capture \<Rightarrow> string list \<Rightarrow> flow_error list \<Rightarrow> bool
     \<Rightarrow> 'h \<Rightarrow> subsystem_result \<times> 'h" where
  "rollback_tuple d c sr cap restarted cause restored_data h =
     (case ud_restore d c (sr_subsystem sr) cap restarted h of
        (Some e, h) \<Rightarrow>
          (if restored_data
           then (case call_if (ud_start d) c (sr_subsystem sr) h of (se, h) \<Rightarrow>
             (sr\<lparr>sr_incomplete := True, sr_err := cause @ RollbackFailed e # err_if ServicesNotStarted se\<rparr>, h))
           else (sr\<lparr>sr_incomplete := True, sr_err := cause @ [RollbackFailed e]\<rparr>, h))
      | (None, h) \<Rightarrow>
          (case (if restored_data then call_if (ud_start d) c (sr_subsystem sr) h else (None, h)) of
             (Some e, h) \<Rightarrow> (sr\<lparr>sr_incomplete := True, sr_err := cause @ [RestoredNotStarted e]\<rparr>, h)
           | (None, h) \<Rightarrow>
               (case ud_prove_restored d of
                  None \<Rightarrow> (sr, h)
                | Some prove \<Rightarrow>
                    (case prove c (sr_subsystem sr) h of (p, h) \<Rightarrow>
                       if \<not> passes p
                       then (sr\<lparr>sr_incomplete := True, sr_err := cause @ [RestoredNotProven (cp_detail p)]\<rparr>, h)
                       else (sr, h)))))"

definition rollback ::
  "('c, 'h) update_deps \<Rightarrow> 'c \<Rightarrow> subsystem_result \<Rightarrow> capture \<Rightarrow> string list \<Rightarrow> check_proof \<Rightarrow> update_outcome
     \<Rightarrow> flow_error list \<Rightarrow> string \<Rightarrow> 'h \<Rightarrow> subsystem_result \<times> 'h" where
  "rollback d c sr cap restarted p oc cause step h =
     (let sr = sr\<lparr>sr_outcome := oc, sr_proof := p, sr_err := cause, sr_failed_step := step\<rparr>;
          c = rollback_context d c (sr_subsystem sr)
      in case (if taken (cap_data cap) then ud_restore_data d else None) of
           None \<Rightarrow> rollback_tuple d c sr cap restarted cause False h
         | Some restore_data \<Rightarrow>
             (case call_if (ud_stop d) c (sr_subsystem sr) h of
                (Some e, h) \<Rightarrow> (sr\<lparr>sr_incomplete := True, sr_err := cause @ [StopForRestore e]\<rparr>, h)
              | (None, h) \<Rightarrow>
                  (case restore_data c (sr_subsystem sr) (cap_data cap) h of
                     (Some e, h) \<Rightarrow>
                       (case call_if (ud_start d) c (sr_subsystem sr) h of (se, h) \<Rightarrow>
                          (sr\<lparr>sr_incomplete := True, sr_err := cause @ DataNotRestored e # err_if ServicesNotStarted se\<rparr>, h))
                   | (None, h) \<Rightarrow> rollback_tuple d c sr cap restarted cause True h)))"

subsection \<open>The forward path\<close>

definition previous_of :: "capture \<Rightarrow> string \<Rightarrow> previous" where
  "previous_of cap now = \<lparr>pv_refs = cap_refs cap, pv_units = cap_units cap, pv_config = cap_config cap,
     pv_data = cap_data cap, pv_captured_at = now\<rparr>"

definition finish_after_mutation ::
  "('c, 'h) update_deps \<Rightarrow> 'c \<Rightarrow> subsystem_result \<Rightarrow> capture \<Rightarrow> string list \<Rightarrow> target \<Rightarrow> 'h \<Rightarrow> subsystem_result \<times> 'h" where
  "finish_after_mutation d c sr cap restarted t h =
     (case ud_prove_new d c (tg_subsystem t) h of (p, h) \<Rightarrow>
        if \<not> passes p
        then rollback d c sr cap restarted p
               (if cp_status p \<noteq> ProofFail then RolledBackReject else RolledBackFail) [] ''prove'' h
        else
          (case (case ud_now d of None \<Rightarrow> ([], h) | Some now \<Rightarrow> now h) of (now, h) \<Rightarrow>
            (case ud_commit d (tg_subsystem t) (tg_pins t) (previous_of cap now) h of
               (Some e, h) \<Rightarrow>
                 (sr\<lparr>sr_outcome := Committed, sr_proof := p, sr_committed := tg_pins t, sr_previous := cap_refs cap,
                     sr_err := [Failed e], sr_failed_step := ''commit''\<rparr>, h)
             | (None, h) \<Rightarrow>
                 (sr\<lparr>sr_outcome := Committed, sr_proof := p, sr_committed := tg_pins t, sr_previous := cap_refs cap,
                     sr_superseded_snapshot := cap_prior_snapshot cap\<rparr>, h))))"

definition refused :: "subsystem_result \<Rightarrow> string \<Rightarrow> flow_error list \<Rightarrow> bool \<Rightarrow> check_proof \<Rightarrow> subsystem_result" where
  "refused sr step err incomplete p =
     sr\<lparr>sr_outcome := RefusedUnhealthy, sr_failed_step := step, sr_err := err, sr_incomplete := incomplete, sr_proof := p\<rparr>"

definition run_stateful_mutation ::
  "('c, 'h) update_deps \<Rightarrow> 'c \<Rightarrow> subsystem_result \<Rightarrow> capture \<Rightarrow> target \<Rightarrow> 'h \<Rightarrow> subsystem_result \<times> 'h" where
  "run_stateful_mutation d c sr cap t h =
     (case (ud_stop d, ud_snapshot d, ud_start d, ud_restore_data d) of
        (Some stop, Some snapshot, Some start, Some _) \<Rightarrow>
          (case stop c (tg_subsystem t) h of
             (Some e, h) \<Rightarrow>
               (case start c (tg_subsystem t) h of (se, h) \<Rightarrow>
                  (refused sr ''stop'' (Failed e # err_if StillStopped se) (se \<noteq> None) (rejected NotStopped), h))
           | (None, h) \<Rightarrow>
               (case snapshot c (tg_subsystem t) h of
                  (Inl e, h) \<Rightarrow>
                    (case start c (tg_subsystem t) h of (se, h) \<Rightarrow>
                       (refused sr ''snapshot'' (Failed e # err_if StillStopped se) (se \<noteq> None)
                          (rejected (NotSnapshotted e)), h))
                | (Inr snap, h) \<Rightarrow>
                    (let cap = cap\<lparr>cap_data := snap\<rparr>; sr = sr\<lparr>sr_snapshot := snap\<rparr> in
                     (case ud_mutate d c (tg_subsystem t) (tg_pins t) h of
                        ((restarted, Some e), h) \<Rightarrow>
                          rollback d c sr cap restarted (rejected (NotMoved e)) RolledBackReject [Failed e] ''mutate'' h
                      | ((restarted, None), h) \<Rightarrow>
                          (case start c (tg_subsystem t) h of
                             (Some e, h) \<Rightarrow>
                               rollback d c sr cap restarted (rejected (NotStarted e)) RolledBackReject [Failed e] ''start'' h
                           | (None, h) \<Rightarrow> finish_after_mutation d c sr cap restarted t h)))))
      | _ \<Rightarrow> (refused sr ''snapshot'' [NoSeam] (sr_incomplete sr) (rejected NoSnapshotSeam), h))"

definition mutate_and_finish ::
  "('c, 'h) update_deps \<Rightarrow> 'c \<Rightarrow> subsystem_result \<Rightarrow> capture \<Rightarrow> target \<Rightarrow> 'h \<Rightarrow> subsystem_result \<times> 'h" where
  "mutate_and_finish d c sr cap t h =
     (case ud_mutate d c (tg_subsystem t) (tg_pins t) h of
        ((restarted, Some e), h) \<Rightarrow>
          rollback d c sr cap restarted (rejected (NotMoved e)) RolledBackReject [Failed e] ''mutate'' h
      | ((restarted, None), h) \<Rightarrow> finish_after_mutation d c sr cap restarted t h)"

definition run_one :: "('c, 'h) update_deps \<Rightarrow> 'c \<Rightarrow> target \<Rightarrow> 'h \<Rightarrow> subsystem_result \<times> 'h" where
  "run_one d c t h =
     (let sr = fresh_result (tg_subsystem t) NothingToDo in
      if tg_pins t = [] then (sr, h)
      else
        (let c = budgeted d c (tg_subsystem t) in
         case ud_prove_current d c (tg_subsystem t) h of (p, h) \<Rightarrow>
           if \<not> passes p then (sr\<lparr>sr_outcome := RefusedUnhealthy, sr_proof := p\<rparr>, h)
           else
             (case ud_capture d (tg_subsystem t) h of
                (Inl e, h) \<Rightarrow> (refused sr ''capture'' [Failed e] False (rejected NotCaptured), h)
              | (Inr cap, h) \<Rightarrow>
                  (case (case ud_pull d of None \<Rightarrow> (None, h) | Some pull \<Rightarrow> pull c (tg_pins t) h) of
                     (Some e, h) \<Rightarrow> (refused sr ''pull'' [Failed e] False (rejected NotPulled), h)
                   | (None, h) \<Rightarrow>
                       if owns_persistent_state (tg_subsystem t) then run_stateful_mutation d c sr cap t h
                       else mutate_and_finish d c sr cap t h))))"

fun run_targets ::
  "('c, 'h) update_deps \<Rightarrow> 'c \<Rightarrow> target list \<Rightarrow> bool \<Rightarrow> 'h \<Rightarrow> (subsystem_result list \<times> bool) \<times> 'h" where
  "run_targets d c [] halted h = (([], halted), h)"
| "run_targets d c (t # ts) halted h =
     (if halted
      then (case run_targets d c ts halted h of ((rs, hl), h) \<Rightarrow> ((fresh_result (tg_subsystem t) NotTried # rs, hl), h))
      else (case run_one d c t h of (r, h) \<Rightarrow>
        (case run_targets d c ts (halts (sr_outcome r)) h of ((rs, hl), h) \<Rightarrow> ((r # rs, hl), h))))"

definition run_update :: "('c, 'h) update_deps \<Rightarrow> 'c \<Rightarrow> target list \<Rightarrow> 'h \<Rightarrow> (subsystem_result list \<times> bool) \<times> 'h" where
  "run_update d c ts h = run_targets d c ts False h"

definition committed_count :: "subsystem_result list \<Rightarrow> nat" where
  "committed_count rs = length (filter (\<lambda>r. sr_outcome r = Committed) rs)"

end
