(* ===== verification/UpdateProtocol.thy ===== *)
theory UpdateProtocol
  imports UpdateFlow
begin

text \<open>
  What the update transaction promises, as a protocol. \<open>traced\<close> makes a host record every call with
  its arguments and its result; \<open>phase_step\<close> is the protocol, one state machine over those calls;
  the refinement says that every run of the transaction, on any host, is a run of the protocol, and
  that its result says in which phase it ended.
\<close>

subsection \<open>Calls and their record\<close>

datatype update_call =
    ProveCurrent kind check_proof
  | Capture kind "capture option"
  | Pull pin_refs bool
  | Stop kind bool
  | Snapshot kind "data_snapshot option"
  | Mutate kind pin_refs "string list" bool
  | Start kind bool
  | ProveNew kind check_proof
  | RestoreData kind data_snapshot bool
  | Restore kind capture "string list" bool
  | ProveRestored kind check_proof
  | Commit kind pin_refs previous bool

definition logged :: "('r \<Rightarrow> update_call) \<Rightarrow> ('h \<Rightarrow> 'r \<times> 'h) \<Rightarrow> 'h \<times> update_call list \<Rightarrow> 'r \<times> 'h \<times> update_call list" where
  "logged mk f s = (case s of (h, tr) \<Rightarrow> (case f h of (r, h') \<Rightarrow> (r, h', tr @ [mk r])))"

definition right :: "'a + 'b \<Rightarrow> 'b option" where
  "right x = (case x of Inl _ \<Rightarrow> None | Inr b \<Rightarrow> Some b)"

definition traced :: "('c, 'h) update_deps \<Rightarrow> ('c, 'h \<times> update_call list) update_deps" where
  "traced d = \<lparr>
     ud_prove_current = (\<lambda>c k. logged (ProveCurrent k) (ud_prove_current d c k)),
     ud_capture = (\<lambda>k. logged (\<lambda>r. Capture k (right r)) (ud_capture d k)),
     ud_pull = map_option (\<lambda>f c refs. logged (\<lambda>e. Pull refs (e = None)) (f c refs)) (ud_pull d),
     ud_mutate = (\<lambda>c k refs. logged (\<lambda>(rs, e). Mutate k refs rs (e = None)) (ud_mutate d c k refs)),
     ud_stop = map_option (\<lambda>f c k. logged (\<lambda>e. Stop k (e = None)) (f c k)) (ud_stop d),
     ud_snapshot = map_option (\<lambda>f c k. logged (\<lambda>r. Snapshot k (right r)) (f c k)) (ud_snapshot d),
     ud_start = map_option (\<lambda>f c k. logged (\<lambda>e. Start k (e = None)) (f c k)) (ud_start d),
     ud_prove_new = (\<lambda>c k. logged (ProveNew k) (ud_prove_new d c k)),
     ud_restore = (\<lambda>c k cap rs. logged (\<lambda>e. Restore k cap rs (e = None)) (ud_restore d c k cap rs)),
     ud_restore_data = map_option (\<lambda>f c k s. logged (\<lambda>e. RestoreData k s (e = None)) (f c k s)) (ud_restore_data d),
     ud_prove_restored = map_option (\<lambda>f c k. logged (ProveRestored k) (f c k)) (ud_prove_restored d),
     ud_commit = (\<lambda>k refs prev. logged (\<lambda>e. Commit k refs prev (e = None)) (ud_commit d k refs prev)),
     ud_budget = ud_budget d,
     ud_without_cancel = ud_without_cancel d,
     ud_now = map_option (\<lambda>f s. case s of (h, tr) \<Rightarrow> (case f h of (r, h') \<Rightarrow> (r, h', tr))) (ud_now d)\<rparr>"

subsection \<open>The protocol\<close>

text \<open>Whether the seams of the stopped window are all there.\<close>

definition wired :: "('c, 'h) update_deps \<Rightarrow> bool" where
  "wired d \<longleftrightarrow> ud_stop d \<noteq> None \<and> ud_start d \<noteq> None \<and> ud_restore_data d \<noteq> None"

text \<open>The phases: what is up, what is captured, what has been restarted.\<close>

datatype phase =
    Untouched
  | Healthy
  | Captured capture
  | Pulled capture
  | StopFailed
  | Stopped capture
  | Unsnapped
  | Snapped capture
  | MovedDown capture "string list"
  | Moved capture "string list"
  | Broken capture "string list"
  | Proven capture
  | Done bool
  | Down capture "string list"
  | DataBack capture "string list"
  | DataLost
  | TupleBackDown
  | TupleLostDown
  | TupleBack
  | Gone bool
  | Stuck
  | Back

inductive phase_step :: "bool \<Rightarrow> target \<Rightarrow> phase \<Rightarrow> update_call \<Rightarrow> phase \<Rightarrow> bool" for w t where
  healthy: "passes p \<Longrightarrow> phase_step w t Untouched (ProveCurrent (tg_subsystem t) p) Healthy"
| unhealthy: "\<not> passes p \<Longrightarrow> phase_step w t Untouched (ProveCurrent (tg_subsystem t) p) (Gone False)"
| captured: "phase_step w t Healthy (Capture (tg_subsystem t) (Some cap)) (Captured cap)"
| uncaptured: "phase_step w t Healthy (Capture (tg_subsystem t) None) (Gone False)"
| pulled: "phase_step w t (Captured cap) (Pull (tg_pins t) True) (Pulled cap)"
| unpulled: "phase_step w t (Captured cap) (Pull (tg_pins t) False) (Gone False)"
| moved: "\<not> owns_persistent_state (tg_subsystem t) \<Longrightarrow> P \<in> {Captured cap, Pulled cap} \<Longrightarrow>
    phase_step w t P (Mutate (tg_subsystem t) (tg_pins t) rs ok) (if ok then Moved cap rs else Broken cap rs)"
| stopped: "owns_persistent_state (tg_subsystem t) \<Longrightarrow> P \<in> {Captured cap, Pulled cap} \<Longrightarrow>
    phase_step w t P (Stop (tg_subsystem t) ok) (if ok then Stopped cap else StopFailed)"
| snapped: "phase_step w t (Stopped cap) (Snapshot (tg_subsystem t) (Some s)) (Snapped (cap\<lparr>cap_data := s\<rparr>))"
| unsnapped: "phase_step w t (Stopped cap) (Snapshot (tg_subsystem t) None) Unsnapped"
| reopen: "P \<in> {StopFailed, Unsnapped} \<Longrightarrow> phase_step w t P (Start (tg_subsystem t) ok) (Gone (\<not> ok))"
| moved_down: "phase_step w t (Snapped cap) (Mutate (tg_subsystem t) (tg_pins t) rs ok)
    (if ok then MovedDown cap rs else Broken cap rs)"
| started: "phase_step w t (MovedDown cap rs) (Start (tg_subsystem t) ok) (if ok then Moved cap rs else Broken cap rs)"
| proven: "phase_step w t (Moved cap rs) (ProveNew (tg_subsystem t) p) (if passes p then Proven cap else Broken cap rs)"
| committed: "phase_step w t (Proven cap) (Commit (tg_subsystem t) (tg_pins t) (previous_of cap now) ok) (Done ok)"
| down: "taken (cap_data cap) \<Longrightarrow>
    phase_step w t (Broken cap rs) (Stop (tg_subsystem t) ok) (if ok then Down cap rs else Stuck)"
| data_back: "P = Down cap rs \<or> (\<not> w \<and> P = Broken cap rs) \<Longrightarrow> taken (cap_data cap) \<Longrightarrow>
    phase_step w t P (RestoreData (tg_subsystem t) (cap_data cap) ok) (if ok then DataBack cap rs else DataLost)"
| data_lost_up: "phase_step w t DataLost (Start (tg_subsystem t) ok) Stuck"
| restored: "\<not> taken (cap_data cap) \<or> \<not> w \<Longrightarrow> phase_step w t (Broken cap rs) (Restore (tg_subsystem t) cap rs ok) (if ok then TupleBack else Stuck)"
| restored_down: "phase_step w t (DataBack cap rs) (Restore (tg_subsystem t) cap rs ok)
    (if ok then TupleBackDown else TupleLostDown)"
| tuple_lost_up: "phase_step w t TupleLostDown (Start (tg_subsystem t) ok) Stuck"
| tuple_back_up: "phase_step w t TupleBackDown (Start (tg_subsystem t) ok) (if ok then TupleBack else Stuck)"
| proven_back: "P = TupleBack \<or> (\<not> w \<and> P = TupleBackDown) \<Longrightarrow>
    phase_step w t P (ProveRestored (tg_subsystem t) p) (if passes p then Back else Stuck)"

inductive phase_run :: "bool \<Rightarrow> target \<Rightarrow> phase \<Rightarrow> update_call list \<Rightarrow> phase \<Rightarrow> bool" for w t where
  stay: "phase_run w t P [] P"
| onward: "phase_run w t P tr Q \<Longrightarrow> phase_step w t Q ev R \<Longrightarrow> phase_run w t P (tr @ [ev]) R"

inductive_cases phase_runE: "phase_run w t P tr Q"

lemmas phase_steps = phase_step.intros

subsection \<open>The refinement\<close>

definition rolled_end :: "('c, 'h) update_deps \<Rightarrow> bool \<Rightarrow> phase \<Rightarrow> bool" where
  "rolled_end d incomplete P \<longleftrightarrow>
     (if incomplete then P = Stuck \<or> (ud_start d = None \<and> P \<in> {DataLost, TupleLostDown})
      else P = Back \<or> (ud_prove_restored d = None \<and> (P = TupleBack \<or> (\<not> wired d \<and> P = TupleBackDown))))"

text \<open>In which phase a result says the run ended.\<close>

definition result_phase :: "('c, 'h) update_deps \<Rightarrow> subsystem_result \<Rightarrow> phase \<Rightarrow> bool" where
  "result_phase d r P \<longleftrightarrow>
     (case sr_outcome r of
        NothingToDo \<Rightarrow> P = Untouched
      | NotTried \<Rightarrow> False
      | RefusedUnhealthy \<Rightarrow>
          P = Gone (sr_incomplete r) \<or> (\<not> sr_incomplete r \<and> (\<exists>cap. P = Captured cap \<or> P = Pulled cap))
      | Committed \<Rightarrow> P = Done (sr_err r = []) \<and> \<not> sr_incomplete r
      | _ \<Rightarrow> rolled_end d (sr_incomplete r) P)"

lemma traced_sel:
  "ud_prove_current (traced d) c k = logged (ProveCurrent k) (ud_prove_current d c k)"
  "ud_capture (traced d) k = logged (\<lambda>r. Capture k (right r)) (ud_capture d k)"
  "ud_pull (traced d) = map_option (\<lambda>f c refs. logged (\<lambda>e. Pull refs (e = None)) (f c refs)) (ud_pull d)"
  "ud_mutate (traced d) c k refs = logged (\<lambda>(rs, e). Mutate k refs rs (e = None)) (ud_mutate d c k refs)"
  "ud_stop (traced d) = map_option (\<lambda>f c k. logged (\<lambda>e. Stop k (e = None)) (f c k)) (ud_stop d)"
  "ud_snapshot (traced d) = map_option (\<lambda>f c k. logged (\<lambda>r. Snapshot k (right r)) (f c k)) (ud_snapshot d)"
  "ud_start (traced d) = map_option (\<lambda>f c k. logged (\<lambda>e. Start k (e = None)) (f c k)) (ud_start d)"
  "ud_prove_new (traced d) c k = logged (ProveNew k) (ud_prove_new d c k)"
  "ud_restore (traced d) c k cap rs = logged (\<lambda>e. Restore k cap rs (e = None)) (ud_restore d c k cap rs)"
  "ud_restore_data (traced d) =
     map_option (\<lambda>f c k s. logged (\<lambda>e. RestoreData k s (e = None)) (f c k s)) (ud_restore_data d)"
  "ud_prove_restored (traced d) = map_option (\<lambda>f c k. logged (ProveRestored k) (f c k)) (ud_prove_restored d)"
  "ud_commit (traced d) k refs prev = logged (\<lambda>e. Commit k refs prev (e = None)) (ud_commit d k refs prev)"
  "ud_budget (traced d) = ud_budget d" "ud_without_cancel (traced d) = ud_without_cancel d"
  "ud_now (traced d) = map_option (\<lambda>f s. case s of (h, tr) \<Rightarrow> (case f h of (r, h') \<Rightarrow> (r, h', tr))) (ud_now d)"
  by (simp_all add: traced_def)

lemma traced_contexts:
  "rollback_context (traced d) c k = rollback_context d c k" "budgeted (traced d) c k = budgeted d c k"
  by (simp_all add: rollback_context_def budgeted_def traced_sel split: option.split)

lemma logged_eq: "f h = (r, h') \<Longrightarrow> logged mk f (h, tr) = (r, h', tr @ [mk r])"
  by (simp add: logged_def)

text \<open>A seam that may be nil records a call when it is there.\<close>

lemma call_if_traced_start:
  obtains (none) "ud_start d = None" "call_if (ud_start (traced d)) c k (h, tr) = (None, h, tr)"
  | (called) e h' where "call_if (ud_start (traced d)) c k (h, tr) = (e, h', tr @ [Start k (e = None)])"
proof (cases "ud_start d")
  case None
  then show ?thesis using that(1) by (simp add: call_if_def traced_sel)
next
  case (Some f)
  obtain e h' where "f c k h = (e, h')" by fastforce
  with Some show ?thesis using that(2) by (simp add: call_if_def traced_sel logged_def)
qed

lemma rollback_tuple_trace:
  assumes run: "phase_run (wired d) t U tr (if rd then DataBack cap rs else Broken cap rs)"
    and rd: "rd \<or> \<not> taken (cap_data cap) \<or> \<not> wired d"
    and k: "sr_subsystem sr = tg_subsystem t" and inc: "\<not> sr_incomplete sr"
    and eq: "rollback_tuple (traced d) c sr cap rs cause rd (h, tr) = (r, h', tr')"
  shows "\<exists>Q. phase_run (wired d) t U tr' Q \<and> rolled_end d (sr_incomplete r) Q \<and> sr_outcome r = sr_outcome sr"
proof -
  let ?k = "tg_subsystem t"
  obtain e h1 where re: "ud_restore d c ?k cap rs h = (e, h1)" by fastforce
  have lre: "logged (\<lambda>e. Restore ?k cap rs (e = None)) (ud_restore d c ?k cap rs) (h, tr)
      = (e, h1, tr @ [Restore ?k cap rs (e = None)])"
    by (rule logged_eq) (rule re)
  let ?tr1 = "tr @ [Restore ?k cap rs (e = None)]"
  show ?thesis
  proof (cases e)
    case fail: (Some x)
    show ?thesis
    proof (cases rd)
      case False
      have "phase_run (wired d) t U ?tr1 Stuck"
        using phase_run.onward [OF run] restored [of cap "wired d" t rs False] fail False rd by simp
      then show ?thesis using eq fail False k lre by (auto simp: rollback_tuple_def traced_sel rolled_end_def)
    next
      case True
      have l: "phase_run (wired d) t U ?tr1 TupleLostDown"
        using phase_run.onward [OF run] restored_down [of "wired d" t cap rs False] fail True by simp
      show ?thesis
      proof (cases d c ?k h1 ?tr1 rule: call_if_traced_start)
        case none
        with l show ?thesis using eq fail True k lre by (auto simp: rollback_tuple_def traced_sel rolled_end_def)
      next
        case (called se h2)
        with phase_run.onward [OF l tuple_lost_up [of "wired d" t "se = None"]] show ?thesis
          using eq fail True k lre by (auto simp: rollback_tuple_def traced_sel rolled_end_def)
      qed
    qed
  next
    case ok: None
    let ?trk = "tr @ [Restore ?k cap rs True]"
    text \<open>The tuple is back; what remains is the start, when the window is open, and the proof.\<close>
    have prove: "\<exists>Q. phase_run (wired d) t U tr' Q \<and> rolled_end d (sr_incomplete r) Q \<and> sr_outcome r = sr_outcome sr"
      if p: "phase_run (wired d) t U tr2 P" "P = TupleBack \<or> (\<not> wired d \<and> P = TupleBackDown)"
        and q: "(case ud_prove_restored (traced d) of None \<Rightarrow> (sr, h2, tr2)
               | Some prove \<Rightarrow> (case prove c (sr_subsystem sr) (h2, tr2) of (p, h) \<Rightarrow>
                   if \<not> passes p then (sr\<lparr>sr_incomplete := True, sr_err := cause @ [RestoredNotProven (cp_detail p)]\<rparr>, h)
                   else (sr, h))) = (r, h', tr')" for tr2 P h2
    proof (cases "ud_prove_restored d")
      case None
      with p q inc show ?thesis by (auto simp: traced_sel rolled_end_def)
    next
      case (Some f)
      obtain pr h3 where f: "f c ?k h2 = (pr, h3)" by fastforce
      have "phase_run (wired d) t U (tr2 @ [ProveRestored ?k pr]) (if passes pr then Back else Stuck)"
        by (rule phase_run.onward [OF p(1) proven_back [OF p(2)]])
      then show ?thesis using q Some inc logged_eq [where f = "f c ?k", OF f]
        by (auto simp: traced_sel k rolled_end_def split: if_splits)
    qed
    show ?thesis
    proof (cases rd)
      case False
      have "phase_run (wired d) t U ?trk TupleBack"
        using phase_run.onward [OF run] restored [of cap "wired d" t rs True] ok False rd by simp
      then show ?thesis
        using eq ok False k lre by (intro prove) (auto simp: rollback_tuple_def traced_sel(9))
    next
      case True
      have l: "phase_run (wired d) t U ?trk TupleBackDown"
        using phase_run.onward [OF run] restored_down [of "wired d" t cap rs True] ok True by simp
      show ?thesis
      proof (cases d c ?k h1 ?trk rule: call_if_traced_start)
        case none
        then have "\<not> wired d" by (simp add: wired_def)
        with none l show ?thesis using eq ok True k lre
          by (intro prove [where ?h2.0 = h1 and ?tr2.0 = ?trk]) (auto simp: rollback_tuple_def traced_sel(9))
      next
        case (called se h2)
        have l2: "phase_run (wired d) t U (?trk @ [Start ?k (se = None)]) (if se = None then TupleBack else Stuck)"
          by (rule phase_run.onward [OF l tuple_back_up])
        show ?thesis
        proof (cases se)
          case None
          with l2 show ?thesis using eq ok True k lre called
            by (intro prove [where ?h2.0 = h2 and ?tr2.0 = "tr @ [Restore ?k cap rs True, Start ?k True]"]) (auto simp: rollback_tuple_def traced_sel(9))
        next
          case (Some x)
          with l2 show ?thesis using eq ok True k lre called
            by (auto simp: rollback_tuple_def traced_sel(9) rolled_end_def)
        qed
      qed
    qed
  qed
qed

lemma call_if_traced_stop:
  obtains (none) "ud_stop d = None" "call_if (ud_stop (traced d)) c k (h, tr) = (None, h, tr)"
  | (called) e h' where "call_if (ud_stop (traced d)) c k (h, tr) = (e, h', tr @ [Stop k (e = None)])"
proof (cases "ud_stop d")
  case None
  then show ?thesis using that(1) by (simp add: call_if_def traced_sel)
next
  case (Some f)
  obtain e h' where "f c k h = (e, h')" by fastforce
  with Some show ?thesis using that(2) by (simp add: call_if_def traced_sel logged_def)
qed

text \<open>The data half of a rollback, once the window is open.\<close>

lemma rollback_data_trace:
  assumes run: "phase_run (wired d) t U tr P" "P = Down cap rs \<or> (\<not> wired d \<and> P = Broken cap rs)" and tk: "taken (cap_data cap)"
    and rd: "ud_restore_data d = Some f" and k: "sr_subsystem sr = tg_subsystem t" and inc: "\<not> sr_incomplete sr"
    and eq: "(case logged (\<lambda>e. RestoreData (tg_subsystem t) (cap_data cap) (e = None))
            (f c (tg_subsystem t) (cap_data cap)) (h, tr) of
          (Some e, h) \<Rightarrow> (case call_if (ud_start (traced d)) c (tg_subsystem t) h of (se, h) \<Rightarrow>
             (sr\<lparr>sr_incomplete := True, sr_err := cause @ DataNotRestored e # err_if ServicesNotStarted se\<rparr>, h))
        | (None, h) \<Rightarrow> rollback_tuple (traced d) c sr cap rs cause True h) = (r, h', tr')"
  shows "\<exists>Q. phase_run (wired d) t U tr' Q \<and> rolled_end d (sr_incomplete r) Q \<and> sr_outcome r = sr_outcome sr"
proof -
  let ?k = "tg_subsystem t"
  obtain e h1 where fe: "f c ?k (cap_data cap) h = (e, h1)" by fastforce
  have lf: "logged (\<lambda>e. RestoreData ?k (cap_data cap) (e = None)) (f c ?k (cap_data cap)) (h, tr)
      = (e, h1, tr @ [RestoreData ?k (cap_data cap) (e = None)])"
    by (rule logged_eq) (rule fe)
  have l: "phase_run (wired d) t U (tr @ [RestoreData ?k (cap_data cap) (e = None)]) (if e = None then DataBack cap rs else DataLost)"
    by (rule phase_run.onward [OF run(1) data_back [OF run(2) tk]])
  show ?thesis
  proof (cases e)
    case None
    then have "phase_run (wired d) t U (tr @ [RestoreData ?k (cap_data cap) True]) (if True then DataBack cap rs else Broken cap rs)"
      using l by simp
    moreover have "rollback_tuple (traced d) c sr cap rs cause True (h1, tr @ [RestoreData ?k (cap_data cap) True]) = (r, h', tr')"
      using eq lf None by simp
    ultimately show ?thesis by (intro rollback_tuple_trace [OF _ _ k inc]) simp_all
  next
    case (Some x)
    then have l: "phase_run (wired d) t U (tr @ [RestoreData ?k (cap_data cap) False]) DataLost" using l by simp
    show ?thesis
    proof (cases d c ?k h1 "tr @ [RestoreData ?k (cap_data cap) False]" rule: call_if_traced_start)
      case none
      with l eq lf Some show ?thesis by (auto simp: rolled_end_def)
    next
      case (called se h2)
      with phase_run.onward [OF l data_lost_up [of "wired d" t "se = None"]] eq lf Some show ?thesis
        by (auto simp: rolled_end_def)
    qed
  qed
qed

lemma rollback_trace:
  assumes run: "phase_run (wired d) t U tr (Broken cap rs)" and k: "sr_subsystem sr = tg_subsystem t"
    and inc: "\<not> sr_incomplete sr"
    and eq: "rollback (traced d) c sr cap rs p oc cause step (h, tr) = (r, h', tr')"
  shows "\<exists>Q. phase_run (wired d) t U tr' Q \<and> rolled_end d (sr_incomplete r) Q \<and> sr_outcome r = oc"
proof -
  let ?k = "tg_subsystem t"
  define c' where "c' = rollback_context d c ?k"
  define sr' where "sr' = sr\<lparr>sr_outcome := oc, sr_proof := p, sr_err := cause, sr_failed_step := step\<rparr>"
  have sr': "sr_subsystem sr' = ?k" "\<not> sr_incomplete sr'" "sr_outcome sr' = oc"
    using k inc by (simp_all add: sr'_def)
  note eq2 = eq [unfolded rollback_def Let_def, folded sr'_def, unfolded traced_contexts sr'(1), folded c'_def]
  show ?thesis
  proof (cases "taken (cap_data cap) \<and> ud_restore_data d \<noteq> None")
    case False
    then have "rollback_tuple (traced d) c' sr' cap rs cause False (h, tr) = (r, h', tr')"
      using eq2 by (auto simp: traced_sel(10) split: if_splits)
    moreover have "\<not> taken (cap_data cap) \<or> \<not> wired d" using False by (auto simp: wired_def)
    ultimately show ?thesis 
      using rollback_tuple_trace [where rd = False and sr = sr' and cap = cap and d = d and t = t and U = U and tr = tr
          and rs = rs and c = c' and cause = cause and h = h and r = r and h' = h' and tr' = tr'] run sr' by simp
  next
    case True
    then obtain f where f: "ud_restore_data d = Some f" and tk: "taken (cap_data cap)" by blast
    have eq': "(case call_if (ud_stop (traced d)) c' ?k (h, tr) of
        (Some e, h) \<Rightarrow> (sr'\<lparr>sr_incomplete := True, sr_err := cause @ [StopForRestore e]\<rparr>, h)
      | (None, h) \<Rightarrow> (case logged (\<lambda>e. RestoreData ?k (cap_data cap) (e = None))
            (f c' ?k (cap_data cap)) h of
          (Some e, h) \<Rightarrow> (case call_if (ud_start (traced d)) c' ?k h of (se, h) \<Rightarrow>
             (sr'\<lparr>sr_incomplete := True, sr_err := cause @ DataNotRestored e # err_if ServicesNotStarted se\<rparr>, h))
        | (None, h) \<Rightarrow> rollback_tuple (traced d) c' sr' cap rs cause True h)) = (r, h', tr')"
      using eq2 f tk by (simp add: traced_sel(10))
    show ?thesis
    proof (cases d c' ?k h tr rule: call_if_traced_stop)
      case none
      then have "\<not> wired d" by (simp add: wired_def)
      with none rollback_data_trace [OF run _ tk f sr'(1,2), where c = c'] eq' sr'(3) show ?thesis by simp
    next
      case (called se h1)
      have l: "phase_run (wired d) t U (tr @ [Stop ?k (se = None)]) (if se = None then Down cap rs else Stuck)"
        by (rule phase_run.onward [OF run down [OF tk]])
      show ?thesis
      proof (cases se)
        case None
        with l have "phase_run (wired d) t U (tr @ [Stop ?k True]) (Down cap rs)" by simp
        from rollback_data_trace [OF this _ tk f sr'(1,2), where c = c'] eq' called None sr'(3)
        show ?thesis by simp
      next
        case (Some x)
        with l eq' called sr'(3) show ?thesis by (auto simp: rolled_end_def)
      qed
    qed
  qed
qed

lemma finish_trace:
  assumes run: "phase_run (wired d) t U tr (Moved cap rs)" and k: "sr_subsystem sr = tg_subsystem t"
    and inc: "\<not> sr_incomplete sr" and err: "sr_err sr = []"
    and eq: "finish_after_mutation (traced d) c sr cap rs t (h, tr) = (r, h', tr')"
  shows "\<exists>Q. phase_run (wired d) t U tr' Q \<and> result_phase d r Q"
proof -
  let ?k = "tg_subsystem t"
  obtain p h1 where pn: "ud_prove_new d c ?k h = (p, h1)" by fastforce
  have lp: "ud_prove_new (traced d) c ?k (h, tr) = (p, h1, tr @ [ProveNew ?k p])"
    unfolding traced_sel by (rule logged_eq) (rule pn)
  have l: "phase_run (wired d) t U (tr @ [ProveNew ?k p]) (if passes p then Proven cap else Broken cap rs)"
    by (rule phase_run.onward [OF run proven])
  show ?thesis
  proof (cases "passes p")
    case False
    let ?oc = "if cp_status p \<noteq> ProofFail then RolledBackReject else RolledBackFail"
    have "rollback (traced d) c sr cap rs p ?oc [] ''prove'' (h1, tr @ [ProveNew ?k p]) = (r, h', tr')"
      using eq lp False by (simp add: finish_after_mutation_def)
    from rollback_trace [OF _ k inc this] l False
    obtain Q where "phase_run (wired d) t U tr' Q" "rolled_end d (sr_incomplete r) Q" "sr_outcome r = ?oc" by auto
    then show ?thesis by (intro exI [of _ Q]) (simp add: result_phase_def split: if_splits)
  next
    case True
    obtain now h2 where nw: "(case ud_now (traced d) of None \<Rightarrow> ([], h1, tr @ [ProveNew ?k p])
        | Some f \<Rightarrow> f (h1, tr @ [ProveNew ?k p])) = (now, h2, tr @ [ProveNew ?k p])"
    proof (cases "ud_now d")
      case None
      then show ?thesis using that by (simp add: traced_sel)
    next
      case (Some f)
      obtain n h2 where "f h1 = (n, h2)" by fastforce
      with Some show ?thesis using that by (simp add: traced_sel)
    qed
    obtain e h3 where cm: "ud_commit d ?k (tg_pins t) (previous_of cap now) h2 = (e, h3)" by fastforce
    let ?ev = "Commit ?k (tg_pins t) (previous_of cap now) (e = None)"
    have lc: "ud_commit (traced d) ?k (tg_pins t) (previous_of cap now) (h2, tr @ [ProveNew ?k p])
        = (e, h3, (tr @ [ProveNew ?k p]) @ [?ev])"
      unfolding traced_sel by (rule logged_eq) (rule cm)
    from l True have l: "phase_run (wired d) t U (tr @ [ProveNew ?k p]) (Proven cap)" by simp
    have l2: "phase_run (wired d) t U ((tr @ [ProveNew ?k p]) @ [?ev]) (Done (e = None))"
      by (rule phase_run.onward [OF l committed])
    have "tr' = (tr @ [ProveNew ?k p]) @ [?ev] \<and> sr_outcome r = Committed \<and> (sr_err r = [] \<longleftrightarrow> e = None)
        \<and> sr_incomplete r = sr_incomplete sr"
      using eq lp True nw lc err by (cases e) (auto simp: finish_after_mutation_def)
    with l2 inc show ?thesis by (auto simp: result_phase_def)
  qed
qed

lemma stateful_trace:
  assumes run: "phase_run (wired d) t U tr P" "P \<in> {Captured cap, Pulled cap}" and own: "owns_persistent_state (tg_subsystem t)"
    and k: "sr_subsystem sr = tg_subsystem t" and inc: "\<not> sr_incomplete sr" and err: "sr_err sr = []"
    and eq: "run_stateful_mutation (traced d) c sr cap t (h, tr) = (r, h', tr')"
  shows "\<exists>Q. phase_run (wired d) t U tr' Q \<and> result_phase d r Q"
proof (cases "ud_stop d = None \<or> ud_snapshot d = None \<or> ud_start d = None \<or> ud_restore_data d = None")
  case True
  then have "tr' = tr \<and> r = refused sr ''snapshot'' [NoSeam] (sr_incomplete sr) (rejected NoSnapshotSeam)"
    using eq by (auto simp: run_stateful_mutation_def traced_sel split: option.splits)
  with run inc show ?thesis by (auto simp: refused_def result_phase_def)
next
  case False
  let ?k = "tg_subsystem t"
  from False obtain stop snap start rdat where seams: "ud_stop d = Some stop" "ud_snapshot d = Some snap"
    "ud_start d = Some start" "ud_restore_data d = Some rdat" by auto
  note sel = traced_sel(5,6,7,10) seams option.map
  obtain e h1 where st: "stop c ?k h = (e, h1)" by fastforce
  have ls: "logged (\<lambda>e. Stop ?k (e = None)) (stop c ?k) (h, tr) = (e, h1, tr @ [Stop ?k (e = None)])"
    by (rule logged_eq) (rule st)
  have l: "phase_run (wired d) t U (tr @ [Stop ?k (e = None)]) (if e = None then Stopped cap else StopFailed)"
    by (rule phase_run.onward [OF run(1) stopped [OF own run(2)]])
  have reopened: "\<exists>Q. phase_run (wired d) t U tr' Q \<and> result_phase d r Q"
    if "phase_run (wired d) t U tr1 P1" "P1 \<in> {StopFailed, Unsnapped}"
      "(case logged (\<lambda>e. Start ?k (e = None)) (start c ?k) (hh, tr1) of (se, h) \<Rightarrow>
          (refused sr step (f se) (se \<noteq> None) pr, h)) = (r, h', tr')" for tr1 P1 hh step f pr
  proof -
    obtain se h2 where "start c ?k hh = (se, h2)" by fastforce
    then have "logged (\<lambda>e. Start ?k (e = None)) (start c ?k) (hh, tr1) = (se, h2, tr1 @ [Start ?k (se = None)])"
      by (rule logged_eq)
    with that(3) have "tr' = tr1 @ [Start ?k (se = None)]" "r = refused sr step (f se) (se \<noteq> None) pr" by auto
    moreover have "phase_run (wired d) t U (tr1 @ [Start ?k (se = None)]) (Gone (\<not> (se = None)))"
      by (rule phase_run.onward [OF that(1) reopen [OF that(2)]])
    ultimately show ?thesis by (auto simp: refused_def result_phase_def)
  qed
  show ?thesis
  proof (cases e)
    case (Some x)
    then have "(case logged (\<lambda>e. Start ?k (e = None)) (start c ?k) (h1, tr @ [Stop ?k False]) of (se, h) \<Rightarrow>
          (refused sr ''stop'' (Failed x # err_if StillStopped se) (se \<noteq> None) (rejected NotStopped), h)) = (r, h', tr')"
      using eq ls by (simp add: run_stateful_mutation_def sel)
    moreover have "phase_run (wired d) t U (tr @ [Stop ?k False]) StopFailed" using l Some by simp
    ultimately show ?thesis by (intro reopened) auto
  next
    case None
    then have l: "phase_run (wired d) t U (tr @ [Stop ?k True]) (Stopped cap)" using l by simp
    obtain sn h2 where sn: "snap c ?k h1 = (sn, h2)" by fastforce
    have lsn: "logged (\<lambda>r. Snapshot ?k (right r)) (snap c ?k) (h1, tr @ [Stop ?k True])
        = (sn, h2, (tr @ [Stop ?k True]) @ [Snapshot ?k (right sn)])"
      by (rule logged_eq) (rule sn)
    show ?thesis
    proof (cases sn)
      case (Inl x)
      then have l2: "phase_run (wired d) t U ((tr @ [Stop ?k True]) @ [Snapshot ?k (right sn)]) Unsnapped"
        using phase_run.onward [OF l unsnapped] by (simp add: right_def)
      have "(case logged (\<lambda>e. Start ?k (e = None)) (start c ?k) (h2, (tr @ [Stop ?k True]) @ [Snapshot ?k (right sn)]) of
          (se, h) \<Rightarrow> (refused sr ''snapshot'' (Failed x # err_if StillStopped se) (se \<noteq> None)
             (rejected (NotSnapshotted x)), h)) = (r, h', tr')"
        using eq ls None lsn Inl by (simp add: run_stateful_mutation_def sel)
      from reopened [OF l2 _ this] show ?thesis by simp
    next
      case (Inr s)
      let ?cap = "cap\<lparr>cap_data := s\<rparr>" and ?sr = "sr\<lparr>sr_snapshot := s\<rparr>"
      let ?tr2 = "(tr @ [Stop ?k True]) @ [Snapshot ?k (Some s)]"
      have l2: "phase_run (wired d) t U ?tr2 (Snapped ?cap)" by (rule phase_run.onward [OF l snapped])
      obtain rs me h3 where mu: "ud_mutate d c ?k (tg_pins t) h2 = ((rs, me), h3)" by (metis prod.collapse)
      let ?tr3 = "?tr2 @ [Mutate ?k (tg_pins t) rs (me = None)]"
      have lm: "ud_mutate (traced d) c ?k (tg_pins t) (h2, ?tr2) = ((rs, me), h3, ?tr3)"
        unfolding traced_sel using logged_eq [where f = "ud_mutate d c ?k (tg_pins t)", OF mu] by simp
      have l3: "phase_run (wired d) t U ?tr3 (if me = None then MovedDown ?cap rs else Broken ?cap rs)"
        by (rule phase_run.onward [OF l2 moved_down])
      have sr: "sr_subsystem ?sr = ?k" "\<not> sr_incomplete ?sr" "sr_err ?sr = []" using k inc err by simp_all
      have broken: "\<exists>Q. phase_run (wired d) t U tr' Q \<and> result_phase d r Q"
        if "phase_run (wired d) t U trb (Broken ?cap rs)"
          "rollback (traced d) c ?sr ?cap rs pr RolledBackReject cause step (hb, trb) = (r, h', tr')"
        for trb pr cause step hb
        using rollback_trace [OF that(1) sr(1,2) that(2)] by (auto simp: result_phase_def)
      show ?thesis
      proof (cases me)
        case (Some x)
        then have "phase_run (wired d) t U ?tr3 (Broken ?cap rs)" using l3 by simp
        moreover have "rollback (traced d) c ?sr ?cap rs (rejected (NotMoved x)) RolledBackReject [Failed x] ''mutate''
            (h3, ?tr3) = (r, h', tr')"
          using eq ls None lsn Inr lm Some by (simp add: run_stateful_mutation_def sel right_def)
        ultimately show ?thesis by (rule broken)
      next
        case None': None
        then have l3: "phase_run (wired d) t U ?tr3 (MovedDown ?cap rs)" using l3 by simp
        obtain se h4 where sta: "start c ?k h3 = (se, h4)" by fastforce
        have lst: "logged (\<lambda>e. Start ?k (e = None)) (start c ?k) (h3, ?tr3) = (se, h4, ?tr3 @ [Start ?k (se = None)])"
          by (rule logged_eq) (rule sta)
        have l4: "phase_run (wired d) t U (?tr3 @ [Start ?k (se = None)]) (if se = None then Moved ?cap rs else Broken ?cap rs)"
          by (rule phase_run.onward [OF l3 started])
        show ?thesis
        proof (cases se)
          case se: None
          have "finish_after_mutation (traced d) c ?sr ?cap rs t (h4, ?tr3 @ [Start ?k (se = None)]) = (r, h', tr')"
            using eq ls None lsn Inr lm None' lst se by (simp add: run_stateful_mutation_def sel right_def)
          moreover have "phase_run (wired d) t U (?tr3 @ [Start ?k (se = None)]) (Moved ?cap rs)" using l4 se by simp
          ultimately show ?thesis by (intro finish_trace [OF _ sr])
        next
          case (Some x)
          have "rollback (traced d) c ?sr ?cap rs (rejected (NotStarted x)) RolledBackReject [Failed x] ''start''
              (h4, ?tr3 @ [Start ?k (se = None)]) = (r, h', tr')"
            using eq ls None lsn Inr lm None' lst Some by (simp add: run_stateful_mutation_def sel right_def)
          moreover have "phase_run (wired d) t U (?tr3 @ [Start ?k (se = None)]) (Broken ?cap rs)" using l4 Some by simp
          ultimately show ?thesis by (intro broken)
        qed
      qed
    qed
  qed
qed

lemma stateless_trace:
  assumes run: "phase_run (wired d) t U tr P" "P \<in> {Captured cap, Pulled cap}"
    and own: "\<not> owns_persistent_state (tg_subsystem t)"
    and k: "sr_subsystem sr = tg_subsystem t" and inc: "\<not> sr_incomplete sr" and err: "sr_err sr = []"
    and eq: "mutate_and_finish (traced d) c sr cap t (h, tr) = (r, h', tr')"
  shows "\<exists>Q. phase_run (wired d) t U tr' Q \<and> result_phase d r Q"
proof -
  let ?k = "tg_subsystem t"
  obtain rs me h1 where mu: "ud_mutate d c ?k (tg_pins t) h = ((rs, me), h1)" by (metis prod.collapse)
  let ?tr1 = "tr @ [Mutate ?k (tg_pins t) rs (me = None)]"
  have lm: "ud_mutate (traced d) c ?k (tg_pins t) (h, tr) = ((rs, me), h1, ?tr1)"
    unfolding traced_sel using logged_eq [where f = "ud_mutate d c ?k (tg_pins t)", OF mu] by simp
  have l: "phase_run (wired d) t U ?tr1 (if me = None then Moved cap rs else Broken cap rs)"
    by (rule phase_run.onward [OF run(1) moved [OF own run(2)]])
  show ?thesis
  proof (cases me)
    case None
    then have "finish_after_mutation (traced d) c sr cap rs t (h1, ?tr1) = (r, h', tr')"
      using eq lm by (simp add: mutate_and_finish_def)
    moreover have "phase_run (wired d) t U ?tr1 (Moved cap rs)" using l None by simp
    ultimately show ?thesis by (intro finish_trace [OF _ k inc err])
  next
    case (Some x)
    then have "rollback (traced d) c sr cap rs (rejected (NotMoved x)) RolledBackReject [Failed x] ''mutate'' (h1, ?tr1)
        = (r, h', tr')"
      using eq lm by (simp add: mutate_and_finish_def)
    moreover have "phase_run (wired d) t U ?tr1 (Broken cap rs)" using l Some by simp
    ultimately show ?thesis using rollback_trace [OF _ k inc] by (fastforce simp: result_phase_def)
  qed
qed

lemma fresh_result_sel [simp]:
  "sr_subsystem (fresh_result k oc) = k" "sr_outcome (fresh_result k oc) = oc"
  "\<not> sr_incomplete (fresh_result k oc)" "sr_err (fresh_result k oc) = []"
  by (simp_all add: fresh_result_def)

lemma run_one_trace:
  assumes "run_one (traced d) c t (h, []) = (r, h', tr')"
  shows "\<exists>Q. phase_run (wired d) t Untouched tr' Q \<and> result_phase d r Q"
proof (cases "tg_pins t = []")
  case True
  with assms show ?thesis by (auto simp: run_one_def result_phase_def intro: phase_run.stay)
next
  case False
  let ?k = "tg_subsystem t" and ?sr = "fresh_result (tg_subsystem t) NothingToDo"
  define c' where "c' = budgeted d c ?k"
  note eq = assms [unfolded run_one_def Let_def if_not_P [OF False] traced_contexts, folded c'_def]
  obtain p h1 where pc: "ud_prove_current d c' ?k h = (p, h1)" by fastforce
  have lp: "ud_prove_current (traced d) c' ?k (h, []) = (p, h1, [] @ [ProveCurrent ?k p])"
    unfolding traced_sel by (rule logged_eq) (rule pc)
  note start = phase_run.stay [of "wired d" t Untouched]
  show ?thesis
  proof (cases "passes p")
    case False
    then have "phase_run (wired d) t Untouched ([] @ [ProveCurrent ?k p]) (Gone False)"
      using phase_run.onward [OF start unhealthy] by blast
    moreover have "tr' = [] @ [ProveCurrent ?k p]" "sr_outcome r = RefusedUnhealthy" "\<not> sr_incomplete r"
      using eq lp False by auto
    ultimately show ?thesis by (auto simp: result_phase_def)
  next
    case True
    have l1: "phase_run (wired d) t Untouched [ProveCurrent ?k p] Healthy"
      using phase_run.onward [OF start healthy [OF True]] by simp
    obtain ce h2 where ca: "ud_capture d ?k h1 = (ce, h2)" by fastforce
    have lc: "ud_capture (traced d) ?k (h1, [ProveCurrent ?k p]) = (ce, h2, [ProveCurrent ?k p] @ [Capture ?k (right ce)])"
      unfolding traced_sel by (rule logged_eq) (rule ca)
    show ?thesis
    proof (cases ce)
      case (Inl x)
      then have "phase_run (wired d) t Untouched ([ProveCurrent ?k p] @ [Capture ?k (right ce)]) (Gone False)"
        using phase_run.onward [OF l1 uncaptured] by (simp add: right_def)
      moreover have "tr' = [ProveCurrent ?k p] @ [Capture ?k (right ce)]" "sr_outcome r = RefusedUnhealthy" "\<not> sr_incomplete r"
        using eq lp lc Inl True by (auto simp: refused_def)
      ultimately show ?thesis by (auto simp: result_phase_def)
    next
      case (Inr cap)
      let ?tr2 = "[ProveCurrent ?k p] @ [Capture ?k (Some cap)]"
      have l2: "phase_run (wired d) t Untouched ?tr2 (Captured cap)" by (rule phase_run.onward [OF l1 captured])
      have onward: "\<exists>Q. phase_run (wired d) t Untouched tr' Q \<and> result_phase d r Q"
        if "phase_run (wired d) t Untouched tr3 P" "P \<in> {Captured cap, Pulled cap}"
          "(if owns_persistent_state ?k then run_stateful_mutation (traced d) c' ?sr cap t (h3, tr3)
            else mutate_and_finish (traced d) c' ?sr cap t (h3, tr3)) = (r, h', tr')" for tr3 P h3
        using that stateful_trace [OF that(1,2), of ?sr] stateless_trace [OF that(1,2), of ?sr]
        by (auto split: if_splits)
      show ?thesis
      proof (cases "ud_pull d")
        case None
        then have "(if owns_persistent_state ?k then run_stateful_mutation (traced d) c' ?sr cap t (h2, ?tr2)
            else mutate_and_finish (traced d) c' ?sr cap t (h2, ?tr2)) = (r, h', tr')"
          using eq lp lc Inr True None by (simp add: traced_sel(3) right_def del: owns_persistent_state_iff cong: if_cong split del: if_split)
        from onward [OF l2 _ this] show ?thesis by simp
      next
        case (Some pull)
        obtain pe h3 where pu: "pull c' (tg_pins t) h2 = (pe, h3)" by fastforce
        have lpu: "logged (\<lambda>e. Pull (tg_pins t) (e = None)) (pull c' (tg_pins t)) (h2, ?tr2)
            = (pe, h3, ?tr2 @ [Pull (tg_pins t) (pe = None)])"
          by (rule logged_eq) (rule pu)
        show ?thesis
        proof (cases pe)
          case (Some x)
          then have "phase_run (wired d) t Untouched (?tr2 @ [Pull (tg_pins t) (pe = None)]) (Gone False)"
            using phase_run.onward [OF l2 unpulled] by simp
          moreover have "tr' = ?tr2 @ [Pull (tg_pins t) (pe = None)]" "sr_outcome r = RefusedUnhealthy" "\<not> sr_incomplete r"
            using eq lp lc Inr True \<open>ud_pull d = Some pull\<close> lpu Some
            by (auto simp: refused_def traced_sel(3) right_def)
          ultimately show ?thesis by (auto simp: result_phase_def)
        next
          case None
          then have l3: "phase_run (wired d) t Untouched (?tr2 @ [Pull (tg_pins t) True]) (Pulled cap)"
            using phase_run.onward [OF l2 pulled] by simp
          have "(if owns_persistent_state ?k
              then run_stateful_mutation (traced d) c' ?sr cap t (h3, ?tr2 @ [Pull (tg_pins t) True])
              else mutate_and_finish (traced d) c' ?sr cap t (h3, ?tr2 @ [Pull (tg_pins t) True])) = (r, h', tr')"
            using eq lp lc Inr True \<open>ud_pull d = Some pull\<close> lpu None
            by (simp add: traced_sel(3) right_def del: owns_persistent_state_iff cong: if_cong split del: if_split)
          from onward [OF l3 _ this] show ?thesis by simp
        qed
      qed
    qed
  qed
qed

end
