(* ===== verification/UpdateSafety.thy ===== *)
theory UpdateSafety
  imports UpdateProtocol
begin

subsection \<open>Recording changes nothing\<close>

lemma traced_call_if:
  "map_prod id fst (call_if (ud_stop (traced d)) c k (h, tr)) = call_if (ud_stop d) c k h"
  "map_prod id fst (call_if (ud_start (traced d)) c k (h, tr)) = call_if (ud_start d) c k h"
  by (simp_all add: call_if_def traced_sel logged_def split: option.split prod.split)

lemma traced_rollback_tuple:
  "map_prod id fst (rollback_tuple (traced d) c sr cap rs cause rd (h, tr)) = rollback_tuple d c sr cap rs cause rd h"
  by (auto simp: rollback_tuple_def traced_sel logged_def call_if_def split: option.split prod.split)

lemma traced_rollback:
  "map_prod id fst (rollback (traced d) c sr cap rs p oc cause step (h, tr)) = rollback d c sr cap rs p oc cause step h"
  by (auto simp: rollback_def Let_def traced_sel traced_contexts logged_def call_if_def traced_rollback_tuple split: option.split prod.split)

lemma traced_finish:
  "map_prod id fst (finish_after_mutation (traced d) c sr cap rs t (h, tr)) = finish_after_mutation d c sr cap rs t h"
  by (auto simp: finish_after_mutation_def traced_sel logged_def traced_rollback split: option.split prod.split)

lemma traced_stateful:
  "map_prod id fst (run_stateful_mutation (traced d) c sr cap t (h, tr)) = run_stateful_mutation d c sr cap t h"
  by (auto simp: run_stateful_mutation_def Let_def traced_sel logged_def traced_rollback traced_finish
      split: option.split prod.split sum.split)

lemma traced_stateless:
  "map_prod id fst (mutate_and_finish (traced d) c sr cap t (h, tr)) = mutate_and_finish d c sr cap t h"
  by (auto simp: mutate_and_finish_def traced_sel logged_def traced_rollback traced_finish split: option.split prod.split)

lemma traced_run_one: "map_prod id fst (run_one (traced d) c t (h, tr)) = run_one d c t h"
  unfolding run_one_def Let_def traced_contexts
  by (auto simp: traced_sel logged_def traced_stateful traced_stateless simp del: owns_persistent_state_iff
      split: option.split prod.split sum.split)

text \<open>The calls one subsystem's update makes.\<close>

definition calls :: "('c, 'h) update_deps \<Rightarrow> 'c \<Rightarrow> target \<Rightarrow> 'h \<Rightarrow> update_call list" where
  "calls d c t h = snd (snd (run_one (traced d) c t (h, [])))"

lemma run_one_traced: "run_one (traced d) c t (h, []) = (fst (run_one d c t h), snd (run_one d c t h), calls d c t h)"
  using traced_run_one [of d c t h "[]", symmetric] by (simp add: calls_def prod_eq_iff)

lemma calls_run: "\<exists>Q. phase_run (wired d) t Untouched (calls d c t h) Q \<and> result_phase d (fst (run_one d c t h)) Q"
  by (rule run_one_trace [OF run_one_traced])

subsection \<open>What each phase has behind it\<close>

definition opens :: "target \<Rightarrow> capture \<Rightarrow> update_call list \<Rightarrow> bool" where
  "opens t cap tr \<longleftrightarrow> (\<exists>p. passes p \<and>
     tr \<in> {[ProveCurrent (tg_subsystem t) p, Capture (tg_subsystem t) (Some cap)],
           [ProveCurrent (tg_subsystem t) p, Capture (tg_subsystem t) (Some cap), Pull (tg_pins t) True]})"

text \<open>The forward path up to its mutation, and the capture it would roll back to.\<close>

definition window_opened :: "target \<Rightarrow> data_snapshot \<Rightarrow> update_call list" where
  "window_opened t s = (if owns_persistent_state (tg_subsystem t)
     then [Stop (tg_subsystem t) True, Snapshot (tg_subsystem t) (Some s)] else [])"

definition window_closed :: "target \<Rightarrow> bool \<Rightarrow> update_call list" where
  "window_closed t ok = (if owns_persistent_state (tg_subsystem t) then [Start (tg_subsystem t) ok] else [])"

definition held :: "target \<Rightarrow> capture \<Rightarrow> data_snapshot \<Rightarrow> capture" where
  "held t cap s = (if owns_persistent_state (tg_subsystem t) then cap\<lparr>cap_data := s\<rparr> else cap)"

definition moved_calls :: "target \<Rightarrow> capture \<Rightarrow> string list \<Rightarrow> bool \<Rightarrow> update_call list \<Rightarrow> bool" where
  "moved_calls t cap rs ok tr \<longleftrightarrow> (\<exists>cap0 s pre. opens t cap0 pre \<and> cap = held t cap0 s \<and>
     tr = pre @ window_opened t s @ [Mutate (tg_subsystem t) (tg_pins t) rs ok])"

definition broken_calls :: "target \<Rightarrow> capture \<Rightarrow> string list \<Rightarrow> update_call list \<Rightarrow> bool" where
  "broken_calls t cap rs tr \<longleftrightarrow>
     moved_calls t cap rs False tr
   \<or> (owns_persistent_state (tg_subsystem t) \<and> (\<exists>pre. moved_calls t cap rs True pre \<and> tr = pre @ [Start (tg_subsystem t) False]))
   \<or> (\<exists>pre p. moved_calls t cap rs True pre \<and> \<not> passes p \<and> tr = pre @ window_closed t True @ [ProveNew (tg_subsystem t) p])"

definition unmoved :: "update_call list \<Rightarrow> bool" where
  "unmoved tr \<longleftrightarrow> list_all (\<lambda>ev. case ev of Mutate _ _ _ _ \<Rightarrow> False | Restore _ _ _ _ \<Rightarrow> False | RestoreData _ _ _ \<Rightarrow> False
     | Commit _ _ _ _ \<Rightarrow> False | _ \<Rightarrow> True) tr"

text \<open>The calls of a rollback, in its order; \<open>w\<close> says whether the seams that may be nil are there.\<close>

definition data_calls :: "bool \<Rightarrow> target \<Rightarrow> capture \<Rightarrow> update_call list \<Rightarrow> bool" where
  "data_calls w t cap tr \<longleftrightarrow> taken (cap_data cap) \<and>
     (tr = [Stop (tg_subsystem t) True, RestoreData (tg_subsystem t) (cap_data cap) True]
      \<or> \<not> w \<and> tr = [RestoreData (tg_subsystem t) (cap_data cap) True])"

definition tuple_calls :: "bool \<Rightarrow> target \<Rightarrow> capture \<Rightarrow> string list \<Rightarrow> update_call list \<Rightarrow> bool" where
  "tuple_calls w t cap rs tr \<longleftrightarrow>
     (\<not> taken (cap_data cap) \<or> \<not> w) \<and> tr = [Restore (tg_subsystem t) cap rs True]
   \<or> (\<exists>pre. data_calls w t cap pre \<and> tr = pre @ [Restore (tg_subsystem t) cap rs True, Start (tg_subsystem t) True])"

definition history :: "bool \<Rightarrow> target \<Rightarrow> phase \<Rightarrow> update_call list \<Rightarrow> bool" where
  "history w t P tr = (case P of
     Untouched \<Rightarrow> tr = []
   | Healthy \<Rightarrow> \<exists>p. passes p \<and> tr = [ProveCurrent (tg_subsystem t) p]
   | Captured cap \<Rightarrow> \<exists>p. passes p \<and> tr = [ProveCurrent (tg_subsystem t) p, Capture (tg_subsystem t) (Some cap)]
   | Pulled cap \<Rightarrow> \<exists>p. passes p \<and>
       tr = [ProveCurrent (tg_subsystem t) p, Capture (tg_subsystem t) (Some cap), Pull (tg_pins t) True]
   | StopFailed \<Rightarrow> unmoved tr
   | Stopped cap \<Rightarrow> owns_persistent_state (tg_subsystem t) \<and>
       (\<exists>pre. opens t cap pre \<and> tr = pre @ [Stop (tg_subsystem t) True])
   | Unsnapped \<Rightarrow> unmoved tr
   | Snapped cap \<Rightarrow> owns_persistent_state (tg_subsystem t) \<and>
       (\<exists>cap0 s pre. opens t cap0 pre \<and> cap = held t cap0 s \<and> tr = pre @ window_opened t s)
   | MovedDown cap rs \<Rightarrow> owns_persistent_state (tg_subsystem t) \<and> moved_calls t cap rs True tr
   | Moved cap rs \<Rightarrow> \<exists>pre. moved_calls t cap rs True pre \<and> tr = pre @ window_closed t True
   | Broken cap rs \<Rightarrow> broken_calls t cap rs tr
   | Proven cap \<Rightarrow> \<exists>rs pre p. moved_calls t cap rs True pre \<and> passes p \<and>
       tr = pre @ window_closed t True @ [ProveNew (tg_subsystem t) p]
   | Done ok \<Rightarrow> \<exists>cap rs pre p now. moved_calls t cap rs True pre \<and> passes p \<and>
       tr = pre @ window_closed t True @
         [ProveNew (tg_subsystem t) p, Commit (tg_subsystem t) (tg_pins t) (previous_of cap now) ok]
   | Down cap rs \<Rightarrow> taken (cap_data cap) \<and> (\<exists>pre. broken_calls t cap rs pre \<and> tr = pre @ [Stop (tg_subsystem t) True])
   | DataBack cap rs \<Rightarrow> \<exists>pre dt. broken_calls t cap rs pre \<and> data_calls w t cap dt \<and> tr = pre @ dt
   | TupleBackDown \<Rightarrow> \<exists>cap rs pre dt. broken_calls t cap rs pre \<and> data_calls w t cap dt \<and>
       tr = pre @ dt @ [Restore (tg_subsystem t) cap rs True]
   | TupleBack \<Rightarrow> \<exists>cap rs pre tp. broken_calls t cap rs pre \<and> tuple_calls w t cap rs tp \<and> tr = pre @ tp
   | Back \<Rightarrow> \<exists>cap rs pre tp p. broken_calls t cap rs pre \<and> passes p \<and>
       (tuple_calls w t cap rs tp \<or> \<not> w \<and> (\<exists>dt. data_calls w t cap dt \<and> tp = dt @ [Restore (tg_subsystem t) cap rs True]))
       \<and> tr = pre @ tp @ [ProveRestored (tg_subsystem t) p]
   | Gone _ \<Rightarrow> unmoved tr
   | _ \<Rightarrow> True)"

lemma unmoved_simps [simp]:
  "unmoved []" "unmoved (tr @ tr') \<longleftrightarrow> unmoved tr \<and> unmoved tr'"
  "unmoved (ProveCurrent k p # tr) = unmoved tr" "unmoved (Capture k c # tr) = unmoved tr"
  "unmoved (Pull refs ok # tr) = unmoved tr" "unmoved (Stop k ok # tr) = unmoved tr"
  "unmoved (Snapshot k s # tr) = unmoved tr" "unmoved (Start k ok # tr) = unmoved tr"
  "\<not> unmoved (Mutate k refs rs ok # tr)" "\<not> unmoved (Commit k refs prev ok # tr)"
  "\<not> unmoved (Restore k cap rs ok # tr)" "\<not> unmoved (RestoreData k ds ok # tr)"
  by (auto simp: unmoved_def)

lemma opens_unmoved: "opens t cap tr \<Longrightarrow> unmoved tr"
  by (auto simp: opens_def)

lemma moved_stateless:
  "\<not> owns_persistent_state (tg_subsystem t) \<Longrightarrow> opens t cap tr \<Longrightarrow>
    moved_calls t cap rs ok (tr @ [Mutate (tg_subsystem t) (tg_pins t) rs ok])"
  by (auto simp: moved_calls_def held_def window_opened_def simp del: owns_persistent_state_iff)

lemma moved_stateful:
  "opens t cap0 pre \<Longrightarrow>
    moved_calls t (held t cap0 s) rs ok (pre @ window_opened t s @ [Mutate (tg_subsystem t) (tg_pins t) rs ok])"
  unfolding moved_calls_def by blast

lemma broken_intros:
  "moved_calls t cap rs False tr \<Longrightarrow> broken_calls t cap rs tr"
  "owns_persistent_state (tg_subsystem t) \<Longrightarrow> moved_calls t cap rs True pre \<Longrightarrow>
    broken_calls t cap rs (pre @ [Start (tg_subsystem t) False])"
  "moved_calls t cap rs True pre \<Longrightarrow> \<not> passes p \<Longrightarrow>
    broken_calls t cap rs (pre @ window_closed t True @ [ProveNew (tg_subsystem t) p])"
  unfolding broken_calls_def by blast+

lemma history_opens: "history w t P tr \<Longrightarrow> P \<in> {Captured cap, Pulled cap} \<Longrightarrow> opens t cap tr"
  by (auto simp: history_def opens_def)

lemma history_unmoved:
  "history w t P tr \<Longrightarrow> (case P of Untouched \<Rightarrow> True | Healthy \<Rightarrow> True | Captured _ \<Rightarrow> True | Pulled _ \<Rightarrow> True
     | StopFailed \<Rightarrow> True | Stopped _ \<Rightarrow> True | Unsnapped \<Rightarrow> True | Gone _ \<Rightarrow> True | _ \<Rightarrow> False) \<Longrightarrow> unmoved tr"
  by (cases P) (auto simp: history_def dest: opens_unmoved)

text \<open>Every step keeps the history; the three lemmas take the forward path, the end and the rollback.\<close>

lemma phase_step_history:
  assumes s: "phase_step w t P ev Q" and h: "history w t P tr"
  shows "history w t Q (tr @ [ev])"
  using s
proof cases
  case (moved cap rs ok)
  with moved_stateless [OF moved(3) history_opens [OF h moved(4)]] show ?thesis
    by (auto simp: history_def window_closed_def simp del: owns_persistent_state_iff intro: broken_intros)
next
  case (stopped cap ok)
  then show ?thesis
    using history_opens [OF h stopped(4)] history_unmoved [OF h] 
    by (auto simp: history_def simp del: owns_persistent_state_iff)
next
  case (snapped cap s)
  then show ?thesis using h
    by (auto simp: history_def held_def window_opened_def simp del: owns_persistent_state_iff)
next
  case (moved_down cap rs ok)
  then obtain cap0 s pre where o: "owns_persistent_state (tg_subsystem t)" "opens t cap0 pre" "cap = held t cap0 s"
      "tr = pre @ window_opened t s" using h by (auto simp: history_def simp del: owns_persistent_state_iff)
  with moved_stateful [OF o(2), of s rs ok] moved_down show ?thesis
    by (auto simp: history_def simp del: owns_persistent_state_iff intro: broken_intros)
next
  case (started cap rs ok)
  then show ?thesis using h
    by (auto simp: history_def window_closed_def simp del: owns_persistent_state_iff intro: broken_intros)
next
  case (proven cap rs p)
  then obtain pre where "moved_calls t cap rs True pre" "tr = pre @ window_closed t True"
    using h by (auto simp: history_def)
  with proven broken_intros(3) [of t cap rs pre p] show ?thesis by (auto simp: history_def)
next
  case (data_back cap rs ok)
  let ?rd = "RestoreData (tg_subsystem t) (cap_data cap) True"
  show ?thesis
  proof (cases "ok \<and> P = Down cap rs")
    case True
    with h obtain pre where "broken_calls t cap rs pre" "tr = pre @ [Stop (tg_subsystem t) True]"
      by (auto simp: history_def)
    moreover have "data_calls w t cap [Stop (tg_subsystem t) True, ?rd]" using data_back by (simp add: data_calls_def)
    ultimately show ?thesis using data_back True by (fastforce simp: history_def)
  next
    case False
    moreover have "data_calls w t cap [?rd]" if "P \<noteq> Down cap rs"
      using data_back that by (simp add: data_calls_def)
    ultimately show ?thesis using h data_back by (auto simp: history_def)
  qed
next
  case (restored cap rs ok)
  then show ?thesis using h by (auto simp: history_def tuple_calls_def)
next
  case (tuple_back_up ok)
  then show ?thesis using h by (fastforce simp: history_def tuple_calls_def)
next
  case (proven_back p)
  then show ?thesis using h by (fastforce simp: history_def)
next
  case committed
  then show ?thesis using h by (fastforce simp: history_def)
qed (use h history_unmoved [OF h] in \<open>auto simp: history_def split: if_splits\<close>)

lemma phase_run_history: "phase_run w t P tr Q \<Longrightarrow> P = Untouched \<Longrightarrow> history w t Q tr"
  by (induction rule: phase_run.induct) (auto simp: history_def [of _ _ Untouched] intro: phase_step_history)

lemma calls_history:
  obtains Q where "history (wired d) t Q (calls d c t h)" "result_phase d (fst (run_one d c t h)) Q"
    "phase_run (wired d) t Untouched (calls d c t h) Q"
  using calls_run [of d t c h] phase_run_history by blast

subsection \<open>The window in which the services are down\<close>

definition window_step :: "bool \<Rightarrow> update_call \<Rightarrow> bool" where
  "window_step open ev = (case ev of Stop _ ok \<Rightarrow> open \<or> ok | Start _ ok \<Rightarrow> open \<and> \<not> ok | _ \<Rightarrow> open)"

definition window_open :: "update_call list \<Rightarrow> bool" where
  "window_open tr = foldl window_step False tr"

definition snapshots_taken :: "update_call list \<Rightarrow> bool" where
  "snapshots_taken tr \<longleftrightarrow> list_all (\<lambda>ev. case ev of Snapshot _ (Some s) \<Rightarrow> taken s | _ \<Rightarrow> True) tr"

definition gave_up :: "target \<Rightarrow> update_call list \<Rightarrow> bool" where
  "gave_up t tr \<longleftrightarrow> last tr \<in> {Start (tg_subsystem t) False, Stop (tg_subsystem t) False}"

definition window_state :: "target \<Rightarrow> phase \<Rightarrow> update_call list \<Rightarrow> bool" where
  "window_state t P tr = (case P of
     Stopped cap \<Rightarrow> True | Unsnapped \<Rightarrow> True | DataBack cap rs \<Rightarrow> True | DataLost \<Rightarrow> True
   | TupleBackDown \<Rightarrow> True | TupleLostDown \<Rightarrow> True
   | Snapped cap \<Rightarrow> taken (cap_data cap) | MovedDown cap rs \<Rightarrow> taken (cap_data cap) | Down cap rs \<Rightarrow> taken (cap_data cap)
   | Broken cap rs \<Rightarrow> window_open tr \<longrightarrow> taken (cap_data cap)
   | Gone incomplete \<Rightarrow> window_open tr \<longrightarrow> incomplete \<and> gave_up t tr
   | Stuck \<Rightarrow> window_open tr \<longrightarrow> gave_up t tr
   | _ \<Rightarrow> \<not> window_open tr)"

lemma window_simps [simp]:
  "\<not> window_open []" "window_open (tr @ [ev]) = window_step (window_open tr) ev"
  by (simp_all add: window_open_def)

lemma snapshots_taken_snoc [simp]:
  "snapshots_taken (tr @ [ev]) \<longleftrightarrow> snapshots_taken tr \<and> (case ev of Snapshot _ (Some s) \<Rightarrow> taken s | _ \<Rightarrow> True)"
  by (simp add: snapshots_taken_def)

lemma phase_step_window:
  assumes s: "phase_step True t P ev Q" and w: "window_state t P tr" and sn: "snapshots_taken (tr @ [ev])"
  shows "window_state t Q (tr @ [ev])"
  using s by cases (use w sn in \<open>auto simp: window_state_def window_step_def gave_up_def split: if_splits\<close>)

lemma phase_run_window:
  "phase_run w t P tr Q \<Longrightarrow> w \<Longrightarrow> P = Untouched \<Longrightarrow> snapshots_taken tr \<Longrightarrow> window_state t Q tr"
proof (induction rule: phase_run.induct)
  case (stay P)
  then show ?case by (simp add: window_state_def)
next
  case (onward P tr Q ev R)
  then show ?case using phase_step_window [of t Q ev R tr] by auto
qed

subsection \<open>The properties\<close>

text \<open>A host for the witnesses, whose proofs and start are given.\<close>

definition sample_proof :: "proof_status \<Rightarrow> check_proof" where
  "sample_proof st = \<lparr>cp_status = st, cp_detail = Said []\<rparr>"

definition sample_snapshot :: data_snapshot where
  "sample_snapshot = zero_snapshot\<lparr>ds_path := ''/snap/chat.tar''\<rparr>"

definition sample_capture :: capture where
  "sample_capture = \<lparr>cap_refs = [(''openwebui'', ''a@sha256:1'')], cap_units = [], cap_config = [],
     cap_data = zero_snapshot, cap_prior_snapshot = zero_snapshot\<rparr>"

definition sample_deps :: "proof_status \<Rightarrow> proof_status \<Rightarrow> bool \<Rightarrow> (unit, unit) update_deps" where
  "sample_deps now new starts = \<lparr>
     ud_prove_current = (\<lambda>_ _ h. (sample_proof now, h)), ud_capture = (\<lambda>_ h. (Inr sample_capture, h)),
     ud_pull = Some (\<lambda>_ _ h. (None, h)), ud_mutate = (\<lambda>_ _ _ h. (([''chat.service''], None), h)),
     ud_stop = Some (\<lambda>_ _ h. (None, h)), ud_snapshot = Some (\<lambda>_ _ h. (Inr sample_snapshot, h)),
     ud_start = Some (\<lambda>_ _ h. (if starts then None else Some ''failed'', h)),
     ud_prove_new = (\<lambda>_ _ h. (sample_proof new, h)), ud_restore = (\<lambda>_ _ _ _ h. (None, h)),
     ud_restore_data = Some (\<lambda>_ _ _ h. (None, h)), ud_prove_restored = Some (\<lambda>_ _ h. (sample_proof ProofPass, h)),
     ud_commit = (\<lambda>_ _ _ h. (None, h)), ud_budget = None, ud_without_cancel = (\<lambda>c. c), ud_now = None\<rparr>"

definition sample_target :: target where
  "sample_target = \<lparr>tg_subsystem = Chat, tg_pins = [(''openwebui'', ''a@sha256:2'')]\<rparr>"

text \<open>C3: Every update of one subsystem, on any host, makes its calls in the order of the protocol:
  prove the current state, capture, pull, and for a subsystem with data stop and snapshot, then move,
  start, prove and commit, or else put back the data and the tuple and prove them. Its result says the
  phase in which the protocol ended, and recording the calls changes neither the result nor the host.\<close>
theorem update_follows_protocol:
  "run_one (traced d) c t (h, []) = (fst (run_one d c t h), snd (run_one d c t h), calls d c t h)
   \<and> (\<exists>Q. phase_run (wired d) t Untouched (calls d c t h) Q \<and> result_phase d (fst (run_one d c t h)) Q)"
  by (intro conjI run_one_traced calls_run)

lemma rolled_phase:
  "sr_outcome r \<in> {RolledBackFail, RolledBackReject} \<Longrightarrow> result_phase d r Q = rolled_end d (sr_incomplete r) Q"
  by (auto simp: result_phase_def)

text \<open>An update that reports itself refused or with nothing to do has moved no reference, restored
  nothing and written no record.\<close>
theorem refused_update_moves_nothing:
  assumes "sr_outcome (fst (run_one d c t h)) \<in> {RefusedUnhealthy, NothingToDo}"
  shows "unmoved (calls d c t h)"
proof -
  obtain Q where Q: "history (wired d) t Q (calls d c t h)" "result_phase d (fst (run_one d c t h)) Q"
    using calls_history [of d t c h] by metis
  with assms show ?thesis by (intro history_unmoved [OF Q(1)]) (auto simp: result_phase_def)
qed

theorem refused_update_moves_nothing_witness:
  "unmoved (calls (sample_deps ProofFail ProofPass True) () sample_target ())"
  by (rule refused_update_moves_nothing) code_simp





text \<open>C5: On a host with every seam of the stopped window, whose snapshots are real, the services are
  left stopped only by an update that says it is incomplete, and only because its last call, a start or
  the rollback's own stop, failed.\<close>
theorem stopped_window_closed:
  assumes "wired d" and "snapshots_taken (calls d c t h)" and "window_open (calls d c t h)"
  shows "sr_incomplete (fst (run_one d c t h)) \<and> gave_up t (calls d c t h)"
proof -
  obtain Q where Q: "result_phase d (fst (run_one d c t h)) Q" "phase_run (wired d) t Untouched (calls d c t h) Q"
    using calls_history [of d t c h] by metis
  then have "window_state t Q (calls d c t h)" using phase_run_window [OF Q(2)] assms by blast
  with Q(1) assms show ?thesis
    by (auto simp: window_state_def result_phase_def rolled_end_def wired_def split: update_outcome.splits if_splits)
qed

theorem stopped_window_closed_witness:
  "sr_incomplete (fst (run_one (sample_deps ProofPass ProofPass False) () sample_target ()))
   \<and> gave_up sample_target (calls (sample_deps ProofPass ProofPass False) () sample_target ())"
  by (rule stopped_window_closed; code_simp)

subsection \<open>The run over several subsystems\<close>

lemma run_targets_halted:
  "run_targets d c ts True h = ((map (\<lambda>t. fresh_result (tg_subsystem t) NotTried) ts, True), h)"
  by (induction ts) simp_all

fun run_all :: "('c, 'h) update_deps \<Rightarrow> 'c \<Rightarrow> target list \<Rightarrow> 'h \<Rightarrow> subsystem_result list \<times> 'h" where
  "run_all d c [] h = ([], h)"
| "run_all d c (t # ts) h = (case run_one d c t h of (r, h) \<Rightarrow> (case run_all d c ts h of (rs, h) \<Rightarrow> (r # rs, h)))"

definition first_halt :: "('c, 'h) update_deps \<Rightarrow> 'c \<Rightarrow> target list \<Rightarrow> 'h \<Rightarrow> nat" where
  "first_halt d c ts h = length (takeWhile (\<lambda>r. \<not> halts (sr_outcome r)) (fst (run_all d c ts h)))"

text \<open>A run over several subsystems gives one result for each, in order: it runs the update of every
  subsystem up to and including the first that is refused or rolled back, and nothing after it, and the
  rest are reported as not tried; the run is halted exactly when there was such a one.\<close>
theorem run_stops_at_first_halt:
  "run_update d c ts h =
     (let n = Suc (first_halt d c ts h) in
      ((fst (run_all d c (take n ts) h) @ map (\<lambda>t. fresh_result (tg_subsystem t) NotTried) (drop n ts),
        list_ex (\<lambda>r. halts (sr_outcome r)) (fst (run_all d c ts h))),
       snd (run_all d c (take n ts) h)))"
  unfolding run_update_def
proof (induction ts arbitrary: h)
  case Nil
  then show ?case by (simp add: first_halt_def Let_def)
next
  case (Cons t ts)
  obtain r h1 where r: "run_one d c t h = (r, h1)" by fastforce
  show ?case
  proof (cases "halts (sr_outcome r)")
    case True
    with r show ?thesis by (simp add: run_targets_halted first_halt_def Let_def split: prod.split)
  next
    case False
    with r Cons [of h1] show ?thesis by (simp add: first_halt_def Let_def split: prod.split)
  qed
qed

end
