(* ===== verification/Install.thy ===== *)
theory Install
  imports Flow Recommend Files
begin

text \<open>
  \<open>internal/install\<close>: the decisions (gates, plan, resource fit), the start sequence and its check,
  the capture and the rollback. Effects are functions of an abstract host state; a seam the source
  may leave nil is an option. Texts are kept as data.
\<close>

subsection \<open>Gates and plan\<close>

record opts =
  op_coding_agent :: bool
  op_web_search :: bool
  op_workspace_agent :: bool
  op_voice :: bool
  op_image :: bool
  op_dry_run :: bool
  op_force :: bool
  op_json :: bool
  op_no_tui :: bool

record gates =
  gt_memory :: bool
  gt_web_search :: bool
  gt_agent :: bool
  gt_coding_mode :: bool
  gt_sandbox :: bool
  gt_voice :: bool
  gt_image :: bool

fun gates_on :: "gates \<Rightarrow> kind \<Rightarrow> bool" where
  "gates_on g Memory = gt_memory g"
| "gates_on g WebSearch = gt_web_search g"
| "gates_on g Agent = gt_agent g"
| "gates_on g CodingMode = gt_coding_mode g"
| "gates_on g Sandbox = gt_sandbox g"
| "gates_on g Voice = gt_voice g"
| "gates_on g Image = gt_image g"
| "gates_on g Inference = True"
| "gates_on g Chat = True"

definition resolve_gates :: "villa_config \<Rightarrow> opts \<Rightarrow> recommendation \<Rightarrow> gates" where
  "resolve_gates cfg opt rec = \<lparr>
     gt_memory = memory_on cfg,
     gt_web_search = (web_search_on cfg \<or> op_web_search opt),
     gt_agent = (gate_on cfg Agent \<or> op_coding_agent opt),
     gt_coding_mode = (op_coding_agent opt \<and> cf_model (rc_coder rec) \<noteq> []),
     gt_sandbox = (gate_on cfg Sandbox \<or> op_workspace_agent opt),
     gt_voice = (voice_on cfg \<or> op_voice opt),
     gt_image = (image_on cfg \<or> op_image opt)\<rparr>"

definition persist_gates :: "gates \<Rightarrow> villa_config \<Rightarrow> villa_config" where
  "persist_gates g cfg =
     (let cfg = cfg\<lparr>cfg_memory_enabled := gt_memory g, cfg_reranker := gt_memory g, cfg_extractor := gt_memory g,
        cfg_web_search_enabled := gt_web_search g, cfg_agent_enabled := gt_agent g,
        cfg_workspace_agent := gt_sandbox g, cfg_voice_enabled := gt_voice g\<rparr>;
        cfg = (if gt_sandbox g then cfg\<lparr>cfg_tools_mode := True\<rparr> else cfg)
      in cfg\<lparr>cfg_image_enabled := gt_image g\<rparr>)"

text \<open>The zero recommendation, which no gate that reserves depends on.\<close>

definition no_recommendation :: recommendation where
  "no_recommendation = \<lparr>rc_model = [], rc_quant = [], rc_context_len = 0, rc_backend = [], rc_weight_bytes = 0,
     rc_kv_cache_bytes = 0, rc_headroom_bytes = 0, rc_total_bytes = 0, rc_usable_envelope_bytes = 0,
     rc_fits = False, rc_degraded = False, rc_notes = [], rc_alternatives = [], rc_rocm_advice = [],
     rc_rocm_note = None, rc_embedding_reservation_bytes = 0, rc_memory_considered = False,
     rc_coder = zero_coder, rc_web_search_reservation_bytes = 0, rc_speculation = [], rc_projector_bytes = 0,
     rc_vision = False, rc_draft_bytes = 0, rc_draft_kv_bytes = 0, rc_prompt_cache_bytes = 0,
     rc_reservations = [], rc_schema_version = 0\<rparr>"

definition planned_reservations :: "image_model list \<Rightarrow> villa_config \<Rightarrow> opts \<Rightarrow> reservation list" where
  "planned_reservations table cfg opt =
     reservations_for table (persist_gates (resolve_gates cfg opt no_recommendation) cfg)"

definition gate_agent_checks :: "gates \<Rightarrow> bool" where
  "gate_agent_checks g = gt_agent g"

record install_plan =
  ip_config :: villa_config
  ip_gates :: gates
  ip_backend_preserved :: bool

definition persisted_backend_chosen :: "string \<Rightarrow> bool" where
  "persisted_backend_chosen name = (if name = [] then False else is_rocm_family name \<or> name = ''vulkan'')"

definition assemble_plan ::
  "villa_config \<Rightarrow> gates \<Rightarrow> recommendation \<Rightarrow> (string \<Rightarrow> bool) option \<Rightarrow> install_plan" where
  "assemble_plan cfg g rec chosen =
     (let keep = (case chosen of None \<Rightarrow> False | Some f \<Rightarrow> f (cfg_backend cfg));
          c = cfg\<lparr>cfg_model := rc_model rec, cfg_quant := rc_quant rec, cfg_ctx := rc_context_len rec\<rparr>;
          c = (if keep then c else c\<lparr>cfg_backend := rc_backend rec\<rparr>);
          c = c\<lparr>cfg_speculation := rc_speculation rec, cfg_vision := rc_vision rec\<rparr>;
          c = persist_gates g c;
          c = (if gt_coding_mode g
               then c\<lparr>cfg_coder_model := cf_model (rc_coder rec), cfg_coder_quant := cf_quant (rc_coder rec),
                      cfg_coder_agent_ctx := cf_agent_ctx (rc_coder rec), cfg_coding_mode := True\<rparr>
               else c)
      in \<lparr>ip_config = c, ip_gates = g, ip_backend_preserved = keep\<rparr>)"

record install_fit =
  if_min_disk :: u64
  if_min_mem :: u64

definition resource_fit :: "recommendation \<Rightarrow> install_fit" where
  "resource_fit rec = \<lparr>if_min_disk = rc_weight_bytes rec,
     if_min_mem = rc_weight_bytes rec + rc_kv_cache_bytes rec + rc_headroom_bytes rec + rc_prompt_cache_bytes rec
       + reserved_bytes (rc_reservations rec)\<rparr>"

definition recommendation_usable :: "recommendation \<Rightarrow> bool" where
  "recommendation_usable rec \<longleftrightarrow> rc_model rec \<noteq> [] \<and> rc_context_len rec > 0 \<and> rc_weight_bytes rec \<noteq> 0"

subsection \<open>The outcome\<close>

datatype install_outcome = Completed | Degraded | DryRun | NoChange | Blocked | Refused

fun install_exit :: "install_outcome \<Rightarrow> nat" where
  "install_exit Completed = 0"
| "install_exit DryRun = 0"
| "install_exit NoChange = 0"
| "install_exit Degraded = 2"
| "install_exit _ = 1"

text \<open>\<open>Result.Finish\<close> on a result whose outcome is unset (None) or \<open>NoChange\<close>.\<close>

definition finish_outcome :: "bool \<Rightarrow> bool \<Rightarrow> install_outcome option \<Rightarrow> install_outcome" where
  "finish_outcome gate_degraded readiness_warn oc =
     (if gate_degraded \<or> readiness_warn then Degraded else (case oc of None \<Rightarrow> Completed | Some r \<Rightarrow> r))"

subsection \<open>Capture and rollback\<close>

record prior =
  pr_config :: villa_config
  pr_had_config :: bool
  pr_units :: "(string \<times> string) list"
  pr_running :: "string list"
  pr_first_install :: bool

definition was_running :: "prior \<Rightarrow> string \<Rightarrow> bool" where
  "was_running p svc \<longleftrightarrow> svc \<in> set (pr_running p)"

definition had_unit :: "prior \<Rightarrow> string \<Rightarrow> string option" where
  "had_unit p n = map_of (pr_units p) n"

definition capture_prior :: "villa_config \<Rightarrow> bool \<Rightarrow> (string \<times> string) list \<Rightarrow> string list \<Rightarrow> prior" where
  "capture_prior cfg had units running = \<lparr>pr_config = cfg, pr_had_config = had, pr_units = units,
     pr_running = running, pr_first_install = (\<not> had \<and> units = [])\<rparr>"

record mutations =
  mt_started :: "string list"
  mt_enabled :: "string list"
  mt_wrote_units :: "string list"
  mt_saved_config :: bool

definition no_mutations :: mutations where
  "no_mutations = \<lparr>mt_started = [], mt_enabled = [], mt_wrote_units = [], mt_saved_config = False\<rparr>"

definition record_start :: "string \<Rightarrow> mutations \<Rightarrow> mutations" where
  "record_start svc m = m\<lparr>mt_started := mt_started m @ [svc]\<rparr>"

definition record_enable :: "string \<Rightarrow> mutations \<Rightarrow> mutations" where
  "record_enable svc m = m\<lparr>mt_enabled := mt_enabled m @ [svc]\<rparr>"

definition record_unit :: "string \<Rightarrow> mutations \<Rightarrow> mutations" where
  "record_unit n m = m\<lparr>mt_wrote_units := mt_wrote_units m @ [n]\<rparr>"

definition record_config_save :: "mutations \<Rightarrow> mutations" where
  "record_config_save m = m\<lparr>mt_saved_config := True\<rparr>"

datatype rollback_failure =
    NotStoppedBack string string
  | NotDisabledBack string string
  | UnitNotRestored string string
  | UnitNotRemoved string string
  | NotReloadedBack string
  | NotRestartedBack string string
  | ConfigNotRestored string
  | ConfigNotRemoved string

type_synonym 'h host_call = "'h \<Rightarrow> string option \<times> 'h"

record 'h rollback_deps =
  rb_stop :: "(string \<Rightarrow> 'h host_call) option"
  rb_start :: "(string \<Rightarrow> 'h host_call) option"
  rb_write_unit :: "(string \<Rightarrow> string \<Rightarrow> 'h host_call) option"
  rb_remove_unit :: "(string \<Rightarrow> 'h host_call) option"
  rb_disable :: "(string \<Rightarrow> 'h host_call) option"
  rb_save_config :: "(villa_config \<Rightarrow> 'h host_call) option"
  rb_remove_config :: "'h host_call option"
  rb_reload :: "'h host_call option"

text \<open>A rollback goes on past a failure and keeps it: its steps return the failures they met.\<close>

type_synonym 'h undo = "'h \<Rightarrow> rollback_failure list \<times> 'h"

definition undo_nothing :: "'h undo" where
  "undo_nothing h = ([], h)"

definition undo_call :: "(string \<Rightarrow> rollback_failure) \<Rightarrow> 'h host_call \<Rightarrow> 'h undo" where
  "undo_call mk f h = (case f h of (None, h') \<Rightarrow> ([], h') | (Some e, h') \<Rightarrow> ([mk e], h'))"

fun undo_each :: "('x \<Rightarrow> 'h undo) \<Rightarrow> 'x list \<Rightarrow> 'h undo" where
  "undo_each f [] h = ([], h)"
| "undo_each f (x # xs) h =
     (case f x h of (es, h') \<Rightarrow> (case undo_each f xs h' of (es', h'') \<Rightarrow> (es @ es', h'')))"

definition undo_start :: "'h rollback_deps \<Rightarrow> prior \<Rightarrow> string \<Rightarrow> 'h undo" where
  "undo_start d p svc =
     (if was_running p svc then undo_nothing
      else (case rb_stop d of None \<Rightarrow> undo_nothing | Some f \<Rightarrow> undo_call (NotStoppedBack svc) (f svc)))"

definition undo_enable :: "'h rollback_deps \<Rightarrow> prior \<Rightarrow> string \<Rightarrow> 'h undo" where
  "undo_enable d p svc =
     (if had_unit p svc \<noteq> None then undo_nothing
      else (case rb_disable d of None \<Rightarrow> undo_nothing | Some f \<Rightarrow> undo_call (NotDisabledBack svc) (f svc)))"

text \<open>One unit back; the flag says whether a unit file changed.\<close>

definition undo_unit :: "'h rollback_deps \<Rightarrow> prior \<Rightarrow> string \<Rightarrow> 'h \<Rightarrow> (rollback_failure list \<times> bool) \<times> 'h" where
  "undo_unit d p n h =
     (case had_unit p n of
        Some text \<Rightarrow>
          (case rb_write_unit d of
             None \<Rightarrow> (([], False), h)
           | Some f \<Rightarrow> (case f n text h of
               (Some e, h') \<Rightarrow> (([UnitNotRestored n e], False), h')
             | (None, h') \<Rightarrow> (([], True), h')))
      | None \<Rightarrow>
          (case rb_remove_unit d of
             None \<Rightarrow> (([], False), h)
           | Some f \<Rightarrow> (case f n h of
               (Some e, h') \<Rightarrow> (([UnitNotRemoved n e], False), h')
             | (None, h') \<Rightarrow> (([], True), h'))))"

fun undo_units :: "'h rollback_deps \<Rightarrow> prior \<Rightarrow> string list \<Rightarrow> 'h \<Rightarrow> (rollback_failure list \<times> bool) \<times> 'h" where
  "undo_units d p [] h = (([], False), h)"
| "undo_units d p (n # ns) h =
     (case undo_unit d p n h of ((es, ch), h') \<Rightarrow>
        (case undo_units d p ns h' of ((es', ch'), h'') \<Rightarrow> ((es @ es', ch \<or> ch'), h'')))"

definition undo_restart :: "'h rollback_deps \<Rightarrow> prior \<Rightarrow> string \<Rightarrow> 'h undo" where
  "undo_restart d p svc =
     (if \<not> was_running p svc then undo_nothing
      else (case rb_start d of None \<Rightarrow> undo_nothing | Some f \<Rightarrow> undo_call (NotRestartedBack svc) (f svc)))"

definition undo_config :: "'h rollback_deps \<Rightarrow> prior \<Rightarrow> 'h undo" where
  "undo_config d p =
     (if pr_had_config p
      then (case rb_save_config d of None \<Rightarrow> undo_nothing | Some f \<Rightarrow> undo_call ConfigNotRestored (f (pr_config p)))
      else (case rb_remove_config d of None \<Rightarrow> undo_nothing | Some f \<Rightarrow> undo_call ConfigNotRemoved f))"

text \<open>The failures, in order; the rollback is incomplete exactly when there are some.\<close>

definition install_rollback :: "'h rollback_deps \<Rightarrow> prior \<Rightarrow> mutations \<Rightarrow> 'h undo" where
  "install_rollback d p m h =
     (case undo_each (undo_start d p) (rev (mt_started m)) h of (e1, h) \<Rightarrow>
     (case undo_each (undo_enable d p) (rev (mt_enabled m)) h of (e2, h) \<Rightarrow>
     (case undo_units d p (mt_wrote_units m) h of ((e3, changed), h) \<Rightarrow>
     (case (case rb_reload d of None \<Rightarrow> ([], h) | Some f \<Rightarrow> if changed then undo_call NotReloadedBack f h else ([], h)) of (e4, h) \<Rightarrow>
     (case undo_each (undo_restart d p) (mt_started m) h of (e5, h) \<Rightarrow>
     (case (if mt_saved_config m then undo_config d p h else ([], h)) of (e6, h) \<Rightarrow>
        (e1 @ e2 @ e3 @ e4 @ e5 @ e6, h)))))))"

subsection \<open>The sequence\<close>

datatype step_kind = GenerateSecret | PersistConfig | WriteSecretFile | WriteUnits | StartStep | ProveStep

record step =
  sp_kind :: step_kind
  sp_service :: string
  sp_secret :: string
  sp_requires_unit :: string

definition plain_step :: "step_kind \<Rightarrow> step" where
  "plain_step k = \<lparr>sp_kind = k, sp_service = [], sp_secret = [], sp_requires_unit = []\<rparr>"

definition secret_step :: "step_kind \<Rightarrow> step" where
  "secret_step k = (plain_step k)\<lparr>sp_secret := ''web-loader-bearer''\<rparr>"

definition start_step :: "string \<Rightarrow> step" where
  "start_step svc = (plain_step StartStep)\<lparr>sp_service := svc, sp_requires_unit := svc\<rparr>"

definition prove_step :: "string \<Rightarrow> step" where
  "prove_step svc = (plain_step ProveStep)\<lparr>sp_service := svc\<rparr>"

record install_units =
  iu_inference :: string
  iu_chat :: string
  iu_qdrant :: string
  iu_embed :: string
  iu_rerank :: string
  iu_extract :: string
  iu_searxng :: string
  iu_websafe :: string
  iu_stt :: string
  iu_tts :: string
  iu_image :: string

definition default_units :: install_units where
  "default_units =
     (let svc = (\<lambda>k. snd (every_unit k)) in
      \<lparr>iu_inference = svc Inference ! 0, iu_chat = svc Chat ! 0, iu_qdrant = svc Memory ! 0, iu_embed = svc Memory ! 1,
       iu_rerank = svc Memory ! 2, iu_extract = svc Memory ! 3, iu_searxng = svc WebSearch ! 0,
       iu_websafe = svc WebSearch ! 1, iu_stt = svc Voice ! 0, iu_tts = svc Voice ! 1, iu_image = svc Image ! 0\<rparr>)"

definition build_sequence :: "gates \<Rightarrow> install_units \<Rightarrow> bool \<Rightarrow> step list" where
  "build_sequence g u secret_needed =
     [plain_step PersistConfig]
   @ (if gt_web_search g \<and> secret_needed then [secret_step GenerateSecret] else [])
   @ [plain_step WriteUnits]
   @ (if gt_web_search g then [secret_step WriteSecretFile] else [])
   @ [start_step (iu_inference u), start_step (iu_chat u)]
   @ (if gt_memory g
      then [start_step (iu_qdrant u), start_step (iu_embed u), start_step (iu_rerank u), start_step (iu_extract u),
            prove_step (iu_embed u)] else [])
   @ (if gt_web_search g then [start_step (iu_searxng u), start_step (iu_websafe u), prove_step (iu_searxng u)] else [])
   @ (if gt_voice g then [start_step (iu_stt u), start_step (iu_tts u), prove_step (iu_stt u)] else [])
   @ (if gt_image g then [start_step (iu_image u), prove_step (iu_image u)] else [])
   @ (if gt_agent g then [prove_step (iu_inference u)] else [])"

definition step_services :: "step list \<Rightarrow> string list" where
  "step_services seq = map sp_service (filter (\<lambda>st. sp_kind st = StartStep) seq)"

fun index_of :: "step_kind \<Rightarrow> string \<Rightarrow> nat \<Rightarrow> step list \<Rightarrow> nat option" where
  "index_of k svc i [] = None"
| "index_of k svc i (st # sts) =
     (if sp_kind st = k \<and> (svc = [] \<or> sp_service st = svc) then Some i else index_of k svc (Suc i) sts)"

definition unit_present :: "unit_plan \<Rightarrow> string \<Rightarrow> bool" where
  "unit_present p n \<longleftrightarrow> n \<in> un_name ` set (pl_changed p) \<or> n \<in> un_name ` set (pl_unchanged p)"

datatype order_error = OutOfOrder string | NeverPlanned string

text \<open>The search goes on from the position after the last match.\<close>

fun find_from :: "string \<Rightarrow> nat \<Rightarrow> string list \<Rightarrow> nat option" where
  "find_from x i [] = None"
| "find_from x i (y # ys) = (if y = x then Some i else find_from x (Suc i) ys)"

fun assert_from :: "string list \<Rightarrow> nat \<Rightarrow> string list \<Rightarrow> order_error option" where
  "assert_from planned pos [] = None"
| "assert_from planned pos (got # rest) =
     (case find_from got pos (drop pos planned) of
        Some i \<Rightarrow> assert_from planned (Suc i) rest
      | None \<Rightarrow> Some (if got \<in> set (take pos planned) then OutOfOrder got else NeverPlanned got))"

definition assert_start_order :: "step list \<Rightarrow> string list \<Rightarrow> order_error option" where
  "assert_start_order seq performed = assert_from (step_services seq) 0 performed"

definition service_for :: "string \<Rightarrow> string" where
  "service_for n = trim_suffix n ''.container'' @ ''.service''"

end
