(* ===== verification/InstallGate.thy ===== *)
theory InstallGate
  imports Install
begin

text \<open>
  \<open>internal/install/gate.go\<close>: preflight verdicts applied to a run. A privileged fix runs only for a
  gap whose consent was given; a dry run, a refusal and a run without a terminal keep the gap.
  Narration is left out.
\<close>

datatype tier = TierWarn | TierBlock

datatype check_status = StatusPass | StatusWarn | StatusFail

record check =
  ck_id :: string
  ck_tier :: tier
  ck_status :: check_status

record 'h host_prep =
  hp_interactive :: "'h \<Rightarrow> bool"
  hp_consent :: "check \<Rightarrow> 'h \<Rightarrow> bool \<times> 'h"
  hp_username :: "'h \<Rightarrow> string"
  hp_setsebool :: "'h host_call"
  hp_enable_linger :: "string \<Rightarrow> 'h host_call"

type_synonym consents = "(string \<times> bool) list"

definition has_automated_fix :: "string \<Rightarrow> bool" where
  "has_automated_fix i \<longleftrightarrow> i = ''PRE-05'' \<or> i = ''PRE-03''"

definition safe_auto_fix :: "string \<Rightarrow> bool" where
  "safe_auto_fix i \<longleftrightarrow> False"

definition succeeded :: "string option \<times> 'h \<Rightarrow> bool \<times> 'h" where
  "succeeded r = (fst r = None, snd r)"

definition run_gap_fix :: "'h host_prep \<Rightarrow> check \<Rightarrow> 'h \<Rightarrow> bool \<times> 'h" where
  "run_gap_fix d c h =
     (if ck_id c = ''PRE-05'' then succeeded (hp_setsebool d h)
      else if ck_id c = ''PRE-03'' then succeeded (hp_enable_linger d (hp_username d h) h)
      else (False, h))"

definition resolve_gap :: "'h host_prep \<Rightarrow> opts \<Rightarrow> consents \<Rightarrow> check \<Rightarrow> 'h \<Rightarrow> bool \<times> 'h" where
  "resolve_gap d opt consents c h =
     (if op_dry_run opt then (False, h)
      else (case map_of consents (ck_id c) of
        Some decision \<Rightarrow> if \<not> decision then (False, h) else run_gap_fix d c h
      | None \<Rightarrow>
          if op_json opt \<or> \<not> hp_interactive d h then (False, h)
          else (case hp_consent d c h of
            (False, h) \<Rightarrow> (False, h)
          | (True, h) \<Rightarrow> run_gap_fix d c h)))"

text \<open>The soft offer takes the same decisions; its answer is not used.\<close>

definition offer_gap :: "'h host_prep \<Rightarrow> opts \<Rightarrow> consents \<Rightarrow> check \<Rightarrow> 'h \<Rightarrow> 'h" where
  "offer_gap d opt consents c h = snd (resolve_gap d opt consents c h)"

fun scan_checks :: "'h host_prep \<Rightarrow> opts \<Rightarrow> consents \<Rightarrow> check list \<Rightarrow> 'h \<Rightarrow> check list \<times> 'h" where
  "scan_checks d opt consents [] h = ([], h)"
| "scan_checks d opt consents (c # cs) h =
     (case ck_status c of
        StatusPass \<Rightarrow> scan_checks d opt consents cs h
      | StatusFail \<Rightarrow> (case scan_checks d opt consents cs h of (unmet, h) \<Rightarrow> (c # unmet, h))
      | StatusWarn \<Rightarrow>
          if safe_auto_fix (ck_id c)
          then (if op_json opt \<or> op_dry_run opt \<or> \<not> hp_interactive d h then scan_checks d opt consents cs h
                else scan_checks d opt consents cs (snd (run_gap_fix d c h)))
          else if ck_tier c = TierBlock
          then (case scan_checks d opt consents cs h of (unmet, h) \<Rightarrow> (c # unmet, h))
          else if has_automated_fix (ck_id c) then scan_checks d opt consents cs (offer_gap d opt consents c h)
          else scan_checks d opt consents cs h)"

fun resolve_gaps :: "'h host_prep \<Rightarrow> opts \<Rightarrow> consents \<Rightarrow> check list \<Rightarrow> 'h \<Rightarrow> check list \<times> 'h" where
  "resolve_gaps d opt consents [] h = ([], h)"
| "resolve_gaps d opt consents (c # cs) h =
     (case resolve_gap d opt consents c h of
        (fixed, h) \<Rightarrow> (case resolve_gaps d opt consents cs h of
           (blocked, h) \<Rightarrow> (if fixed then blocked else c # blocked, h)))"

datatype gate_verdict = GatePass | GateForced | GateBlocked

definition gate :: "'h host_prep \<Rightarrow> check list \<Rightarrow> opts \<Rightarrow> consents \<Rightarrow> 'h \<Rightarrow> gate_verdict \<times> 'h" where
  "gate d checks opt consents h =
     (case scan_checks d opt consents checks h of
        (unmet, h) \<Rightarrow>
          if unmet = [] then (GatePass, h)
          else (case resolve_gaps d opt consents unmet h of
            (blocked, h) \<Rightarrow>
              (if blocked = [] then GatePass else if op_force opt then GateForced else GateBlocked, h)))"

end
