(* ===== verification/InstallFlow.thy ===== *)
theory InstallFlow
  imports InstallGate StackApply
begin

text \<open>
  \<open>internal/install/flow.go\<close>: the whole install run. The host state is abstract; every field of the
  source's \<open>Deps\<close> is a function of it, the fields grouped by the part of the run that calls them.
  \<open>hi_is_active\<close> is always there, as \<open>start\<close> calls it without a nil check. Narration is left out.
\<close>

subsection \<open>Effects\<close>

type_synonym ('h, 'a) host_read = "'h \<Rightarrow> (string + 'a) \<times> 'h"

record 'h weights_deps =
  wd_model_present :: "recommendation \<Rightarrow> 'h \<Rightarrow> bool"
  wd_ensure_model :: "recommendation \<Rightarrow> 'h host_call"
  wd_embed_present :: "string \<Rightarrow> 'h \<Rightarrow> bool"
  wd_ensure_embed :: "string \<Rightarrow> 'h host_call"
  wd_rerank_present :: "string \<Rightarrow> 'h \<Rightarrow> bool"
  wd_ensure_rerank :: "string \<Rightarrow> 'h host_call"
  wd_voice_present :: "string \<Rightarrow> 'h \<Rightarrow> bool"
  wd_ensure_voice :: "string \<Rightarrow> 'h host_call"
  wd_image_present :: "string \<Rightarrow> image_model \<Rightarrow> 'h \<Rightarrow> bool"
  wd_ensure_image :: "string \<Rightarrow> image_model \<Rightarrow> 'h host_call"
  wd_agent_catalog :: "'h \<Rightarrow> catalog option"
  wd_coder_present :: "string \<Rightarrow> shard \<Rightarrow> 'h \<Rightarrow> bool"
  wd_ensure_coder :: "string \<Rightarrow> shard \<Rightarrow> 'h host_call"
  wd_install_agent :: "('h, string) host_read"
  wd_render_crush :: "villa_config \<Rightarrow> 'h host_call"

record 'h change_deps =
  hi_read_unit :: "(string \<Rightarrow> string \<Rightarrow> 'h \<Rightarrow> string option) option"
  hi_write_unit :: "(string \<Rightarrow> string \<Rightarrow> string \<Rightarrow> 'h host_call) option"
  hi_remove_unit :: "(string \<Rightarrow> string \<Rightarrow> 'h host_call) option"
  hi_is_active :: "string \<Rightarrow> 'h \<Rightarrow> string + string"
  hi_config_exists :: "('h \<Rightarrow> bool) option"
  hi_remove_config :: "'h host_call option"
  hi_save_config :: "villa_config \<Rightarrow> 'h host_call"
  hi_user_unit_dir :: "'h \<Rightarrow> string + string"
  hi_binary_path :: "'h \<Rightarrow> string + string"
  hi_render_dashboard :: "string \<Rightarrow> string + string"
  hi_read_dashboard :: "string \<Rightarrow> 'h \<Rightarrow> file_read"
  hi_write_dashboard :: "string \<Rightarrow> string \<Rightarrow> 'h host_call"
  hi_write_units :: "unit_plan \<Rightarrow> string \<Rightarrow> 'h host_call"
  hi_reload :: "'h host_call"
  hi_enable :: "string \<Rightarrow> 'h host_call"
  hi_disable :: "string \<Rightarrow> 'h host_call"
  hi_start :: "string \<Rightarrow> 'h host_call"
  hi_stop :: "string \<Rightarrow> 'h host_call"
  hi_restart :: "string \<Rightarrow> 'h host_call"
  hi_write_websafe_env :: "string \<Rightarrow> string \<Rightarrow> 'h host_call"
  hi_write_searxng_settings :: "string \<Rightarrow> string \<Rightarrow> 'h host_call"
  hi_write_searxng_env :: "string \<Rightarrow> string \<Rightarrow> 'h host_call"
  hi_write_inference_env :: "string \<Rightarrow> string \<Rightarrow> 'h host_call"
  hi_web_loader_secret :: "('h, string) host_read"
  hi_searxng_secret :: "('h, string) host_read"
  hi_render_searxng :: "villa_config \<Rightarrow> string + (string \<times> string)"

record 'h proof_deps =
  pd_poll_ready :: "'h \<Rightarrow> check_status \<times> 'h"
  pd_prove_memory :: "villa_config \<Rightarrow> 'h \<Rightarrow> check_status \<times> 'h"
  pd_prove_search :: "'h \<Rightarrow> check_status \<times> 'h"
  pd_prove_agent :: "'h \<Rightarrow> check_status \<times> 'h"
  pd_prove_voice :: "'h \<Rightarrow> check_status \<times> 'h"
  pd_prove_image :: "villa_config \<Rightarrow> 'h \<Rightarrow> check_status \<times> 'h"
  pd_prove_chat :: "villa_config \<Rightarrow> 'h \<Rightarrow> check_status \<times> 'h"

text \<open>What the wizard collected: a model id or nothing, and the decisions by gap.\<close>

record wizard_result =
  wz_model :: string
  wz_consents :: consents

record ('p, 'h) install_deps =
  id_load_config :: "('h, villa_config) host_read"
  id_probe :: "'h \<Rightarrow> 'p \<times> 'h"
  id_pick :: "'p \<Rightarrow> overrides \<Rightarrow> reservation list \<Rightarrow> recommendation"
  id_models_dir :: string
  id_run_checks :: "'p \<Rightarrow> install_fit \<Rightarrow> 'h \<Rightarrow> check list \<times> 'h"
  id_memory_checks :: "('p \<Rightarrow> string \<Rightarrow> 'h \<Rightarrow> check list \<times> 'h) option"
  id_agent_checks :: "('p \<Rightarrow> recommendation \<Rightarrow> 'h \<Rightarrow> check list \<times> 'h) option"
  id_prep :: "'h host_prep"
  id_stdout_tty :: "'h \<Rightarrow> bool"
  id_wizard :: "'p \<Rightarrow> recommendation \<Rightarrow> check list \<Rightarrow> backend \<Rightarrow> 'h \<Rightarrow> (string + wizard_result) \<times> 'h"
  id_unit_dir :: "'h \<Rightarrow> string + string"
  id_inference_secret :: "('h, string) host_read"
  id_render :: "villa_config \<Rightarrow> ('h, unit_file list) host_read"
  id_reconcile :: "unit_file list \<Rightarrow> string \<Rightarrow> ('h, unit_plan) host_read"
  id_weights :: "'h weights_deps"
  id_change :: "'h change_deps"
  id_proofs :: "'h proof_deps"
  id_image_table :: "image_model list"

subsection \<open>Exits\<close>

datatype block_reason =
    ConfigUnreadable string
  | NoFit
  | WizardBackend stack_error
  | Cancelled string
  | GateUnmet
  | NoUnitDir string
  | NoInferenceSecret string
  | NotRendered string
  | NotReconciled string
  | NotDownloaded string string
  | UnknownImageModel string
  | NoCatalog
  | SharedCoder
  | NoCoder
  | AgentNotStaged string
  | AgentNotRendered string
  | ConfigNotSaved string

datatype start_failure = NotStoppedFirst string | NotStarted string

datatype refusal =
    NoUserUnitDir string
  | NoBinaryPath string
  | DashboardNotRendered string
  | DashboardUnreadable string
  | DashboardNotWritten string
  | DashboardNotReloaded string
  | DashboardNotEnabled string
  | DashboardNotRestarted string
  | DashboardNotStarted string
  | InferenceEnvNotWritten string
  | UnitsNotWritten string
  | NotReloaded string
  | ServiceFailed string start_failure
  | NoWebLoaderSecret string
  | WebLoaderNotSaved string
  | WebLoaderNotWritten string
  | UnitAbsent kind
  | NoSearxngSecret string
  | SearxngNotSaved string
  | SearxngNotRendered string
  | SearxngNotWritten string
  | SearxngEnvNotWritten string
  | NotReady kind
  | ChatNotResident
  | OrderViolated order_error

text \<open>How a run ends: before any change, after one (the handler rolls back), or at its end.\<close>

datatype run_exit = Block block_reason | Refuse refusal | Finish install_outcome

record 'h run_state =
  rs_host :: 'h
  rs_degraded :: bool
  rs_mut :: mutations
  rs_performed :: "string list"

type_synonym ('h, 'a) install_flow = "('h run_state, run_exit, 'a) flow"

text \<open>Calls of the host inside a run.\<close>

definition observe :: "('h \<Rightarrow> 'a) \<Rightarrow> ('h, 'a) install_flow" where
  "observe f s = (Inr (f (rs_host s)), s)"

definition ask :: "('h \<Rightarrow> 'a \<times> 'h) \<Rightarrow> ('h, 'a) install_flow" where
  "ask f s = (case f (rs_host s) of (a, h) \<Rightarrow> (Inr a, s\<lparr>rs_host := h\<rparr>))"

definition attempt :: "(string \<Rightarrow> run_exit) \<Rightarrow> 'h host_call \<Rightarrow> ('h, unit) install_flow" where
  "attempt mk f s = (case f (rs_host s) of
     (None, h) \<Rightarrow> (Inr (), s\<lparr>rs_host := h\<rparr>) | (Some e, h) \<Rightarrow> (Inl (mk e), s\<lparr>rs_host := h\<rparr>))"

definition obtain_from :: "(string \<Rightarrow> run_exit) \<Rightarrow> ('h, 'a) host_read \<Rightarrow> ('h, 'a) install_flow" where
  "obtain_from mk f s = (case f (rs_host s) of
     (Inr a, h) \<Rightarrow> (Inr a, s\<lparr>rs_host := h\<rparr>) | (Inl e, h) \<Rightarrow> (Inl (mk e), s\<lparr>rs_host := h\<rparr>))"

definition given :: "('e \<Rightarrow> run_exit) \<Rightarrow> 'e + 'a \<Rightarrow> ('h, 'a) install_flow" where
  "given mk r = (case r of Inl e \<Rightarrow> stop (mk e) | Inr a \<Rightarrow> ret a)"

definition note_mutation :: "(mutations \<Rightarrow> mutations) \<Rightarrow> ('h, unit) install_flow" where
  "note_mutation f s = (Inr (), s\<lparr>rs_mut := f (rs_mut s)\<rparr>)"

definition note_performed :: "string \<Rightarrow> ('h, unit) install_flow" where
  "note_performed svc s = (Inr (), s\<lparr>rs_performed := rs_performed s @ [svc]\<rparr>)"

definition note_degraded :: "('h, unit) install_flow" where
  "note_degraded s = (Inr (), s\<lparr>rs_degraded := True\<rparr>)"

lemmas call_defs = observe_def ask_def attempt_def obtain_from_def given_def note_mutation_def
  note_performed_def note_degraded_def

subsection \<open>Before the first change\<close>

record prepared =
  pp_persisted :: villa_config
  pp_config :: villa_config
  pp_gates :: gates
  pp_rec :: recommendation
  pp_unit_dir :: string
  pp_plan :: unit_plan

definition collect_checks ::
  "('p, 'h) install_deps \<Rightarrow> villa_config \<Rightarrow> 'p \<Rightarrow> recommendation \<Rightarrow> gates \<Rightarrow> ('h, check list) install_flow" where
  "collect_checks d cfg profile rec g =
     andthen (ask (id_run_checks d profile (resource_fit rec))) (\<lambda>checks.
     andthen (case id_memory_checks d of
                Some f \<Rightarrow> if gt_memory g then ask (f profile (cfg_embedding_model cfg)) else ret []
              | None \<Rightarrow> ret []) (\<lambda>memory.
     andthen (case id_agent_checks d of
                Some f \<Rightarrow> if gate_agent_checks g then ask (f profile rec) else ret []
              | None \<Rightarrow> ret []) (\<lambda>agent.
     ret (checks @ memory @ agent))))"

definition no_overrides :: overrides where
  "no_overrides = \<lparr>ov_model = [], ov_quant = [], ov_ctx = 0, ov_speculation = []\<rparr>"

text \<open>The wizard, when a person is there; it may change the model and so the gates.\<close>

definition run_wizard ::
  "('p, 'h) install_deps \<Rightarrow> opts \<Rightarrow> villa_config \<Rightarrow> 'p \<Rightarrow> reservation list \<Rightarrow> recommendation \<Rightarrow> gates \<Rightarrow> check list
     \<Rightarrow> ('h, recommendation \<times> gates \<times> consents) install_flow" where
  "run_wizard d opt cfg profile res rec g checks =
     andthen (observe (\<lambda>h. hp_interactive (id_prep d) h \<and> \<not> op_json opt \<and> \<not> op_no_tui opt \<and> id_stdout_tty d h
                \<and> \<not> op_dry_run opt)) (\<lambda>guided.
     if \<not> guided then ret (rec, g, [])
     else
       andthen (given (\<lambda>e. Block (WizardBackend e)) (backend_for (rc_backend rec))) (\<lambda>backend.
       andthen (obtain_from (\<lambda>e. Block (Cancelled e)) (id_wizard d profile rec checks backend)) (\<lambda>w.
       if wz_model w = [] then ret (rec, g, wz_consents w)
       else
         (let rec' = id_pick d profile (no_overrides\<lparr>ov_model := wz_model w\<rparr>) res
          in ret (rec', resolve_gates cfg opt rec', wz_consents w)))))"

definition run_gate :: "('p, 'h) install_deps \<Rightarrow> opts \<Rightarrow> check list \<Rightarrow> consents \<Rightarrow> ('h, unit) install_flow" where
  "run_gate d opt checks consents =
     andthen (ask (gate (id_prep d) checks opt consents)) (\<lambda>v.
       case v of GatePass \<Rightarrow> ret () | GateForced \<Rightarrow> note_degraded | GateBlocked \<Rightarrow> stop (Block GateUnmet))"

definition decide_plan :: "('p, 'h) install_deps \<Rightarrow> opts \<Rightarrow> ('h, prepared) install_flow" where
  "decide_plan d opt =
     andthen (obtain_from (\<lambda>e. Block (ConfigUnreadable e)) (id_load_config d)) (\<lambda>cfg.
     andthen (ask (id_probe d)) (\<lambda>profile.
     let res = planned_reservations (id_image_table d) cfg opt;
         rec = id_pick d profile no_overrides res
     in if \<not> recommendation_usable rec then stop (Block NoFit)
        else
          andthen (collect_checks d cfg profile rec (resolve_gates cfg opt rec)) (\<lambda>checks.
          andthen (run_wizard d opt cfg profile res rec (resolve_gates cfg opt rec) checks) (\<lambda>(rec, g, consents).
          andthen (run_gate d opt checks consents) (\<lambda>_.
          andthen (andthen (observe (id_unit_dir d)) (given (\<lambda>e. Block (NoUnitDir e)))) (\<lambda>dir.
          let cfg' = ip_config (assemble_plan cfg g rec (Some persisted_backend_chosen)) in
          andthen (if cfg_inference_secret cfg' = []
                   then andthen (obtain_from (\<lambda>e. Block (NoInferenceSecret e)) (id_inference_secret d))
                          (\<lambda>secret. ret (cfg'\<lparr>cfg_inference_secret := secret\<rparr>))
                   else ret cfg') (\<lambda>cfg'.
          andthen (obtain_from (\<lambda>e. Block (NotRendered e)) (id_render d cfg')) (\<lambda>units.
          andthen (obtain_from (\<lambda>e. Block (NotReconciled e)) (id_reconcile d units dir)) (\<lambda>plan.
          ret \<lparr>pp_persisted = cfg, pp_config = cfg', pp_gates = g, pp_rec = rec, pp_unit_dir = dir, pp_plan = plan\<rparr>)))))))))"

subsection \<open>Staging the weights\<close>

definition ensure :: "string \<Rightarrow> ('h \<Rightarrow> bool) \<Rightarrow> 'h host_call \<Rightarrow> ('h, unit) install_flow" where
  "ensure what present pull =
     andthen (observe present) (\<lambda>p. whenever (\<not> p) (attempt (\<lambda>e. Block (NotDownloaded what e)) pull))"

definition coder_shard_for :: "recommendation \<Rightarrow> catalog \<Rightarrow> shard option" where
  "coder_shard_for rec cat =
     (if cf_model (rc_coder rec) = [] then None
      else map_option (\<lambda>m. hd (m_shards m))
             (find (\<lambda>m. m_id m = cf_model (rc_coder rec) \<and> m_shards m \<noteq> []) (ct_models cat)))"

definition stage_image :: "('p, 'h) install_deps \<Rightarrow> prepared \<Rightarrow> ('h, unit) install_flow" where
  "stage_image d p =
     (case image_by_id (id_image_table d) (cfg_image_model (pp_config p)) of
        None \<Rightarrow> stop (Block (UnknownImageModel (cfg_image_model (pp_config p))))
      | Some m \<Rightarrow> ensure ''image'' (wd_image_present (id_weights d) (id_models_dir d) m)
                    (wd_ensure_image (id_weights d) (id_models_dir d) m))"

definition stage_agent :: "('p, 'h) install_deps \<Rightarrow> prepared \<Rightarrow> ('h, unit) install_flow" where
  "stage_agent d p =
     andthen (observe (wd_agent_catalog (id_weights d))) (\<lambda>cat.
     case cat of
       None \<Rightarrow> stop (Block NoCatalog)
     | Some cat \<Rightarrow>
         if cf_residency (rc_coder (pp_rec p)) = residency_shared then stop (Block SharedCoder)
         else (case coder_shard_for (pp_rec p) cat of
           None \<Rightarrow> stop (Block NoCoder)
         | Some sh \<Rightarrow>
             andthen (ensure ''coder'' (wd_coder_present (id_weights d) (id_models_dir d) sh)
                        (wd_ensure_coder (id_weights d) (id_models_dir d) sh)) (\<lambda>_.
             andthen (obtain_from (\<lambda>e. Block (AgentNotStaged e)) (wd_install_agent (id_weights d))) (\<lambda>_.
             attempt (\<lambda>e. Block (AgentNotRendered e)) (wd_render_crush (id_weights d) (pp_config p))))))"

definition stage_weights :: "('p, 'h) install_deps \<Rightarrow> prepared \<Rightarrow> ('h, unit) install_flow" where
  "stage_weights d p =
     (let w = id_weights d; dir = id_models_dir d; g = pp_gates p in
      andthen (ensure ''model'' (wd_model_present w (pp_rec p)) (wd_ensure_model w (pp_rec p))) (\<lambda>_.
      andthen (whenever (gt_memory g) (ensure ''embed'' (wd_embed_present w dir) (wd_ensure_embed w dir))) (\<lambda>_.
      andthen (whenever (gt_memory g) (ensure ''rerank'' (wd_rerank_present w dir) (wd_ensure_rerank w dir))) (\<lambda>_.
      andthen (whenever (gt_voice g) (ensure ''voice'' (wd_voice_present w dir) (wd_ensure_voice w dir))) (\<lambda>_.
      andthen (whenever (gt_image g) (stage_image d p)) (\<lambda>_.
      whenever (gt_agent g) (stage_agent d p)))))))"

subsection \<open>The capture\<close>

definition dashboard_service :: string where
  "dashboard_service = ''villa-dashboard.service''"

definition install_services :: "install_units \<Rightarrow> string list" where
  "install_services u = [iu_inference u, iu_chat u, iu_qdrant u, iu_embed u, iu_rerank u, iu_extract u, iu_searxng u,
     iu_websafe u, iu_stt u, iu_tts u, iu_image u, dashboard_service]"

definition active :: "'h change_deps \<Rightarrow> string \<Rightarrow> 'h \<Rightarrow> bool" where
  "active c svc h \<longleftrightarrow> hi_is_active c svc h = Inr ''active''"

definition captured_units :: "'h change_deps \<Rightarrow> prepared \<Rightarrow> 'h \<Rightarrow> (string \<times> string) list" where
  "captured_units c p h =
     (case hi_read_unit c of
        None \<Rightarrow> []
      | Some read \<Rightarrow> List.map_filter (\<lambda>u. map_option (\<lambda>t. (un_name u, t)) (read (pp_unit_dir p) (un_name u) h))
                       (pl_changed (pp_plan p) @ pl_unchanged (pp_plan p)))
   @ (case hi_user_unit_dir c h of
        Inl _ \<Rightarrow> []
      | Inr dir \<Rightarrow> (case hi_read_dashboard c dir h of Content b \<Rightarrow> [(dashboard_service, b)] | _ \<Rightarrow> []))"

definition capture_state :: "'h change_deps \<Rightarrow> prepared \<Rightarrow> 'h \<Rightarrow> prior" where
  "capture_state c p h =
     capture_prior (pp_persisted p)
       (case hi_config_exists c of None \<Rightarrow> True | Some f \<Rightarrow> f h)
       (captured_units c p h)
       (filter (\<lambda>svc. active c svc h) (install_services default_units))"

subsection \<open>The changes\<close>

definition dashboard_active :: "'h change_deps \<Rightarrow> 'h \<Rightarrow> bool" where
  "dashboard_active c h = active c dashboard_service h"

definition write_dashboard :: "'h change_deps \<Rightarrow> string \<Rightarrow> string \<Rightarrow> bool \<Rightarrow> ('h, unit) install_flow" where
  "write_dashboard c dir bin existed =
     andthen (attempt (\<lambda>e. Refuse (DashboardNotWritten e)) (hi_write_dashboard c dir bin)) (\<lambda>_.
     andthen (note_mutation (record_unit dashboard_service)) (\<lambda>_.
     andthen (attempt (\<lambda>e. Refuse (DashboardNotReloaded e)) (hi_reload c)) (\<lambda>_.
     andthen (note_mutation (record_enable dashboard_service)) (\<lambda>_.
     andthen (attempt (\<lambda>e. Refuse (DashboardNotEnabled e)) (hi_enable c dashboard_service)) (\<lambda>_.
     andthen (observe (dashboard_active c)) (\<lambda>running.
     if existed \<and> running
     then andthen (note_mutation (record_start dashboard_service)) (\<lambda>_.
            attempt (\<lambda>e. Refuse (DashboardNotRestarted e)) (hi_restart c dashboard_service))
     else andthen (attempt (\<lambda>e. Refuse (DashboardNotStarted e)) (hi_start c dashboard_service)) (\<lambda>_.
            note_mutation (record_start dashboard_service))))))))"

definition reconcile_dashboard :: "'h change_deps \<Rightarrow> ('h, unit) install_flow" where
  "reconcile_dashboard c =
     andthen (andthen (observe (hi_user_unit_dir c)) (given (\<lambda>e. Refuse (NoUserUnitDir e)))) (\<lambda>dir.
     andthen (andthen (observe (hi_binary_path c)) (given (\<lambda>e. Refuse (NoBinaryPath e)))) (\<lambda>bin.
     andthen (given (\<lambda>e. Refuse (DashboardNotRendered e)) (hi_render_dashboard c bin)) (\<lambda>expected.
     andthen (observe (hi_read_dashboard c dir)) (\<lambda>cur.
     case cur of
       Unreadable e \<Rightarrow> stop (Refuse (DashboardUnreadable e))
     | Absent \<Rightarrow> (if expected = [] then ret () else write_dashboard c dir bin False)
     | Content b \<Rightarrow> (if b = expected then ret () else write_dashboard c dir bin True)))))"

text \<open>A service running on a rewritten unit is stopped first, since \<open>start\<close> would leave it alone.\<close>

definition start_service :: "'h change_deps \<Rightarrow> unit_plan \<Rightarrow> string \<Rightarrow> ('h, unit) install_flow" where
  "start_service c plan svc =
     andthen (observe (active c svc)) (\<lambda>running.
     andthen (whenever (svc \<in> (service_for \<circ> un_name) ` set (pl_changed plan) \<and> running)
                (attempt (\<lambda>e. Refuse (ServiceFailed svc (NotStoppedFirst e))) (hi_stop c svc))) (\<lambda>_.
     andthen (attempt (\<lambda>e. Refuse (ServiceFailed svc (NotStarted e))) (hi_start c svc)) (\<lambda>_.
     andthen (note_performed svc) (\<lambda>_.
     note_mutation (record_start svc)))))"

definition render_searxng_secret_env :: "string \<Rightarrow> string \<times> string" where
  "render_searxng_secret_env secret = (''searxng.env'', ''SEARXNG_SECRET='' @ secret @ [CHR 0x0A])"

text \<open>The web-loader bearer, made once and written before the chat UI starts.\<close>

definition web_loader_secret :: "'h change_deps \<Rightarrow> villa_config \<Rightarrow> ('h, villa_config) install_flow" where
  "web_loader_secret c cfg =
     andthen (if cfg_web_loader_secret cfg = []
              then andthen (obtain_from (\<lambda>e. Refuse (NoWebLoaderSecret e)) (hi_web_loader_secret c)) (\<lambda>secret.
                   let cfg = cfg\<lparr>cfg_web_loader_secret := secret\<rparr> in
                   andthen (attempt (\<lambda>e. Refuse (WebLoaderNotSaved e)) (hi_save_config c cfg)) (\<lambda>_. ret cfg))
              else ret cfg) (\<lambda>cfg.
     case render_websafe_secret_env (cfg_web_loader_secret cfg) of (name, text) \<Rightarrow>
       andthen (attempt (\<lambda>e. Refuse (WebLoaderNotWritten e)) (hi_write_websafe_env c name text)) (\<lambda>_. ret cfg))"

definition searxng_files :: "'h change_deps \<Rightarrow> villa_config \<Rightarrow> ('h, villa_config) install_flow" where
  "searxng_files c cfg =
     andthen (if cfg_searxng_secret cfg = []
              then andthen (obtain_from (\<lambda>e. Refuse (NoSearxngSecret e)) (hi_searxng_secret c)) (\<lambda>secret.
                   let cfg = cfg\<lparr>cfg_searxng_secret := secret\<rparr> in
                   andthen (attempt (\<lambda>e. Refuse (SearxngNotSaved e)) (hi_save_config c cfg)) (\<lambda>_. ret cfg))
              else ret cfg) (\<lambda>cfg.
     andthen (given (\<lambda>e. Refuse (SearxngNotRendered e)) (hi_render_searxng c cfg)) (\<lambda>(name, text).
     andthen (attempt (\<lambda>e. Refuse (SearxngNotWritten e)) (hi_write_searxng_settings c name text)) (\<lambda>_.
     case render_searxng_secret_env (cfg_searxng_secret cfg) of (name, text) \<Rightarrow>
       andthen (attempt (\<lambda>e. Refuse (SearxngEnvNotWritten e)) (hi_write_searxng_env c name text)) (\<lambda>_. ret cfg))))"

definition require_units :: "unit_plan \<Rightarrow> kind \<Rightarrow> string list \<Rightarrow> ('h, unit) install_flow" where
  "require_units plan k ns =
     (if list_all (unit_present plan) ns then ret () else stop (Refuse (UnitAbsent k)))"

definition start_web_search ::
  "'h change_deps \<Rightarrow> install_units \<Rightarrow> unit_plan \<Rightarrow> villa_config \<Rightarrow> ('h, villa_config) install_flow" where
  "start_web_search c u plan cfg =
     andthen (require_units plan WebSearch [''villa-searxng.container'']) (\<lambda>_.
     andthen (searxng_files c cfg) (\<lambda>cfg.
     andthen (start_service c plan (iu_searxng u)) (\<lambda>_.
     andthen (require_units plan WebSearch [''villa-websafe.container'']) (\<lambda>_.
     andthen (start_service c plan (iu_websafe u)) (\<lambda>_. ret cfg)))))"

definition start_stack ::
  "'h change_deps \<Rightarrow> install_units \<Rightarrow> prepared \<Rightarrow> ('h, villa_config) install_flow" where
  "start_stack c u p =
     (let g = pp_gates p; plan = pp_plan p; start = start_service c plan in
      andthen (start (iu_inference u)) (\<lambda>_.
      andthen (if gt_web_search g then web_loader_secret c (pp_config p) else ret (pp_config p)) (\<lambda>cfg.
      andthen (start (iu_chat u)) (\<lambda>_.
      andthen (whenever (gt_memory g)
        (andthen (require_units plan Memory [''villa-qdrant.container'', ''villa-embed.container'',
                    ''villa-rerank.container'', ''villa-extract.container'']) (\<lambda>_.
         for_each start [iu_qdrant u, iu_embed u, iu_rerank u, iu_extract u]))) (\<lambda>_.
      andthen (if gt_web_search g then start_web_search c u plan cfg else ret cfg) (\<lambda>cfg.
      andthen (whenever (gt_voice g)
        (andthen (require_units plan Voice [''villa-stt.container'', ''villa-tts.container'']) (\<lambda>_.
         for_each start [iu_stt u, iu_tts u]))) (\<lambda>_.
      andthen (whenever (gt_image g)
        (andthen (require_units plan Image [''villa-image.container'']) (\<lambda>_. start (iu_image u)))) (\<lambda>_.
      ret cfg))))))))"

subsection \<open>The proofs\<close>

definition proven :: "refusal \<Rightarrow> ('h \<Rightarrow> check_status \<times> 'h) \<Rightarrow> ('h, unit) install_flow" where
  "proven r f = andthen (ask f) (\<lambda>st. if st = StatusFail then stop (Refuse r) else ret ())"

definition prove_stack :: "'h proof_deps \<Rightarrow> gates \<Rightarrow> villa_config \<Rightarrow> ('h, unit) install_flow" where
  "prove_stack pd g cfg =
     andthen (whenever (gt_memory g) (proven (NotReady Memory) (pd_prove_memory pd cfg))) (\<lambda>_.
     andthen (whenever (gt_web_search g) (proven (NotReady WebSearch) (pd_prove_search pd))) (\<lambda>_.
     andthen (whenever (gt_voice g) (proven (NotReady Voice) (pd_prove_voice pd))) (\<lambda>_.
     andthen (whenever (gt_image g)
       (andthen (proven (NotReady Image) (pd_prove_image pd cfg)) (\<lambda>_. proven ChatNotResident (pd_prove_chat pd cfg)))) (\<lambda>_.
     whenever (gt_agent g) (proven (NotReady Agent) (pd_prove_agent pd))))))"

definition finish :: "bool \<Rightarrow> install_outcome option \<Rightarrow> ('h, unit) install_flow" where
  "finish ready_warn oc s = (Inl (Finish (finish_outcome (rs_degraded s) ready_warn oc)), s)"

text \<open>Everything after the first save; every failure in it refuses.\<close>

definition change_after_save :: "('p, 'h) install_deps \<Rightarrow> prepared \<Rightarrow> ('h, unit) install_flow" where
  "change_after_save d p =
     (let c = id_change d; pd = id_proofs d; u = default_units; plan = pp_plan p; g = pp_gates p in
      andthen (note_mutation record_config_save) (\<lambda>_.
      andthen (reconcile_dashboard c) (\<lambda>_.
      andthen (case render_inference_secret_env (cfg_inference_secret (pp_config p)) of (name, text) \<Rightarrow>
                 attempt (\<lambda>e. Refuse (InferenceEnvNotWritten e)) (hi_write_inference_env c name text)) (\<lambda>_.
      andthen (if pl_changed plan = [] then finish False (Some NoChange) else ret ()) (\<lambda>_.
      andthen (attempt (\<lambda>e. Refuse (UnitsNotWritten e)) (hi_write_units c plan (pp_unit_dir p))) (\<lambda>_.
      andthen (for_each (\<lambda>n. note_mutation (record_unit n)) (map un_name (pl_changed plan))) (\<lambda>_.
      andthen (attempt (\<lambda>e. Refuse (NotReloaded e)) (hi_reload c)) (\<lambda>_.
      andthen (start_stack c u p) (\<lambda>cfg.
      andthen (ask (pd_poll_ready pd)) (\<lambda>ready.
      andthen (prove_stack pd g cfg) (\<lambda>_.
      andthen (current rs_performed) (\<lambda>performed.
      case assert_start_order (build_sequence g u (cfg_web_loader_secret (pp_config p) = [])) performed of
        Some e \<Rightarrow> stop (Refuse (OrderViolated e))
      | None \<Rightarrow> finish (ready = StatusWarn) None))))))))))))"

definition change_stack :: "('p, 'h) install_deps \<Rightarrow> prepared \<Rightarrow> ('h, unit) install_flow" where
  "change_stack d p =
     andthen (attempt (\<lambda>e. Block (ConfigNotSaved e)) (hi_save_config (id_change d) (pp_config p)))
       (\<lambda>_. change_after_save d p)"

subsection \<open>The run\<close>

definition rollback_unit_dir :: "'h change_deps \<Rightarrow> string \<Rightarrow> string \<Rightarrow> 'h \<Rightarrow> string + string" where
  "rollback_unit_dir c dir name h =
     (if name \<noteq> dashboard_service then Inr dir else hi_user_unit_dir c h)"

definition rollback_seams :: "'h change_deps \<Rightarrow> string \<Rightarrow> 'h rollback_deps" where
  "rollback_seams c dir = \<lparr>
     rb_stop = Some (hi_stop c), rb_start = Some (hi_restart c),
     rb_write_unit = Some (\<lambda>name text h. case hi_write_unit c of
        None \<Rightarrow> (Some ''no unit-write seam wired'', h)
      | Some f \<Rightarrow> (case rollback_unit_dir c dir name h of Inl e \<Rightarrow> (Some e, h) | Inr dir \<Rightarrow> f dir name text h)),
     rb_remove_unit = Some (\<lambda>name h. case hi_remove_unit c of
        None \<Rightarrow> (Some ''no unit-removal seam wired'', h)
      | Some f \<Rightarrow> (case rollback_unit_dir c dir name h of Inl e \<Rightarrow> (Some e, h) | Inr dir \<Rightarrow> f dir name h)),
     rb_disable = Some (hi_disable c), rb_save_config = Some (hi_save_config c),
     rb_remove_config = hi_remove_config c, rb_reload = Some (hi_reload c)\<rparr>"

record install_result =
  ir_outcome :: install_outcome
  ir_exit :: run_exit
  ir_rollback :: "rollback_failure list"
  ir_gate_degraded :: bool

definition fresh_run :: "'h \<Rightarrow> 'h run_state" where
  "fresh_run h = \<lparr>rs_host = h, rs_degraded = False, rs_mut = no_mutations, rs_performed = []\<rparr>"

text \<open>A run without the rollback: its exit, and the capture and the folder when there is one.\<close>

definition before_changes :: "('p, 'h) install_deps \<Rightarrow> opts \<Rightarrow> ('h, prepared) install_flow" where
  "before_changes d opt =
     andthen (decide_plan d opt) (\<lambda>p.
       if op_dry_run opt then stop (Finish DryRun)
       else andthen (stage_weights d p) (\<lambda>_. ret p))"

definition exit_result :: "run_exit \<Rightarrow> rollback_failure list \<Rightarrow> 'h run_state \<Rightarrow> install_result" where
  "exit_result e rb s = \<lparr>ir_outcome = (case e of Block _ \<Rightarrow> Blocked | Refuse _ \<Rightarrow> Refused | Finish oc \<Rightarrow> oc),
     ir_exit = e, ir_rollback = rb, ir_gate_degraded = rs_degraded s\<rparr>"

definition conclude :: "('p, 'h) install_deps \<Rightarrow> prepared \<Rightarrow> prior \<Rightarrow> run_exit \<Rightarrow> 'h run_state \<Rightarrow> install_result \<times> 'h" where
  "conclude d p prior e s =
     (case e of
        Refuse _ \<Rightarrow>
          (case install_rollback (rollback_seams (id_change d) (pp_unit_dir p)) prior (rs_mut s) (rs_host s) of
             (fs, h) \<Rightarrow> (exit_result e fs s, h))
      | _ \<Rightarrow> (exit_result e [] s, rs_host s))"

definition run_install :: "('p, 'h) install_deps \<Rightarrow> opts \<Rightarrow> 'h \<Rightarrow> install_result \<times> 'h" where
  "run_install d opt h =
     (case before_changes d opt (fresh_run h) of
        (Inl e, s) \<Rightarrow> (exit_result e [] s, rs_host s)
      | (Inr p, s) \<Rightarrow>
          (let prior = capture_state (id_change d) p (rs_host s) in
           case change_stack d p s of
             (Inl e, s) \<Rightarrow> conclude d p prior e s
           | (Inr _, s) \<Rightarrow> conclude d p prior (Finish Completed) s))"

end
