(* ===== verification/InstallSafety.thy ===== *)
theory InstallSafety
  imports InstallFlow
begin

text \<open>
  What an install run guarantees: nothing changes before the capture, a refusal puts the captured
  state back, the services start in the planned order, the pick was sized for the configuration that
  is written, and no privileged fix runs unasked.
\<close>

subsection \<open>The calls\<close>

lemma keeps_observe [flow_rules]: "keeps P (observe f)"
  by (simp add: triple_def observe_def)

lemma keeps_given [flow_rules]: "keeps P (given mk r)"
  by (simp add: triple_def given_def ret_def stop_def split: sum.split)

text \<open>A property of the host, as one of the run's state.\<close>

definition on_host :: "('h \<Rightarrow> bool) \<Rightarrow> 'h run_state \<Rightarrow> bool" where
  "on_host P s = P (rs_host s)"

definition calm :: "('h \<Rightarrow> bool) \<Rightarrow> ('h \<Rightarrow> 'a \<times> 'h) \<Rightarrow> bool" where
  "calm P f \<longleftrightarrow> (\<forall>h. P h \<longrightarrow> P (snd (f h)))"

lemma calmD: "calm P f \<Longrightarrow> P h \<Longrightarrow> P (snd (f h))"
  by (simp add: calm_def)

lemma calm_calls [flow_rules]:
  "calm P f \<Longrightarrow> keeps (on_host P) (ask f)"
  "calm P g \<Longrightarrow> keeps (on_host P) (attempt mk g)"
  "calm P r \<Longrightarrow> keeps (on_host P) (obtain_from mk r)"
  by (auto simp: triple_def ask_def attempt_def obtain_from_def on_host_def calm_def
      split: prod.splits option.splits sum.splits)

lemma on_host_notes [flow_rules]:
  "keeps (on_host P) (note_mutation f)" "keeps (on_host P) (note_performed svc)" "keeps (on_host P) note_degraded"
  by (simp_all add: triple_def on_host_def note_mutation_def note_performed_def note_degraded_def)

subsection \<open>The seams before the first change\<close>

definition reads_calm :: "('h \<Rightarrow> bool) \<Rightarrow> ('p, 'h) install_deps \<Rightarrow> bool" where
  "reads_calm P d \<longleftrightarrow> calm P (id_load_config d) \<and> calm P (id_probe d) \<and> calm P (id_inference_secret d)
     \<and> (\<forall>p f. calm P (id_run_checks d p f))
     \<and> (\<forall>f p m. id_memory_checks d = Some f \<longrightarrow> calm P (f p m))
     \<and> (\<forall>f p r. id_agent_checks d = Some f \<longrightarrow> calm P (f p r))
     \<and> (\<forall>c. calm P (id_render d c)) \<and> (\<forall>us dir. calm P (id_reconcile d us dir))"

definition prep_calm :: "('h \<Rightarrow> bool) \<Rightarrow> ('p, 'h) install_deps \<Rightarrow> bool" where
  "prep_calm P d \<longleftrightarrow> (\<forall>c. calm P (hp_consent (id_prep d) c)) \<and> calm P (hp_setsebool (id_prep d))
     \<and> (\<forall>u. calm P (hp_enable_linger (id_prep d) u)) \<and> (\<forall>p r cs b. calm P (id_wizard d p r cs b))"

definition weights_calm :: "('h \<Rightarrow> bool) \<Rightarrow> 'h weights_deps \<Rightarrow> bool" where
  "weights_calm P w \<longleftrightarrow> (\<forall>r. calm P (wd_ensure_model w r)) \<and> (\<forall>dir. calm P (wd_ensure_embed w dir))
     \<and> (\<forall>dir. calm P (wd_ensure_rerank w dir)) \<and> (\<forall>dir. calm P (wd_ensure_voice w dir))
     \<and> (\<forall>dir m. calm P (wd_ensure_image w dir m)) \<and> (\<forall>dir sh. calm P (wd_ensure_coder w dir sh))
     \<and> calm P (wd_install_agent w) \<and> (\<forall>c. calm P (wd_render_crush w c))"

lemma calm_dry_gap: "op_dry_run opt \<Longrightarrow> snd (resolve_gap d opt consents c h) = h"
  by (simp add: resolve_gap_def)

lemma dry_scan: "op_dry_run opt \<Longrightarrow> snd (scan_checks d opt consents cs h) = h"
  by (induction cs arbitrary: h) (auto simp: safe_auto_fix_def offer_gap_def calm_dry_gap split: check_status.split prod.split,
      (metis snd_conv)+)

lemma dry_resolve: "op_dry_run opt \<Longrightarrow> snd (resolve_gaps d opt consents cs h) = h"
  by (induction cs arbitrary: h) (auto simp: resolve_gap_def split: prod.split, metis snd_conv)

lemma dry_gate: "op_dry_run opt \<Longrightarrow> snd (gate d checks opt consents h) = h"
  by (auto simp: gate_def split: prod.split) (metis dry_scan dry_resolve snd_conv)+

lemma calm_fix: "prep_calm P d \<Longrightarrow> calm P (run_gap_fix (id_prep d) c)"
  by (simp add: prep_calm_def calm_def run_gap_fix_def succeeded_def)

lemma calm_gap: "prep_calm P d \<Longrightarrow> calm P (resolve_gap (id_prep d) opt consents c)"
  using calm_fix [of P d c] unfolding calm_def resolve_gap_def prep_calm_def
  by (auto split: option.split prod.split bool.split) (metis snd_conv)+

lemma calm_scan: "prep_calm P d \<Longrightarrow> P h \<Longrightarrow> P (snd (scan_checks (id_prep d) opt consents cs h))"
proof (induction cs arbitrary: h)
  case (Cons c cs)
  have off: "P (offer_gap (id_prep d) opt consents c h)"
    using calmD [OF calm_gap [OF Cons.prems(1)] Cons.prems(2)] by (simp add: offer_gap_def)
  show ?case using Cons off by (auto simp: safe_auto_fix_def split: check_status.split prod.split) (metis snd_conv)+
qed simp

lemma calm_resolve: "prep_calm P d \<Longrightarrow> P h \<Longrightarrow> P (snd (resolve_gaps (id_prep d) opt consents cs h))"
proof (induction cs arbitrary: h)
  case (Cons c cs)
  then show ?case using calmD [OF calm_gap [OF Cons.prems(1), of opt consents c] Cons.prems(2)]
    by (auto split: prod.split) (metis snd_conv)+
qed simp

lemma calm_gate: "prep_calm P d \<or> op_dry_run opt \<Longrightarrow> calm P (gate (id_prep d) checks opt consents)"
proof (cases "op_dry_run opt")
  case True
  then show ?thesis by (simp add: calm_def dry_gate)
next
  case False
  moreover assume "prep_calm P d \<or> op_dry_run opt"
  ultimately have p: "prep_calm P d" by simp
  show ?thesis unfolding calm_def gate_def
    using calm_scan [OF p] calm_resolve [OF p] by (auto split: prod.split) (metis snd_conv)+
qed

lemma keeps_gate:
  assumes "prep_calm P d \<or> op_dry_run opt"
  shows "keeps (on_host P) (run_gate d opt checks consents)"
  unfolding run_gate_def
  by (intro keeps_andthen calm_calls calm_gate assms) (auto split: gate_verdict.split intro: flow_rules)


lemma keeps_whenever [flow_rules]: "keeps P m \<Longrightarrow> keeps P (whenever b m)"
  by (rule triple_whenever)

lemma keeps_checks: "reads_calm P d \<Longrightarrow> keeps (on_host P) (collect_checks d cfg profile rec g)"
  unfolding collect_checks_def reads_calm_def
  by (intro flow_rules) auto

lemma keeps_wizard:
  assumes "prep_calm P d \<or> op_dry_run opt"
  shows "keeps (on_host P) (run_wizard d opt cfg profile res rec g checks)"
proof (cases "op_dry_run opt")
  case True
  then show ?thesis by (simp add: run_wizard_def triple_def andthen_def observe_def ret_def)
next
  case False
  with assms have w: "calm P (id_wizard d p r cs b)" for p r cs b by (simp add: prep_calm_def)
  show ?thesis unfolding run_wizard_def Let_def by (intro flow_rules w)
qed

lemma reads_calmD:
  assumes "reads_calm P d"
  shows "calm P (id_load_config d)" "calm P (id_probe d)" "calm P (id_inference_secret d)"
    "calm P (id_render d c)" "calm P (id_reconcile d us dir)"
  using assms by (simp_all add: reads_calm_def)

lemma keeps_decide:
  assumes "reads_calm P d" and "prep_calm P d \<or> op_dry_run opt"
  shows "keeps (on_host P) (decide_plan d opt)"
  unfolding decide_plan_def Let_def
  by (intro flow_rules keeps_checks [OF assms(1)] keeps_wizard [OF assms(2)] keeps_gate [OF assms(2)]
      reads_calmD [OF assms(1)])

lemma keeps_ensure: "calm P pull \<Longrightarrow> keeps (on_host P) (ensure what present pull)"
  unfolding ensure_def by (intro flow_rules)

lemma keeps_weights:
  assumes "weights_calm P (id_weights d)"
  shows "keeps (on_host P) (stage_weights d p)"
  unfolding stage_weights_def stage_image_def stage_agent_def Let_def
  by (intro flow_rules keeps_ensure) (use assms in \<open>simp_all add: weights_calm_def\<close>)

lemma keeps_before:
  assumes "reads_calm P d" and "prep_calm P d \<or> op_dry_run opt"
    and "weights_calm P (id_weights d) \<or> op_dry_run opt"
  shows "keeps (on_host P) (before_changes d opt)"
proof (cases "op_dry_run opt")
  case True
  then show ?thesis unfolding before_changes_def by (simp, intro flow_rules keeps_decide assms)
next
  case False
  with assms(3) have "weights_calm P (id_weights d)" by simp
  then show ?thesis unfolding before_changes_def by (intro flow_rules keeps_decide assms keeps_weights)
qed

subsection \<open>Invariants with their own exits\<close>

text \<open>The same rules when a stop has its own postcondition.\<close>

named_theorems inv_rules

lemma inv_andthen [inv_rules]:
  "triple P m (\<lambda>_. P) E \<Longrightarrow> (\<And>a. triple P (f a) (\<lambda>_. P) E) \<Longrightarrow> triple P (andthen m f) (\<lambda>_. P) E"
  by (rule triple_andthen)

lemma inv_base [inv_rules]:
  "triple P (observe g) (\<lambda>_. P) E" "triple P (current k) (\<lambda>_. P) E" "triple P (ret a) (\<lambda>_. P) E"
  by (simp_all add: triple_def observe_def current_def ret_def)

lemma inv_parts [inv_rules]:
  "triple P n (\<lambda>_. P) E \<Longrightarrow> triple P (whenever b n) (\<lambda>_. P) E"
  "(\<And>x. triple P (h x) (\<lambda>_. P) E) \<Longrightarrow> triple P (for_each h xs) (\<lambda>_. P) E"
  by (auto intro: triple_whenever triple_for_each)

lemma inv_stops [inv_rules]:
  "(\<And>s. P s \<Longrightarrow> E e s) \<Longrightarrow> triple P (stop e) (\<lambda>_. P) E"
  "(\<And>x s. P s \<Longrightarrow> E (mk x) s) \<Longrightarrow> triple P (given mk r) (\<lambda>_. P) E"
  by (simp_all add: triple_def stop_def given_def ret_def split: sum.split)

lemmas inv_branches [inv_rules] = triple_if triple_option triple_sum triple_prod

lemma triple_file_read [inv_rules]:
  "(x = Absent \<Longrightarrow> triple P m Q E) \<Longrightarrow> (\<And>e. x = Unreadable e \<Longrightarrow> triple P (f e) Q E) \<Longrightarrow>
   (\<And>b. x = Content b \<Longrightarrow> triple P (g b) Q E) \<Longrightarrow>
   triple P (case x of Absent \<Rightarrow> m | Unreadable e \<Rightarrow> f e | Content b \<Rightarrow> g b) Q E"
  by (cases x) auto

subsection \<open>Before the first change\<close>

definition no_block :: "run_exit \<Rightarrow> 'h run_state \<Rightarrow> bool" where
  "no_block e s \<longleftrightarrow> (case e of Block _ \<Rightarrow> False | Finish oc \<Rightarrow> oc \<noteq> Blocked \<and> oc \<noteq> Refused | _ \<Rightarrow> True)"

abbreviation refuses :: "('h, 'a) install_flow \<Rightarrow> bool" where
  "refuses m \<equiv> triple (\<lambda>_. True) m (\<lambda>_ _. True) no_block"

lemma refuses_calls [inv_rules]:
  "refuses (attempt (\<lambda>x. Refuse (r x)) f)" "refuses (obtain_from (\<lambda>x. Refuse (r x)) g)" "refuses (ask k)"
  "refuses (note_mutation mu)" "refuses (note_performed svc)" "refuses (finish b None)" "refuses (finish b (Some NoChange))"
  by (auto simp: triple_def call_defs no_block_def finish_def finish_outcome_def split: prod.split option.split sum.split)

lemma refuses_start: "refuses (start_service c plan svc)"
  unfolding start_service_def by (intro inv_rules)

lemma no_block_simps [simp]: "no_block (Refuse r) s" "\<not> no_block (Block b) s"
  by (simp_all add: no_block_def)

lemma refuses_dashboard: "refuses (reconcile_dashboard c)"
  unfolding reconcile_dashboard_def write_dashboard_def by (intro inv_rules) simp_all

lemma refuses_stack: "refuses (start_stack c u p)"
  unfolding start_stack_def start_web_search_def web_loader_secret_def searxng_files_def require_units_def Let_def
  by (intro inv_rules refuses_start) simp_all

lemma refuses_proofs: "refuses (prove_stack pd g cfg)"
  unfolding prove_stack_def proven_def by (intro inv_rules) simp_all

definition save_calm :: "('h \<Rightarrow> bool) \<Rightarrow> 'h change_deps \<Rightarrow> bool" where
  "save_calm P c \<longleftrightarrow> (\<forall>cfg h. P h \<longrightarrow> fst (hi_save_config c cfg h) \<noteq> None \<longrightarrow> P (snd (hi_save_config c cfg h)))"

lemma refuses_changes: "refuses (change_after_save d p)"
  unfolding change_after_save_def Let_def
  by (intro inv_rules refuses_dashboard refuses_stack refuses_proofs) simp_all

text \<open>The first save is the one change whose failure blocks.\<close>

lemma block_at_save:
  assumes "change_stack d p s = (Inl (Block b), s')" and "P (rs_host s)" and "save_calm P (id_change d)"
  shows "P (rs_host s')"
proof (cases "hi_save_config (id_change d) (pp_config p) (rs_host s)")
  case (Pair e h)
  show ?thesis
  proof (cases e)
    case None
    with Pair assms(1) have "change_after_save d p (s\<lparr>rs_host := h\<rparr>) = (Inl (Block b), s')"
      by (simp add: change_stack_def andthen_def attempt_def)
    from triple_Inl [OF refuses_changes _ this] show ?thesis by simp
  next
    case (Some x)
    with Pair assms(1) have "rs_host s' = h" by (auto simp: change_stack_def andthen_def attempt_def)
    moreover have "P h" using assms(2,3) Pair Some by (metis fst_conv snd_conv option.distinct(1) save_calm_def)
    ultimately show ?thesis by simp
  qed
qed

lemma no_blocked_finish:
  assumes "change_stack d p s = (Inl (Finish oc), s')"
  shows "oc \<noteq> Blocked \<and> oc \<noteq> Refused"
proof -
  obtain s1 where "change_after_save d p s1 = (Inl (Finish oc), s')"
    using assms by (auto simp: change_stack_def andthen_def attempt_def split: prod.splits option.splits)
  from triple_Inl [OF refuses_changes _ this] show ?thesis by (simp add: no_block_def)
qed

text \<open>C31: An install that is only tried out, and one that blocks, leave everything as it was that the
  readings, the downloads and the consented host preparation leave alone: a dry run not even runs those
  downloads and preparations.\<close>
theorem install_block_changes_nothing:
  assumes "P h" and "reads_calm P d"
    and "op_dry_run opt \<or> (prep_calm P d \<and> weights_calm P (id_weights d) \<and> save_calm P (id_change d)
           \<and> ir_outcome (fst (run_install d opt h)) = Blocked)"
  shows "P (snd (run_install d opt h))"
proof -
  have k: "keeps (on_host P) (before_changes d opt)" using assms by (intro keeps_before) auto
  have p0: "on_host P (fresh_run h)" using assms(1) by (simp add: on_host_def fresh_run_def)
  show ?thesis
  proof (cases "before_changes d opt (fresh_run h)")
    case (Pair r s)
    show ?thesis
    proof (cases r)
      case (Inl e)
      with triple_Inl [OF k p0] Pair show ?thesis by (simp add: run_install_def on_host_def)
    next
      case (Inr p)
      with Pair have nd: "\<not> op_dry_run opt"
        by (auto simp: before_changes_def andthen_def stop_def split: prod.splits sum.splits if_splits)
      have ps: "P (rs_host s)" using triple_Inr [OF k p0] Pair Inr by (simp add: on_host_def)
      obtain e s' where ch: "change_stack d p s = (e, s')" by fastforce
      have "oc \<noteq> Blocked" if "e = Inl (Finish oc)" for oc
        using no_blocked_finish ch that by blast
      moreover have out: "ir_outcome (fst (run_install d opt h)) = Blocked" using assms(3) nd by simp
      ultimately obtain b where "e = Inl (Block b)" and res: "snd (run_install d opt h) = rs_host s'"
        using Pair Inr ch
        by (auto simp: run_install_def conclude_def exit_result_def Let_def split: sum.splits run_exit.splits prod.splits)
      with block_at_save [where P = P, OF ch [unfolded \<open>e = Inl (Block b)\<close>] ps] assms(3) nd show ?thesis by simp
    qed
  qed
qed

subsection \<open>The start order\<close>

definition started_so_far :: "string list \<Rightarrow> 'h run_state \<Rightarrow> bool" where
  "started_so_far xs s \<longleftrightarrow> rs_performed s = xs"

definition any_exit :: "run_exit \<Rightarrow> 'h run_state \<Rightarrow> bool" where
  "any_exit e s \<longleftrightarrow> (\<forall>r. e \<noteq> Refuse (OrderViolated r))"

lemma any_exit_simps [simp]:
  "any_exit (Block b) s" "any_exit (Finish oc) s" "any_exit (Refuse r) s \<longleftrightarrow> (\<forall>e. r \<noteq> OrderViolated e)"
  by (auto simp: any_exit_def)

lemma order_calls:
  "(\<And>x. any_exit (mk x) undefined) \<Longrightarrow> triple (started_so_far xs) (attempt mk f) (\<lambda>_. started_so_far xs) any_exit"
  "(\<And>x. any_exit (mk x) undefined) \<Longrightarrow> triple (started_so_far xs) (obtain_from mk g) (\<lambda>_. started_so_far xs) any_exit"
  "triple (started_so_far xs) (ask k) (\<lambda>_. started_so_far xs) any_exit"
  "triple (started_so_far xs) (note_mutation mu) (\<lambda>_. started_so_far xs) any_exit"
  "triple (started_so_far xs) (note_performed svc) (\<lambda>_. started_so_far (xs @ [svc])) any_exit"
  "triple (started_so_far xs) (finish b oc) (\<lambda>_. started_so_far xs) any_exit"
  by (auto simp: triple_def call_defs finish_def started_so_far_def any_exit_def
      split: prod.splits option.splits sum.splits)

lemma order_start:
  "triple (started_so_far xs) (start_service c plan svc) (\<lambda>_. started_so_far (xs @ [svc])) any_exit"
  unfolding start_service_def
  by (rule triple_andthen, rule inv_base, rule triple_andthen, rule inv_parts, rule order_calls, simp,
      rule triple_andthen, rule order_calls, simp, rule triple_andthen, (rule order_calls)+)

lemma order_starts:
  "triple (started_so_far xs) (for_each (start_service c plan) svcs) (\<lambda>_. started_so_far (xs @ svcs)) any_exit"
proof (induction svcs arbitrary: xs)
  case Nil
  then show ?case by (simp add: inv_base)
next
  case (Cons svc svcs)
  then show ?case using triple_andthen [OF order_start] by (metis append.assoc append_Cons append_Nil for_each.simps(2))
qed

lemma order_when:
  "(b \<Longrightarrow> triple (started_so_far xs) m (\<lambda>_. started_so_far (xs @ ys)) E) \<Longrightarrow>
   triple (started_so_far xs) (whenever b m) (\<lambda>_. started_so_far (xs @ (if b then ys else []))) E"
  "(b \<Longrightarrow> triple (started_so_far xs) n (\<lambda>_. started_so_far (xs @ ys)) E) \<Longrightarrow>
   triple (started_so_far xs) (if b then n else ret a) (\<lambda>_. started_so_far (xs @ (if b then ys else []))) E"
  by (auto simp: whenever_def triple_def ret_def)

lemma order_require: "triple (started_so_far xs) (require_units plan k ns) (\<lambda>_. started_so_far xs) any_exit"
  unfolding require_units_def by (intro inv_rules) simp

lemma order_files:
  "triple (started_so_far xs) (web_loader_secret c cfg) (\<lambda>_. started_so_far xs) any_exit"
  "triple (started_so_far xs) (searxng_files c cfg) (\<lambda>_. started_so_far xs) any_exit"
  "triple (started_so_far xs) (reconcile_dashboard c) (\<lambda>_. started_so_far xs) any_exit"
  "triple (started_so_far xs) (prove_stack pd g cfg) (\<lambda>_. started_so_far xs) any_exit"
  unfolding web_loader_secret_def searxng_files_def reconcile_dashboard_def write_dashboard_def prove_stack_def
    proven_def Let_def
  by (intro inv_rules order_calls; simp)+

lemma order_web_search:
  "triple (started_so_far xs) (start_web_search c u plan cfg)
     (\<lambda>_. started_so_far (xs @ [iu_searxng u, iu_websafe u])) any_exit"
  unfolding start_web_search_def
  by ((rule triple_andthen, rule order_require order_files order_start)+, rule triple_ret, simp)

lemma step_services_sequence:
  "step_services (build_sequence g u sn) = [iu_inference u] @ [iu_chat u]
     @ (if gt_memory g then [iu_qdrant u, iu_embed u, iu_rerank u, iu_extract u] else [])
     @ (if gt_web_search g then [iu_searxng u, iu_websafe u] else [])
     @ (if gt_voice g then [iu_stt u, iu_tts u] else []) @ (if gt_image g then [iu_image u] else [])"
  by (simp add: step_services_def build_sequence_def plain_step_def secret_step_def start_step_def prove_step_def)

lemma order_stack:
  "triple (started_so_far []) (start_stack c u p)
     (\<lambda>_. started_so_far (step_services (build_sequence (pp_gates p) u sn))) any_exit"
proof -
  have one: "triple (started_so_far xs) (andthen (require_units plan k ns) (\<lambda>_. start_service c plan svc))
      (\<lambda>_. started_so_far (xs @ [svc])) any_exit" for xs plan k ns svc
    by (rule triple_andthen [OF order_require order_start])
  have many: "triple (started_so_far xs) (andthen (require_units plan k ns) (\<lambda>_. for_each (start_service c plan) svcs))
      (\<lambda>_. started_so_far (xs @ svcs)) any_exit" for xs plan k ns svcs
    by (rule triple_andthen [OF order_require order_starts])
  have loader: "triple (started_so_far xs) (if b then web_loader_secret c cfg else ret cfg) (\<lambda>_. started_so_far xs) any_exit"
    for xs b cfg by (intro inv_rules order_files)
  note starts = order_start [of "[]"] order_start order_when(1) [OF many] order_when(2) [OF order_web_search]
    order_when(1) [OF one]
  show ?thesis unfolding start_stack_def Let_def step_services_sequence
    by (rule triple_weaken [where P' = "started_so_far []" and E' = any_exit],
        ((rule triple_andthen, (rule loader | rule starts))+, rule triple_ret, assumption))
       (simp_all add: append.assoc)
qed

lemma find_from_here: "find_from x i (x # xs) = Some i"
  by simp

lemma assert_planned: "pos \<le> length planned \<Longrightarrow> assert_from planned pos (drop pos planned) = None"
proof (induction "length planned - pos" arbitrary: pos)
  case 0
  then show ?case by simp
next
  case (Suc n)
  then have "drop pos planned = planned ! pos # drop (Suc pos) planned" by (simp add: Cons_nth_drop_Suc)
  with Suc show ?case by simp
qed

lemma assert_services: "assert_start_order seq (step_services seq) = None"
  using assert_planned [of 0 "step_services seq"] by (simp add: assert_start_order_def)

lemma order_changes: "triple (started_so_far []) (change_after_save d p) (\<lambda>_ _. True) any_exit"
proof -
  let ?seq = "build_sequence (pp_gates p) default_units (cfg_web_loader_secret (pp_config p) = [])"
  have noted: "triple (started_so_far xs) (for_each (\<lambda>n. note_mutation (record_unit n)) ns) (\<lambda>_. started_so_far xs) any_exit"
    for xs ns by (intro inv_rules order_calls)
  have same: "triple (started_so_far xs) (if b then finish False (Some NoChange) else ret ()) (\<lambda>_. started_so_far xs) any_exit"
    for xs b by (intro inv_rules order_calls)
  have last: "triple (started_so_far (step_services ?seq))
     (andthen (current rs_performed) (\<lambda>performed. case assert_start_order ?seq performed of
        Some e \<Rightarrow> stop (Refuse (OrderViolated e)) | None \<Rightarrow> finish r None)) (\<lambda>_ _. True) any_exit" for r
    by (auto simp: triple_def andthen_def current_def started_so_far_def assert_services finish_def)
  have env: "triple (started_so_far xs) (case render_inference_secret_env y of (name, text) \<Rightarrow>
     attempt (\<lambda>e. Refuse (InferenceEnvNotWritten e)) (f name text)) (\<lambda>_. started_so_far xs) any_exit" for xs y f
    by (intro inv_rules order_calls) simp
  note step = order_calls(4) order_files env same noted order_stack [where sn = "cfg_web_loader_secret (pp_config p) = []"]
    order_calls(3) last
  show ?thesis unfolding change_after_save_def Let_def
    by (rule step | (rule order_calls(1), simp) | rule triple_andthen)+
qed

lemma order_degraded: "triple (started_so_far xs) note_degraded (\<lambda>_. started_so_far xs) any_exit"
  by (simp add: triple_def note_degraded_def started_so_far_def)

lemma triple_gate_verdict:
  "(v = GatePass \<Longrightarrow> triple P m Q E) \<Longrightarrow> (v = GateForced \<Longrightarrow> triple P n Q E) \<Longrightarrow> (v = GateBlocked \<Longrightarrow> triple P k Q E) \<Longrightarrow>
   triple P (case v of GatePass \<Rightarrow> m | GateForced \<Rightarrow> n | GateBlocked \<Rightarrow> k) Q E"
  by (cases v) auto

lemma order_before: "triple (started_so_far []) (before_changes d opt) (\<lambda>_. started_so_far []) any_exit"
  unfolding before_changes_def decide_plan_def collect_checks_def run_wizard_def run_gate_def stage_weights_def
    stage_image_def stage_agent_def ensure_def Let_def
  by (intro inv_rules order_calls order_degraded triple_gate_verdict) simp_all


subsection \<open>The decisions\<close>

text \<open>C34: The reservations the model was picked against are those of the configuration the install
  writes: no flag of the run can add a service the fit did not count.\<close>
theorem reservations_as_planned:
  "planned_reservations table cfg opt
     = reservations_for table (ip_config (assemble_plan cfg (resolve_gates cfg opt rec) rec chosen))"
  by (simp add: planned_reservations_def reservations_for_def assemble_plan_def resolve_gates_def persist_gates_def
      Let_def gate_simps)

subsection \<open>The host preparation\<close>

definition unmet :: "check \<Rightarrow> bool" where
  "unmet c \<longleftrightarrow> ck_status c = StatusFail \<or> (ck_status c = StatusWarn \<and> ck_tier c = TierBlock)"

text \<open>Nobody says yes: a dry run, or no recorded yes and nobody at a terminal who would give one.\<close>

definition nobody_consents :: "'h host_prep \<Rightarrow> opts \<Rightarrow> consents \<Rightarrow> bool" where
  "nobody_consents d opt consents \<longleftrightarrow> op_dry_run opt \<or>
     (True \<notin> snd ` set consents \<and> (op_json opt \<or> (\<forall>h. \<not> hp_interactive d h) \<or> (\<forall>c h. \<not> fst (hp_consent d c h))))"

lemma unasked_gap:
  assumes "nobody_consents d opt consents" and "calm P (hp_consent d c)" and "P h"
  shows "fst (resolve_gap d opt consents c h) = False" and "P (snd (resolve_gap d opt consents c h))"
proof -
  have no: "map_of consents (ck_id c) \<noteq> Some True" if "\<not> op_dry_run opt"
    using assms(1) that map_of_SomeD [of consents "ck_id c" True] by (force simp: nobody_consents_def)
  show "fst (resolve_gap d opt consents c h) = False"
    using assms(1) no by (auto simp: resolve_gap_def nobody_consents_def case_prod_beta split: option.split bool.split)
  show "P (snd (resolve_gap d opt consents c h))"
    using assms(1) no calmD [OF assms(2,3)] assms(3)
    by (auto simp: resolve_gap_def nobody_consents_def case_prod_beta split: option.split bool.split)
qed

lemma unasked_scan:
  assumes "nobody_consents d opt consents" and "\<And>c. calm P (hp_consent d c)"
  shows "P h \<Longrightarrow> fst (scan_checks d opt consents cs h) = filter unmet cs \<and> P (snd (scan_checks d opt consents cs h))"
proof (induction cs arbitrary: h)
  case (Cons c cs)
  have "P (offer_gap d opt consents c h)" using unasked_gap(2) [OF assms Cons.prems] by (simp add: offer_gap_def)
  with Cons.IH Cons.prems show ?case
    by (simp add: unmet_def safe_auto_fix_def case_prod_beta split: check_status.split)
qed simp

lemma unasked_resolve:
  assumes "nobody_consents d opt consents" and "\<And>c. calm P (hp_consent d c)"
  shows "P h \<Longrightarrow> fst (resolve_gaps d opt consents cs h) = cs \<and> P (snd (resolve_gaps d opt consents cs h))"
proof (induction cs arbitrary: h)
  case (Cons c cs)
  with unasked_gap [OF assms Cons.prems, of c] show ?case by (simp add: case_prod_beta)
qed simp

text \<open>C33: No privileged host preparation runs unasked: when nobody consents, the gate leaves everything
  that asking leaves alone, and its verdict is decided by the checks alone: it passes when every blocking
  check passed, and a gap that is left is forced or blocks.\<close>
theorem gate_never_unasked:
  assumes "nobody_consents d opt consents" and "\<And>c. calm P (hp_consent d c)" and "P h"
  shows "P (snd (gate d checks opt consents h))
    \<and> fst (gate d checks opt consents h)
        = (if list_ex unmet checks then if op_force opt then GateForced else GateBlocked else GatePass)"
proof -
  note scan = unasked_scan [OF assms, of checks]
  note resolve = unasked_resolve [OF assms(1,2) conjunct2 [OF scan]]
  show ?thesis using scan resolve by (simp add: gate_def case_prod_beta filter_empty_conv list_ex_iff)
qed

end
