(* ===== verification/InstallRestore.thy ===== *)
theory InstallRestore
  imports InstallSafety
begin

text \<open>
  What a refused install leaves behind. The locale \<open>install_host\<close> states what each call changes of the
  units, the running services and the configuration; inside it a run keeps account of every change, and
  a complete rollback takes exactly that account back. A host with arbitrary faults interprets it.
\<close>

text \<open>The service a refusal leaves in a state of its own, and whether it leaves the units half written.\<close>

fun stray :: "refusal \<Rightarrow> string option" where
  "stray (ServiceFailed svc _) = Some svc"
| "stray (DashboardNotStarted _) = Some dashboard_service"
| "stray _ = None"

subsection \<open>The contract\<close>

definition still ::
  "('h \<Rightarrow> string \<Rightarrow> string \<Rightarrow> string option) \<Rightarrow> ('h \<Rightarrow> string \<Rightarrow> bool) \<Rightarrow> ('h \<Rightarrow> villa_config option) \<Rightarrow> ('h \<Rightarrow> 'a \<times> 'h) \<Rightarrow> bool" where
  "still unit_at running config f \<longleftrightarrow>
     (\<forall>h. unit_at (snd (f h)) = unit_at h \<and> running (snd (f h)) = running h \<and> config (snd (f h)) = config h)"

locale install_host =
  fixes c :: "'h change_deps"
    and unit_at :: "'h \<Rightarrow> string \<Rightarrow> string \<Rightarrow> string option"
    and running :: "'h \<Rightarrow> string \<Rightarrow> bool"
    and config :: "'h \<Rightarrow> villa_config option"
    and user_dir :: string
    and wu :: "string \<Rightarrow> string \<Rightarrow> string \<Rightarrow> 'h host_call"
    and ru :: "string \<Rightarrow> string \<Rightarrow> 'h host_call"
    and rc :: "'h host_call"
  assumes reads: "hi_read_unit c = Some (\<lambda>dir n h. unit_at h dir n)"
      "active c svc h \<longleftrightarrow> running h svc" "hi_config_exists c = Some (\<lambda>h. config h \<noteq> None)"
      "hi_user_unit_dir c h = Inr user_dir"
      "hi_read_dashboard c dir h = (case unit_at h dir dashboard_service of None \<Rightarrow> Absent | Some b \<Rightarrow> Content b)"
    and seams: "hi_write_unit c = Some wu" "hi_remove_unit c = Some ru" "hi_remove_config c = Some rc"
    and save: "hi_save_config c cfg h = (e, h') \<Longrightarrow> unit_at h' = unit_at h \<and> running h' = running h
        \<and> config h' = (if e = None then Some cfg else config h)"
    and drop: "rc h = (e, h') \<Longrightarrow> unit_at h' = unit_at h \<and> running h' = running h \<and> (e = None \<longrightarrow> config h' = None)"
    and start: "hi_start c svc h = (e, h') \<Longrightarrow> unit_at h' = unit_at h \<and> config h' = config h
        \<and> (\<forall>s. s \<noteq> svc \<longrightarrow> running h' s = running h s) \<and> (e = None \<longrightarrow> running h' svc)"
    and restart: "hi_restart c svc h = (e, h') \<Longrightarrow> unit_at h' = unit_at h \<and> config h' = config h
        \<and> (\<forall>s. s \<noteq> svc \<longrightarrow> running h' s = running h s) \<and> (e = None \<longrightarrow> running h' svc)"
    and stop: "hi_stop c svc h = (e, h') \<Longrightarrow> unit_at h' = unit_at h \<and> config h' = config h
        \<and> (\<forall>s. s \<noteq> svc \<longrightarrow> running h' s = running h s) \<and> (e = None \<longrightarrow> \<not> running h' svc)"
    and put: "wu dir n t h = (e, h') \<Longrightarrow> running h' = running h \<and> config h' = config h
        \<and> (\<forall>dir' n'. (dir', n') \<noteq> (dir, n) \<longrightarrow> unit_at h' dir' n' = unit_at h dir' n')
        \<and> unit_at h' dir n = (if e = None then Some t else unit_at h dir n)"
    and remove: "ru dir n h = (e, h') \<Longrightarrow> running h' = running h \<and> config h' = config h
        \<and> (\<forall>dir' n'. (dir', n') \<noteq> (dir, n) \<longrightarrow> unit_at h' dir' n' = unit_at h dir' n')
        \<and> unit_at h' dir n = (if e = None then None else unit_at h dir n)"
    and dashboard: "hi_write_dashboard c dir bin h = (e, h') \<Longrightarrow> running h' = running h \<and> config h' = config h
        \<and> (\<forall>dir' n'. e \<noteq> None \<or> (dir', n') \<noteq> (dir, dashboard_service) \<longrightarrow> unit_at h' dir' n' = unit_at h dir' n')"
    and write_units: "hi_write_units c plan dir h = (e, h') \<Longrightarrow> running h' = running h \<and> config h' = config h
        \<and> (\<forall>dir' n'. dir' \<noteq> dir \<or> n' \<notin> un_name ` set (pl_changed plan) \<longrightarrow> unit_at h' dir' n' = unit_at h dir' n')"
    and quiet: "still unit_at running config (hi_reload c)" "still unit_at running config (hi_enable c svc)"
      "still unit_at running config (hi_disable c svc)" "still unit_at running config (hi_write_websafe_env c a b)"
      "still unit_at running config (hi_write_searxng_settings c a b)"
      "still unit_at running config (hi_write_searxng_env c a b)"
      "still unit_at running config (hi_write_inference_env c a b)"
    and secrets: "still unit_at running config (hi_web_loader_secret c)" "still unit_at running config (hi_searxng_secret c)"
begin

subsection \<open>The account of a run\<close>

text \<open>Where a unit of a run lives.\<close>

definition home :: "string \<Rightarrow> string \<Rightarrow> string" where
  "home dir n = (if n = dashboard_service then user_dir else dir)"

definition accounted :: "prepared \<Rightarrow> 'h \<Rightarrow> 'h run_state \<Rightarrow> bool" where
  "accounted p h0 s \<longleftrightarrow>
     (\<forall>svc. svc \<in> set (mt_started (rs_mut s)) \<or> running (rs_host s) svc = running h0 svc)
   \<and> (\<forall>dir n. (n \<in> set (mt_wrote_units (rs_mut s)) \<and> dir = home (pp_unit_dir p) n)
          \<or> unit_at (rs_host s) dir n = unit_at h0 dir n)
   \<and> mt_saved_config (rs_mut s)
   \<and> set (mt_started (rs_mut s)) \<subseteq> set (install_services default_units)
   \<and> set (mt_wrote_units (rs_mut s)) \<subseteq> insert dashboard_service (un_name ` set (pl_changed (pp_plan p)))"

definition settled :: "prepared \<Rightarrow> 'h \<Rightarrow> run_exit \<Rightarrow> 'h run_state \<Rightarrow> bool" where
  "settled p h0 e s \<longleftrightarrow> (\<forall>r. e = Refuse r \<longrightarrow>
     (\<forall>svc. Some svc = stray r \<or> svc \<in> set (mt_started (rs_mut s)) \<or> running (rs_host s) svc = running h0 svc)
   \<and> ((\<exists>x. r = UnitsNotWritten x) \<or> (\<forall>dir n. (n \<in> set (mt_wrote_units (rs_mut s)) \<and> dir = home (pp_unit_dir p) n)
          \<or> unit_at (rs_host s) dir n = unit_at h0 dir n))
   \<and> mt_saved_config (rs_mut s)
   \<and> set (mt_started (rs_mut s)) \<subseteq> set (install_services default_units)
   \<and> set (mt_wrote_units (rs_mut s)) \<subseteq> insert dashboard_service (un_name ` set (pl_changed (pp_plan p))))"

lemma accounted_settled [simp]: "accounted p h0 s \<Longrightarrow> settled p h0 e s"
  by (simp add: accounted_def settled_def)

lemma accounted_unit:
  "accounted p h0 s \<Longrightarrow> (n \<in> set (mt_wrote_units (rs_mut s)) \<and> dir = home (pp_unit_dir p) n)
      \<or> unit_at (rs_host s) dir n = unit_at h0 dir n"
  by (simp add: accounted_def)

lemma accounted_view:
  "accounted p h0 s \<Longrightarrow> rs_mut s' = rs_mut s \<Longrightarrow> unit_at (rs_host s') = unit_at (rs_host s) \<Longrightarrow>
    running (rs_host s') = running (rs_host s) \<Longrightarrow> accounted p h0 s'"
  by (simp add: accounted_def)

definition keeps_units :: "('h \<Rightarrow> 'a \<times> 'h) \<Rightarrow> bool" where
  "keeps_units f \<longleftrightarrow> (\<forall>h. unit_at (snd (f h)) = unit_at h \<and> running (snd (f h)) = running h)"

lemma still_units: "still unit_at running config f \<Longrightarrow> keeps_units f"
  by (simp add: still_def keeps_units_def)

lemma save_units: "keeps_units (hi_save_config c cfg)"
  using save [OF surjective_pairing] by (simp add: keeps_units_def)

abbreviation holds :: "prepared \<Rightarrow> 'h \<Rightarrow> ('h, 'a) install_flow \<Rightarrow> bool" where
  "holds p h0 m \<equiv> triple (accounted p h0) m (\<lambda>_. accounted p h0) (settled p h0)"

lemma holds_calls:
  "keeps_units f \<Longrightarrow> holds p h0 (attempt mk f)"
  "keeps_units g \<Longrightarrow> holds p h0 (obtain_from mk g)"
  "keeps_units k \<Longrightarrow> holds p h0 (ask k)"
  "holds p h0 (note_performed svc)" "holds p h0 (finish b oc)"
proof -
  show "keeps_units f \<Longrightarrow> holds p h0 (attempt mk f)" "keeps_units g \<Longrightarrow> holds p h0 (obtain_from mk g)"
    "keeps_units k \<Longrightarrow> holds p h0 (ask k)"
    unfolding triple_def attempt_def obtain_from_def ask_def keeps_units_def
    by (auto split: prod.split option.split sum.split intro!: accounted_settled elim!: accounted_view)
       (metis snd_conv)+
  show "holds p h0 (note_performed svc)" "holds p h0 (finish b oc)"
    by (auto simp: triple_def note_performed_def finish_def intro: accounted_view)
qed

lemmas holds_still = holds_calls(1-3) [OF still_units]

lemmas holds_quiet = holds_still(1) [OF quiet(1)] holds_still(1) [OF quiet(2)] holds_still(1) [OF quiet(4)]
  holds_still(1) [OF quiet(5)] holds_still(1) [OF quiet(6)] holds_still(1) [OF quiet(7)]
  holds_still(2) [OF secrets(1)] holds_still(2) [OF secrets(2)] holds_calls(1) [OF save_units]
  holds_calls(4) holds_calls(5)

text \<open>The account as it will be once a service is recorded as started.\<close>

definition pending :: "prepared \<Rightarrow> 'h \<Rightarrow> string \<Rightarrow> 'h run_state \<Rightarrow> bool" where
  "pending p h0 svc s \<longleftrightarrow> accounted p h0 (s\<lparr>rs_mut := record_start svc (rs_mut s)\<rparr>)"

lemma pending_intro:
  "accounted p h0 s \<Longrightarrow> svc \<in> set (install_services default_units) \<Longrightarrow> pending p h0 svc s"
  by (auto simp: pending_def accounted_def record_start_def)

lemma pending_touch:
  assumes "pending p h0 svc s" and "rs_mut s' = rs_mut s"
    and "unit_at (rs_host s') = unit_at (rs_host s)" and "\<forall>x. x \<noteq> svc \<longrightarrow> running (rs_host s') x = running (rs_host s) x"
  shows "pending p h0 svc s'"
  using assms unfolding pending_def accounted_def record_start_def by auto

lemma pending_settled: "pending p h0 svc s \<Longrightarrow> stray r = Some svc \<Longrightarrow> settled p h0 (Refuse r) s"
  by (auto simp: pending_def accounted_def settled_def record_start_def)

lemma pending_call:
  assumes "\<And>h e h'. f h = (e, h') \<Longrightarrow> unit_at h' = unit_at h \<and> (\<forall>x. x \<noteq> svc \<longrightarrow> running h' x = running h x)"
    and "\<And>x. stray (mk x) = Some svc"
  shows "triple (pending p h0 svc) (attempt (\<lambda>x. Refuse (mk x)) f) (\<lambda>_. pending p h0 svc) (settled p h0)"
proof (rule tripleI)
  fix s assume s: "pending p h0 svc s"
  obtain e h' where f: "f (rs_host s) = (e, h')" by fastforce
  have "pending p h0 svc (s\<lparr>rs_host := h'\<rparr>)" by (rule pending_touch [OF s]) (use assms(1) [OF f] in simp_all)
  then show "case attempt (\<lambda>x. Refuse (mk x)) f s of
      (Inr a, s') \<Rightarrow> pending p h0 svc s' | (Inl e, s') \<Rightarrow> settled p h0 e s'"
    using f pending_settled assms(2) by (simp add: attempt_def split: option.split)
qed

lemma stop_call: "hi_stop c svc h = (e, h') \<Longrightarrow> unit_at h' = unit_at h \<and> (\<forall>x. x \<noteq> svc \<longrightarrow> running h' x = running h x)"
  using stop by blast

lemma start_call: "hi_start c svc h = (e, h') \<Longrightarrow> unit_at h' = unit_at h \<and> (\<forall>x. x \<noteq> svc \<longrightarrow> running h' x = running h x)"
  using start by blast

lemma restart_call: "hi_restart c svc h = (e, h') \<Longrightarrow> unit_at h' = unit_at h \<and> (\<forall>x. x \<noteq> svc \<longrightarrow> running h' x = running h x)"
  using restart by blast

lemma recorded: "triple (pending p h0 svc) (note_mutation (record_start svc)) (\<lambda>_. accounted p h0) (settled p h0)"
  by (simp add: triple_def note_mutation_def pending_def)

lemma start_holds:
  assumes "svc \<in> set (install_services default_units)"
  shows "holds p h0 (start_service c plan svc)"
  unfolding start_service_def
proof (rule triple_pre [OF pending_intro [OF _ assms]], assumption, rule inv_andthen triple_andthen)
  show "triple (pending p h0 svc) (observe (active c svc)) (\<lambda>_. pending p h0 svc) (settled p h0)" by (rule inv_base)
  have stops: "triple (pending p h0 svc) (attempt (\<lambda>e. Refuse (ServiceFailed svc (NotStoppedFirst e))) (hi_stop c svc))
      (\<lambda>_. pending p h0 svc) (settled p h0)" by (rule pending_call [OF stop_call]) simp_all
  have starts: "triple (pending p h0 svc) (attempt (\<lambda>e. Refuse (ServiceFailed svc (NotStarted e))) (hi_start c svc))
      (\<lambda>_. pending p h0 svc) (settled p h0)" by (rule pending_call [OF start_call]) simp_all
  have noted: "triple (pending p h0 svc) (note_performed svc) (\<lambda>_. pending p h0 svc) (settled p h0)"
    by (auto simp: triple_def note_performed_def intro: pending_touch)
  show "triple (pending p h0 svc)
     (andthen (whenever (svc \<in> (service_for \<circ> un_name) ` set (pl_changed plan) \<and> running)
        (attempt (\<lambda>e. Refuse (ServiceFailed svc (NotStoppedFirst e))) (hi_stop c svc)))
       (\<lambda>_. andthen (attempt (\<lambda>e. Refuse (ServiceFailed svc (NotStarted e))) (hi_start c svc))
         (\<lambda>_. andthen (note_performed svc) (\<lambda>_. note_mutation (record_start svc)))))
     (\<lambda>_. accounted p h0) (settled p h0)" for running
    by (rule triple_andthen [OF inv_parts(1) [OF stops]] triple_andthen [OF starts] triple_andthen [OF noted] recorded)+
qed

text \<open>The account as it will be once units are recorded as written.\<close>

definition owed :: "prepared \<Rightarrow> 'h \<Rightarrow> string list \<Rightarrow> 'h run_state \<Rightarrow> bool" where
  "owed p h0 ns s \<longleftrightarrow> accounted p h0 (s\<lparr>rs_mut := (rs_mut s)\<lparr>mt_wrote_units := mt_wrote_units (rs_mut s) @ ns\<rparr>\<rparr>)"

lemma owed_note:
  "triple (owed p h0 (n # ns)) (note_mutation (record_unit n)) (\<lambda>_. owed p h0 ns) (settled p h0)"
  by (simp add: triple_def note_mutation_def owed_def record_unit_def)

lemma owed_notes:
  "triple (owed p h0 ns) (for_each (\<lambda>n. note_mutation (record_unit n)) ns) (\<lambda>_. accounted p h0) (settled p h0)"
proof (induction ns)
  case Nil
  then show ?case by (simp add: triple_def ret_def owed_def)
next
  case (Cons n ns)
  show ?case by (simp, rule triple_andthen [OF owed_note Cons])
qed

lemma units_written:
  assumes names: "dashboard_service \<notin> un_name ` set (pl_changed (pp_plan p))"
  shows "triple (accounted p h0) (attempt (\<lambda>e. Refuse (UnitsNotWritten e)) (hi_write_units c (pp_plan p) (pp_unit_dir p)))
     (\<lambda>_. owed p h0 (map un_name (pl_changed (pp_plan p)))) (settled p h0)"
proof (rule tripleI)
  fix s assume a: "accounted p h0 s"
  obtain e h' where f: "hi_write_units c (pp_plan p) (pp_unit_dir p) (rs_host s) = (e, h')" by fastforce
  note w = write_units [OF f]
  let ?ns = "map un_name (pl_changed (pp_plan p))"
  have names': "dashboard_service \<notin> set ?ns" using names by simp
  have same: "unit_at h' dir n = unit_at (rs_host s) dir n \<or> (dir = pp_unit_dir p \<and> n \<in> set ?ns)" for dir n
    using w by auto
  have "(n \<in> set (mt_wrote_units (rs_mut s) @ ?ns) \<and> dir = home (pp_unit_dir p) n) \<or> unit_at h' dir n = unit_at h0 dir n"
    for dir n using accounted_unit [OF a, of n dir] same [of dir n] names'
    by (auto simp: home_def simp del: set_map)
  then have "owed p h0 ?ns (s\<lparr>rs_host := h'\<rparr>)" using a w unfolding owed_def accounted_def by auto
  moreover have "settled p h0 (Refuse (UnitsNotWritten x)) (s\<lparr>rs_host := h'\<rparr>)" for x
    using a w unfolding accounted_def settled_def by auto
  ultimately show "case attempt (\<lambda>e. Refuse (UnitsNotWritten e)) (hi_write_units c (pp_plan p) (pp_unit_dir p)) s of
      (Inr a, s') \<Rightarrow> owed p h0 ?ns s' | (Inl e, s') \<Rightarrow> settled p h0 e s'"
    using f by (simp add: attempt_def split: option.split)
qed

lemma dashboard_written:
  "triple (accounted p h0) (attempt (\<lambda>e. Refuse (DashboardNotWritten e)) (hi_write_dashboard c user_dir bin))
     (\<lambda>_. owed p h0 [dashboard_service]) (settled p h0)"
proof (rule tripleI)
  fix s assume a: "accounted p h0 s"
  obtain e h' where f: "hi_write_dashboard c user_dir bin (rs_host s) = (e, h')" by fastforce
  note w = dashboard [OF f]
  have same: "unit_at h' dir n = unit_at (rs_host s) dir n \<or> (dir = user_dir \<and> n = dashboard_service)" for dir n
    using w by auto
  have "(n \<in> set (mt_wrote_units (rs_mut s) @ [dashboard_service]) \<and> dir = home (pp_unit_dir p) n)
      \<or> unit_at h' dir n = unit_at h0 dir n" for dir n
    using accounted_unit [OF a, of n dir] same [of dir n] by (auto simp: home_def)
  then have "owed p h0 [dashboard_service] (s\<lparr>rs_host := h'\<rparr>)"
    using a w unfolding owed_def accounted_def by simp
  moreover have "accounted p h0 (s\<lparr>rs_host := h'\<rparr>)" if "e \<noteq> None"
    using a w that unfolding accounted_def by auto
  ultimately show "case attempt (\<lambda>e. Refuse (DashboardNotWritten e)) (hi_write_dashboard c user_dir bin) s of
      (Inr a, s') \<Rightarrow> owed p h0 [dashboard_service] s' | (Inl e, s') \<Rightarrow> settled p h0 e s'"
    using f by (simp add: attempt_def split: option.split)
qed

lemma dash_service: "dashboard_service \<in> set (install_services default_units)"
  by (simp add: install_services_def)

lemma dashboard_restart:
  "holds p h0 (andthen (note_mutation (record_start dashboard_service)) (\<lambda>_.
     attempt (\<lambda>e. Refuse (DashboardNotRestarted e)) (hi_restart c dashboard_service)))"
proof (rule tripleI)
  fix s assume a: "accounted p h0 s"
  obtain e h' where f: "hi_restart c dashboard_service (rs_host s) = (e, h')" by fastforce
  have "accounted p h0 (s\<lparr>rs_mut := record_start dashboard_service (rs_mut s), rs_host := h'\<rparr>)"
    using a restart_call [OF f] dash_service unfolding accounted_def record_start_def by auto
  then show "case andthen (note_mutation (record_start dashboard_service)) (\<lambda>_.
       attempt (\<lambda>e. Refuse (DashboardNotRestarted e)) (hi_restart c dashboard_service)) s of
      (Inr a, s') \<Rightarrow> accounted p h0 s' | (Inl e, s') \<Rightarrow> settled p h0 e s'"
    using f by (simp add: attempt_def andthen_def note_mutation_def split: option.split)
qed

lemma dashboard_start:
  "holds p h0 (andthen (attempt (\<lambda>e. Refuse (DashboardNotStarted e)) (hi_start c dashboard_service)) (\<lambda>_.
     note_mutation (record_start dashboard_service)))"
  by (rule triple_pre [OF pending_intro [OF _ dash_service]], assumption,
      rule triple_andthen [OF pending_call [OF start_call] recorded], simp_all)

lemma holds_enable: "holds p h0 (note_mutation (record_enable svc))"
  by (auto simp: triple_def note_mutation_def accounted_def record_enable_def)

lemma dashboard_holds: "holds p h0 (reconcile_dashboard c)"
proof -
  have w: "holds p h0 (write_dashboard c user_dir bin existed)" for bin existed
    unfolding write_dashboard_def
    by (rule triple_andthen [OF dashboard_written], rule triple_andthen [OF owed_note [of _ _ _ "[]"]],
        rule triple_pre [where P' = "accounted p h0"], simp add: owed_def,
        intro inv_rules holds_quiet holds_enable dashboard_restart dashboard_start)
  have dir: "triple (accounted p h0) (andthen (observe (hi_user_unit_dir c)) (given mk))
      (\<lambda>dir s. dir = user_dir \<and> accounted p h0 s) (settled p h0)" for mk
    by (simp add: triple_def andthen_def observe_def given_def reads(4) ret_def)
  have at: "triple (\<lambda>s. dir = user_dir \<and> accounted p h0 s) m Q E"
    if "dir = user_dir \<Longrightarrow> triple (accounted p h0) m Q E" for dir Q E and m :: "('h, unit) install_flow"
    using that by (auto simp: triple_def)
  show ?thesis unfolding reconcile_dashboard_def
    by (rule triple_andthen [OF dir], rule at, hypsubst, intro inv_rules w) simp_all
qed

lemma stack_holds: "holds p h0 (start_stack c default_units q)"
  unfolding start_stack_def start_web_search_def web_loader_secret_def searxng_files_def require_units_def Let_def
    for_each.simps
  by (intro inv_rules holds_quiet start_holds) (simp_all add: install_services_def)

definition proofs_still :: "'h proof_deps \<Rightarrow> bool" where
  "proofs_still pd \<longleftrightarrow> keeps_units (pd_poll_ready pd) \<and> (\<forall>cfg. keeps_units (pd_prove_memory pd cfg))
     \<and> keeps_units (pd_prove_search pd) \<and> keeps_units (pd_prove_agent pd) \<and> keeps_units (pd_prove_voice pd)
     \<and> (\<forall>cfg. keeps_units (pd_prove_image pd cfg)) \<and> (\<forall>cfg. keeps_units (pd_prove_chat pd cfg))"

lemma proofs_hold: "proofs_still pd \<Longrightarrow> holds p h0 (prove_stack pd g cfg)"
  unfolding prove_stack_def proven_def
  by (intro inv_rules holds_calls) (simp_all add: proofs_still_def)

lemma changes_settled:
  assumes "id_change d = c" and "proofs_still (id_proofs d)"
    and names: "dashboard_service \<notin> un_name ` set (pl_changed (pp_plan p))"
  shows "triple (\<lambda>s. rs_mut s = no_mutations \<and> unit_at (rs_host s) = unit_at h0 \<and> running (rs_host s) = running h0)
    (change_after_save d p) (\<lambda>_. accounted p h0) (settled p h0)"
proof -
  have begin_: "triple (\<lambda>s. rs_mut s = no_mutations \<and> unit_at (rs_host s) = unit_at h0 \<and> running (rs_host s) = running h0)
      (note_mutation record_config_save) (\<lambda>_. accounted p h0) (settled p h0)"
    by (simp add: triple_def note_mutation_def accounted_def no_mutations_def record_config_save_def)
  have poll: "holds p h0 (ask (pd_poll_ready (id_proofs d)))"
    using assms(2) by (intro holds_calls) (simp add: proofs_still_def)
  show ?thesis unfolding change_after_save_def Let_def assms(1)
    by (rule triple_andthen [OF begin_], rule inv_andthen [OF dashboard_holds], rule inv_andthen,
        (intro inv_rules holds_quiet)[1], rule inv_andthen, (intro inv_rules holds_quiet)[1],
        rule triple_andthen [OF units_written [OF names]], rule triple_andthen [OF owed_notes],
        intro inv_rules holds_quiet stack_holds poll proofs_hold [OF assms(2)]) simp_all
qed

subsection \<open>The rollback takes the account back\<close>

abbreviation seams_at :: "string \<Rightarrow> 'h rollback_deps" where
  "seams_at dir \<equiv> rollback_seams c dir"

lemma seam_sel:
  "rb_stop (seams_at dir) = Some (hi_stop c)" "rb_start (seams_at dir) = Some (hi_restart c)"
  "rb_disable (seams_at dir) = Some (hi_disable c)" "rb_save_config (seams_at dir) = Some (hi_save_config c)"
  "rb_remove_config (seams_at dir) = Some rc" "rb_reload (seams_at dir) = Some (hi_reload c)"
  "rb_write_unit (seams_at dir) = Some (\<lambda>n t. wu (home dir n) n t)"
  "rb_remove_unit (seams_at dir) = Some (\<lambda>n. ru (home dir n) n)"
  by (auto simp: rollback_seams_def rollback_unit_dir_def seams reads(4) home_def fun_eq_iff)

lemma undo_call_none: "undo_call mk f h = ([], h') \<longleftrightarrow> f h = (None, h')"
  by (simp add: undo_call_def split: prod.split option.split)

lemma stops_undone:
  "undo_each (undo_start (seams_at dir) q) xs h = ([], h') \<Longrightarrow>
    unit_at h' = unit_at h \<and> config h' = config h
    \<and> (\<forall>svc. running h' svc = (if svc \<in> set xs \<and> \<not> was_running q svc then False else running h svc))"
proof (induction xs arbitrary: h)
  case (Cons x xs)
  then obtain h1 where one: "undo_start (seams_at dir) q x h = ([], h1)"
      and rest: "undo_each (undo_start (seams_at dir) q) xs h1 = ([], h')"
    by (auto split: prod.splits)
  have "unit_at h1 = unit_at h \<and> config h1 = config h
      \<and> (\<forall>svc. running h1 svc = (if svc = x \<and> \<not> was_running q svc then False else running h svc))"
    using one stop [of x h None h1] by (auto simp: undo_start_def undo_nothing_def seam_sel undo_call_none split: if_splits)
  with Cons.IH [OF rest] show ?case by auto
qed simp

lemma restarts_undone:
  "undo_each (undo_restart (seams_at dir) q) xs h = ([], h') \<Longrightarrow>
    unit_at h' = unit_at h \<and> config h' = config h
    \<and> (\<forall>svc. running h' svc = (if svc \<in> set xs \<and> was_running q svc then True else running h svc))"
proof (induction xs arbitrary: h)
  case (Cons x xs)
  then obtain h1 where one: "undo_restart (seams_at dir) q x h = ([], h1)"
      and rest: "undo_each (undo_restart (seams_at dir) q) xs h1 = ([], h')"
    by (auto split: prod.splits)
  have "unit_at h1 = unit_at h \<and> config h1 = config h
      \<and> (\<forall>svc. running h1 svc = (if svc = x \<and> was_running q svc then True else running h svc))"
    using one restart [of x h None h1] by (auto simp: undo_restart_def undo_nothing_def seam_sel undo_call_none split: if_splits)
  with Cons.IH [OF rest] show ?case by auto
qed simp

lemma enables_undone:
  "undo_each (undo_enable (seams_at dir) q) xs h = ([], h') \<Longrightarrow>
    unit_at h' = unit_at h \<and> config h' = config h \<and> running h' = running h"
proof (induction xs arbitrary: h)
  case (Cons x xs)
  then obtain h1 where one: "undo_enable (seams_at dir) q x h = ([], h1)"
      and rest: "undo_each (undo_enable (seams_at dir) q) xs h1 = ([], h')"
    by (auto split: prod.splits)
  have "unit_at h1 = unit_at h \<and> config h1 = config h \<and> running h1 = running h"
    using one quiet(3) [of x] unfolding still_def
    by (auto simp: undo_enable_def undo_nothing_def seam_sel undo_call_none split: if_splits dest: spec [of _ h])
  with Cons.IH [OF rest] show ?case by simp
qed simp

lemma unit_undone:
  "undo_unit (seams_at dir) q n h = (([], ch), h') \<Longrightarrow>
    running h' = running h \<and> config h' = config h
    \<and> (\<forall>dir' n'. unit_at h' dir' n' = (if n' = n \<and> dir' = home dir n' then had_unit q n' else unit_at h dir' n'))"
  using put [of "home dir n" n _ h] remove [of "home dir n" n h]
  by (auto simp: undo_unit_def seam_sel split: option.splits prod.splits)

lemma units_undone:
  "undo_units (seams_at dir) q ns h = (([], ch), h') \<Longrightarrow>
    running h' = running h \<and> config h' = config h
    \<and> (\<forall>dir' n'. unit_at h' dir' n' = (if n' \<in> set ns \<and> dir' = home dir n' then had_unit q n' else unit_at h dir' n'))"
proof (induction ns arbitrary: h ch)
  case (Cons n ns)
  then obtain h1 c1 c2 where one: "undo_unit (seams_at dir) q n h = (([], c1), h1)"
      and rest: "undo_units (seams_at dir) q ns h1 = (([], c2), h')"
    by (auto split: prod.splits)
  from unit_undone [OF one] Cons.IH [OF rest] show ?case by auto
qed simp

lemma config_undone:
  "undo_config (seams_at dir) q h = ([], h') \<Longrightarrow> unit_at h' = unit_at h \<and> running h' = running h
    \<and> config h' = (if pr_had_config q then Some (pr_config q) else None)"
  using save [of "pr_config q" h None h'] drop [of h None h']
  by (auto simp: undo_config_def seam_sel undo_call_none split: if_splits)

lemma reload_undone: "hi_reload c h = (None, h') \<Longrightarrow> unit_at h' = unit_at h \<and> running h' = running h \<and> config h' = config h"
  using quiet(1) unfolding still_def by (metis snd_conv)

lemma rollback_undone:
  assumes "install_rollback (seams_at dir) q m h = ([], h')" and "mt_saved_config m"
  shows "running h' svc = (if svc \<in> set (mt_started m) then was_running q svc else running h svc)"
    and "unit_at h' dir' n = (if n \<in> set (mt_wrote_units m) \<and> dir' = home dir n then had_unit q n else unit_at h dir' n)"
    and "config h' = (if pr_had_config q then Some (pr_config q) else None)"
proof -
  obtain h1 h2 h3 h4 h5 ch where
      s1: "undo_each (undo_start (seams_at dir) q) (rev (mt_started m)) h = ([], h1)"
    and s2: "undo_each (undo_enable (seams_at dir) q) (rev (mt_enabled m)) h1 = ([], h2)"
    and s3: "undo_units (seams_at dir) q (mt_wrote_units m) h2 = (([], ch), h3)"
    and s4: "(if ch then undo_call NotReloadedBack (hi_reload c) h3 else ([], h3)) = ([], h4)"
    and s5: "undo_each (undo_restart (seams_at dir) q) (mt_started m) h4 = ([], h5)"
    and s6: "undo_config (seams_at dir) q h5 = ([], h')"
    using assms by (auto simp: install_rollback_def seam_sel split: prod.splits)
  have s4': "unit_at h4 = unit_at h3 \<and> running h4 = running h3 \<and> config h4 = config h3"
    using s4 reload_undone [of h3 h4] by (auto simp: undo_call_none split: if_splits)
  note facts = stops_undone [OF s1] enables_undone [OF s2] units_undone [OF s3] s4' restarts_undone [OF s5] config_undone [OF s6]
  show "running h' svc = (if svc \<in> set (mt_started m) then was_running q svc else running h svc)"
    using facts by auto
  show "unit_at h' dir' n = (if n \<in> set (mt_wrote_units m) \<and> dir' = home dir n then had_unit q n else unit_at h dir' n)"
    using facts by simp
  show "config h' = (if pr_had_config q then Some (pr_config q) else None)" using facts by simp
qed

lemma map_of_captured:
  "map_of (List.map_filter (\<lambda>u. map_option (\<lambda>t. (un_name u, t)) (f (un_name u))) us) n
     = (if n \<in> un_name ` set us then f n else None)"
  by (induction us) (auto simp: List.map_filter_simps split: option.split)

lemma captured:
  assumes "dashboard_service \<notin> un_name ` (set (pl_changed (pp_plan p)) \<union> set (pl_unchanged (pp_plan p)))"
    and "n \<in> insert dashboard_service (un_name ` set (pl_changed (pp_plan p)))"
  shows "had_unit (capture_state c p h) n = unit_at h (home (pp_unit_dir p) n) n"
proof -
  have "map_of (captured_units c p h) n
      = (case (if n \<in> un_name ` (set (pl_changed (pp_plan p)) \<union> set (pl_unchanged (pp_plan p)))
               then unit_at h (pp_unit_dir p) n else None) of
          Some t \<Rightarrow> Some t
        | None \<Rightarrow> if n = dashboard_service then unit_at h user_dir n else None)"
    unfolding captured_units_def reads(1,4,5)
    by (auto simp: map_add_def map_of_append map_of_captured image_Un split: option.split)
  then show ?thesis using assms by (auto simp: had_unit_def capture_state_def capture_prior_def home_def split: option.split)
qed

text \<open>A refused run with a complete rollback is back where it was captured, but for a stray service and
  for units written only in part.\<close>

lemma refused_restored:
  assumes d: "id_change d = c" "proofs_still (id_proofs d)"
    and names: "dashboard_service \<notin> un_name ` (set (pl_changed (pp_plan p)) \<union> set (pl_unchanged (pp_plan p)))"
    and persisted: "config (rs_host s) \<noteq> None \<longrightarrow> config (rs_host s) = Some (pp_persisted p)"
    and start_state: "rs_mut s = no_mutations"
    and run: "change_stack d p s = (Inl (Refuse r), s')"
    and rb: "install_rollback (seams_at (pp_unit_dir p)) (capture_state c p (rs_host s)) (rs_mut s') (rs_host s') = ([], h')"
  shows "config h' = config (rs_host s)"
    and "stray r \<noteq> Some svc \<Longrightarrow> running h' svc = running (rs_host s) svc"
    and "(\<And>x. r \<noteq> UnitsNotWritten x) \<Longrightarrow> unit_at h' dir n = unit_at (rs_host s) dir n"
proof -
  let ?h0 = "rs_host s" and ?q = "capture_state c p (rs_host s)"
  obtain e h1 where sv: "hi_save_config c (pp_config p) ?h0 = (e, h1)" by fastforce
  have e: "e = None" and after: "change_after_save d p (s\<lparr>rs_host := h1\<rparr>) = (Inl (Refuse r), s')"
    using run sv d(1) by (auto simp: change_stack_def andthen_def attempt_def split: option.splits)
  have "settled p ?h0 (Refuse r) s'"
    by (rule triple_Inl [OF changes_settled [OF d] _ after]) (use names start_state save [OF sv] in auto)
  then have run_inv: "Some svc = stray r \<or> svc \<in> set (mt_started (rs_mut s')) \<or> running (rs_host s') svc = running ?h0 svc"
    and unit_inv: "(\<exists>x. r = UnitsNotWritten x) \<or> (n \<in> set (mt_wrote_units (rs_mut s')) \<and> dir = home (pp_unit_dir p) n)
          \<or> unit_at (rs_host s') dir n = unit_at ?h0 dir n"
    and saved: "mt_saved_config (rs_mut s')"
    and sub: "set (mt_started (rs_mut s')) \<subseteq> set (install_services default_units)"
      "set (mt_wrote_units (rs_mut s')) \<subseteq> insert dashboard_service (un_name ` set (pl_changed (pp_plan p)))"
    for svc n dir unfolding settled_def by blast+
  note undone = rollback_undone [OF rb saved]
  show "config h' = config ?h0"
    using undone(3) persisted by (auto simp: capture_state_def capture_prior_def reads(3))
  show "running h' svc = running ?h0 svc" if "stray r \<noteq> Some svc"
  proof (cases "svc \<in> set (mt_started (rs_mut s'))")
    case True
    then have "was_running ?q svc = running ?h0 svc"
      using sub(1) by (auto simp: was_running_def capture_state_def capture_prior_def reads(2))
    with True show ?thesis using undone(1) [of svc] by simp
  next
    case False
    with run_inv [of svc] that undone(1) [of svc] show ?thesis by auto
  qed
  show "unit_at h' dir n = unit_at ?h0 dir n" if "\<And>x. r \<noteq> UnitsNotWritten x"
  proof (cases "n \<in> set (mt_wrote_units (rs_mut s')) \<and> dir = home (pp_unit_dir p) n")
    case True
    with sub(2) have "had_unit ?q n = unit_at ?h0 (home (pp_unit_dir p) n) n" by (intro captured [OF names]) auto
    with True undone(2) [of dir n] show ?thesis by simp
  next
    case False
    with unit_inv [of n dir] that undone(2) [of dir n] show ?thesis by auto
  qed
qed

end

subsection \<open>A host whose calls may fail\<close>

text \<open>The world decides every answer: which call fails, and what a failed start or stop leaves.\<close>

record 'x stack_host =
  sh_units :: "string \<Rightarrow> string \<Rightarrow> string option"
  sh_running :: "string \<Rightarrow> bool"
  sh_config :: "villa_config option"
  sh_world :: 'x

record 'x host_faults =
  hf_fault :: "string \<Rightarrow> 'x \<Rightarrow> string option \<times> 'x"
  hf_left :: "string \<Rightarrow> 'x \<Rightarrow> bool"
  hf_secret :: "'x \<Rightarrow> (string + string) \<times> 'x"
  hf_binary :: "string + string"
  hf_dashboard :: "string \<Rightarrow> string + string"
  hf_searxng :: "villa_config \<Rightarrow> string + (string \<times> string)"
  hf_user_dir :: string

definition sim_call :: "'x host_faults \<Rightarrow> string \<Rightarrow> ('x stack_host \<Rightarrow> 'x stack_host) \<Rightarrow> 'x stack_host host_call" where
  "sim_call F label eff h =
     (case hf_fault F label (sh_world h) of
        (None, x) \<Rightarrow> (None, eff (h\<lparr>sh_world := x\<rparr>)) | (Some e, x) \<Rightarrow> (Some e, h\<lparr>sh_world := x\<rparr>))"

definition set_unit :: "string \<Rightarrow> string \<Rightarrow> string option \<Rightarrow> 'x stack_host \<Rightarrow> 'x stack_host" where
  "set_unit dir n t h = h\<lparr>sh_units := (\<lambda>dir' n'. if dir' = dir \<and> n' = n then t else sh_units h dir' n')\<rparr>"

definition sim_service :: "'x host_faults \<Rightarrow> string \<Rightarrow> bool \<Rightarrow> string \<Rightarrow> 'x stack_host host_call" where
  "sim_service F label up svc h =
     (case hf_fault F (label @ svc) (sh_world h) of
        (e, x) \<Rightarrow> (e, h\<lparr>sh_world := x,
          sh_running := (\<lambda>s. if s = svc then if e = None then up else hf_left F svc x else sh_running h s)\<rparr>))"

fun sim_writes :: "'x host_faults \<Rightarrow> string \<Rightarrow> unit_file list \<Rightarrow> 'x stack_host host_call" where
  "sim_writes F dir [] h = (None, h)"
| "sim_writes F dir (u # us) h =
     (case sim_call F (''write '' @ un_name u) (set_unit dir (un_name u) (Some (un_text u))) h of
        (Some e, h) \<Rightarrow> (Some e, h) | (None, h) \<Rightarrow> sim_writes F dir us h)"

definition sim_secret :: "'x host_faults \<Rightarrow> ('x stack_host, string) host_read" where
  "sim_secret F h = (case hf_secret F (sh_world h) of (r, x) \<Rightarrow> (r, h\<lparr>sh_world := x\<rparr>))"

definition stack_change :: "'x host_faults \<Rightarrow> 'x stack_host change_deps" where
  "stack_change F = \<lparr>
     hi_read_unit = Some (\<lambda>dir n h. sh_units h dir n),
     hi_write_unit = Some (\<lambda>dir n t. sim_call F (''write '' @ n) (set_unit dir n (Some t))),
     hi_remove_unit = Some (\<lambda>dir n. sim_call F ''remove'' (set_unit dir n None)),
     hi_is_active = (\<lambda>svc h. Inr (if sh_running h svc then ''active'' else ''inactive'')),
     hi_config_exists = Some (\<lambda>h. sh_config h \<noteq> None),
     hi_remove_config = Some (sim_call F ''remove'' (\<lambda>h. h\<lparr>sh_config := None\<rparr>)),
     hi_save_config = (\<lambda>c. sim_call F ''save'' (\<lambda>h. h\<lparr>sh_config := Some c\<rparr>)),
     hi_user_unit_dir = (\<lambda>h. Inr (hf_user_dir F)),
     hi_binary_path = (\<lambda>h. hf_binary F),
     hi_render_dashboard = hf_dashboard F,
     hi_read_dashboard = (\<lambda>dir h. case sh_units h dir dashboard_service of None \<Rightarrow> Absent | Some b \<Rightarrow> Content b),
     hi_write_dashboard = (\<lambda>dir bin. sim_call F (''write '' @ dashboard_service)
        (case hf_dashboard F bin of Inl _ \<Rightarrow> (\<lambda>h. h) | Inr t \<Rightarrow> set_unit dir dashboard_service (Some t))),
     hi_write_units = (\<lambda>plan dir. sim_writes F dir (pl_changed plan)),
     hi_reload = sim_call F ''reload'' (\<lambda>h. h),
     hi_enable = (\<lambda>svc. sim_call F ''enable'' (\<lambda>h. h)), hi_disable = (\<lambda>svc. sim_call F ''disable'' (\<lambda>h. h)),
     hi_start = sim_service F ''start '' True, hi_stop = sim_service F ''stop '' False,
     hi_restart = sim_service F ''restart '' True,
     hi_write_websafe_env = (\<lambda>a b. sim_call F ''env'' (\<lambda>h. h)),
     hi_write_searxng_settings = (\<lambda>a b. sim_call F ''env'' (\<lambda>h. h)),
     hi_write_searxng_env = (\<lambda>a b. sim_call F ''env'' (\<lambda>h. h)),
     hi_write_inference_env = (\<lambda>a b. sim_call F ''env'' (\<lambda>h. h)),
     hi_web_loader_secret = sim_secret F, hi_searxng_secret = sim_secret F,
     hi_render_searxng = hf_searxng F\<rparr>"

lemma stack_change_sel [simp]:
  "hi_read_unit (stack_change F) = Some (\<lambda>dir n h. sh_units h dir n)"
  "hi_write_unit (stack_change F) = Some (\<lambda>dir n t. sim_call F (''write '' @ n) (set_unit dir n (Some t)))"
  "hi_remove_unit (stack_change F) = Some (\<lambda>dir n. sim_call F ''remove'' (set_unit dir n None))"
  "hi_is_active (stack_change F) svc h = Inr (if sh_running h svc then ''active'' else ''inactive'')"
  "hi_config_exists (stack_change F) = Some (\<lambda>h. sh_config h \<noteq> None)"
  "hi_remove_config (stack_change F) = Some (sim_call F ''remove'' (\<lambda>h. h\<lparr>sh_config := None\<rparr>))"
  "hi_save_config (stack_change F) c = sim_call F ''save'' (\<lambda>h. h\<lparr>sh_config := Some c\<rparr>)"
  "hi_user_unit_dir (stack_change F) h = Inr (hf_user_dir F)"
  "hi_read_dashboard (stack_change F) dir h
     = (case sh_units h dir dashboard_service of None \<Rightarrow> Absent | Some b \<Rightarrow> Content b)"
  "hi_write_dashboard (stack_change F) dir bin = sim_call F (''write '' @ dashboard_service)
     (case hf_dashboard F bin of Inl _ \<Rightarrow> (\<lambda>h. h) | Inr t \<Rightarrow> set_unit dir dashboard_service (Some t))"
  "hi_write_units (stack_change F) plan dir = sim_writes F dir (pl_changed plan)"
  "hi_start (stack_change F) = sim_service F ''start '' True" "hi_stop (stack_change F) = sim_service F ''stop '' False"
  "hi_restart (stack_change F) = sim_service F ''restart '' True"
  "hi_web_loader_secret (stack_change F) = sim_secret F" "hi_searxng_secret (stack_change F) = sim_secret F"
  by (simp_all add: stack_change_def)

lemma sim_still: "still sh_units sh_running sh_config (sim_call F l (\<lambda>h. h))"
  by (simp add: still_def sim_call_def split: prod.split option.split)

lemma sim_quiet:
  "still sh_units sh_running sh_config (hi_reload (stack_change F))"
  "still sh_units sh_running sh_config (hi_enable (stack_change F) svc)"
  "still sh_units sh_running sh_config (hi_disable (stack_change F) svc)"
  "still sh_units sh_running sh_config (hi_write_websafe_env (stack_change F) a b)"
  "still sh_units sh_running sh_config (hi_write_searxng_settings (stack_change F) a b)"
  "still sh_units sh_running sh_config (hi_write_searxng_env (stack_change F) a b)"
  "still sh_units sh_running sh_config (hi_write_inference_env (stack_change F) a b)"
  by (simp_all add: stack_change_def sim_still)

lemma sim_writes_frame:
  "sim_writes F dir us h = (e, h') \<Longrightarrow> sh_running h' = sh_running h \<and> sh_config h' = sh_config h
    \<and> (\<forall>dir' n'. dir' \<noteq> dir \<or> n' \<notin> un_name ` set us \<longrightarrow> sh_units h' dir' n' = sh_units h dir' n')"
proof (induction us arbitrary: h)
  case (Cons u us)
  obtain e1 h1 where one: "sim_call F (''write '' @ un_name u) (set_unit dir (un_name u) (Some (un_text u))) h = (e1, h1)" by fastforce
  then have f: "sh_running h1 = sh_running h \<and> sh_config h1 = sh_config h
      \<and> (\<forall>dir' n'. (dir', n') \<noteq> (dir, un_name u) \<longrightarrow> sh_units h1 dir' n' = sh_units h dir' n')"
    by (auto simp: sim_call_def set_unit_def split: prod.splits option.splits)
  show ?case
  proof (cases e1)
    case None
    with Cons one have "sim_writes F dir us h1 = (e, h')" by simp
    from Cons.IH [OF this] f show ?thesis by auto
  next
    case (Some x)
    with Cons.prems one f show ?thesis by auto
  qed
qed simp

interpretation sim: install_host "stack_change F" sh_units sh_running sh_config "hf_user_dir F"
    "\<lambda>dir n t. sim_call F (''write '' @ n) (set_unit dir n (Some t))" "\<lambda>dir n. sim_call F ''remove'' (set_unit dir n None)"
    "sim_call F ''remove'' (\<lambda>h. h\<lparr>sh_config := None\<rparr>)" for F
proof (unfold_locales, goal_cases)
  case (2 svc h)
  then show ?case by (simp add: active_def)
next
  case (17 plan dir h e h')
  then show ?case using sim_writes_frame by simp
qed ((rule sim_quiet | (auto simp: sim_call_def sim_service_def sim_secret_def set_unit_def still_def
      split: prod.splits option.splits sum.splits if_splits)[1])+)

subsection \<open>A refused install\<close>

definition host_view :: "'x stack_host \<Rightarrow> (string \<Rightarrow> string \<Rightarrow> string option) \<times> (string \<Rightarrow> bool) \<times> villa_config option" where
  "host_view h = (sh_units h, sh_running h, sh_config h)"

text \<open>An install on such a host: the seams before the first change and the proofs leave the stack alone,
  the configuration is read as it is, and no rendered unit takes the dashboard's name.\<close>

definition on_stack_host :: "'x host_faults \<Rightarrow> ('p, 'x stack_host) install_deps \<Rightarrow> bool" where
  "on_stack_host F d \<longleftrightarrow> id_change d = stack_change F
     \<and> (\<forall>v. reads_calm (\<lambda>h. host_view h = v) d \<and> prep_calm (\<lambda>h. host_view h = v) d
            \<and> weights_calm (\<lambda>h. host_view h = v) (id_weights d))
     \<and> sim.proofs_still (id_proofs d)
     \<and> (\<forall>h cfg h'. id_load_config d h = (Inr cfg, h') \<longrightarrow> sh_config h \<noteq> None \<longrightarrow> sh_config h = Some cfg)
     \<and> (\<forall>us dir h p h'. id_reconcile d us dir h = (Inr p, h') \<longrightarrow>
          dashboard_service \<notin> un_name ` (set (pl_changed p) \<union> set (pl_unchanged p)))"

lemma triple_const: "triple (\<lambda>_. K) m (\<lambda>_ _. K) (\<lambda>_ _. True)"
  by (simp add: triple_def split: prod.split sum.split)

lemma triple_conj:
  "triple P m Q E \<Longrightarrow> triple P' m Q' E' \<Longrightarrow>
   triple (\<lambda>s. P s \<and> P' s) m (\<lambda>a s. Q a s \<and> Q' a s) (\<lambda>e s. E e s \<and> E' e s)"
  unfolding triple_def by (auto split: prod.splits sum.splits)

definition sound_plan :: "'x stack_host \<Rightarrow> prepared \<Rightarrow> bool" where
  "sound_plan h0 p \<longleftrightarrow> (sh_config h0 \<noteq> None \<longrightarrow> sh_config h0 = Some (pp_persisted p))
     \<and> dashboard_service \<notin> un_name ` (set (pl_changed (pp_plan p)) \<union> set (pl_unchanged (pp_plan p)))"

lemma on_stack_hostD:
  assumes "on_stack_host F d"
  shows "id_change d = stack_change F" "reads_calm (\<lambda>h. host_view h = v) d" "prep_calm (\<lambda>h. host_view h = v) d"
    "weights_calm (\<lambda>h. host_view h = v) (id_weights d)" "sim.proofs_still (id_proofs d)"
    "id_load_config d h = (Inr cfg, h') \<Longrightarrow> sh_config h \<noteq> None \<Longrightarrow> sh_config h = Some cfg"
    "id_reconcile d us dir h = (Inr p, h') \<Longrightarrow>
      dashboard_service \<notin> un_name ` (set (pl_changed p) \<union> set (pl_unchanged p))"
  using assms unfolding on_stack_host_def by blast+

lemma decided_plan:
  assumes "on_stack_host F d"
  shows "triple (\<lambda>s. rs_host s = h0) (decide_plan d opt) (\<lambda>p _. sound_plan h0 p) (\<lambda>_ _. True)"
proof -
  note d = on_stack_hostD [OF assms]
  have load: "triple (\<lambda>s. rs_host s = h0) (obtain_from mk (id_load_config d))
      (\<lambda>cfg _. sh_config h0 \<noteq> None \<longrightarrow> sh_config h0 = Some cfg) (\<lambda>_ _. True)" for mk
    using d(6) [of h0] unfolding triple_def obtain_from_def by (auto split: prod.split sum.split)
  have plan: "triple (\<lambda>_. K) (obtain_from mk (id_reconcile d us dir)) (\<lambda>plan _. K \<and>
      dashboard_service \<notin> un_name ` (set (pl_changed plan) \<union> set (pl_unchanged plan))) (\<lambda>_ _. True)" for K mk us dir
    using d(7) [of us dir] unfolding triple_def obtain_from_def by (simp split: prod.split sum.split)
  have last: "triple (\<lambda>_. sh_config h0 \<noteq> None \<longrightarrow> sh_config h0 = Some cfg)
      (andthen (obtain_from mk (id_reconcile d us dir)) (\<lambda>plan. ret (f plan))) (\<lambda>p _. sound_plan h0 p) (\<lambda>_ _. True)"
    if "\<And>plan. pp_persisted (f plan) = cfg \<and> pp_plan (f plan) = plan" for cfg mk us dir f
    by (rule triple_andthen [OF plan], rule triple_ret) (simp add: sound_plan_def that)
  show ?thesis unfolding decide_plan_def Let_def
    by (rule triple_andthen [OF load])
       ((rule last, simp) | (rule triple_if triple_prod triple_andthen [OF triple_const]) | (rule triple_stop, simp))+
qed

lemma fresh_calls:
  fixes P :: "'h run_state \<Rightarrow> bool" and E :: "run_exit \<Rightarrow> 'h run_state \<Rightarrow> bool"
  defines "P \<equiv> \<lambda>s. rs_mut s = no_mutations" and "E \<equiv> \<lambda>e s. \<forall>r. e \<noteq> Refuse r"
  shows "triple P (attempt (\<lambda>e. Block (b e)) f) (\<lambda>_. P) E" "triple P (obtain_from (\<lambda>e. Block (b e)) g) (\<lambda>_. P) E"
    "triple P (ask k) (\<lambda>_. P) E" "triple P note_degraded (\<lambda>_. P) E"
  by (auto simp: triple_def call_defs P_def E_def split: prod.split option.split sum.split)

lemma before_fresh:
  "triple (\<lambda>s. rs_mut s = no_mutations) (before_changes d opt) (\<lambda>_ s. rs_mut s = no_mutations) (\<lambda>e s. \<forall>r. e \<noteq> Refuse r)"
  unfolding before_changes_def decide_plan_def collect_checks_def run_wizard_def run_gate_def stage_weights_def
    stage_image_def stage_agent_def ensure_def Let_def
  by (intro inv_rules fresh_calls triple_gate_verdict) simp_all

lemma before_kept:
  assumes "on_stack_host F d" and "before_changes d opt (fresh_run h0) = (r, s)"
  shows "(\<exists>p. r = Inr p \<and> sound_plan h0 p \<and> host_view (rs_host s) = host_view h0 \<and> rs_mut s = no_mutations)
    \<or> (\<exists>e. r = Inl e \<and> (\<forall>x. e \<noteq> Refuse x))"
proof -
  note d = on_stack_hostD [OF assms(1)]
  have start: "rs_host (fresh_run h0) = h0" "rs_mut (fresh_run h0) = no_mutations" by (simp_all add: fresh_run_def)
  have plan: "triple (\<lambda>s. rs_host s = h0) (before_changes d opt) (\<lambda>p _. sound_plan h0 p) (\<lambda>_ _. True)"
    unfolding before_changes_def
    by (rule triple_andthen [OF decided_plan [OF assms(1)]])
       ((rule triple_if triple_andthen [OF triple_const]) | (rule triple_stop, simp) | (rule triple_ret, simp))+
  have view: "keeps (on_host (\<lambda>h. host_view h = host_view h0)) (before_changes d opt)"
    by (intro keeps_before disjI1 d(2-4))
  show ?thesis
  proof (cases r)
    case (Inl e)
    with triple_Inl [OF before_fresh _ assms(2) [unfolded Inl]] start show ?thesis by simp
  next
    case (Inr p)
    note run = assms(2) [unfolded Inr]
    have "on_host (\<lambda>h. host_view h = host_view h0) (fresh_run h0)" by (simp add: on_host_def start)
    from triple_Inr [OF view this run] triple_Inr [OF plan _ run] triple_Inr [OF before_fresh _ run] start Inr
    show ?thesis by (simp add: on_host_def)
  qed
qed

text \<open>An install for the witnesses: two units change, the call with the given label fails.\<close>

definition sample_faults :: "string \<Rightarrow> unit host_faults" where
  "sample_faults bad = \<lparr>hf_fault = (\<lambda>l x. (if l = bad then Some ''failed'' else None, x)), hf_left = (\<lambda>_ _. False),
     hf_secret = (\<lambda>x. (Inr ''s'', x)), hf_binary = Inr ''/bin/villa'', hf_dashboard = (\<lambda>b. Inr ''dash''),
     hf_searxng = (\<lambda>_. Inl []), hf_user_dir = ''/user''\<rparr>"

definition sample_units :: "unit_file list" where
  "sample_units = [\<lparr>un_name = ''villa-llama.container'', un_text = ''new''\<rparr>,
     \<lparr>un_name = ''villa-openwebui.container'', un_text = ''new''\<rparr>]"

definition sample_weights :: "'h weights_deps" where
  "sample_weights = \<lparr>wd_model_present = (\<lambda>_ _. True), wd_ensure_model = (\<lambda>_ h. (None, h)),
     wd_embed_present = (\<lambda>_ _. True), wd_ensure_embed = (\<lambda>_ h. (None, h)),
     wd_rerank_present = (\<lambda>_ _. True), wd_ensure_rerank = (\<lambda>_ h. (None, h)),
     wd_voice_present = (\<lambda>_ _. True), wd_ensure_voice = (\<lambda>_ h. (None, h)),
     wd_image_present = (\<lambda>_ _ _. True), wd_ensure_image = (\<lambda>_ _ h. (None, h)),
     wd_agent_catalog = (\<lambda>_. None), wd_coder_present = (\<lambda>_ _ _. True), wd_ensure_coder = (\<lambda>_ _ h. (None, h)),
     wd_install_agent = (\<lambda>h. (Inl [], h)), wd_render_crush = (\<lambda>_ h. (None, h))\<rparr>"

definition sample_proofs :: "'h proof_deps" where
  "sample_proofs = \<lparr>pd_poll_ready = (\<lambda>h. (StatusPass, h)), pd_prove_memory = (\<lambda>_ h. (StatusPass, h)),
     pd_prove_search = (\<lambda>h. (StatusPass, h)), pd_prove_agent = (\<lambda>h. (StatusPass, h)),
     pd_prove_voice = (\<lambda>h. (StatusPass, h)), pd_prove_image = (\<lambda>_ h. (StatusPass, h)),
     pd_prove_chat = (\<lambda>_ h. (StatusPass, h))\<rparr>"

definition sample_prep :: "'h host_prep" where
  "sample_prep = \<lparr>hp_interactive = (\<lambda>_. False), hp_consent = (\<lambda>_ h. (False, h)), hp_username = (\<lambda>_. []),
     hp_setsebool = (\<lambda>h. (None, h)), hp_enable_linger = (\<lambda>_ h. (None, h))\<rparr>"

definition sample_install :: "string \<Rightarrow> (unit, unit stack_host) install_deps" where
  "sample_install bad = \<lparr>
     id_load_config = (\<lambda>h. (Inr (case sh_config h of None \<Rightarrow> zero_config | Some c \<Rightarrow> c), h)), id_probe = (\<lambda>h. ((), h)),
     id_pick = (\<lambda>_ _ _. no_recommendation\<lparr>rc_model := ''m'', rc_context_len := 1, rc_weight_bytes := 1\<rparr>),
     id_models_dir = ''/models'', id_run_checks = (\<lambda>_ _ h. ([], h)), id_memory_checks = None, id_agent_checks = None,
     id_prep = sample_prep, id_stdout_tty = (\<lambda>_. False), id_wizard = (\<lambda>_ _ _ _ h. (Inl [], h)),
     id_unit_dir = (\<lambda>_. Inr ''/units''), id_inference_secret = (\<lambda>h. (Inr ''s'', h)),
     id_render = (\<lambda>_ h. (Inr sample_units, h)),
     id_reconcile = (\<lambda>us _ h. (Inr \<lparr>pl_changed = sample_units, pl_unchanged = [], pl_removed = []\<rparr>, h)),
     id_weights = sample_weights, id_change = stack_change (sample_faults bad), id_proofs = sample_proofs,
     id_image_table = []\<rparr>"

definition sample_stack :: "unit stack_host" where
  "sample_stack = \<lparr>sh_units = (\<lambda>dir n. if dir = ''/units'' \<and> n = ''villa-llama.container'' then Some ''old'' else None),
     sh_running = (\<lambda>s. s = ''villa-llama.service''), sh_config = Some zero_config, sh_world = ()\<rparr>"

definition plain_opts :: opts where
  "plain_opts = \<lparr>op_coding_agent = False, op_web_search = False, op_workspace_agent = False, op_voice = False,
     op_image = False, op_dry_run = False, op_force = False, op_json = False, op_no_tui = True\<rparr>"

lemma sample_calm: "on_stack_host (sample_faults bad) (sample_install bad)"
  by (simp add: on_stack_host_def sample_install_def reads_calm_def prep_calm_def weights_calm_def calm_def
      sample_weights_def sample_prep_def sample_proofs_def sim.proofs_still_def sim.keeps_units_def
      sample_units_def dashboard_service_def) auto

lemma default_units_eq:
  "default_units = \<lparr>iu_inference = ''villa-llama.service'', iu_chat = ''villa-openwebui.service'',
     iu_qdrant = ''villa-qdrant.service'', iu_embed = ''villa-embed.service'', iu_rerank = ''villa-rerank.service'',
     iu_extract = ''villa-extract.service'', iu_searxng = ''villa-searxng.service'', iu_websafe = ''villa-websafe.service'',
     iu_stt = ''villa-stt.service'', iu_tts = ''villa-tts.service'', iu_image = ''villa-image.service''\<rparr>"
  by code_simp

definition sample_gates :: gates where
  "sample_gates = \<lparr>gt_memory = False, gt_web_search = False, gt_agent = False, gt_coding_mode = False,
     gt_sandbox = False, gt_voice = False, gt_image = False\<rparr>"

definition sample_rec :: recommendation where
  "sample_rec = no_recommendation\<lparr>rc_model := ''m'', rc_context_len := 1, rc_weight_bytes := 1\<rparr>"

definition sample_prepared :: prepared where
  "sample_prepared = \<lparr>pp_persisted = zero_config,
     pp_config = (ip_config (assemble_plan zero_config sample_gates sample_rec (Some persisted_backend_chosen)))\<lparr>cfg_inference_secret := ''s''\<rparr>,
     pp_gates = sample_gates, pp_rec = sample_rec, pp_unit_dir = ''/units'',
     pp_plan = \<lparr>pl_changed = sample_units, pl_unchanged = [], pl_removed = []\<rparr>\<rparr>"

lemma sample_gates_eq: "resolve_gates zero_config plain_opts sample_rec = sample_gates"
  by (simp add: resolve_gates_def sample_gates_def sample_rec_def no_recommendation_def zero_config_def plain_opts_def gate_simps)

lemma sample_before: "before_changes (sample_install bad) plain_opts (fresh_run sample_stack) = (Inr sample_prepared, fresh_run sample_stack)"
proof -
  have pick: "id_pick (sample_install bad) p ov res = sample_rec" for p ov res
    by (simp add: sample_install_def sample_rec_def)
  have "recommendation_usable sample_rec" by (simp add: recommendation_usable_def sample_rec_def)
  moreover have "cfg_inference_secret (ip_config (assemble_plan zero_config sample_gates sample_rec (Some persisted_backend_chosen))) = []"
    by (simp add: assemble_plan_def persist_gates_def Let_def zero_config_def sample_gates_def)
  moreover have g: "\<not> gt_memory sample_gates" "\<not> gt_web_search sample_gates" "\<not> gt_agent sample_gates"
     "\<not> gt_voice sample_gates" "\<not> gt_image sample_gates" by (simp_all add: sample_gates_def)
  moreover have "\<not> op_dry_run plain_opts" "op_no_tui plain_opts" by (simp_all add: plain_opts_def)
  moreover have "sh_config sample_stack = Some zero_config" by (simp add: sample_stack_def)
  ultimately show ?thesis
    unfolding before_changes_def decide_plan_def pick Let_def stage_weights_def
    by (simp add: andthen_def ret_def call_defs collect_checks_def run_wizard_def run_gate_def whenever_def ensure_def
      sample_gates_eq fresh_run_def sample_prepared_def gate_def sample_install_def sample_weights_def)
qed


definition sample_prior :: prior where
  "sample_prior = \<lparr>pr_config = zero_config, pr_had_config = True, pr_units = [(''villa-llama.container'', ''old'')],
     pr_running = [''villa-llama.service''], pr_first_install = False\<rparr>"

lemma sample_captured: "capture_state (stack_change F) sample_prepared (rs_host (fresh_run sample_stack)) = sample_prior"
  by (simp add: capture_state_def capture_prior_def captured_units_def sample_prepared_def sample_stack_def fresh_run_def
      sample_units_def List.map_filter_simps sample_prior_def active_def install_services_def default_units_eq
      dashboard_service_def)

lemma sample_sel:
  "id_change (sample_install bad) = stack_change (sample_faults bad)" "id_proofs (sample_install bad) = sample_proofs"
  "pp_gates sample_prepared = sample_gates" "pp_unit_dir sample_prepared = ''/units''"
  "pp_plan sample_prepared = \<lparr>pl_changed = sample_units, pl_unchanged = [], pl_removed = []\<rparr>"
  by (simp_all add: sample_install_def sample_prepared_def)

lemma sample_run:
  "run_install (sample_install bad) plain_opts sample_stack =
     (case change_stack (sample_install bad) sample_prepared (fresh_run sample_stack) of
        (Inl e, s) \<Rightarrow> conclude (sample_install bad) sample_prepared sample_prior e s
      | (Inr _, s) \<Rightarrow> conclude (sample_install bad) sample_prepared sample_prior (Finish Completed) s)"
  unfolding run_install_def sample_before sum.case prod.case Let_def sample_sel sample_captured ..

lemma sample_services:
  "service_for ''villa-llama.container'' = ''villa-llama.service''"
  "service_for ''villa-openwebui.container'' = ''villa-openwebui.service''"
  by (simp_all add: service_for_def trim_suffix_def has_suffix_def suffix_def)

lemmas sample_steps = change_stack_def change_after_save_def sample_sel
    start_stack_def andthen_def ret_def stop_def call_defs whenever_def render_inference_secret_env_def
    reconcile_dashboard_def write_dashboard_def start_service_def default_units_eq
    stack_change_def sim_call_def sim_service_def sample_faults_def sample_stack_def fresh_run_def sample_units_def
    active_def dashboard_active_def dashboard_service_def set_unit_def sample_services sample_gates_def
    record_config_save_def record_start_def record_unit_def record_enable_def no_mutations_def

lemmas sample_undo = conclude_def exit_result_def install_rollback_def rollback_seams_def rollback_unit_dir_def
    undo_start_def undo_enable_def undo_restart_def undo_config_def undo_call_def undo_nothing_def undo_unit_def
    was_running_def had_unit_def sample_prior_def

text \<open>A service that was running on a rewritten unit is stopped before its start; when that start fails
  the service is not recorded, and a rollback that reports itself complete leaves it down.\<close>

lemma stopped_service_stays_down:
  "case run_install (sample_install ''start villa-llama.service'') plain_opts sample_stack of (res, h) \<Rightarrow>
     sh_running sample_stack ''villa-llama.service'' \<and> \<not> sh_running h ''villa-llama.service''
     \<and> ir_exit res = Refuse (ServiceFailed ''villa-llama.service'' (NotStarted ''failed'')) \<and> ir_rollback res = []"
  unfolding sample_run by (simp add: Let_def sample_steps sample_undo)

text \<open>Units are recorded only after all of them are written: when the second write fails, the first
  unit keeps its new text under a rollback that reports itself complete.\<close>

lemma half_written_units_stay:
  "case run_install (sample_install ''write villa-openwebui.container'') plain_opts sample_stack of (res, h) \<Rightarrow>
     sh_units sample_stack ''/units'' ''villa-llama.container'' = Some ''old''
     \<and> sh_units h ''/units'' ''villa-llama.container'' = Some ''new'' \<and> ir_rollback res = []"
  unfolding sample_run by (simp add: Let_def sample_steps sample_undo)

lemma sample_refusal:
  "case run_install (sample_install ''start villa-openwebui.service'') plain_opts sample_stack of (res, h) \<Rightarrow>
     ir_exit res = Refuse (ServiceFailed ''villa-openwebui.service'' (NotStarted ''failed'')) \<and> ir_rollback res = []"
  unfolding sample_run by (simp add: Let_def sample_steps sample_undo)



subsection \<open>Inputs for the properties of the flow\<close>

theorem install_block_changes_nothing_witness:
  "host_view (snd (run_install (sample_install []) (plain_opts\<lparr>op_dry_run := True\<rparr>) sample_stack)) = host_view sample_stack"
  by (rule install_block_changes_nothing [where P = "\<lambda>h. host_view h = host_view sample_stack"])
     (simp_all add: on_stack_hostD(2) [OF sample_calm])

theorem gate_never_unasked_witness:
  "snd (gate sample_prep [\<lparr>ck_id = ''PRE-05'', ck_tier = TierBlock, ck_status = StatusFail\<rparr>] plain_opts [] (0 :: nat)) = 0
   \<and> fst (gate sample_prep [\<lparr>ck_id = ''PRE-05'', ck_tier = TierBlock, ck_status = StatusFail\<rparr>] plain_opts [] (0 :: nat)) = GateBlocked"
  using gate_never_unasked [of sample_prep plain_opts "[]" "\<lambda>h. h = 0" "0 :: nat"
      "[\<lparr>ck_id = ''PRE-05'', ck_tier = TierBlock, ck_status = StatusFail\<rparr>]"]
  by (simp add: nobody_consents_def sample_prep_def calm_def plain_opts_def unmet_def)

end
