(* ===== verification/TaskRun.thy ===== *)
theory TaskRun
  imports TaskStore Approval
begin

text \<open>
  \<open>internal/taskrun\<close>: the runner of the workspace agent's tasks. One worker drives one task at
  a time through the sandbox's event stream; clients submit, answer, cancel, subscribe and close from
  other goroutines. The state is the runner's fields, the worker's position and its job; one step is
  one arm of the worker's \<open>select\<close> or one client call. A client call holds the lock for all it
  does to the shared fields, and the worker's arms touch them once, so the steps interleave at the
  places where the source can switch. Channels keep their capacity: a send that would block while the
  lock is held and a send to or a close of a closed channel are recorded as faults. What the sandbox,
  the configuration, the disk and the audit answer is a function of the world.
\<close>

subsection \<open>Decimal numbers in texts\<close>

fun show_nat :: "nat \<Rightarrow> string" where
  "show_nat n = (if n < 10 then [char_of (48 + n)] else show_nat (n div 10) @ [char_of (48 + n mod 10)])"

declare show_nat.simps [simp del]

subsection \<open>The bridge's vocabulary (\<open>internal/crushapi\<close>)\<close>

record permission_request =
  pr_id :: string
  pr_tool :: string
  pr_action :: string
  pr_path :: string
  pr_params :: string

record crush_event =
  ev_kind :: string
  ev_permission :: "permission_request option"
  ev_file :: "string option"
  ev_version :: string
  ev_error :: string
  ev_files :: "string list"

definition kind_permission_request :: string where "kind_permission_request = ''permission_request''"
definition kind_file :: string where "kind_file = ''file''"
definition kind_run_complete :: string where "kind_run_complete = ''run_complete''"
definition kind_bridge_ready :: string where "kind_bridge_ready = ''bridge_ready''"
definition kind_bridge_error :: string where "kind_bridge_error = ''bridge_error''"
definition kind_files_read :: string where "kind_files_read = ''files_read''"

datatype grant_answer = GrantAllow | GrantAllowSession | GrantDeny

fun grant_text :: "grant_answer \<Rightarrow> string" where
  "grant_text GrantAllow = ''allow''"
| "grant_text GrantAllowSession = ''allow_session''"
| "grant_text GrantDeny = ''deny''"

datatype command = CmdPrompt string | CmdGrant string grant_answer

subsection \<open>The state\<close>

record narration =
  nr_kind :: string
  nr_text :: string
  nr_task :: task

definition kind_narration :: string where "kind_narration = ''narration''"
definition kind_state :: string where "kind_state = ''state''"

record channel =
  ch_buffer :: "narration list"
  ch_closed :: bool

definition channel_capacity :: nat where "channel_capacity = 256"

datatype fault = SendOnClosed nat | CloseOfClosed nat | BlockedUnderLock

record active =
  ac_id :: string
  ac_answer :: "(grant_answer \<times> string) option"
  ac_cancel :: bool
  ac_ctx_done :: bool
  ac_awaiting :: bool
  ac_cancelled :: bool
  ac_interrupted :: bool

definition new_active :: "string \<Rightarrow> active" where
  "new_active i = \<lparr>ac_id = i, ac_answer = None, ac_cancel = False, ac_ctx_done = False,
     ac_awaiting = False, ac_cancelled = False, ac_interrupted = False\<rparr>"

record job =
  jb_task :: task
  jb_session_allow :: bool
  jb_pending :: int
  jb_pending_id :: string
  jb_run_complete :: bool
  jb_files_read :: "string list"
  jb_seen :: "string list"

datatype phase = Looking | Parked | AwaitingReady job | Serving job | Auditing job | Halted

text \<open>\<open>rn_current\<close> says whether \<open>r.current\<close> points to the worker's \<open>active\<close>; it never
  points to another one.\<close>

record 'x runner =
  rn_host :: "'x task_host"
  rn_queue :: "string list"
  rn_current :: bool
  rn_active :: active
  rn_phase :: phase
  rn_wake :: bool
  rn_stop :: bool
  rn_subs :: "(string \<times> nat) list"
  rn_chans :: "channel list"
  rn_sent :: "command list"
  rn_faults :: "fault list"

record document_report =
  dr_checked :: bool
  dr_claims :: int
  dr_unsupported :: "unsupported list"
  dr_err :: string

datatype log_event = LogNarration string | LogHarness crush_event

record ('x, 'c) run_deps =
  rd_store :: "'x task_os"
  rd_load_config :: "'x \<Rightarrow> (string + 'c) \<times> 'x"
  rd_render_args :: "'c \<Rightarrow> string \<Rightarrow> string \<Rightarrow> 'x \<Rightarrow> (string + string list) \<times> 'x"
  rd_launch :: "string list \<Rightarrow> 'x \<Rightarrow> string option \<times> 'x"
  rd_send :: "command \<Rightarrow> 'x \<Rightarrow> string option \<times> 'x"
  rd_wait :: "'x \<Rightarrow> string option \<times> 'x"
  rd_kill :: "'x \<Rightarrow> string option \<times> 'x"
  rd_kill_by_name :: "string \<Rightarrow> 'x \<Rightarrow> string option \<times> 'x"
  rd_registered :: "'c \<Rightarrow> string \<Rightarrow> string \<times> bool"
  rd_tools_on :: "'c \<Rightarrow> bool"
  rd_sandbox_ready :: "'x \<Rightarrow> (bool \<times> string) \<times> 'x"
  rd_audit :: "string \<Rightarrow> string \<Rightarrow> (string \<times> string) list \<Rightarrow> 'x \<Rightarrow> document_report \<times> 'x"
  rd_read_file :: "string \<Rightarrow> string \<Rightarrow> 'x \<Rightarrow> (string + string) \<times> 'x"
  rd_append_log :: "string \<Rightarrow> log_event \<Rightarrow> 'x \<Rightarrow> 'x"
  rd_now :: "'x \<Rightarrow> string"
  rd_new_id :: "'x \<Rightarrow> string \<times> 'x"
  rd_command_param :: "string \<Rightarrow> string"
  rd_error_text :: "task_error \<Rightarrow> string"

subsection \<open>The world and the subscribers\<close>

definition world_of :: "'x runner \<Rightarrow> 'x" where
  "world_of s = th_world (rn_host s)"

definition set_world :: "'x \<Rightarrow> 'x runner \<Rightarrow> 'x runner" where
  "set_world x s = s\<lparr>rn_host := (rn_host s)\<lparr>th_world := x\<rparr>\<rparr>"

definition call :: "('x \<Rightarrow> 'a \<times> 'x) \<Rightarrow> 'x runner \<Rightarrow> 'a \<times> 'x runner" where
  "call f s = (case f (world_of s) of (a, x) \<Rightarrow> (a, set_world x s))"

definition now_of :: "('x, 'c) run_deps \<Rightarrow> 'x runner \<Rightarrow> string" where
  "now_of d s = rd_now d (world_of s)"

definition log_of :: "('x, 'c) run_deps \<Rightarrow> string \<Rightarrow> log_event \<Rightarrow> 'x runner \<Rightarrow> 'x runner" where
  "log_of d i e s = set_world (rd_append_log d i e (world_of s)) s"

definition on_store :: "('x task_host \<Rightarrow> 'a \<times> 'x task_host) \<Rightarrow> 'x runner \<Rightarrow> 'a \<times> 'x runner" where
  "on_store f s = (case f (rn_host s) of (a, h) \<Rightarrow> (a, s\<lparr>rn_host := h\<rparr>))"

definition fault_of :: "fault \<Rightarrow> 'x runner \<Rightarrow> 'x runner" where
  "fault_of f s = s\<lparr>rn_faults := rn_faults s @ [f]\<rparr>"

text \<open>A non-blocking send: dropped when the buffer is full.\<close>

definition offer :: "narration \<Rightarrow> nat \<Rightarrow> 'x runner \<Rightarrow> 'x runner" where
  "offer n k s =
     (let c = rn_chans s ! k in
      if ch_closed c then fault_of (SendOnClosed k) s
      else if length (ch_buffer c) < channel_capacity
        then s\<lparr>rn_chans := (rn_chans s)[k := c\<lparr>ch_buffer := ch_buffer c @ [n]\<rparr>]\<rparr>
      else s)"

definition close_channel :: "nat \<Rightarrow> 'x runner \<Rightarrow> 'x runner" where
  "close_channel k s =
     (let c = rn_chans s ! k in
      if ch_closed c then fault_of (CloseOfClosed k) s
      else s\<lparr>rn_chans := (rn_chans s)[k := c\<lparr>ch_closed := True\<rparr>]\<rparr>)"

definition subs_of :: "string \<Rightarrow> 'x runner \<Rightarrow> nat list" where
  "subs_of i s = map snd (filter (\<lambda>(j, _). j = i) (rn_subs s))"

definition narrate :: "('x, 'c) run_deps \<Rightarrow> task \<Rightarrow> string \<Rightarrow> string \<Rightarrow> 'x runner \<Rightarrow> 'x runner" where
  "narrate d t kind text s =
     (let s1 = log_of d (tk_id t) (LogNarration text) s in
      fold (offer \<lparr>nr_kind = kind, nr_text = text, nr_task = t\<rparr>) (subs_of (tk_id t) s1) s1)"

definition close_subs :: "string \<Rightarrow> 'x runner \<Rightarrow> 'x runner" where
  "close_subs i s =
     (let s1 = fold close_channel (subs_of i s) s in
      s1\<lparr>rn_subs := filter (\<lambda>(j, _). j \<noteq> i) (rn_subs s1)\<rparr>)"

definition zero_task :: task where
  "zero_task = \<lparr>tk_id = [], tk_workspace = [], tk_instruction = [], tk_mode = [], tk_state = Unknown [],
     tk_exit = None, tk_submitted_at = [], tk_started_at = [], tk_finished_at = [], tk_harness = ([], []),
     tk_files = [], tk_approvals = [], tk_grounding = \<lparr>gr_checked = False, gr_documents = []\<rparr>, tk_schema = 0\<rparr>"

definition load_of :: "('x, 'c) run_deps \<Rightarrow> string \<Rightarrow> 'x runner \<Rightarrow> task_error + task" where
  "load_of d i s = load_task (rd_store d) i (rn_host s)"

definition load_or_zero :: "('x, 'c) run_deps \<Rightarrow> string \<Rightarrow> 'x runner \<Rightarrow> task" where
  "load_or_zero d i s = (case load_of d i s of Inr t \<Rightarrow> t | Inl _ \<Rightarrow> zero_task)"

definition state_text :: "task_state \<Rightarrow> string" where
  "state_text st = (case st of Queued \<Rightarrow> ''queued'' | Running \<Rightarrow> ''running''
     | AwaitingApproval \<Rightarrow> ''awaiting_approval'' | Done \<Rightarrow> ''done'' | Flagged \<Rightarrow> ''flagged''
     | Failed \<Rightarrow> ''failed'' | Refused \<Rightarrow> ''refused'' | Cancelled \<Rightarrow> ''cancelled''
     | Interrupted \<Rightarrow> ''interrupted'' | Unknown u \<Rightarrow> u)"

definition sandbox_container_name :: "string \<Rightarrow> string" where
  "sandbox_container_name i = ''villa-task-'' @ i"

subsection \<open>The worker's job\<close>

text \<open>The worker's steps work on the job and the runner together.\<close>

type_synonym 'x on_job = "job \<times> 'x runner \<Rightarrow> job \<times> 'x runner"

definition say :: "('x, 'c) run_deps \<Rightarrow> string \<Rightarrow> 'x on_job" where
  "say d text js = (case js of (j, s) \<Rightarrow> (j, narrate d (jb_task j) kind_narration text s))"

definition release :: "'x runner \<Rightarrow> 'x runner" where
  "release s = s\<lparr>rn_current := False\<rparr>"

text \<open>What every transition writes from the job's shadow into the record.\<close>

definition shadow :: "job \<Rightarrow> task \<Rightarrow> task" where
  "shadow j t = t\<lparr>tk_harness := tk_harness (jb_task j), tk_files := tk_files (jb_task j),
     tk_approvals := tk_approvals (jb_task j), tk_grounding := tk_grounding (jb_task j)\<rparr>"

definition write_state ::
  "('x, 'c) run_deps \<Rightarrow> task_state \<Rightarrow> (task \<Rightarrow> task) \<Rightarrow> job \<Rightarrow> 'x runner \<Rightarrow> (task_error + task) \<times> 'x runner" where
  "write_state d to extra j s =
     on_store (transition (rd_store d) (tk_id (jb_task j)) to (\<lambda>t. extra (shadow j t))) s"

function finish :: "('x, 'c) run_deps \<Rightarrow> task_state \<Rightarrow> string \<Rightarrow> 'x on_job" where
  "finish d to text js =
     (case say d text js of (j, s) \<Rightarrow>
      (let finished = now_of d s in
       case write_state d to (\<lambda>t. t\<lparr>tk_finished_at := finished\<rparr>) j s of
         (Inl e, s) \<Rightarrow>
           (case say d (''bug: '' @ rd_error_text d e) (j, s) of (j, s) \<Rightarrow>
             if to \<noteq> Failed then finish d Failed ''failed: an illegal state transition was attempted'' (j, s)
             else (j, close_subs (tk_id (jb_task j)) s))
       | (Inr t, s) \<Rightarrow>
           (j\<lparr>jb_task := t\<rparr>,
            close_subs (tk_id t) (narrate d t kind_state (state_text to) (release s)))))"
  by pat_completeness auto
termination by (relation "measure (\<lambda>(d, to, text, js). if to = Failed then 0 else 1)") auto

declare finish.simps [simp del]

definition move :: "('x, 'c) run_deps \<Rightarrow> task_state \<Rightarrow> (task \<Rightarrow> task) \<Rightarrow> 'x on_job" where
  "move d to extra js =
     (case js of (j, s) \<Rightarrow>
      case write_state d to extra j s of
        (Inl e, s) \<Rightarrow>
          (case say d (''bug: '' @ rd_error_text d e) (j, s) of (j, s) \<Rightarrow>
            if to \<noteq> Failed then finish d Failed ''failed: an illegal state transition was attempted'' (j, s)
            else (j, s))
      | (Inr t, s) \<Rightarrow> (j\<lparr>jb_task := t\<rparr>, narrate d t kind_state (state_text to) s))"

definition log_harness :: "('x, 'c) run_deps \<Rightarrow> crush_event \<Rightarrow> 'x on_job" where
  "log_harness d ev js = (case js of (j, s) \<Rightarrow> (j, log_of d (tk_id (jb_task j)) (LogHarness ev) s))"

definition send :: "('x, 'c) run_deps \<Rightarrow> command \<Rightarrow> 'x runner \<Rightarrow> string option \<times> 'x runner" where
  "send d c s = call (rd_send d c) (s\<lparr>rn_sent := rn_sent s @ [c]\<rparr>)"

definition grant :: "('x, 'c) run_deps \<Rightarrow> string \<Rightarrow> grant_answer \<Rightarrow> 'x on_job" where
  "grant d pid g js =
     (case js of (j, s) \<Rightarrow>
      case send d (CmdGrant pid g) s of
        (Some e, s) \<Rightarrow> say d (''could not answer permission '' @ pid @ '': '' @ e) (j, s)
      | (None, s) \<Rightarrow> (j, s))"

definition guest_workspace :: string where "guest_workspace = ''/workspace/''"

definition guest_rel :: "string \<Rightarrow> string" where
  "guest_rel p = trim_prefix p guest_workspace"

definition request_of :: "('x, 'c) run_deps \<Rightarrow> permission_request \<Rightarrow> request" where
  "request_of d p = \<lparr>rq_action = pr_action p, rq_tool = pr_tool p, rq_path = pr_path p,
     rq_command = rd_command_param d (pr_params p), rq_workspace = trim_suffix guest_workspace ''/''\<rparr>"

definition what_of :: "('x, 'c) run_deps \<Rightarrow> permission_request \<Rightarrow> string" where
  "what_of d p =
     pr_action p @ '' '' @ pr_tool p
     @ (if pr_path p \<noteq> [] then '' '' @ guest_rel (pr_path p) else [])
     @ (if rd_command_param d (pr_params p) \<noteq> [] then '': '' @ rd_command_param d (pr_params p) else [])"

definition new_row :: "('x, 'c) run_deps \<Rightarrow> permission_request \<Rightarrow> job \<Rightarrow> string \<Rightarrow> task_approval" where
  "new_row d p j asked =
     \<lparr>ta_seq = int (length (tk_approvals (jb_task j))) + 1, ta_tool = pr_tool p, ta_action = pr_action p,
      ta_path = guest_rel (pr_path p), ta_command = rd_command_param d (pr_params p), ta_asked_at = asked,
      ta_answer = [], ta_answered_at = [], ta_by = []\<rparr>"

definition append_row :: "task_approval \<Rightarrow> job \<Rightarrow> job" where
  "append_row r j = j\<lparr>jb_task := (jb_task j)\<lparr>tk_approvals := tk_approvals (jb_task j) @ [r]\<rparr>\<rparr>"

definition park_job :: "('x, 'c) run_deps \<Rightarrow> permission_request \<Rightarrow> string \<Rightarrow> job \<Rightarrow> job" where
  "park_job d p now j =
     (let j1 = append_row (new_row d p j now) j in
      j1\<lparr>jb_pending := int (length (tk_approvals (jb_task j1))) - 1, jb_pending_id := pr_id p\<rparr>)"

definition set_awaiting :: "bool \<Rightarrow> 'x runner \<Rightarrow> 'x runner" where
  "set_awaiting b s = s\<lparr>rn_active := (rn_active s)\<lparr>ac_awaiting := b\<rparr>\<rparr>"

definition by_dashboard :: string where "by_dashboard = ''dashboard''"
definition by_session :: string where "by_session = ''session''"

definition session_job :: "('x, 'c) run_deps \<Rightarrow> permission_request \<Rightarrow> string \<Rightarrow> job \<Rightarrow> job" where
  "session_job d p now j =
     append_row ((new_row d p j now)\<lparr>ta_answer := grant_text GrantAllow, ta_answered_at := now, ta_by := by_session\<rparr>) j"

definition decide_request :: "('x, 'c) run_deps \<Rightarrow> permission_request \<Rightarrow> 'x on_job" where
  "decide_request d p js =
     (case js of (j, s) \<Rightarrow>
      let req = request_of d p; what = what_of d p; decision = decide (tk_mode (jb_task j)) req; now = now_of d s in
      if decision = Ask \<and> jb_pending j \<ge> 0
      then say d (''denied: another approval is already parked: '' @ what) (grant d (pr_id p) GrantDeny (j, s))
      else if decision = Ask \<and> jb_session_allow j \<and> \<not> is_deletion (rq_command req)
      then say d (''allowed by the session grant: '' @ what)
             (grant d (pr_id p) GrantAllow
               (session_job d p now j, s))
      else (case decision of
        Allow \<Rightarrow> say d (''allowed: '' @ what) (grant d (pr_id p) GrantAllow (j, s))
      | Deny \<Rightarrow> say d (''denied by policy: '' @ what) (grant d (pr_id p) GrantDeny (j, s))
      | Ask \<Rightarrow>
          (case move d AwaitingApproval id (park_job d p now j, set_awaiting True s) of
             (j1, s) \<Rightarrow> say d (''awaiting approval #'' @ show_nat (nat (jb_pending j1 + 1)) @ '': '' @ what) (j1, s))
      | DecisionUnset \<Rightarrow> (j, s)))"

definition answer_row :: "grant_answer \<Rightarrow> string \<Rightarrow> string \<Rightarrow> task_approval \<Rightarrow> task_approval" where
  "answer_row g who now r = r\<lparr>ta_answer := grant_text g, ta_answered_at := now, ta_by := who\<rparr>"

definition answered_job :: "grant_answer \<times> string \<Rightarrow> string \<Rightarrow> job \<Rightarrow> job" where
  "answered_job ans now j =
     (let rows = tk_approvals (jb_task j); k = nat (jb_pending j) in
      j\<lparr>jb_task := (jb_task j)\<lparr>tk_approvals := rows[k := answer_row (fst ans) (snd ans) now (rows ! k)]\<rparr>,
        jb_session_allow := (jb_session_allow j \<or> fst ans = GrantAllowSession)\<rparr>)"

definition answer_pending :: "('x, 'c) run_deps \<Rightarrow> grant_answer \<times> string \<Rightarrow> 'x on_job" where
  "answer_pending d ans js =
     (case js of (j, s) \<Rightarrow>
      if jb_pending j < 0 then (j, s)
      else
        (case grant d (jb_pending_id j) (fst ans) (answered_job ans (now_of d s) j, s) of (j1, s) \<Rightarrow>
         case move d Running id (j1\<lparr>jb_pending := -1\<rparr>, s) of (j2, s) \<Rightarrow>
           say d (''approval #'' @ show_nat (length (tk_approvals (jb_task j2))) @ '' answered ''
                  @ grant_text (fst ans) @ '' by '' @ snd ans) (j2, s)))"

definition add_file :: "('x, 'c) run_deps \<Rightarrow> string \<Rightarrow> 'x on_job" where
  "add_file d guest_path js =
     (case js of (j, s) \<Rightarrow>
      let rel = guest_rel guest_path;
          action = (if rel \<in> set (jb_seen j) then ''modified'' else ''created'');
          j1 = j\<lparr>jb_seen := List.insert rel (jb_seen j),
                 jb_task := (jb_task j)\<lparr>tk_files := tk_files (jb_task j) @ [\<lparr>fe_path = rel, fe_action = action\<rparr>]\<rparr>\<rparr>
      in say d (action @ '' '' @ rel) (j1, s))"

subsection \<open>The audit\<close>

fun read_sources ::
  "('x, 'c) run_deps \<Rightarrow> string list \<Rightarrow> job \<times> 'x runner \<Rightarrow> (string \<times> string) list \<times> job \<times> 'x runner" where
  "read_sources d [] js = ([], js)"
| "read_sources d (p # ps) (j, s) =
     (let rel = guest_rel p in
      if rel \<in> set (jb_seen j) then read_sources d ps (j, s)
      else (case call (rd_read_file d (tk_workspace (jb_task j)) rel) s of
        (Inl e, s) \<Rightarrow> read_sources d ps (say d (''audit source unreadable: '' @ rel @ '': '' @ e) (j, s))
      | (Inr content, s) \<Rightarrow>
          (case read_sources d ps (j, s) of (rest, js) \<Rightarrow> ((rel, content) # rest, js))))"

definition audit_one ::
  "('x, 'c) run_deps \<Rightarrow> (string \<times> string) list \<Rightarrow> string \<Rightarrow> job \<times> 'x runner
     \<Rightarrow> (grounding_document \<times> bool \<times> bool) \<times> job \<times> 'x runner" where
  "audit_one d sources path js =
     (case js of (j, s) \<Rightarrow>
      case (case call (rd_read_file d (tk_workspace (jb_task j)) path) s of
              (Inl e, s) \<Rightarrow> (\<lparr>dr_checked = False, dr_claims = 0, dr_unsupported = [], dr_err = e\<rparr>, s)
            | (Inr content, s) \<Rightarrow> call (rd_audit d path content sources) s) of
        (rep, s) \<Rightarrow>
          (let doc = \<lparr>gd_path = path, gd_claims = dr_claims rep, gd_unsupported = dr_unsupported rep\<rparr> in
           if \<not> dr_checked rep
           then ((doc, False, True), say d (''audit could not run for '' @ path @ '': '' @ dr_err rep) (j, s))
           else ((doc, True, dr_err rep \<noteq> [] \<or> dr_unsupported rep \<noteq> []),
                 say d (''audit '' @ path @ '': '' @ show_nat (nat (dr_claims rep)) @ '' claims, ''
                        @ show_nat (length (dr_unsupported rep)) @ '' unsupported''
                        @ (if dr_err rep \<noteq> [] then '' ('' @ dr_err rep @ '')'' else [])) (j, s))))"

text \<open>The documents, whether all were checked, whether one is flagged: each distinct path once.\<close>

fun audit_files ::
  "('x, 'c) run_deps \<Rightarrow> (string \<times> string) list \<Rightarrow> string list \<Rightarrow> file_event list \<Rightarrow> job \<times> 'x runner
     \<Rightarrow> (grounding_document list \<times> bool \<times> bool) \<times> job \<times> 'x runner" where
  "audit_files d sources audited [] js = (([], True, False), js)"
| "audit_files d sources audited (f # fs) js =
     (if fe_path f \<in> set audited then audit_files d sources audited fs js
      else (case audit_one d sources (fe_path f) js of
        ((doc, checked, flagged), js) \<Rightarrow>
          (case audit_files d sources (fe_path f # audited) fs js of
            ((docs, checked', flagged'), js) \<Rightarrow> ((doc # docs, checked \<and> checked', flagged \<or> flagged'), js))))"

definition finish_after_cancel :: "('x, 'c) run_deps \<Rightarrow> 'x on_job" where
  "finish_after_cancel d js =
     (if ac_interrupted (rn_active (snd js))
      then finish d Interrupted ''interrupted: the dashboard service is stopping'' js
      else finish d Cancelled ''cancelled'' js)"

definition audit :: "('x, 'c) run_deps \<Rightarrow> 'x on_job" where
  "audit d js =
     (case read_sources d (jb_files_read (fst js)) js of
        (sources, js) \<Rightarrow>
          (case audit_files d sources [] (tk_files (jb_task (fst js))) js of
             ((docs, checked, flagged), (j, s)) \<Rightarrow>
               if ac_ctx_done (rn_active s) then finish_after_cancel d (j, s)
               else
                 (let j1 = j\<lparr>jb_task := (jb_task j)\<lparr>tk_grounding := \<lparr>gr_checked = checked, gr_documents = docs\<rparr>\<rparr>\<rparr> in
                  if flagged
                  then finish d Flagged
                         ''flagged: the audit found claims it could not support; the document is left as written'' (j1, s)
                  else finish d Done ''done'' (j1, s))))"

text \<open>Kill, by name when that fails, and wait: the sandbox's slot is held until it is gone.\<close>

definition kill_sandbox :: "('x, 'c) run_deps \<Rightarrow> 'x on_job" where
  "kill_sandbox d js =
     (case js of (j, s) \<Rightarrow>
      case call (rd_kill d) s of (err, s) \<Rightarrow>
      case (case err of
              None \<Rightarrow> (j, s)
            | Some e \<Rightarrow>
                (case say d (''kill failed: '' @ e) (j, s) of (j, s) \<Rightarrow>
                 case call (rd_kill_by_name d (sandbox_container_name (tk_id (jb_task j)))) s of
                   (Some e', s) \<Rightarrow> say d (''kill by name also failed: '' @ e') (j, s)
                 | (None, s) \<Rightarrow> (j, s))) of (j, s) \<Rightarrow>
      case call (rd_wait d) s of (werr, s) \<Rightarrow>
        (case (werr, err) of
           (Some w, Some _) \<Rightarrow> say d (''the sandbox may still be running: '' @ w) (j, s)
         | _ \<Rightarrow> (j, s)))"

definition kill_and_cancel :: "('x, 'c) run_deps \<Rightarrow> 'x on_job" where
  "kill_and_cancel d js = finish_after_cancel d (kill_sandbox d js)"

subsection \<open>The worker\<close>

definition citation_instruction :: string where
  "citation_instruction =
     ''For every factual claim you write in a document, cite the workspace source file it comes from.''"

definition job_ends :: "'x runner \<Rightarrow> 'x runner" where
  "job_ends s = s\<lparr>rn_current := False, rn_phase := Looking\<rparr>"

definition ended :: "job \<times> 'x runner \<Rightarrow> 'x runner" where
  "ended js = job_ends (snd js)"

definition goes_on :: "(job \<Rightarrow> phase) \<Rightarrow> job \<times> 'x runner \<Rightarrow> 'x runner" where
  "goes_on ph js = (snd js)\<lparr>rn_phase := ph (fst js)\<rparr>"

definition new_job :: "task \<Rightarrow> job" where
  "new_job t = \<lparr>jb_task = t, jb_session_allow = False, jb_pending = -1, jb_pending_id = [],
     jb_run_complete = False, jb_files_read = [], jb_seen = []\<rparr>"

text \<open>\<open>run\<close> up to \<open>awaitReady\<close>.\<close>

definition start_job :: "('x, 'c) run_deps \<Rightarrow> string \<Rightarrow> 'x runner \<Rightarrow> 'x runner" where
  "start_job d i s =
     (case load_of d i s of
        Inl _ \<Rightarrow> job_ends s
      | Inr t \<Rightarrow>
          if tk_state t \<noteq> Queued then job_ends s
          else (let j = new_job t in
            case call (rd_load_config d) s of
              (Inl e, s) \<Rightarrow> ended (finish d Refused (''refused: load config: '' @ e) (j, s))
            | (Inr cfg, s) \<Rightarrow>
            (case call (rd_render_args d cfg (tk_workspace t) (tk_id t)) s of
              (Inl e, s) \<Rightarrow> ended (finish d Refused (''refused: '' @ e) (j, s))
            | (Inr args, s) \<Rightarrow>
            (case call (rd_launch d args) s of
              (Some e, s) \<Rightarrow> ended (finish d Refused (''refused: the sandbox could not start: '' @ e) (j, s))
            | (None, s) \<Rightarrow> s\<lparr>rn_phase := AwaitingReady j\<rparr>))))"

text \<open>The head of the worker's loop.\<close>

definition look :: "('x, 'c) run_deps \<Rightarrow> 'x runner \<Rightarrow> 'x runner" where
  "look d s =
     (if rn_stop s then s\<lparr>rn_phase := Halted\<rparr>
      else (case rn_queue s of
        [] \<Rightarrow> s\<lparr>rn_phase := Parked\<rparr>
      | i # is \<Rightarrow> start_job d i (s\<lparr>rn_queue := is, rn_current := True, rn_active := new_active i\<rparr>)))"

definition ready_event :: "('x, 'c) run_deps \<Rightarrow> crush_event \<Rightarrow> job \<times> 'x runner \<Rightarrow> 'x runner" where
  "ready_event d ev js =
     (case log_harness d ev js of (j, s) \<Rightarrow>
      if ev_kind ev = kind_bridge_ready then
        (let started = now_of d s;
             j1 = j\<lparr>jb_task := (jb_task j)\<lparr>tk_harness := (''crush'', ev_version ev)\<rparr>\<rparr> in
         case move d Running (\<lambda>t. t\<lparr>tk_started_at := started\<rparr>) (j1, s) of (j2, s) \<Rightarrow>
         case send d (CmdPrompt (tk_instruction (jb_task j2) @ [newline, newline] @ citation_instruction)) s of
           (Some e, s) \<Rightarrow>
             ended (finish d Failed (''failed: could not send the instruction: '' @ e) (j2, snd (call (rd_kill d) s)))
         | (None, s) \<Rightarrow> goes_on Serving (j2, s))
      else if ev_kind ev = kind_bridge_error then ended (finish d Refused (''refused: '' @ ev_error ev) (j, s))
      else goes_on AwaitingReady (j, s))"

definition err_text :: "string option \<Rightarrow> string" where
  "err_text e = (case e of None \<Rightarrow> ''no error reported'' | Some t \<Rightarrow> t)"

definition ready_closed :: "('x, 'c) run_deps \<Rightarrow> job \<times> 'x runner \<Rightarrow> 'x runner" where
  "ready_closed d js =
     (case call (rd_wait d) (snd js) of (e, s) \<Rightarrow>
        ended (finish d Refused (''refused: the bridge exited before it was ready: '' @ err_text e) (fst js, s)))"

definition serve_event :: "('x, 'c) run_deps \<Rightarrow> crush_event \<Rightarrow> 'x on_job" where
  "serve_event d ev js0 =
     (let js = log_harness d ev js0 in
      if ev_kind ev = kind_permission_request
      then (case ev_permission ev of Some p \<Rightarrow> decide_request d p js | None \<Rightarrow> js)
      else if ev_kind ev = kind_file
      then (case ev_file ev of Some p \<Rightarrow> add_file d p js | None \<Rightarrow> js)
      else if ev_kind ev = kind_run_complete
      then say d ''run complete'' ((fst js)\<lparr>jb_run_complete := True\<rparr>, snd js)
      else if ev_kind ev = kind_files_read
      then ((fst js)\<lparr>jb_files_read := ev_files ev\<rparr>, snd js)
      else if ev_kind ev = kind_bridge_error
      then say d (''bridge: '' @ ev_error ev) js
      else js)"

text \<open>\<open>settle\<close>: the stream has ended. The audit that may follow is a step of its own, since a
  cancel can reach the task during it.\<close>

definition settle :: "('x, 'c) run_deps \<Rightarrow> job \<times> 'x runner \<Rightarrow> 'x runner" where
  "settle d js =
     (case js of (j, s) \<Rightarrow>
      case call (rd_wait d) s of (e, s) \<Rightarrow>
      if \<not> jb_run_complete j
      then ended (finish d Failed (''failed: the sandbox exited before the run completed: '' @ err_text e) (j, s))
      else goes_on Auditing
        (case e of Some t \<Rightarrow> say d (''the sandbox exited with an error after completing: '' @ t) (j, s)
                 | None \<Rightarrow> (j, s)))"

definition take_cancel :: "'x runner \<Rightarrow> 'x runner" where
  "take_cancel s = s\<lparr>rn_active := (rn_active s)\<lparr>ac_cancel := False\<rparr>\<rparr>"

definition take_answer :: "'x runner \<Rightarrow> 'x runner" where
  "take_answer s = s\<lparr>rn_active := (rn_active s)\<lparr>ac_answer := None\<rparr>\<rparr>"

subsection \<open>The clients\<close>

datatype run_error = TaskNotAwaiting | TaskTerminal | StoreError task_error

definition inactive :: "('x, 'c) run_deps \<Rightarrow> string \<Rightarrow> 'x runner \<Rightarrow> run_error" where
  "inactive d i s =
     (case load_of d i s of
        Inl e \<Rightarrow> StoreError e
      | Inr t \<Rightarrow> if terminal (tk_state t) then TaskTerminal else TaskNotAwaiting)"

definition terminal_of :: "('x, 'c) run_deps \<Rightarrow> string \<Rightarrow> 'x runner \<Rightarrow> run_error option" where
  "terminal_of d i s =
     (case load_of d i s of Inr t \<Rightarrow> if terminal (tk_state t) then Some TaskTerminal else None | Inl _ \<Rightarrow> None)"

text \<open>\<open>answer\<close> sends under the lock, into a channel of capacity one.\<close>

definition answer :: "('x, 'c) run_deps \<Rightarrow> string \<Rightarrow> grant_answer \<Rightarrow> 'x runner \<Rightarrow> run_error option \<times> 'x runner" where
  "answer d i g s =
     (let a = rn_active s in
      if \<not> rn_current s \<or> ac_id a \<noteq> i then (Some (inactive d i s), s)
      else if \<not> ac_awaiting a then (Some TaskNotAwaiting, s)
      else if ac_answer a \<noteq> None then (None, fault_of BlockedUnderLock s)
      else (None, s\<lparr>rn_active := a\<lparr>ac_awaiting := False, ac_answer := Some (g, by_dashboard)\<rparr>\<rparr>))"

definition approve :: "('x, 'c) run_deps \<Rightarrow> string \<Rightarrow> bool \<Rightarrow> 'x runner \<Rightarrow> run_error option \<times> 'x runner" where
  "approve d i all = answer d i (if all then GrantAllowSession else GrantAllow)"

definition deny :: "('x, 'c) run_deps \<Rightarrow> string \<Rightarrow> 'x runner \<Rightarrow> run_error option \<times> 'x runner" where
  "deny d i = answer d i GrantDeny"

definition cancel_active :: "bool \<Rightarrow> 'x runner \<Rightarrow> 'x runner" where
  "cancel_active interrupt s =
     (let a = rn_active s;
          s1 = s\<lparr>rn_active := a\<lparr>ac_cancelled := True, ac_interrupted := (ac_interrupted a \<or> interrupt),
                                ac_ctx_done := True, ac_cancel := True\<rparr>\<rparr>
      in if ac_cancel a then fault_of BlockedUnderLock s1 else s1)"

definition cancel_task :: "('x, 'c) run_deps \<Rightarrow> string \<Rightarrow> 'x runner \<Rightarrow> run_error option \<times> 'x runner" where
  "cancel_task d i s =
     (if i \<in> set (rn_queue s)
      then (let finished = now_of d s in
        case on_store (transition (rd_store d) i Cancelled (\<lambda>t. t\<lparr>tk_finished_at := finished\<rparr>))
               (s\<lparr>rn_queue := remove1 i (rn_queue s)\<rparr>) of
          (Inl e, s) \<Rightarrow> (Some (StoreError e), s)
        | (Inr t, s) \<Rightarrow> (None, close_subs i (narrate d t kind_state ''cancelled before it started'' s)))
      else if rn_current s \<and> ac_id (rn_active s) = i
      then (if ac_cancelled (rn_active s) then (terminal_of d i s, s) else (None, cancel_active False s))
      else (Some (inactive d i s), s))"

definition close_runner :: "'x runner \<Rightarrow> 'x runner" where
  "close_runner s =
     (if rn_stop s then s
      else (let s1 = s\<lparr>rn_stop := True\<rparr> in
            if rn_current s1 \<and> \<not> ac_cancelled (rn_active s1) then cancel_active True s1 else s1))"

definition subscribe :: "('x, 'c) run_deps \<Rightarrow> string \<Rightarrow> 'x runner \<Rightarrow> nat \<times> 'x runner" where
  "subscribe d i s =
     (let k = length (rn_chans s) in
      (k, case load_of d i s of
            Inl _ \<Rightarrow> s\<lparr>rn_chans := rn_chans s @ [\<lparr>ch_buffer = [], ch_closed = True\<rparr>]\<rparr>
          | Inr t \<Rightarrow>
              if terminal (tk_state t)
              then s\<lparr>rn_chans := rn_chans s @
                     [\<lparr>ch_buffer = [\<lparr>nr_kind = kind_state, nr_text = state_text (tk_state t), nr_task = t\<rparr>],
                       ch_closed = True\<rparr>]\<rparr>
              else s\<lparr>rn_chans := rn_chans s @ [\<lparr>ch_buffer = [], ch_closed = False\<rparr>],
                     rn_subs := rn_subs s @ [(i, k)]\<rparr>))"

definition unsubscribe :: "string \<Rightarrow> nat \<Rightarrow> 'x runner \<Rightarrow> 'x runner" where
  "unsubscribe i k s = s\<lparr>rn_subs := remove1 (i, k) (rn_subs s)\<rparr>"

definition receive :: "nat \<Rightarrow> 'x runner \<Rightarrow> 'x runner" where
  "receive k s =
     (if k < length (rn_chans s)
      then s\<lparr>rn_chans := (rn_chans s)[k := (rn_chans s ! k)\<lparr>ch_buffer := tl (ch_buffer (rn_chans s ! k))\<rparr>]\<rparr>
      else s)"

record submission =
  su_workspace :: string
  su_instruction :: string
  su_mode :: string

datatype submit_error = BadMode string | EmptyInstruction | ConfigNotLoaded string | NotStored task_error

definition refusal_of ::
  "('x, 'c) run_deps \<Rightarrow> 'c \<Rightarrow> string \<Rightarrow> 'x runner \<Rightarrow> (string \<times> string) \<times> 'x runner" where
  "refusal_of d cfg ws s =
     (case rd_registered d cfg ws of (root, ok) \<Rightarrow>
      if \<not> ok then ((ws, ''refused: '' @ ws @ '' is not a registered workspace; run `villa workspace add '' @ ws @ ''`''), s)
      else if \<not> rd_tools_on d cfg then ((root, ''refused: tools mode is off; run `villa tools-mode enter`''), s)
      else (case call (rd_sandbox_ready d) s of
              ((ready, remediation), s) \<Rightarrow>
                ((root, if ready then [] else ''refused: the sandbox cannot start: '' @ remediation), s)))"

definition submitted_task :: "submission \<Rightarrow> string \<Rightarrow> string \<Rightarrow> string \<Rightarrow> string \<Rightarrow> string \<Rightarrow> task" where
  "submitted_task req mode i now ws refusal =
     zero_task\<lparr>tk_id := i, tk_workspace := ws, tk_instruction := su_instruction req, tk_mode := mode,
       tk_state := (if refusal \<noteq> [] then Refused else Queued), tk_submitted_at := now,
       tk_finished_at := (if refusal \<noteq> [] then now else [])\<rparr>"

text \<open>After \<open>Create\<close>: a load that fails is ignored and leaves the zero task.\<close>

definition accept :: "('x, 'c) run_deps \<Rightarrow> string \<Rightarrow> string \<Rightarrow> 'x runner \<Rightarrow> task \<times> 'x runner" where
  "accept d i refusal s =
     (let t = load_or_zero d i s in
      (t, if refusal \<noteq> [] then narrate d t kind_state refusal s
          else (narrate d t kind_narration ''queued'' (s\<lparr>rn_queue := rn_queue s @ [tk_id t]\<rparr>))\<lparr>rn_wake := True\<rparr>))"

definition submit_with ::
  "('x, 'c) run_deps \<Rightarrow> submission \<Rightarrow> string \<Rightarrow> 'c \<Rightarrow> 'x runner \<Rightarrow> (submit_error + task) \<times> 'x runner" where
  "submit_with d req mode cfg s =
     (case call (rd_new_id d) s of (i, s1) \<Rightarrow>
      case refusal_of d cfg (su_workspace req) s1 of ((ws, refusal), s2) \<Rightarrow>
      case on_store (create_task (rd_store d) (submitted_task req mode i (now_of d s1) ws refusal)) s2 of
        (Inl e, s3) \<Rightarrow> (Inl (NotStored e), s3)
      | (Inr _, s3) \<Rightarrow> (case accept d i refusal s3 of (t, s4) \<Rightarrow> (Inr t, s4)))"

definition submit ::
  "('x, 'c) run_deps \<Rightarrow> submission \<Rightarrow> 'x runner \<Rightarrow> (submit_error + task) \<times> 'x runner" where
  "submit d req s =
     (let mode = (if su_mode req = [] then mode_ask else su_mode req) in
      if mode \<noteq> mode_ask \<and> mode \<noteq> mode_auto then (Inl (BadMode (su_mode req)), s)
      else if su_instruction req = [] then (Inl EmptyInstruction, s)
      else (case call (rd_load_config d) s of
        (Inl e, s) \<Rightarrow> (Inl (ConfigNotLoaded e), s)
      | (Inr cfg, s) \<Rightarrow> submit_with d req mode cfg s))"

fun announce_recovered :: "('x, 'c) run_deps \<Rightarrow> string list \<Rightarrow> 'x runner \<Rightarrow> 'x runner" where
  "announce_recovered d [] s = s"
| "announce_recovered d (i # is) s =
     (let s1 = snd (call (rd_kill_by_name d (sandbox_container_name i)) s) in
      announce_recovered d is
        (case load_of d i s1 of
           Inr t \<Rightarrow> close_subs i (narrate d t kind_state
                      ''interrupted: the dashboard service restarted while this task was running'' s1)
         | Inl _ \<Rightarrow> s1))"

definition recover_runner :: "('x, 'c) run_deps \<Rightarrow> 'x runner \<Rightarrow> task_error list \<times> 'x runner" where
  "recover_runner d s =
     (case on_store (recover (rd_store d)) s of ((ids, errs), s) \<Rightarrow> (errs, announce_recovered d ids s))"

subsection \<open>The steps\<close>

datatype input =
    Look | Wake | StopSeen | StreamEvent crush_event | StreamEnds | CancelArrives | AnswerArrives | AuditEnds
  | Submit submission | Answer string grant_answer | Cancel string | Close
  | Subscribe string | Unsubscribe string nat | Receive nat

definition is_client :: "input \<Rightarrow> bool" where
  "is_client l = (case l of Submit _ \<Rightarrow> True | Answer _ _ \<Rightarrow> True | Cancel _ \<Rightarrow> True | Close \<Rightarrow> True
     | Subscribe _ \<Rightarrow> True | Unsubscribe _ _ \<Rightarrow> True | Receive _ \<Rightarrow> True | _ \<Rightarrow> False)"

text \<open>A step of the worker, or None when the worker is not where that arm is offered.\<close>

definition worker_step :: "('x, 'c) run_deps \<Rightarrow> input \<Rightarrow> phase \<Rightarrow> 'x runner \<Rightarrow> 'x runner option" where
  "worker_step d l ph s =
     (case ph of
        Looking \<Rightarrow> (case l of Look \<Rightarrow> Some (look d s) | _ \<Rightarrow> None)
      | Parked \<Rightarrow> (case l of
            Wake \<Rightarrow> if rn_wake s then Some (s\<lparr>rn_wake := False, rn_phase := Looking\<rparr>) else None
          | StopSeen \<Rightarrow> if rn_stop s then Some (s\<lparr>rn_phase := Halted\<rparr>) else None
          | _ \<Rightarrow> None)
      | AwaitingReady j \<Rightarrow> (case l of
            StreamEvent ev \<Rightarrow> Some (ready_event d ev (j, s))
          | StreamEnds \<Rightarrow> Some (ready_closed d (j, s))
          | CancelArrives \<Rightarrow>
              if ac_cancel (rn_active s) then Some (ended (kill_and_cancel d (j, take_cancel s))) else None
          | _ \<Rightarrow> None)
      | Serving j \<Rightarrow> (case l of
            StreamEvent ev \<Rightarrow> Some (goes_on Serving (serve_event d ev (j, s)))
          | StreamEnds \<Rightarrow> Some (settle d (j, s))
          | CancelArrives \<Rightarrow>
              if ac_cancel (rn_active s) then Some (ended (kill_and_cancel d (j, take_cancel s))) else None
          | AnswerArrives \<Rightarrow> (case ac_answer (rn_active s) of
                Some ans \<Rightarrow> Some (goes_on Serving (answer_pending d ans (j, take_answer s))) | None \<Rightarrow> None)
          | _ \<Rightarrow> None)
      | Auditing j \<Rightarrow> (case l of AuditEnds \<Rightarrow> Some (ended (audit d (j, s))) | _ \<Rightarrow> None)
      | Halted \<Rightarrow> None)"

definition client_step :: "('x, 'c) run_deps \<Rightarrow> input \<Rightarrow> 'x runner \<Rightarrow> 'x runner" where
  "client_step d l s =
     (case l of
        Submit req \<Rightarrow> snd (submit d req s)
      | Answer i g \<Rightarrow> snd (answer d i g s)
      | Cancel i \<Rightarrow> snd (cancel_task d i s)
      | Close \<Rightarrow> close_runner s
      | Subscribe i \<Rightarrow> snd (subscribe d i s)
      | Unsubscribe i k \<Rightarrow> unsubscribe i k s
      | Receive k \<Rightarrow> receive k s
      | _ \<Rightarrow> s)"

definition step_on :: "('x, 'c) run_deps \<Rightarrow> input \<Rightarrow> 'x runner \<Rightarrow> 'x runner option" where
  "step_on d l s = (if is_client l then Some (client_step d l s) else worker_step d l (rn_phase s) s)"

fun run_inputs :: "('x, 'c) run_deps \<Rightarrow> input list \<Rightarrow> 'x runner \<Rightarrow> 'x runner option" where
  "run_inputs d [] s = Some s"
| "run_inputs d (l # ls) s = (case step_on d l s of None \<Rightarrow> None | Some s1 \<Rightarrow> run_inputs d ls s1)"

definition new_runner :: "'x task_host \<Rightarrow> 'x runner" where
  "new_runner h = \<lparr>rn_host = h, rn_queue = [], rn_current = False, rn_active = new_active [], rn_phase = Looking,
     rn_wake = False, rn_stop = False, rn_subs = [], rn_chans = [], rn_sent = [], rn_faults = []\<rparr>"

end
