(* ===== verification/TaskRunSafety.thy ===== *)
theory TaskRunSafety
  imports TaskRun
begin

text \<open>What the runner keeps, whatever the sandbox, the clients and the disk do.\<close>

subsection \<open>Predicates the worker's bookkeeping keeps\<close>

text \<open>What a write changes besides the state and the shadow: time stamps.\<close>

definition stamps :: "(task \<Rightarrow> task) \<Rightarrow> bool" where
  "stamps f \<longleftrightarrow> (\<forall>t. \<exists>a b. f t = t\<lparr>tk_started_at := a, tk_finished_at := b\<rparr>)"

lemma stamps_simps [simp]: "stamps id" "stamps (\<lambda>t. t\<lparr>tk_finished_at := x\<rparr>)" "stamps (\<lambda>t. t\<lparr>tk_started_at := x\<rparr>)"
  unfolding stamps_def by (metis id_apply task.surjective task.update_convs(8,9))+

definition kept_by_worker ::
  "('x, 'c) run_deps \<Rightarrow> (task_state \<Rightarrow> job \<Rightarrow> bool) \<Rightarrow> ('x runner \<Rightarrow> bool) \<Rightarrow> bool" where
  "kept_by_worker d W P \<longleftrightarrow>
     (\<forall>x s. P s \<longrightarrow> P (set_world x s)) \<and> (\<forall>s. P s \<longrightarrow> P (release s))
     \<and> (\<forall>n k s. k \<in> snd ` set (rn_subs s) \<longrightarrow> P s \<longrightarrow> P (offer n k s))
     \<and> (\<forall>i s. P s \<longrightarrow> P (close_subs i s))
     \<and> (\<forall>to extra j s. stamps extra \<longrightarrow> W to j \<longrightarrow> P s \<longrightarrow> P (snd (write_state d to extra j s)))"

named_theorems worker_keeps

lemma kept_world [worker_keeps]: "kept_by_worker d W P \<Longrightarrow> P s \<Longrightarrow> P (set_world x s)"
  and kept_release [worker_keeps]: "kept_by_worker d W P \<Longrightarrow> P s \<Longrightarrow> P (release s)"
  and kept_close_subs [worker_keeps]: "kept_by_worker d W P \<Longrightarrow> P s \<Longrightarrow> P (close_subs i s)"
  and kept_write_state [worker_keeps]: "kept_by_worker d W P \<Longrightarrow> stamps extra \<Longrightarrow> W to j \<Longrightarrow> P s \<Longrightarrow> P (snd (write_state d to extra j s))"
  and kept_offer: "kept_by_worker d W P \<Longrightarrow> k \<in> snd ` set (rn_subs s) \<Longrightarrow> P s \<Longrightarrow> P (offer n k s)"
  by (simp_all add: kept_by_worker_def)

lemma kept_call [worker_keeps]: "kept_by_worker d W P \<Longrightarrow> P s \<Longrightarrow> P (snd (call f s))"
  by (simp add: call_def case_prod_beta kept_world)

lemma kept_log [worker_keeps]: "kept_by_worker d W P \<Longrightarrow> P s \<Longrightarrow> P (log_of d i e s)"
  by (simp add: log_of_def kept_world)

lemma offer_subs [simp]: "rn_subs (offer n k s) = rn_subs s"
  by (simp add: offer_def Let_def fault_of_def)

lemma kept_offers: "kept_by_worker d W P \<Longrightarrow> set ks \<subseteq> snd ` set (rn_subs s) \<Longrightarrow> P s \<Longrightarrow> P (fold (offer n) ks s)"
  by (induction ks arbitrary: s) (simp_all add: kept_offer)

lemma kept_narrate [worker_keeps]:
  assumes "kept_by_worker d W P" and "P s"
  shows "P (narrate d t kind text s)"
proof -
  let ?s = "log_of d (tk_id t) (LogNarration text) s"
  have "set (subs_of (tk_id t) ?s) \<subseteq> snd ` set (rn_subs ?s)" by (auto simp: subs_of_def)
  from kept_offers [OF assms(1) this kept_log [OF assms]] show ?thesis by (simp add: narrate_def Let_def)
qed

lemma kept_say [worker_keeps]: "kept_by_worker d W P \<Longrightarrow> P (snd js) \<Longrightarrow> P (snd (say d text js))"
  by (simp add: say_def case_prod_beta kept_narrate)

lemma fst_say [simp]: "fst (say d msg js) = fst js"
  by (simp add: say_def case_prod_beta)

lemma kept_finish:
  "kept_by_worker d W P \<Longrightarrow> W st (fst js) \<Longrightarrow> W Failed (fst js) \<Longrightarrow> P (snd js) \<Longrightarrow> P (snd (finish d st msg js))"
proof (induction d st msg js rule: finish.induct)
  case (1 d st msg js)
  obtain j s where a: "say d msg js = (j, s)" by fastforce
  have j: "fst js = j" using a fst_say [of d msg js] by simp
  have s: "P s" using kept_say [OF 1(2,5), of msg] a by simp
  let ?f = "\<lambda>t. t\<lparr>tk_finished_at := now_of d s\<rparr>"
  obtain r s1 where b: "write_state d st ?f j s = (r, s1)" by fastforce
  have s1: "P s1" using kept_write_state [OF 1(2), of ?f st j s] 1(3) s b j by simp
  show ?case
  proof (cases r)
    case (Inl e)
    obtain j2 s2 where c: "say d (''bug: '' @ rd_error_text d e) (j, s1) = (j2, s2)" by fastforce
    have j2: "j2 = j" using c fst_say [of d _ "(j, s1)"] by (metis fst_conv)
    have s2: "P s2" using kept_say [OF 1(2), of "(j, s1)"] s1 c by (metis snd_conv)
    show ?thesis
    proof (cases "st = Failed")
      case True
      with a b c s2 Inl 1(2) show ?thesis
        by (subst finish.simps) (simp add: Let_def kept_close_subs)
    next
      case False
      have "P (snd (finish d Failed ''failed: an illegal state transition was attempted'' (j2, s2)))"
        by (rule "1.IH" [OF a [symmetric] refl b [symmetric] Inl c [symmetric] False 1(2)])
           (use 1(4) j j2 s2 in simp_all)
      with a b c s2 Inl False show ?thesis by (subst finish.simps) (simp add: Let_def)
    qed
  next
    case (Inr t)
    with a b s1 1(2) show ?thesis
      by (subst finish.simps) (simp add: Let_def kept_close_subs kept_narrate kept_release)
  qed
qed

lemma kept_move:
  assumes k: "kept_by_worker d W P" and f: "stamps f" and w: "W st (fst js)" "W Failed (fst js)" and p: "P (snd js)"
  shows "P (snd (move d st f js))"
proof -
  obtain r s1 where b: "write_state d st f (fst js) (snd js) = (r, s1)" by fastforce
  have s1: "P s1" using kept_write_state [OF k f w(1) p] b by simp
  show ?thesis
  proof (cases r)
    case (Inl e)
    have "P (snd (say d (''bug: '' @ rd_error_text d e) (fst js, s1)))" using kept_say [OF k] s1 by simp
    with b Inl w show ?thesis
      by (simp add: move_def case_prod_beta kept_finish [OF k])
  next
    case (Inr t)
    with b s1 k show ?thesis by (simp add: move_def case_prod_beta kept_narrate)
  qed
qed

lemma kept_log_harness [worker_keeps]: "kept_by_worker d W P \<Longrightarrow> P (snd js) \<Longrightarrow> P (snd (log_harness d ev js))"
  by (simp add: log_harness_def case_prod_beta kept_log)

lemma kept_read_sources [worker_keeps]:
  "kept_by_worker d W P \<Longrightarrow> P (snd js) \<Longrightarrow> P (snd (snd (read_sources d ps js)))"
proof (induction d ps js rule: read_sources.induct)
  case (2 d p ps j s)
  let ?rel = "guest_rel p"
  obtain r s1 where c: "call (rd_read_file d (tk_workspace (jb_task j)) ?rel) s = (r, s1)" by fastforce
  have s1: "P s1" using kept_call [OF 2(4), of s "rd_read_file d (tk_workspace (jb_task j)) ?rel"] 2(5) c by simp
  show ?case
  proof (cases "?rel \<in> set (jb_seen j)")
    case True
    then show ?thesis using "2.IH"(1) [OF refl True 2(4)] 2(5) by simp
  next
    case False
    show ?thesis
    proof (cases r)
      case (Inl e)
      have "P (snd (say d (''audit source unreadable: '' @ ?rel @ '': '' @ e) (j, s1)))"
        using s1 kept_say [OF 2(4), of "(j, s1)"] by simp
      from "2.IH"(2) [OF refl False c [symmetric] Inl 2(4) this] show ?thesis using False c Inl by (simp add: Let_def)
    next
      case (Inr x)
      from "2.IH"(3) [OF refl False c [symmetric] Inr 2(4)] s1 show ?thesis
        using False c Inr by (simp add: Let_def case_prod_beta)
    qed
  qed
qed simp

lemma kept_audit_one [worker_keeps]:
  assumes "kept_by_worker d W P" and "P (snd js)"
  shows "P (snd (snd (audit_one d srcs path js)))"
proof -
  obtain j s where js: "js = (j, s)" by fastforce
  obtain r s1 where c: "call (rd_read_file d (tk_workspace (jb_task j)) path) s = (r, s1)" by fastforce
  have s1: "P s1" using kept_call [OF assms(1), of s "rd_read_file d (tk_workspace (jb_task j)) path"] assms(2) c js by simp
  have s2: "P (snd (call (rd_audit d path x srcs) s1))" for x using kept_call [OF assms(1) s1] .
  show ?thesis
    using s1 s2
    by (simp add: audit_one_def js c Let_def case_prod_beta kept_say [OF assms(1)] split: sum.split)
qed

lemma kept_audit_files [worker_keeps]:
  "kept_by_worker d W P \<Longrightarrow> P (snd js) \<Longrightarrow> P (snd (snd (audit_files d srcs seen fs js)))"
proof (induction fs arbitrary: seen js)
  case (Cons f fs)
  from kept_audit_one [OF Cons.prems] Cons.IH [OF Cons.prems(1)] Cons.prems show ?case
    by (simp add: case_prod_beta)
qed simp

lemma fst_read_sources: "fst (snd (read_sources d ps js)) = fst js"
  by (induction d ps js rule: read_sources.induct)
     (simp_all add: Let_def case_prod_beta call_def split: sum.split)

lemma fst_audit_one: "fst (snd (audit_one d srcs path js)) = fst js"
  by (simp add: audit_one_def Let_def case_prod_beta split: sum.split)

lemma fst_audit_files: "fst (snd (audit_files d srcs seen fs js)) = fst js"
  by (induction fs arbitrary: seen js) (simp_all add: case_prod_beta fst_audit_one)

text \<open>The words a finished task may end on, and when it is done.\<close>

definition clean :: "grounding \<Rightarrow> bool" where
  "clean g \<longleftrightarrow> gr_checked g \<and> (\<forall>doc \<in> set (gr_documents g). gd_unsupported doc = [])"

definition set_grounding :: "grounding \<Rightarrow> job \<Rightarrow> job" where
  "set_grounding g j = j\<lparr>jb_task := (jb_task j)\<lparr>tk_grounding := g\<rparr>\<rparr>"

lemma kept_finish_after_cancel:
  "kept_by_worker d W P \<Longrightarrow> W Interrupted (fst js) \<Longrightarrow> W Cancelled (fst js) \<Longrightarrow> W Failed (fst js) \<Longrightarrow> P (snd js)
     \<Longrightarrow> P (snd (finish_after_cancel d js))"
  by (simp add: finish_after_cancel_def kept_finish)

definition audits_all :: "grounding \<Rightarrow> file_event list \<Rightarrow> bool" where
  "audits_all g fs \<longleftrightarrow> set (map gd_path (gr_documents g)) = set (map fe_path fs)"

lemma audit_files_paths:
  "fst (audit_files d srcs seen fs js) = (docs, checked, flagged) \<Longrightarrow>
     set (map gd_path docs) = fe_path ` set fs - set seen \<and> distinct (map gd_path docs)
     \<and> (checked \<and> \<not> flagged \<longrightarrow> (\<forall>doc \<in> set docs. gd_unsupported doc = [])) \<and> (\<not> checked \<longrightarrow> flagged)"
proof (induction fs arbitrary: seen js docs checked flagged)
  case (Cons f fs)
  show ?case
  proof (cases "fe_path f \<in> set seen")
    case True
    with Cons.IH [of seen js docs checked flagged] Cons.prems show ?thesis by auto
  next
    case False
    obtain doc c fl js1 where one: "audit_one d srcs (fe_path f) js = ((doc, c, fl), js1)" by (metis prod_cases3 prod.collapse)
    obtain docs' c' fl' where rest: "fst (audit_files d srcs (fe_path f # seen) fs js1) = (docs', c', fl')"
      by (metis prod_cases3)
    from one have o: "gd_path doc = fe_path f \<and> (c \<and> \<not> fl \<longrightarrow> gd_unsupported doc = []) \<and> (\<not> c \<longrightarrow> fl)"
      by (auto simp: audit_one_def Let_def case_prod_beta split: if_splits)
    from Cons.prems False one rest have e: "docs = doc # docs'" "checked = (c \<and> c')" "flagged = (fl \<or> fl')"
      by (auto simp: case_prod_beta)
    from Cons.IH [OF rest] o e False show ?thesis by auto
  qed
qed simp

lemma kept_audit:
  assumes k: "kept_by_worker d W P" and p: "P (snd js)"
    and w: "\<And>st g. st \<in> {Flagged, Failed, Interrupted, Cancelled} \<or>
              (st = Done \<and> clean g \<and> audits_all g (tk_files (jb_task (fst js)))) \<Longrightarrow> W st (set_grounding g (fst js))"
  shows "P (snd (audit d js))"
proof -
  obtain srcs j1 s1 where a: "read_sources d (jb_files_read (fst js)) js = (srcs, j1, s1)" by (metis prod_cases3)
  have p1: "P s1" using kept_read_sources [OF k p, of "jb_files_read (fst js)"] a by simp
  have j1: "j1 = fst js" using fst_read_sources [of d "jb_files_read (fst js)" js] a by simp
  obtain docs checked flagged j2 s2 where
    b: "audit_files d srcs [] (tk_files (jb_task j1)) (j1, s1) = ((docs, checked, flagged), j2, s2)"
    by (metis prod_cases5 prod.collapse)
  have p2: "P s2" using kept_audit_files [OF k, of "(j1, s1)" srcs "[]" "tk_files (jb_task j1)"] p1 b by simp
  have j2: "j2 = fst js" using fst_audit_files [of d srcs "[]" "tk_files (jb_task j1)" "(j1, s1)"] b j1 by simp
  have same: "W st j2" if "st \<in> {Flagged, Failed, Interrupted, Cancelled}" for st
    using w [of st "tk_grounding (jb_task (fst js))"] that j2 by (auto simp: set_grounding_def)
  let ?g = "\<lparr>gr_checked = checked, gr_documents = docs\<rparr>"
  have new: "W st (set_grounding ?g j2)" if "st \<in> {Flagged, Failed}" for st
    using w [of st ?g] that j2 by auto
  have ok: "W Done (set_grounding ?g j2)" if "\<not> flagged"
  proof -
    from audit_files_paths [of d srcs "[]" "tk_files (jb_task j1)" "(j1, s1)" docs checked flagged] b
    have "set (map gd_path docs) = fe_path ` set (tk_files (jb_task j1))"
      and "checked \<longrightarrow> (\<forall>doc \<in> set docs. gd_unsupported doc = [])" and "checked" using that by auto
    then have "clean ?g" "audits_all ?g (tk_files (jb_task (fst js)))" by (simp_all add: clean_def audits_all_def j1)
    then show ?thesis using w [of Done ?g] j2 by simp
  qed
  show ?thesis
    using p2 same new ok
    by (simp add: audit_def a b Let_def set_grounding_def [symmetric] kept_finish [OF k] kept_finish_after_cancel [OF k])
qed

lemma kept_kill_sandbox:
  assumes k: "kept_by_worker d W P" and s: "P (snd js)"
  shows "P (snd (kill_sandbox d js))"
  using s
  by (cases js) (simp add: kill_sandbox_def case_prod_beta kept_say [OF k] kept_call [OF k] split: option.split)

lemma fst_kill_sandbox [simp]: "fst (kill_sandbox d js) = fst js"
  by (cases js) (simp add: kill_sandbox_def case_prod_beta split: option.split)

lemma kept_kill_and_cancel:
  assumes k: "kept_by_worker d W P" and s: "P (snd js)"
    and w: "W Interrupted (fst js)" "W Cancelled (fst js)" "W Failed (fst js)"
  shows "P (snd (kill_and_cancel d js))"
  using w by (simp add: kill_and_cancel_def kept_finish_after_cancel [OF k] kept_kill_sandbox [OF k s])

subsection \<open>What a step leaves alone\<close>

definition ctl :: "'x runner \<Rightarrow> string list \<times> active \<times> phase \<times> bool \<times> bool \<times> command list" where
  "ctl s = (rn_queue s, rn_active s, rn_phase s, rn_wake s, rn_stop s, rn_sent s)"

lemma ctl_simps [simp]:
  "ctl (set_world x s) = ctl s" "ctl (release s) = ctl s" "ctl (offer n k s) = ctl s"
  "ctl (close_channel k s) = ctl s"
  by (simp_all add: ctl_def set_world_def release_def offer_def close_channel_def Let_def fault_of_def)

lemma ctl_close_channels [simp]: "ctl (fold close_channel ks s) = ctl s"
  by (induction ks arbitrary: s) simp_all

lemma ctl_subs_update [simp]: "ctl (s\<lparr>rn_subs := r\<rparr>) = ctl s"
  by (simp add: ctl_def)

lemma ctl_close_subs [simp]: "ctl (close_subs i s) = ctl s"
  by (simp add: close_subs_def Let_def)

lemma ctl_write_state [simp]: "ctl (snd (write_state d st f j s)) = ctl s"
  by (simp add: write_state_def on_store_def ctl_def case_prod_beta)

lemma kept_ctl: "kept_by_worker d (\<lambda>_ _. True) (\<lambda>s. ctl s = c)"
  by (simp add: kept_by_worker_def)

lemma ctl_job [simp]:
  "ctl (snd (say d msg js)) = ctl (snd js)"
  "ctl (snd (finish d st msg js)) = ctl (snd js)"
  "stamps f \<Longrightarrow> ctl (snd (move d st f js)) = ctl (snd js)"
  "ctl (snd (log_harness d ev js)) = ctl (snd js)"
  "ctl (snd (audit d js)) = ctl (snd js)"
  "ctl (snd (kill_and_cancel d js)) = ctl (snd js)"
  "ctl (narrate d t k msg s) = ctl s"
  "ctl (snd (call h s)) = ctl s"
  "ctl (log_of d i e s) = ctl s"
          apply (rule kept_say [OF kept_ctl], rule refl)
         apply (rule kept_finish [OF kept_ctl]; simp)
        apply (rule kept_move [OF kept_ctl]; simp)
       apply (rule kept_log_harness [OF kept_ctl], rule refl)
      apply (rule kept_audit [OF kept_ctl]; simp)
     apply (rule kept_kill_and_cancel [OF kept_ctl]; simp)
    apply (rule kept_narrate [OF kept_ctl], rule refl)
   apply (rule kept_call [OF kept_ctl], rule refl)
  apply (rule kept_log [OF kept_ctl], rule refl)
  done

text \<open>What a job keeps while its record is written: all but the record, whose approvals stay.\<close>

definition rest :: "job \<Rightarrow> job" where
  "rest j = j\<lparr>jb_task := zero_task\<lparr>tk_approvals := tk_approvals (jb_task j)\<rparr>\<rparr>"

definition keeps_approvals :: "(task \<Rightarrow> task) \<Rightarrow> bool" where
  "keeps_approvals f \<longleftrightarrow> (\<forall>t. tk_approvals (f t) = tk_approvals t)"

lemma write_state_approvals:
  assumes "write_state d st f j s = (Inr t, s1)" and "keeps_approvals f"
  shows "tk_approvals t = tk_approvals (jb_task j)"
  using assms
  by (auto simp: write_state_def on_store_def transition_def shadow_def keeps_approvals_def Let_def case_prod_beta
      split: sum.splits if_splits prod.splits)

lemma rest_finish [simp]: "rest (fst (finish d st msg js)) = rest (fst js)"
proof (induction d st msg js rule: finish.induct)
  case (1 d st msg js)
  obtain j s where a: "say d msg js = (j, s)" by fastforce
  have j: "fst js = j" using a fst_say [of d msg js] by simp
  let ?f = "\<lambda>t. t\<lparr>tk_finished_at := now_of d s\<rparr>"
  obtain r s1 where b: "write_state d st ?f j s = (r, s1)" by fastforce
  show ?case
  proof (cases r)
    case (Inl e)
    obtain j2 s2 where c: "say d (''bug: '' @ rd_error_text d e) (j, s1) = (j2, s2)" by fastforce
    have j2: "j2 = j" using c fst_say [of d _ "(j, s1)"] by (metis fst_conv)
    show ?thesis
    proof (cases "st = Failed")
      case True
      with a b c Inl j j2 show ?thesis by (subst finish.simps) (simp add: Let_def)
    next
      case False
      with "1.IH" [OF a [symmetric] refl b [symmetric] Inl c [symmetric] False] a b c Inl j j2
      show ?thesis by (subst finish.simps) (simp add: Let_def)
    qed
  next
    case (Inr t)
    have "tk_approvals t = tk_approvals (jb_task j)"
      using write_state_approvals b Inr by (fastforce simp: keeps_approvals_def)
    with a b Inr j show ?thesis
      by (subst finish.simps) (simp add: Let_def rest_def)
  qed
qed

lemma rest_move:
  assumes "keeps_approvals f"
  shows "rest (fst (move d st f js)) = rest (fst js)"
proof -
  obtain r s1 where b: "write_state d st f (fst js) (snd js) = (r, s1)" by fastforce
  show ?thesis
  proof (cases r)
    case (Inl e)
    with b show ?thesis by (simp add: move_def case_prod_beta)
  next
    case (Inr t)
    then have "tk_approvals t = tk_approvals (jb_task (fst js))" using write_state_approvals [OF _ assms] b by blast
    with b Inr show ?thesis by (simp add: move_def case_prod_beta rest_def)
  qed
qed

lemma keeps_approvals_simps [simp]: "keeps_approvals id" "keeps_approvals (\<lambda>t. t\<lparr>tk_started_at := x\<rparr>)"
  by (simp_all add: keeps_approvals_def)

lemma fst_grant [simp]: "fst (grant d pid g js) = fst js"
  by (simp add: grant_def case_prod_beta split: option.split)

lemma fst_log_harness [simp]: "fst (log_harness d ev js) = fst js"
  by (simp add: log_harness_def case_prod_beta)

lemma grant_ctl:
  "rn_sent (snd (grant d pid g js)) = rn_sent (snd js) @ [CmdGrant pid g]
   \<and> rn_active (snd (grant d pid g js)) = rn_active (snd js)"
proof -
  obtain e s1 where c: "send d (CmdGrant pid g) (snd js) = (e, s1)" by fastforce
  have "ctl s1 = ctl ((snd js)\<lparr>rn_sent := rn_sent (snd js) @ [CmdGrant pid g]\<rparr>)"
    using c ctl_job(8) unfolding send_def by (metis snd_conv)
  moreover have "ctl (snd (grant d pid g js)) = ctl s1"
    by (simp add: grant_def case_prod_beta c split: option.split)
  ultimately show ?thesis by (simp add: ctl_def)
qed

subsection \<open>What an event does to the grants\<close>

definition slot :: "job \<Rightarrow> int \<times> string \<times> bool" where
  "slot j = (jb_pending j, jb_pending_id j, jb_session_allow j)"

lemma slot_rest: "rest j = rest j' \<Longrightarrow> slot j = slot j'"
proof -
  have "slot (rest k) = slot k" for k by (simp add: slot_def rest_def)
  then show "rest j = rest j' \<Longrightarrow> slot j = slot j'" by metis
qed

lemma slot_append_row [simp]: "slot (append_row r j) = slot j"
  by (simp add: slot_def append_row_def)

lemma park_job_slot: "slot (park_job d p now j) = (int (length (tk_approvals (jb_task j))), pr_id p, jb_session_allow j)"
  by (simp add: slot_def park_job_def append_row_def Let_def)

lemma decide_set: "decide m r \<noteq> DecisionUnset"
  by (auto simp: decide_def split: option.splits)

text \<open>The part of the control that grants touch.\<close>

definition gate_of :: "'x runner \<Rightarrow> command list \<times> active" where
  "gate_of s = (rn_sent s, rn_active s)"

lemma gate_ctl: "ctl s = ctl s' \<Longrightarrow> gate_of s = gate_of s'"
  by (simp add: ctl_def gate_of_def)

lemma gate_say [simp]: "gate_of (snd (say d msg js)) = gate_of (snd js)"
  by (rule gate_ctl) simp

lemma gate_move [simp]: "stamps f \<Longrightarrow> gate_of (snd (move d st f js)) = gate_of (snd js)"
  by (rule gate_ctl) simp

lemma gate_grant [simp]:
  "gate_of (snd (grant d pid g js)) = (rn_sent (snd js) @ [CmdGrant pid g], rn_active (snd js))"
  using grant_ctl [of d pid g js] by (simp add: gate_of_def)

definition lets :: "('x, 'c) run_deps \<Rightarrow> job \<Rightarrow> permission_request \<Rightarrow> bool" where
  "lets d j p \<longleftrightarrow> decide (tk_mode (jb_task j)) (request_of d p) = Allow
     \<or> (decide (tk_mode (jb_task j)) (request_of d p) = Ask \<and> jb_session_allow j
         \<and> \<not> is_deletion (rd_command_param d (pr_params p)))"

lemma decide_request_effect:
  fixes s :: "'x runner"
  assumes "decide_request d p (j, s) = (j', s')"
  shows "(\<exists>g. gate_of s' = (rn_sent s @ [CmdGrant (pr_id p) g], rn_active s) \<and> slot j' = slot j
            \<and> (g \<noteq> GrantDeny \<longrightarrow> g = GrantAllow \<and> lets d j p))
       \<or> (gate_of s' = (rn_sent s, (rn_active s)\<lparr>ac_awaiting := True\<rparr>) \<and> jb_pending j < 0 \<and> jb_pending j' \<ge> 0
            \<and> jb_pending_id j' = pr_id p \<and> jb_session_allow j' = jb_session_allow j)"
proof -
  let ?dec = "decide (tk_mode (jb_task j)) (request_of d p)"
  note [simp] = decide_request_def Let_def
  have parked: "slot (fst (move d AwaitingApproval id (park_job d p now j, s1)))
      = (int (length (tk_approvals (jb_task j))), pr_id p, jb_session_allow j)" for now and s1 :: "'x runner"
    using slot_rest [OF rest_move [of id d AwaitingApproval "(park_job d p now j, s1)"]] by (simp add: park_job_slot)
  consider (full) "?dec = Ask" "jb_pending j \<ge> 0" | (session) "?dec = Ask" "jb_pending j < 0" "jb_session_allow j"
      "\<not> is_deletion (rq_command (request_of d p))"
    | (park) "?dec = Ask" "jb_pending j < 0" "\<not> (jb_session_allow j \<and> \<not> is_deletion (rq_command (request_of d p)))"
    | (allow) "?dec = Allow" | (deny) "?dec = Deny"
    using decide_set [of "tk_mode (jb_task j)" "request_of d p"] by (cases ?dec) force+
  then show ?thesis
  proof cases
    case full
    have "j' = j \<and> gate_of s' = (rn_sent s @ [CmdGrant (pr_id p) GrantDeny], rn_active s)"
      using assms full by (auto dest!: arg_cong [where f = "\<lambda>x. (fst x, gate_of (snd x))"])
    then show ?thesis by blast
  next
    case session
    then have "?dec = Ask \<and> lets d j p" by (simp add: lets_def request_of_def)
    moreover have "j' = session_job d p (now_of d s) j \<and> gate_of s' = (rn_sent s @ [CmdGrant (pr_id p) GrantAllow], rn_active s)"
      using assms session by (auto dest!: arg_cong [where f = "\<lambda>x. (fst x, gate_of (snd x))"])
    ultimately show ?thesis by (auto simp: session_job_def)
  next
    case park
    let ?m = "move d AwaitingApproval id (park_job d p (now_of d s) j, set_awaiting True s)"
    have "slot j' = slot (fst ?m) \<and> gate_of s' = gate_of (set_awaiting True s)"
      using assms park by (auto simp: case_prod_beta dest!: arg_cong [where f = "\<lambda>x. (fst x, gate_of (snd x))"])
    then show ?thesis
      using park parked [of "now_of d s" "set_awaiting True s"]
      by (auto simp: slot_def gate_of_def set_awaiting_def)
  next
    case allow
    then have "lets d j p" by (simp add: lets_def)
    moreover have "j' = j \<and> gate_of s' = (rn_sent s @ [CmdGrant (pr_id p) GrantAllow], rn_active s)"
      using assms allow by (auto dest!: arg_cong [where f = "\<lambda>x. (fst x, gate_of (snd x))"])
    ultimately show ?thesis by blast
  next
    case deny
    have "j' = j \<and> gate_of s' = (rn_sent s @ [CmdGrant (pr_id p) GrantDeny], rn_active s)"
      using assms deny by (auto dest!: arg_cong [where f = "\<lambda>x. (fst x, gate_of (snd x))"])
    then show ?thesis by blast
  qed
qed

lemma gate_log_harness [simp]: "gate_of (snd (log_harness d ev js)) = gate_of (snd js)"
  by (rule gate_ctl) simp

lemma serve_event_effect:
  assumes "serve_event d ev (j, s) = (j', s')"
  shows "(gate_of s' = gate_of s \<and> slot j' = slot j)
       \<or> (\<exists>p. ev_permission ev = Some p \<and>
           ((\<exists>g. gate_of s' = (rn_sent s @ [CmdGrant (pr_id p) g], rn_active s) \<and> slot j' = slot j
                \<and> (g \<noteq> GrantDeny \<longrightarrow> g = GrantAllow \<and> lets d j p))
            \<or> (gate_of s' = (rn_sent s, (rn_active s)\<lparr>ac_awaiting := True\<rparr>) \<and> jb_pending j < 0 \<and> jb_pending j' \<ge> 0
                \<and> jb_pending_id j' = pr_id p \<and> jb_session_allow j' = jb_session_allow j)))"
proof -
  obtain s1 where l: "log_harness d ev (j, s) = (j, s1)" using fst_log_harness [of d ev "(j, s)"] by (metis fst_conv prod.collapse)
  have g1: "gate_of s1 = gate_of s" using gate_log_harness [of d ev "(j, s)"] l by simp
  have s1: "rn_sent s1 = rn_sent s" "rn_active s1 = rn_active s" using g1 by (simp_all add: gate_of_def)
  show ?thesis
  proof (cases "ev_kind ev = kind_permission_request \<and> ev_permission ev \<noteq> None")
    case True
    then obtain p where p: "ev_permission ev = Some p" by blast
    with assms True l have "decide_request d p (j, s1) = (j', s')" by (simp add: serve_event_def Let_def)
    from decide_request_effect [OF this] p show ?thesis unfolding s1 by blast
  next
    case False
    have "gate_of s' = gate_of s1 \<and> slot j' = slot j"
      using assms False l
      by (auto simp: serve_event_def Let_def add_file_def slot_def split: option.splits if_splits
          dest!: arg_cong [where f = "\<lambda>x. (fst x, gate_of (snd x))"])
    then show ?thesis using g1 by simp
  qed
qed

lemma answer_pending_effect:
  assumes "answer_pending d ans (j, s) = (j', s')" and "jb_pending j \<ge> 0"
  shows "gate_of s' = (rn_sent s @ [CmdGrant (jb_pending_id j) (fst ans)], rn_active s)
     \<and> jb_pending j' = -1 \<and> jb_session_allow j' = (jb_session_allow j \<or> fst ans = GrantAllowSession)"
proof -
  let ?j1 = "(answered_job ans (now_of d s) j)\<lparr>jb_pending := -1\<rparr>"
  let ?g = "grant d (jb_pending_id j) (fst ans) (answered_job ans (now_of d s) j, s)"
  let ?m = "move d Running id (?j1, snd ?g)"
  have "fst ?g = answered_job ans (now_of d s) j" by simp
  then have "j' = fst ?m \<and> gate_of s' = gate_of (snd ?g)"
    using assms by (auto simp: answer_pending_def case_prod_beta dest!: arg_cong [where f = "\<lambda>x. (fst x, gate_of (snd x))"])
  moreover have "slot (fst ?m) = slot ?j1" by (rule slot_rest, rule rest_move [THEN trans]) simp_all
  ultimately show ?thesis by (simp add: slot_def answered_job_def Let_def)
qed

subsection \<open>Grants and the calls they answer\<close>

text \<open>A parked request, when it was asked, and the answer on its way to it.\<close>

definition parked_since :: "input list \<Rightarrow> active \<Rightarrow> job \<Rightarrow> bool" where
  "parked_since ls a j \<longleftrightarrow> (\<exists>ls1 ev p ls2. ls = ls1 @ StreamEvent ev # ls2 \<and> ev_permission ev = Some p
     \<and> pr_id p = jb_pending_id j \<and> (\<forall>g w. ac_answer a = Some (g, w) \<longrightarrow> Answer (ac_id a) g \<in> set ls2))"

definition traced :: "input list \<Rightarrow> 'x runner \<Rightarrow> bool" where
  "traced ls s \<longleftrightarrow>
     (let a = rn_active s in
      (ac_awaiting a \<longrightarrow> ac_answer a = None) \<and> (ac_cancel a \<longrightarrow> ac_cancelled a)
      \<and> (case rn_phase s of
           AwaitingReady j \<Rightarrow> slot j = (-1, [], False) \<and> \<not> ac_awaiting a \<and> ac_answer a = None
         | Serving j \<Rightarrow> (ac_awaiting a \<or> ac_answer a \<noteq> None \<longrightarrow> jb_pending j \<ge> 0)
             \<and> (jb_pending j \<ge> 0 \<longrightarrow> parked_since ls a j)
             \<and> (jb_session_allow j \<longrightarrow> Answer (ac_id a) GrantAllowSession \<in> set ls)
         | _ \<Rightarrow> True))"

lemma parked_since_more: "parked_since ls a j \<Longrightarrow> parked_since (ls @ [l]) a j"
  unfolding parked_since_def
proof (elim exE conjE)
  fix ls1 ev p ls2
  assume "ls = ls1 @ StreamEvent ev # ls2" "ev_permission ev = Some p" "pr_id p = jb_pending_id j"
    "\<forall>g w. ac_answer a = Some (g, w) \<longrightarrow> Answer (ac_id a) g \<in> set ls2"
  then show "\<exists>ls1 ev p ls2. ls @ [l] = ls1 @ StreamEvent ev # ls2 \<and> ev_permission ev = Some p
     \<and> pr_id p = jb_pending_id j \<and> (\<forall>g w. ac_answer a = Some (g, w) \<longrightarrow> Answer (ac_id a) g \<in> set ls2)"
    by (intro exI [of _ ls1] exI [of _ ev] exI [of _ p] exI [of _ "ls2 @ [l]"]) simp
qed

lemma parked_since_cong:
  "parked_since ls a j \<Longrightarrow> jb_pending_id j' = jb_pending_id j \<Longrightarrow> ac_answer a' = None \<or> ac_answer a' = ac_answer a \<Longrightarrow>
     ac_id a' = ac_id a \<Longrightarrow> parked_since ls a' j'"
  unfolding parked_since_def by (elim disjE) (simp, blast, simp)

lemma parked_now:
  "ev_permission ev = Some p \<Longrightarrow> pr_id p = jb_pending_id j \<Longrightarrow> ac_answer a = None \<Longrightarrow>
     parked_since (ls @ [StreamEvent ev]) a j"
  unfolding parked_since_def by (intro exI [of _ ls] exI [of _ ev] exI [of _ p] exI [of _ "[]"]) simp

lemma parked_answered:
  assumes "parked_since ls a j" and "ac_answer a' = Some (g, w)" and "ac_id a' = ac_id a"
  shows "parked_since (ls @ [Answer (ac_id a) g]) a' j"
proof -
  from assms(1) obtain ls1 ev p ls2 where "ls = ls1 @ StreamEvent ev # ls2" "ev_permission ev = Some p"
      "pr_id p = jb_pending_id j" unfolding parked_since_def by blast
  with assms(2,3) show ?thesis unfolding parked_since_def
    by (intro exI [of _ ls1] exI [of _ ev] exI [of _ p] exI [of _ "ls2 @ [Answer (ac_id a) g]"]) simp
qed

subsection \<open>The trace invariant\<close>

lemma traced_new: "traced [] (new_runner h)"
  by (simp add: traced_def new_runner_def new_active_def Let_def)

lemma traced_active:
  "traced ls s \<Longrightarrow> (ac_awaiting (rn_active s) \<longrightarrow> ac_answer (rn_active s) = None)
     \<and> (ac_cancel (rn_active s) \<longrightarrow> ac_cancelled (rn_active s))"
  by (simp add: traced_def Let_def)

lemma traced_idle:
  assumes "ac_awaiting (rn_active s) \<longrightarrow> ac_answer (rn_active s) = None"
    and "ac_cancel (rn_active s) \<longrightarrow> ac_cancelled (rn_active s)"
    and "\<And>j. rn_phase s \<noteq> AwaitingReady j" and "\<And>j. rn_phase s \<noteq> Serving j"
  shows "traced ls s"
  using assms by (auto simp: traced_def Let_def split: phase.splits)

text \<open>The fields only the steps of the worker and the calls themselves write.\<close>

definition core :: "'x runner \<Rightarrow> active \<times> phase \<times> command list" where
  "core s = (rn_active s, rn_phase s, rn_sent s)"

lemma core_ctl: "ctl s = ctl s' \<Longrightarrow> core s = core s'"
  by (simp add: ctl_def core_def)

lemma core_simps [simp]:
  "core (s\<lparr>rn_host := h\<rparr>) = core s" "core (s\<lparr>rn_queue := q\<rparr>) = core s" "core (s\<lparr>rn_wake := w\<rparr>) = core s"
  "core (s\<lparr>rn_stop := b\<rparr>) = core s" "core (s\<lparr>rn_current := b\<rparr>) = core s"
  "core (s\<lparr>rn_subs := ss\<rparr>) = core s" "core (s\<lparr>rn_chans := cs\<rparr>) = core s" "core (snd (on_store f s)) = core s"
  by (simp_all add: core_def on_store_def case_prod_beta)

lemma core_worker [simp]:
  "core (narrate d t k msg s) = core s" "core (snd (call h s)) = core s" "core (close_subs i s) = core s"
  by (simp_all add: core_ctl [OF ctl_job(7)] core_ctl [OF ctl_job(8)] core_ctl [OF ctl_close_subs])

lemma core_accept [simp]: "core (snd (accept d i refusal s)) = core s"
  by (simp add: accept_def Let_def)

lemma core_submit:
  fixes s :: "'x runner"
  shows "core (snd (submit d req s)) = core s"
proof -
  have refusal: "core (snd (refusal_of d cfg ws s)) = core s" for cfg ws and s :: "'x runner"
    by (simp add: refusal_of_def case_prod_beta)
  have "core (snd (submit_with d req mode cfg s)) = core s" for mode cfg and s :: "'x runner"
    by (simp add: submit_with_def case_prod_beta refusal split: sum.split)
  then show ?thesis by (simp add: submit_def Let_def case_prod_beta split: sum.split)
qed

lemma core_cancel_queued: "i \<in> set (rn_queue s) \<Longrightarrow> core (snd (cancel_task d i s)) = core s"
  by (simp add: cancel_task_def Let_def case_prod_beta split: sum.split)

text \<open>A client call keeps the worker's position, and of the active task only what it may touch.\<close>

lemma client_control:
  assumes "is_client l" and "traced ls s"
  shows "rn_phase (client_step d l s) = rn_phase s \<and> rn_sent (client_step d l s) = rn_sent s
     \<and> (let a = rn_active s; a' = rn_active (client_step d l s) in
          ac_id a' = ac_id a \<and> (ac_cancel a' \<longrightarrow> ac_cancelled a')
          \<and> ((ac_answer a' = ac_answer a \<and> ac_awaiting a' = ac_awaiting a)
             \<or> (\<exists>g. l = Answer (ac_id a) g \<and> ac_awaiting a \<and> \<not> ac_awaiting a' \<and> ac_answer a' = Some (g, by_dashboard))))"
proof -
  note tr = traced_active [OF assms(2)]
  have untouched: ?thesis if "core (client_step d l s) = core s"
    using that tr by (simp add: core_def Let_def)
  show ?thesis
  proof (cases l)
    case (Submit req)
    then show ?thesis by (intro untouched) (simp add: client_step_def core_submit)
  next
    case (Answer i g)
    with tr show ?thesis by (simp add: client_step_def answer_def Let_def fault_of_def)
  next
    case (Cancel i)
    show ?thesis
    proof (cases "i \<in> set (rn_queue s)")
      case True
      with Cancel show ?thesis by (intro untouched) (simp add: client_step_def core_cancel_queued)
    next
      case False
      with Cancel tr show ?thesis
        by (simp add: client_step_def cancel_task_def cancel_active_def fault_of_def Let_def)
    qed
  next
    case Close
    with tr show ?thesis
      by (simp add: client_step_def close_runner_def cancel_active_def fault_of_def Let_def)
  next
    case (Subscribe i)
    then show ?thesis by (intro untouched) (simp add: client_step_def subscribe_def Let_def split: sum.split)
  next
    case (Unsubscribe i k)
    then show ?thesis by (intro untouched) (simp add: client_step_def unsubscribe_def)
  next
    case (Receive k)
    then show ?thesis by (intro untouched) (simp add: client_step_def receive_def)
  qed (use assms(1) in \<open>simp_all add: is_client_def\<close>)
qed

lemma traced_client:
  assumes "is_client l" and t: "traced ls s"
  shows "traced (ls @ [l]) (client_step d l s)"
proof -
  let ?a = "rn_active s" and ?s = "client_step d l s" and ?a' = "rn_active (client_step d l s)"
  note tr = traced_active [OF t]
  from client_control [OF assms, of d] have c: "rn_phase ?s = rn_phase s" "ac_id ?a' = ac_id ?a"
      "ac_cancel ?a' \<longrightarrow> ac_cancelled ?a'"
      "(ac_answer ?a' = ac_answer ?a \<and> ac_awaiting ?a' = ac_awaiting ?a)
        \<or> (\<exists>g. l = Answer (ac_id ?a) g \<and> ac_awaiting ?a \<and> \<not> ac_awaiting ?a' \<and> ac_answer ?a' = Some (g, by_dashboard))"
    by (simp_all add: Let_def)
  have aw: "ac_awaiting ?a' \<longrightarrow> ac_answer ?a' = None" using c(4) tr by auto
  show ?thesis
  proof (cases "rn_phase s")
    case (AwaitingReady j)
    with t have "slot j = (-1, [], False) \<and> \<not> ac_awaiting ?a \<and> ac_answer ?a = None" by (simp add: traced_def Let_def)
    with AwaitingReady c aw show ?thesis by (auto simp: traced_def Let_def)
  next
    case (Serving j)
    with t have j: "ac_awaiting ?a \<or> ac_answer ?a \<noteq> None \<longrightarrow> jb_pending j \<ge> 0"
        "jb_pending j \<ge> 0 \<longrightarrow> parked_since ls ?a j"
        "jb_session_allow j \<longrightarrow> Answer (ac_id ?a) GrantAllowSession \<in> set ls"
      by (simp_all add: traced_def Let_def)
    have "jb_pending j \<ge> 0 \<longrightarrow> parked_since (ls @ [l]) ?a' j"
      using c(4)
    proof (elim disjE exE)
      assume "ac_answer ?a' = ac_answer ?a \<and> ac_awaiting ?a' = ac_awaiting ?a"
      then show ?thesis using j(2) parked_since_cong [OF parked_since_more [of ls ?a j l] refl _ c(2)] by blast
    next
      fix g
      assume "l = Answer (ac_id ?a) g \<and> ac_awaiting ?a \<and> \<not> ac_awaiting ?a' \<and> ac_answer ?a' = Some (g, by_dashboard)"
      then show ?thesis using j(2) parked_answered [of ls ?a j ?a' g by_dashboard] c(2) by blast
    qed
    moreover have "ac_awaiting ?a' \<or> ac_answer ?a' \<noteq> None \<longrightarrow> jb_pending j \<ge> 0" using c(4) j(1) by metis
    moreover have "jb_session_allow j \<longrightarrow> Answer (ac_id ?a') GrantAllowSession \<in> set (ls @ [l])" using j(3) c(2) by simp
    ultimately show ?thesis using Serving c(1,3) aw by (simp add: traced_def Let_def)
  qed (use c(1,3) aw in \<open>auto intro: traced_idle\<close>)
qed

lemma traced_worker_ends:
  assumes "traced ls s" and "ctl (snd js) = ctl s" 
  shows "traced ls' (ended js)"
  using traced_active [OF assms(1)] assms(2)
  by (intro traced_idle) (simp_all add: ended_def job_ends_def ctl_def)

text \<open>A call of the outside world changes the world only.\<close>

lemma set_world_twice [simp]: "set_world x (set_world y s) = set_world x s"
  by (simp add: set_world_def)

lemma call_world: obtains a x where "call f s = (a, set_world x s)"
  by (simp add: call_def case_prod_beta)

lemma start_job_cases:
  obtains (none) "start_job d i s = job_ends s" "\<forall>t. load_of d i s = Inr t \<longrightarrow> tk_state t \<noteq> Queued"
  | (refused) t x msg where "load_of d i s = Inr t" "tk_state t = Queued"
      "start_job d i s = ended (finish d Refused msg (new_job t, set_world x s))"
  | (launched) t x where "load_of d i s = Inr t" "tk_state t = Queued"
      "start_job d i s = (set_world x s)\<lparr>rn_phase := AwaitingReady (new_job t)\<rparr>"
proof (cases "load_of d i s")
  case (Inl e)
  then show thesis using none by (simp add: start_job_def)
next
  case (Inr t)
  show thesis
  proof (cases "tk_state t = Queued")
    case False
    with Inr show thesis using none by (simp add: start_job_def)
  next
    case True
    obtain a x where a: "call (rd_load_config d) s = (a, set_world x s)" by (rule call_world)
    show thesis
    proof (cases a)
      case (Inl e)
      with a Inr True show thesis using refused by (simp add: start_job_def Let_def \<open>load_of d i s = Inr t\<close>)
    next
      case (Inr cfg)
      obtain b y where b: "call (rd_render_args d cfg (tk_workspace t) (tk_id t)) (set_world x s) = (b, set_world y s)"
        using call_world [of "rd_render_args d cfg (tk_workspace t) (tk_id t)" "set_world x s"] by auto
      show thesis
      proof (cases b)
        case (Inl e)
        with a b True Inr show thesis using refused by (simp add: start_job_def Let_def \<open>load_of d i s = Inr t\<close>)
      next
        case (Inr args)
        obtain c z where c: "call (rd_launch d args) (set_world y s) = (c, set_world z s)"
          using call_world [of "rd_launch d args" "set_world y s"] by auto
        with a b True Inr \<open>a = Inr cfg\<close> show thesis
          using refused launched by (cases c) (simp_all add: start_job_def Let_def \<open>load_of d i s = Inr t\<close>)
      qed
    qed
  qed
qed

lemma traced_start:
  assumes "ac_answer (rn_active s) = None" "\<not> ac_awaiting (rn_active s)" "\<not> ac_cancel (rn_active s)"
  shows "traced ls (start_job d i s)"
proof -
  have e: "traced ls (ended js)" if "ctl (snd js) = ctl s" for js
    using assms that by (intro traced_idle) (simp_all add: ended_def job_ends_def ctl_def)
  show ?thesis
  proof (rule start_job_cases [of d i s])
    assume "start_job d i s = job_ends s"
    then show ?thesis using e [of "(j, s)" for j] by (simp add: ended_def)
  next
    fix t x msg assume "start_job d i s = ended (finish d Refused msg (new_job t, set_world x s))"
    then show ?thesis using e [of "finish d Refused msg (new_job t, set_world x s)"] by simp
  next
    fix t x assume "start_job d i s = (set_world x s)\<lparr>rn_phase := AwaitingReady (new_job t)\<rparr>"
    then show ?thesis using assms by (simp add: traced_def new_job_def slot_def set_world_def)
  qed
qed

text \<open>What an event before the sandbox is ready leads to.\<close>

lemma ready_event_cases:
  obtains (ends) js cs where "ready_event d ev (j, s) = ended js" "core (snd js) = (rn_active s, rn_phase s, rn_sent s @ cs)"
      "set cs \<subseteq> range CmdPrompt"
  | (waits) s' where "ready_event d ev (j, s) = s'\<lparr>rn_phase := AwaitingReady j\<rparr>" "ctl s' = ctl s"
  | (serves) j' s' cs where "ready_event d ev (j, s) = s'\<lparr>rn_phase := Serving j'\<rparr>" "slot j' = slot j"
      "core s' = (rn_active s, rn_phase s, rn_sent s @ cs)" "set cs \<subseteq> range CmdPrompt"
proof -
  obtain s1 where l: "log_harness d ev (j, s) = (j, s1)" using fst_log_harness [of d ev "(j, s)"] by (metis fst_conv prod.collapse)
  have s1: "ctl s1 = ctl s" using ctl_job(4) [of d ev "(j, s)"] l by simp
  let ?j1 = "j\<lparr>jb_task := (jb_task j)\<lparr>tk_harness := (''crush'', ev_version ev)\<rparr>\<rparr>"
  obtain j2 s2 where m: "move d Running (\<lambda>t. t\<lparr>tk_started_at := now_of d s1\<rparr>) (?j1, s1) = (j2, s2)" by fastforce
  have j2: "slot j2 = slot j"
  proof -
    have "slot j2 = slot ?j1"
      using rest_move [of "\<lambda>t. t\<lparr>tk_started_at := now_of d s1\<rparr>" d Running "(?j1, s1)"] m by (intro slot_rest) simp
    then show ?thesis by (simp add: slot_def)
  qed
  have s2: "ctl s2 = ctl s" using ctl_job(3) [of "\<lambda>t. t\<lparr>tk_started_at := now_of d s1\<rparr>" d Running "(?j1, s1)"] m s1
    by simp
  let ?p = "CmdPrompt (tk_instruction (jb_task j2) @ [newline, newline] @ citation_instruction)"
  obtain e s3 where c: "send d ?p s2 = (e, s3)" by fastforce
  have "ctl s3 = ctl (s2\<lparr>rn_sent := rn_sent s2 @ [?p]\<rparr>)" using c ctl_job(8) unfolding send_def by (metis snd_conv)
  then have s3: "core s3 = (rn_active s, rn_phase s, rn_sent s @ [?p])" using s2 by (simp add: ctl_def core_def)
  consider (ready) "ev_kind ev = kind_bridge_ready" | (error) "ev_kind ev \<noteq> kind_bridge_ready" "ev_kind ev = kind_bridge_error"
    | (other) "ev_kind ev \<noteq> kind_bridge_ready" "ev_kind ev \<noteq> kind_bridge_error" by blast
  then show thesis
  proof cases
    case ready
    show thesis
    proof (cases e)
      case None
      with ready l m c show thesis
        by (intro serves [of j2 s3 "[?p]"]) (simp_all add: ready_event_def Let_def goes_on_def j2 s3)
    next
      case (Some t)
      have "core (snd (finish d Failed msg (j2, snd (call (rd_kill d) s3)))) = core s3" for msg
        using core_ctl [of "snd (finish d Failed msg (j2, snd (call (rd_kill d) s3)))" s3] by simp
      with ready l m c Some s3 show thesis
        by (intro ends [of _ "[?p]"]) (simp_all add: ready_event_def Let_def)
    qed
  next
    case error
    have "core (snd (finish d Refused msg (j, s1))) = core s" for msg
      using core_ctl [of "snd (finish d Refused msg (j, s1))" s] s1 by simp
    with error l show thesis by (intro ends [of _ "[]"]) (simp_all add: ready_event_def Let_def core_def)
  next
    case other
    with l s1 show thesis by (intro waits [of s1]) (simp_all add: ready_event_def Let_def goes_on_def)
  qed
qed

lemma settle_cases:
  obtains (failed) x msg where "settle d (j, s) = ended (finish d Failed msg (j, set_world x s))" "\<not> jb_run_complete j"
  | (audits) s' where "settle d (j, s) = s'\<lparr>rn_phase := Auditing j\<rparr>" "ctl s' = ctl s" "jb_run_complete j"
proof -
  obtain e x where a: "call (rd_wait d) s = (e, set_world x s)" by (rule call_world)
  show thesis
  proof (cases "jb_run_complete j")
    case False
    with a show thesis using failed by (simp add: settle_def)
  next
    case True
    let ?say = "\<lambda>t. say d (''the sandbox exited with an error after completing: '' @ t) (j, set_world x s)"
    have "ctl (set_world x s) = ctl s" "ctl (snd (?say t)) = ctl s" for t by simp_all
    with a True show thesis
      using audits [of "set_world x s"] audits [of "snd (?say t)" for t]
      by (cases e) (simp_all add: settle_def goes_on_def)
  qed
qed

lemma traced_serving:
  assumes "rn_phase s' = Serving j'" and "slot j' = slot j" and "rn_phase s = Serving j" and "traced ls s"
    and "rn_active s' = rn_active s"
  shows "traced (ls @ [l]) s'"
proof -
  let ?a = "rn_active s"
  have s: "jb_pending j' = jb_pending j" "jb_pending_id j' = jb_pending_id j" "jb_session_allow j' = jb_session_allow j"
    using assms(2) by (simp_all add: slot_def)
  from assms(3,4) have "ac_awaiting ?a \<or> ac_answer ?a \<noteq> None \<longrightarrow> jb_pending j \<ge> 0"
      and p: "jb_pending j \<ge> 0 \<longrightarrow> parked_since ls ?a j"
      and "jb_session_allow j \<longrightarrow> Answer (ac_id ?a) GrantAllowSession \<in> set ls"
    by (simp_all add: traced_def Let_def)
  moreover have "jb_pending j \<ge> 0 \<longrightarrow> parked_since (ls @ [l]) ?a j'"
    using p parked_since_cong [OF parked_since_more [of ls ?a j l], of j' ?a] s by simp
  ultimately show ?thesis using assms(1,5) s traced_active [OF assms(4)] by (simp add: traced_def Let_def)
qed

lemma traced_event:
  assumes "rn_phase s = Serving j" and t: "traced ls s"
  shows "traced (ls @ [StreamEvent ev]) (goes_on Serving (serve_event d ev (j, s)))"
proof -
  obtain j' s1 where e: "serve_event d ev (j, s) = (j', s1)" by fastforce
  let ?s' = "goes_on Serving (serve_event d ev (j, s))" and ?a = "rn_active s"
  have ph: "rn_phase ?s' = Serving j'" and gate: "gate_of ?s' = gate_of s1" by (simp_all add: goes_on_def e gate_of_def)
  show ?thesis
    using serve_event_effect [OF e]
  proof (elim disjE exE conjE)
    assume "gate_of s1 = gate_of s" "slot j' = slot j"
    then show ?thesis using traced_serving [OF ph _ assms] gate by (simp add: gate_of_def)
  next
    fix p g assume "gate_of s1 = (rn_sent s @ [CmdGrant (pr_id p) g], rn_active s)" "slot j' = slot j"
    then show ?thesis using traced_serving [OF ph _ assms] gate by (simp add: gate_of_def)
  next
    fix p
    assume p: "ev_permission ev = Some p" "gate_of s1 = (rn_sent s, (rn_active s)\<lparr>ac_awaiting := True\<rparr>)"
      "jb_pending j < 0" "0 \<le> jb_pending j'" "jb_pending_id j' = pr_id p" "jb_session_allow j' = jb_session_allow j"
    have act: "rn_active ?s' = ?a\<lparr>ac_awaiting := True\<rparr>" using gate p(2) by (simp add: gate_of_def)
    from assms p(3) have none: "ac_answer ?a = None"
        and "jb_session_allow j \<longrightarrow> Answer (ac_id ?a) GrantAllowSession \<in> set ls"
      by (cases "ac_answer ?a"; auto simp: traced_def Let_def)+
    moreover have "parked_since (ls @ [StreamEvent ev]) (rn_active ?s') j'"
      using parked_now [OF p(1)] p(5) none act by simp
    ultimately show ?thesis
      using act ph p(4,6) traced_active [OF t] by (simp add: traced_def Let_def)
  qed
qed

lemma traced_worker:
  assumes w: "worker_step d l (rn_phase s) s = Some s'" and t: "traced ls s"
  shows "traced (ls @ [l]) s'"
proof -
  have cancel: "traced ls' (ended (kill_and_cancel d (j, take_cancel s)))" for ls' j
    using traced_active [OF t]
    by (intro traced_idle) (use ctl_job(6) [of d "(j, take_cancel s)"] in \<open>simp_all add: ended_def job_ends_def ctl_def take_cancel_def\<close>)
  show ?thesis
  proof (cases "rn_phase s")
    case Looking
    with w have l: "s' = look d s" by (simp add: worker_step_def split: input.splits)
    show ?thesis
    proof (cases "rn_stop s \<or> rn_queue s = []")
      case True
      with l traced_active [OF t] show ?thesis by (auto simp: look_def intro: traced_idle)
    next
      case False
      then obtain i "is" where "rn_queue s = i # is" by (cases "rn_queue s") auto
      with l False show ?thesis by (auto simp: look_def new_active_def intro!: traced_start)
    qed
  next
    case Parked
    with w traced_active [OF t] show ?thesis
      by (auto simp: worker_step_def split: input.splits if_splits intro!: traced_idle)
  next
    case (AwaitingReady j)
    with t have j: "slot j = (-1, [], False)" "\<not> ac_awaiting (rn_active s)" "ac_answer (rn_active s) = None"
      by (simp_all add: traced_def Let_def)
    from w AwaitingReady consider (ev) ev where "l = StreamEvent ev" "s' = ready_event d ev (j, s)"
      | (closed) "s' = ready_closed d (j, s)" | (cancel) "s' = ended (kill_and_cancel d (j, take_cancel s))"
      by (auto simp: worker_step_def split: input.splits if_splits)
    then show ?thesis
    proof cases
      case ev
      show ?thesis
      proof (rule ready_event_cases [of d ev j s])
        fix js cs assume "ready_event d ev (j, s) = ended js" "core (snd js) = (rn_active s, rn_phase s, rn_sent s @ cs)"
        with ev traced_active [OF t] show ?thesis
          by (auto simp: ended_def job_ends_def core_def intro!: traced_idle)
      next
        fix s1 assume "ready_event d ev (j, s) = s1\<lparr>rn_phase := AwaitingReady j\<rparr>" "ctl s1 = ctl s"
        with ev j traced_active [OF t] show ?thesis by (simp add: traced_def Let_def ctl_def)
      next
        fix j' s1 cs assume "ready_event d ev (j, s) = s1\<lparr>rn_phase := Serving j'\<rparr>" "slot j' = slot j"
          "core s1 = (rn_active s, rn_phase s, rn_sent s @ cs)"
        with ev j traced_active [OF t] show ?thesis by (simp add: traced_def Let_def core_def slot_def)
      qed
    next
      case closed
      obtain e x where "call (rd_wait d) s = (e, set_world x s)" by (rule call_world)
      with closed show ?thesis by (auto simp: ready_closed_def intro!: traced_worker_ends [OF t])
    qed (simp add: cancel)
  next
    case (Serving j)
    from w Serving consider (ev) ev where "l = StreamEvent ev" "s' = goes_on Serving (serve_event d ev (j, s))"
      | (closed) "s' = settle d (j, s)" | (cancel) "s' = ended (kill_and_cancel d (j, take_cancel s))"
      | (ans) ans where "ac_answer (rn_active s) = Some ans" "s' = goes_on Serving (answer_pending d ans (j, take_answer s))"
      by (auto simp: worker_step_def split: input.splits if_splits option.splits)
    then show ?thesis
    proof cases
      case ev
      with traced_event [OF Serving t] show ?thesis by simp
    next
      case closed
      show ?thesis
      proof (rule settle_cases [of d j s])
        fix x msg assume "settle d (j, s) = ended (finish d Failed msg (j, set_world x s))"
        with closed show ?thesis by (auto intro!: traced_worker_ends [OF t])
      next
        fix s1 assume "settle d (j, s) = s1\<lparr>rn_phase := Auditing j\<rparr>" "ctl s1 = ctl s"
        with closed traced_active [OF t] show ?thesis by (auto simp: ctl_def intro!: traced_idle)
      qed
    next
      case (ans ans)
      obtain j' s1 where e: "answer_pending d ans (j, take_answer s) = (j', s1)" by fastforce
      from t Serving ans(1) have p: "jb_pending j \<ge> 0" "\<not> ac_awaiting (rn_active s)"
          and sess: "jb_session_allow j \<longrightarrow> Answer (ac_id (rn_active s)) GrantAllowSession \<in> set ls"
          and since: "parked_since ls (rn_active s) j"
        by (auto simp: traced_def Let_def)
      from since ans(1) have "Answer (ac_id (rn_active s)) (fst ans) \<in> set ls"
        unfolding parked_since_def by (cases ans) auto
      with sess answer_pending_effect [OF e p(1)] e ans(2) p(2) traced_active [OF t] show ?thesis
        by (auto simp: traced_def Let_def goes_on_def gate_of_def take_answer_def)
    qed (simp add: cancel)
  next
    case (Auditing j)
    with w have "s' = ended (audit d (j, s))" by (simp add: worker_step_def split: input.splits)
    then show ?thesis by (auto intro!: traced_worker_ends [OF t])
  next
    case Halted
    with w show ?thesis by (simp add: worker_step_def)
  qed
qed

lemma traced_step: "step_on d l s = Some s' \<Longrightarrow> traced ls s \<Longrightarrow> traced (ls @ [l]) s'"
  by (auto simp: step_on_def traced_client traced_worker split: if_splits)

lemma run_inputs_append:
  "run_inputs d (ls @ ls') s = (case run_inputs d ls s of None \<Rightarrow> None | Some s1 \<Rightarrow> run_inputs d ls' s1)"
  by (induction ls arbitrary: s) (simp_all split: option.split)

lemma run_inputs_induct [consumes 1, case_names start step]:
  assumes "run_inputs d ls s0 = Some s" and "I [] s0"
    and "\<And>ls s l s'. run_inputs d ls s0 = Some s \<Longrightarrow> I ls s \<Longrightarrow> step_on d l s = Some s' \<Longrightarrow> I (ls @ [l]) s'"
  shows "I ls s"
  using assms(1)
proof (induction ls arbitrary: s rule: rev_induct)
  case Nil
  with assms(2) show ?case by simp
next
  case (snoc l ls)
  from snoc.prems obtain s1 where "run_inputs d ls s0 = Some s1" "step_on d l s1 = Some s"
    by (auto simp: run_inputs_append split: option.splits)
  with snoc.IH assms(3) show ?case by blast
qed

lemma run_traced: "run_inputs d ls (new_runner h) = Some s \<Longrightarrow> traced ls s"
  by (induction rule: run_inputs_induct) (auto simp: traced_new intro: traced_step)

subsection \<open>What a step sends\<close>

definition quiet :: "'x runner \<Rightarrow> 'x runner \<Rightarrow> bool" where
  "quiet s s' \<longleftrightarrow> (\<exists>cs. rn_sent s' = rn_sent s @ cs \<and> set cs \<subseteq> range CmdPrompt)"

lemma quiet_same: "rn_sent s' = rn_sent s \<Longrightarrow> quiet s s'"
  by (auto simp: quiet_def)

lemma quiet_ended: "ctl (snd js) = ctl s \<Longrightarrow> quiet s (ended js)"
  by (auto intro!: quiet_same simp: ended_def job_ends_def ctl_def)

lemma quiet_settle: "quiet s (settle d (j, s))"
proof (rule settle_cases [of d j s])
  fix x msg assume e: "settle d (j, s) = ended (finish d Failed msg (j, set_world x s))"
  show ?thesis unfolding e by (rule quiet_ended) simp
next
  fix s' assume "settle d (j, s) = s'\<lparr>rn_phase := Auditing j\<rparr>" "ctl s' = ctl s"
  then show ?thesis by (intro quiet_same) (simp add: ctl_def)
qed

lemma quiet_ready: "quiet s (ready_event d ev (j, s))"
  by (rule ready_event_cases [of d ev j s]) (simp_all add: quiet_def ended_def job_ends_def core_def ctl_def)

lemma quiet_start: "quiet s (start_job d i s)"
proof (rule start_job_cases [of d i s])
  fix t x msg assume e: "start_job d i s = ended (finish d Refused msg (new_job t, set_world x s))"
  show ?thesis unfolding e by (rule quiet_ended) simp
qed (simp_all add: quiet_same job_ends_def set_world_def)

lemma step_sends:
  assumes "step_on d l s = Some s'" and t: "traced ls s"
  shows "quiet s s'
     \<or> (\<exists>j ev p g. rn_phase s = Serving j \<and> l = StreamEvent ev \<and> ev_permission ev = Some p
           \<and> rn_sent s' = rn_sent s @ [CmdGrant (pr_id p) g] \<and> (g \<noteq> GrantDeny \<longrightarrow> g = GrantAllow \<and> lets d j p))
     \<or> (\<exists>j g w. rn_phase s = Serving j \<and> l = AnswerArrives \<and> ac_answer (rn_active s) = Some (g, w)
           \<and> rn_sent s' = rn_sent s @ [CmdGrant (jb_pending_id j) g])"
proof (cases "is_client l")
  case True
  with assms client_control [OF True t, of d] have "rn_sent s' = rn_sent s" by (auto simp: step_on_def)
  then show ?thesis by (simp add: quiet_same)
next
  case False
  with assms have w: "worker_step d l (rn_phase s) s = Some s'" by (simp add: step_on_def)
  have cancel: "quiet s (ended (kill_and_cancel d (j, take_cancel s)))" for j
    using ctl_job(6) [of d "(j, take_cancel s)"]
    by (intro quiet_same) (simp add: ended_def job_ends_def ctl_def take_cancel_def)
  show ?thesis
  proof (cases "rn_phase s")
    case Looking
    with w have l: "s' = look d s" by (simp add: worker_step_def split: input.splits)
    have "quiet s (start_job d i (s\<lparr>rn_queue := q, rn_current := True, rn_active := a\<rparr>))" for i q a
      using quiet_start [of "s\<lparr>rn_queue := q, rn_current := True, rn_active := a\<rparr>" d i] by (simp add: quiet_def)
    then show ?thesis using l by (auto simp: look_def quiet_same split: list.split)
  next
    case Parked
    with w show ?thesis by (auto simp: worker_step_def quiet_same split: input.splits if_splits)
  next
    case (AwaitingReady j)
    from w AwaitingReady consider (ev) ev where "l = StreamEvent ev" "s' = ready_event d ev (j, s)"
      | (closed) "s' = ready_closed d (j, s)" | (cancel) "s' = ended (kill_and_cancel d (j, take_cancel s))"
      by (auto simp: worker_step_def split: input.splits if_splits)
    then show ?thesis
    proof cases
      case ev
      then show ?thesis by (simp add: quiet_ready)
    next
      case closed
      obtain e x where "call (rd_wait d) s = (e, set_world x s)" by (rule call_world)
      with closed show ?thesis by (auto simp: ready_closed_def intro!: quiet_ended)
    qed (simp add: cancel)
  next
    case (Serving j)
    from w Serving consider (ev) ev where "l = StreamEvent ev" "s' = goes_on Serving (serve_event d ev (j, s))"
      | (closed) "s' = settle d (j, s)" | (cancel) "s' = ended (kill_and_cancel d (j, take_cancel s))"
      | (ans) ans where "l = AnswerArrives" "ac_answer (rn_active s) = Some ans"
          "s' = goes_on Serving (answer_pending d ans (j, take_answer s))"
      by (auto simp: worker_step_def split: input.splits if_splits option.splits)
    then show ?thesis
    proof cases
      case ev
      obtain j' s1 where e: "serve_event d ev (j, s) = (j', s1)" by fastforce
      then have "rn_sent s' = rn_sent s1" using ev(2) by (simp add: goes_on_def)
      with serve_event_effect [OF e] Serving ev(1) show ?thesis by (auto simp: gate_of_def quiet_same)
    next
      case closed
      then show ?thesis by (simp add: quiet_settle)
    next
      case (ans ans)
      obtain j' s1 where e: "answer_pending d ans (j, take_answer s) = (j', s1)" by fastforce
      from t Serving ans(2) have "jb_pending j \<ge> 0" by (auto simp: traced_def Let_def)
      from answer_pending_effect [OF e this] ans e Serving show ?thesis
        by (cases ans) (auto simp: gate_of_def goes_on_def take_answer_def)
    qed (simp add: cancel)
  next
    case (Auditing j)
    with w have "s' = ended (audit d (j, s))" by (simp add: worker_step_def split: input.splits)
    then show ?thesis by (auto intro!: quiet_ended)
  next
    case Halted
    with w show ?thesis by (simp add: worker_step_def)
  qed
qed

lemma deletion_never_let:
  assumes "lets d j p" and "jb_session_allow j \<longrightarrow> S"
  shows "\<not> (pr_action p = ''execute'' \<and> is_deletion (rd_command_param d (pr_params p)))
    \<and> (decide (tk_mode (jb_task j)) (request_of d p) = Allow \<or> S)"
  using assms by (auto simp: lets_def decide_def request_of_def act_execute_def)

text \<open>C11: A call is let through only for a reason. In any run of the runner, with any sandbox, disk and
  interleaving of clients, a step that answers a permission with anything but a denial either answers
  the very event that asks it, which is then not a recognised deletion, with a plain allow, because the
  approval table allows it or the operator had answered the running task with allow-all; or it forwards the
  answer the operator gave to the running task after that request was asked.\<close>

theorem grants_have_a_reason:
  assumes "run_inputs d ls (new_runner h) = Some s" and "step_on d l s = Some s'"
    and "rn_sent s' = rn_sent s @ cs" and "CmdGrant pid g \<in> set cs" and "g \<noteq> GrantDeny"
  shows "\<exists>p j. rn_phase s = Serving j \<and> pr_id p = pid
    \<and> ((\<exists>ev. l = StreamEvent ev \<and> ev_permission ev = Some p \<and> g = GrantAllow
            \<and> \<not> (pr_action p = ''execute'' \<and> is_deletion (rd_command_param d (pr_params p)))
            \<and> (decide (tk_mode (jb_task j)) (request_of d p) = Allow
               \<or> Answer (ac_id (rn_active s)) GrantAllowSession \<in> set ls))
       \<or> (l = AnswerArrives \<and> (\<exists>ls1 ev ls2. ls = ls1 @ StreamEvent ev # ls2 \<and> ev_permission ev = Some p
            \<and> Answer (ac_id (rn_active s)) g \<in> set ls2)))"
proof -
  note t = run_traced [OF assms(1)]
  from step_sends [OF assms(2) t] show ?thesis
  proof (elim disjE exE conjE)
    assume "quiet s s'"
    with assms(3,4) show ?thesis by (auto simp: quiet_def)
  next
    fix j ev p g'
    assume a: "rn_phase s = Serving j" "l = StreamEvent ev" "ev_permission ev = Some p"
      "rn_sent s' = rn_sent s @ [CmdGrant (pr_id p) g']" "g' \<noteq> GrantDeny \<longrightarrow> g' = GrantAllow \<and> lets d j p"
    with assms(3-5) have g: "g' = g" "pr_id p = pid" "g = GrantAllow" "lets d j p" by auto
    have "jb_session_allow j \<longrightarrow> Answer (ac_id (rn_active s)) GrantAllowSession \<in> set ls"
      using t a(1) by (simp add: traced_def Let_def)
    from deletion_never_let [OF g(4) this] a g show ?thesis by blast
  next
    fix j g' w
    assume a: "rn_phase s = Serving j" "l = AnswerArrives" "ac_answer (rn_active s) = Some (g', w)"
      "rn_sent s' = rn_sent s @ [CmdGrant (jb_pending_id j) g']"
    with assms(3,4) have g: "g' = g" "jb_pending_id j = pid" by auto
    have "parked_since ls (rn_active s) j" using t a(1,3) by (auto simp: traced_def Let_def)
    with a g show ?thesis unfolding parked_since_def by blast
  qed
qed

end
