(* ===== verification/TaskRunLive.thy ===== *)
theory TaskRunLive
  imports TaskRunSafety
begin

text \<open>
  The runner never blocks or panics; its records and its liveness: with a disk that works every open
  record is queued or the worker's, a closed runner's worker halts, and a cancelled task ends.
\<close>

subsection \<open>Predicates on what the runner stores\<close>

definition ignores_control :: "('x runner \<Rightarrow> bool) \<Rightarrow> bool" where
  "ignores_control P \<longleftrightarrow> (\<forall>s s'. rn_host s = rn_host s' \<longrightarrow> rn_subs s = rn_subs s' \<longrightarrow> rn_chans s = rn_chans s'
     \<longrightarrow> rn_faults s = rn_faults s' \<longrightarrow> P s = P s')"

lemma ignores_controlD:
  "ignores_control P \<Longrightarrow> P s \<Longrightarrow> rn_host s' = rn_host s \<Longrightarrow> rn_subs s' = rn_subs s \<Longrightarrow> rn_chans s' = rn_chans s
     \<Longrightarrow> rn_faults s' = rn_faults s \<Longrightarrow> P s'"
  unfolding ignores_control_def by metis

text \<open>An invariant of the runner: the worker's bookkeeping keeps it, the control fields do not matter to it,
  a record is written as done only when its audit is clean, and the clients' calls keep it.\<close>

locale runner_invariant =
  fixes d :: "('x, 'c) run_deps" and W :: "task_state \<Rightarrow> job \<Rightarrow> bool" and P :: "'x runner \<Rightarrow> bool"
  assumes kept: "kept_by_worker d W P" and ign: "ignores_control P"
    and not_done: "st \<noteq> Done \<Longrightarrow> W st j"
    and is_done: "clean g \<Longrightarrow> audits_all g (tk_files (jb_task j)) \<Longrightarrow> W Done (set_grounding g j)"
    and client: "is_client l \<Longrightarrow> traced ls s \<Longrightarrow> P s \<Longrightarrow> P (client_step d l s)"
begin

lemma fields: "P s \<Longrightarrow> P (s\<lparr>rn_queue := q\<rparr>)" "P s \<Longrightarrow> P (s\<lparr>rn_active := a\<rparr>)" "P s \<Longrightarrow> P (s\<lparr>rn_phase := ph\<rparr>)"
    "P s \<Longrightarrow> P (s\<lparr>rn_wake := b\<rparr>)" "P s \<Longrightarrow> P (s\<lparr>rn_sent := cs\<rparr>)" "P s \<Longrightarrow> P (s\<lparr>rn_current := b\<rparr>)"
  by (auto elim: ignores_controlD [OF ign])

lemma job_end: "P (snd js) \<Longrightarrow> P (ended js)" "P s \<Longrightarrow> P (job_ends s)" "P (snd js) \<Longrightarrow> P (goes_on ph js)"
  by (simp_all add: ended_def job_ends_def goes_on_def fields)

lemma refusing: "st \<noteq> Done \<Longrightarrow> P (snd js) \<Longrightarrow> P (snd (finish d st msg js))"
  by (simp add: kept_finish [OF kept] not_done)

lemma moving: "stamps f \<Longrightarrow> st \<noteq> Done \<Longrightarrow> P (snd js) \<Longrightarrow> P (snd (move d st f js))"
  by (simp add: kept_move [OF kept] not_done)

lemma starts: "P s \<Longrightarrow> P (start_job d i s)"
  by (rule start_job_cases [of d i s]) (simp_all add: job_end refusing fields kept_world [OF kept])

lemma sends: "P s \<Longrightarrow> P (snd (send d c s))"
  by (simp add: send_def kept_call [OF kept] fields)

lemma grants: "P (snd js) \<Longrightarrow> P (snd (grant d pid g js))"
  by (simp add: grant_def case_prod_beta sends kept_say [OF kept] split: option.split)

lemma kills: "P (snd js) \<Longrightarrow> P (snd (kill_and_cancel d js))"
  by (simp add: kept_kill_and_cancel [OF kept] not_done)

lemma audits: "P (snd js) \<Longrightarrow> P (snd (audit d js))"
  by (rule kept_audit [OF kept]) (auto intro: not_done is_done)

lemma decides: "P (snd js) \<Longrightarrow> P (snd (decide_request d p js))"
  by (cases js)
     (simp add: decide_request_def Let_def case_prod_beta kept_say [OF kept] grants moving fields set_awaiting_def
        split: decision.split)

lemma answers: "P (snd js) \<Longrightarrow> P (snd (answer_pending d ans js))"
  by (cases js) (simp add: answer_pending_def case_prod_beta kept_say [OF kept] grants moving)

lemma serves: "P (snd js) \<Longrightarrow> P (snd (serve_event d ev js))"
  by (simp add: serve_event_def Let_def add_file_def case_prod_beta kept_log_harness [OF kept] kept_say [OF kept] decides
        split: option.split)

lemma readies: "P (snd js) \<Longrightarrow> P (ready_event d ev js)"
  by (simp add: ready_event_def Let_def case_prod_beta kept_log_harness [OF kept] job_end refusing moving sends
        kept_call [OF kept] split: option.split)

lemma settles: "P (snd js) \<Longrightarrow> P (settle d js)"
  by (simp add: settle_def case_prod_beta job_end refusing kept_call [OF kept] kept_say [OF kept] split: option.split)

lemma ready_closes: "P (snd js) \<Longrightarrow> P (ready_closed d js)"
  by (simp add: ready_closed_def case_prod_beta job_end refusing kept_call [OF kept])

lemma worker: "worker_step d l ph s = Some s' \<Longrightarrow> P s \<Longrightarrow> P s'"
  by (auto simp: worker_step_def look_def take_cancel_def take_answer_def
        intro!: fields starts job_end kills audits answers serves readies settles ready_closes
        split: phase.splits input.splits if_splits option.splits list.splits)

lemma steps: "step_on d l s = Some s' \<Longrightarrow> traced ls s \<Longrightarrow> P s \<Longrightarrow> P s'"
  by (auto simp: step_on_def client worker split: if_splits)

lemma runs: "run_inputs d ls (new_runner h) = Some s \<Longrightarrow> P (new_runner h) \<Longrightarrow> P s"
  by (induction rule: run_inputs_induct) (auto intro: steps run_traced)

end

subsection \<open>The subscribers' channels\<close>

definition subs_ok :: "'x runner \<Rightarrow> bool" where
  "subs_ok s \<longleftrightarrow> rn_faults s = [] \<and> distinct (map snd (rn_subs s))
     \<and> (\<forall>k \<in> set (map snd (rn_subs s)). k < length (rn_chans s) \<and> \<not> ch_closed (rn_chans s ! k))"

lemma close_channels:
  assumes "distinct ks" and "\<forall>k \<in> set ks. k < length (rn_chans s) \<and> \<not> ch_closed (rn_chans s ! k)"
  shows "rn_faults (fold close_channel ks s) = rn_faults s \<and> rn_subs (fold close_channel ks s) = rn_subs s
    \<and> length (rn_chans (fold close_channel ks s)) = length (rn_chans s)
    \<and> (\<forall>m. m \<notin> set ks \<longrightarrow> rn_chans (fold close_channel ks s) ! m = rn_chans s ! m)"
  using assms
proof (induction ks arbitrary: s)
  case (Cons k ks)
  let ?s = "close_channel k s"
  have e: "rn_faults ?s = rn_faults s" "rn_subs ?s = rn_subs s" "length (rn_chans ?s) = length (rn_chans s)"
      "m \<noteq> k \<Longrightarrow> rn_chans ?s ! m = rn_chans s ! m" for m
    using Cons.prems(2) by (simp_all add: close_channel_def Let_def)
  have "\<forall>m \<in> set ks. m < length (rn_chans ?s) \<and> \<not> ch_closed (rn_chans ?s ! m)"
    using Cons.prems e by (metis distinct.simps(2) list.set_intros(2))
  with Cons.IH [of ?s] Cons.prems(1) e show ?case by simp
qed simp

lemma subs_ok_close:
  assumes "subs_ok s"
  shows "subs_ok (close_subs i s)"
proof -
  let ?ks = "subs_of i s"
  have d: "distinct ?ks" using assms by (simp add: subs_ok_def subs_of_def distinct_map_filter)
  have o: "\<forall>k \<in> set ?ks. k < length (rn_chans s) \<and> \<not> ch_closed (rn_chans s ! k)"
    using assms by (auto simp: subs_ok_def subs_of_def)
  have n: "k \<notin> set ?ks" if "(j, k) \<in> set (rn_subs s)" "j \<noteq> i" for j k
    using assms that inj_onD [of snd "set (rn_subs s)" "(j, k)" "(i, k)"]
    by (auto simp: subs_ok_def subs_of_def distinct_map)
  with close_channels [OF d o] assms show ?thesis
    by (auto simp: close_subs_def Let_def subs_ok_def distinct_map_filter dest: n)
qed

lemma kept_subs: "kept_by_worker d (\<lambda>_ _. True) subs_ok"
proof -
  have "subs_ok (offer n k s)" if k: "k \<in> snd ` set (rn_subs s)" and ok: "subs_ok s" for n k and s :: "'a runner"
  proof -
    have "k < length (rn_chans s)" "\<not> ch_closed (rn_chans s ! k)" using k ok by (auto simp: subs_ok_def)
    with ok show ?thesis by (auto simp: subs_ok_def offer_def Let_def nth_list_update)
  qed
  moreover have "subs_ok (snd (write_state d st f j s))" if "subs_ok s" for st f j and s
    using that by (simp add: subs_ok_def write_state_def on_store_def case_prod_beta)
  ultimately show ?thesis
    by (simp add: kept_by_worker_def subs_ok_close) (simp add: subs_ok_def set_world_def release_def)
qed

lemma subs_ignore: "ignores_control subs_ok"
  by (simp add: ignores_control_def subs_ok_def)

lemma subs_ok_call: "subs_ok (snd (call f s)) = subs_ok s"
  by (simp add: call_def case_prod_beta set_world_def subs_ok_def)

lemma subs_ok_store: "subs_ok (snd (on_store f s)) = subs_ok s"
  by (simp add: on_store_def case_prod_beta subs_ok_def)

lemma subs_ok_fields [simp]: "subs_ok (s\<lparr>rn_queue := q\<rparr>) = subs_ok s" "subs_ok (s\<lparr>rn_active := a\<rparr>) = subs_ok s"
    "subs_ok (s\<lparr>rn_wake := b\<rparr>) = subs_ok s" "subs_ok (s\<lparr>rn_stop := b\<rparr>) = subs_ok s"
  by (simp_all add: subs_ok_def)

lemma subs_ok_narrate: "subs_ok s \<Longrightarrow> subs_ok (narrate d t k msg s)"
  by (rule kept_narrate [OF kept_subs])

lemma subs_ok_submit:
  fixes s :: "'x runner" and d :: "('x, 'c) run_deps"
  assumes "subs_ok s"
  shows "subs_ok (snd (submit d req s))"
proof -
  have a: "subs_ok (snd (accept d i r s))" if "subs_ok s" for i r and s :: "'x runner"
    using that by (simp add: accept_def Let_def subs_ok_narrate)
  have r: "subs_ok (snd (refusal_of d cfg ws s)) = subs_ok s" for cfg ws and s :: "'x runner"
    by (simp add: refusal_of_def case_prod_beta subs_ok_call)
  have "subs_ok (snd (submit_with d req mode cfg s))" if "subs_ok s" for mode cfg and s :: "'x runner"
    using that by (simp add: submit_with_def case_prod_beta subs_ok_call subs_ok_store r a split: sum.split)
  then show ?thesis using assms by (simp add: submit_def Let_def case_prod_beta subs_ok_call split: sum.split)
qed

lemma subs_ok_subscribe: "subs_ok s \<Longrightarrow> subs_ok (snd (subscribe d i s))"
  by (auto simp: subscribe_def Let_def subs_ok_def nth_append split: sum.split)

lemma subs_ok_client:
  assumes "is_client l" and t: "traced ls s" and ok: "subs_ok s"
  shows "subs_ok (client_step d l s)"
proof (cases l)
  case (Cancel i)
  have "subs_ok (snd (cancel_task d i s))"
    using ok traced_active [OF t]
    by (auto simp: cancel_task_def Let_def case_prod_beta subs_ok_store subs_ok_close subs_ok_narrate cancel_active_def
        split: sum.split)
  with Cancel show ?thesis by (simp add: client_step_def)
next
  case (Unsubscribe i k)
  have "distinct (map snd (remove1 (i, k) xs))" if "distinct (map snd xs)" for xs
    using that by (induction xs) (auto dest!: subsetD [OF set_remove1_subset])
  with Unsubscribe ok show ?thesis
    by (auto simp: client_step_def unsubscribe_def subs_ok_def dest!: subsetD [OF set_remove1_subset])
next
  case (Receive k)
  with ok show ?thesis by (auto simp: client_step_def receive_def subs_ok_def nth_list_update)
qed (use assms traced_active [OF t] in \<open>auto simp: client_step_def is_client_def subs_ok_submit subs_ok_subscribe answer_def
      close_runner_def cancel_active_def Let_def\<close>)

interpretation subs: runner_invariant d "\<lambda>_ _. True" subs_ok for d :: "('x, 'c) run_deps"
  by unfold_locales (auto simp: kept_subs subs_ignore subs_ok_client)

subsection \<open>The worker is not left asleep\<close>

definition awake :: "'x runner \<Rightarrow> bool" where
  "awake s \<longleftrightarrow> (rn_phase s = Parked \<and> rn_queue s \<noteq> [] \<longrightarrow> rn_wake s)"

lemma never_parked: "rn_phase s \<noteq> Parked \<Longrightarrow> awake s"
  by (simp add: awake_def)

lemma awake_worker:
  assumes "worker_step d l ph s = Some s'"
  shows "awake s'"
proof -
  have c: "rn_phase s1 = rn_phase s2" if "ctl s1 = ctl s2" for s1 s2 :: "'a runner" using that by (simp add: ctl_def)
  have start: "rn_phase (start_job d i s) \<noteq> Parked" for i s
    by (rule start_job_cases [of d i s]) (simp_all add: job_ends_def ended_def)
  have ready: "rn_phase (ready_event d ev (j, s)) \<noteq> Parked" for ev j s
    by (rule ready_event_cases [of d ev j s]) (simp_all add: job_ends_def ended_def)
  have settles: "rn_phase (settle d (j, s)) \<noteq> Parked" for j s
    by (rule settle_cases [of d j s]) (simp_all add: job_ends_def ended_def)
  show ?thesis
    using assms start ready settles
    by (auto simp: worker_step_def look_def ready_closed_def ended_def job_ends_def goes_on_def case_prod_beta awake_def
        split: phase.splits input.splits if_splits option.splits list.splits)
qed

lemma awake_ctl: "ctl s = ctl s' \<Longrightarrow> awake s = awake s'"
  by (simp add: ctl_def awake_def)

lemma awake_simps [simp]:
  "awake (snd (call h s)) = awake s" "awake (narrate d t k msg s) = awake s" "awake (close_subs i s) = awake s"
  by (simp_all add: awake_ctl [OF ctl_job(7)] awake_ctl [OF ctl_job(8)] awake_ctl [OF ctl_close_subs])

lemma awake_store [simp]: "awake (snd (on_store f s)) = awake s"
  by (simp add: awake_def on_store_def case_prod_beta)

lemma awake_submit:
  fixes s :: "'x runner" and d :: "('x, 'c) run_deps"
  assumes "awake s"
  shows "awake (snd (submit d req s))"
proof -
  have w: "awake (s\<lparr>rn_wake := True\<rparr>)" for s :: "'x runner" by (simp add: awake_def)
  have a: "awake (snd (accept d i r s))" if "awake s" for i r and s :: "'x runner"
    using that by (simp add: accept_def Let_def w)
  have r: "awake (snd (refusal_of d cfg ws s)) = awake s" for cfg ws and s :: "'x runner"
    by (simp add: refusal_of_def case_prod_beta)
  have "awake (snd (submit_with d req mode cfg s))" if "awake s" for mode cfg and s :: "'x runner"
    using that by (simp add: submit_with_def case_prod_beta r a split: sum.split)
  then show ?thesis using assms by (simp add: submit_def Let_def case_prod_beta split: sum.split)
qed

lemma awake_client:
  assumes "awake s"
  shows "awake (client_step d l s)"
proof (cases l)
  case (Cancel i)
  have "awake (s\<lparr>rn_queue := remove1 i (rn_queue s)\<rparr>)" using assms by (cases "rn_queue s = []") (auto simp: awake_def)
  then have "awake (snd (cancel_task d i s))"
    using assms
    by (simp add: cancel_task_def Let_def case_prod_beta split: sum.split) (simp add: awake_def cancel_active_def fault_of_def Let_def)
  with Cancel show ?thesis by (simp add: client_step_def)
qed (use assms in \<open>auto simp: client_step_def awake_submit\<close>,
     auto simp: awake_def answer_def close_runner_def cancel_active_def fault_of_def Let_def subscribe_def
       unsubscribe_def receive_def split: sum.splits)

lemma run_awake: "run_inputs d ls (new_runner h) = Some s \<Longrightarrow> awake s"
  by (induction rule: run_inputs_induct)
     (auto simp: step_on_def awake_worker awake_client never_parked new_runner_def split: if_splits)

lemma subs_ok_new: "subs_ok (new_runner h)"
  by (simp add: subs_ok_def new_runner_def)

text \<open>C12: The runner never blocks under its lock and never panics on a channel. In any run, with any
  sandbox, disk and interleaving of clients, every send of an answer or a cancel finds room, no narration
  is sent to a closed channel and none is closed twice, and the worker does not sleep on a queued task or
  on a close: parked, it has a step to take.\<close>

theorem runner_never_stuck:
  assumes "run_inputs d ls (new_runner h) = Some s"
  shows "rn_faults s = []
    \<and> (rn_phase s = Parked \<and> rn_queue s \<noteq> [] \<longrightarrow> (\<exists>s'. step_on d Wake s = Some s' \<and> rn_phase s' = Looking))
    \<and> (rn_phase s = Parked \<and> rn_stop s \<longrightarrow> (\<exists>s'. step_on d StopSeen s = Some s' \<and> rn_phase s' = Halted))"
proof -
  have "subs_ok s" using subs.runs [OF assms subs_ok_new] .
  then show ?thesis
    using run_awake [OF assms] by (simp add: subs_ok_def awake_def step_on_def is_client_def worker_step_def)
qed

subsection \<open>A finished task was audited\<close>

text \<open>The store's records, and the record a write puts there.\<close>

lemma write_state_records:
  assumes "write_state d st f j s = (r, s')"
  shows "th_files (rn_host s') = th_files (rn_host s)
    \<or> (\<exists>t. map_of (th_files (rn_host s)) (tk_id (jb_task j)) = Some (Stored t) \<and> can_transition (tk_state t) st
         \<and> (let t1 = f (shadow j (t\<lparr>tk_state := st\<rparr>));
                t2 = (if terminal st then t1\<lparr>tk_exit := Some (exit_code st)\<rparr> else t1) in
            th_files (rn_host s') = AList.update (tk_id t2) (Stored t2) (th_files (rn_host s))))"
proof -
  let ?i = "tk_id (jb_task j)"
  obtain h' where h: "transition (rd_store d) ?i st (\<lambda>t. f (shadow j t)) (rn_host s) = (r, h')" "rn_host s' = h'"
    using assms by (auto simp: write_state_def on_store_def split: prod.splits)
  show ?thesis
  proof (cases "load_task (rd_store d) ?i (rn_host s)")
    case (Inl e)
    with h show ?thesis by (auto simp: transition_def)
  next
    case (Inr t)
    note l = load_task_Inr [OF Inr]
    show ?thesis
    proof (cases "can_transition (tk_state t) st")
      case False
      with h Inr show ?thesis by (auto simp: transition_def)
    next
      case True
      define t2 where "t2 = (let t1 = f (shadow j (t\<lparr>tk_state := st\<rparr>)) in
          if terminal st then t1\<lparr>tk_exit := Some (exit_code st)\<rparr> else t1)"
      obtain q h1 where w: "write_record (rd_store d) t2 (rn_host s) = (q, h1)" by fastforce
      with h Inr True have "h' = h1"
        by (auto simp: transition_def t2_def Let_def split: sum.splits)
      with write_record_cases [OF w] l True h(2) show ?thesis by (auto simp: t2_def Let_def)
    qed
  qed
qed

lemma stamps_fields:
  assumes "stamps f"
  shows "tk_id (f t) = tk_id t" "tk_state (f t) = tk_state t" "tk_exit (f t) = tk_exit t" "tk_files (f t) = tk_files t"
    "tk_grounding (f t) = tk_grounding t" "tk_approvals (f t) = tk_approvals t"
proof -
  obtain a b where "f t = t\<lparr>tk_started_at := a, tk_finished_at := b\<rparr>" using assms unfolding stamps_def by blast
  then show "tk_id (f t) = tk_id t" "tk_state (f t) = tk_state t" "tk_exit (f t) = tk_exit t" "tk_files (f t) = tk_files t"
    "tk_grounding (f t) = tk_grounding t" "tk_approvals (f t) = tk_approvals t" by simp_all
qed

lemma shadow_fields [simp]:
  "tk_id (shadow j t) = tk_id t" "tk_state (shadow j t) = tk_state t" "tk_exit (shadow j t) = tk_exit t"
  "tk_files (shadow j t) = tk_files (jb_task j)" "tk_grounding (shadow j t) = tk_grounding (jb_task j)"
  by (simp_all add: shadow_def)

definition audited :: "task \<Rightarrow> bool" where
  "audited t \<longleftrightarrow> clean (tk_grounding t) \<and> audits_all (tk_grounding t) (tk_files t)"

definition done_ok :: "'x task_host \<Rightarrow> 'x runner \<Rightarrow> bool" where
  "done_ok h s \<longleftrightarrow> (\<forall>i t. record_at (rn_host s) i = Some t \<longrightarrow> tk_state t = Done \<longrightarrow> record_at h i = Some t \<or> audited t)"

lemma done_ok_update:
  assumes "done_ok h s" and "th_files (rn_host s') = AList.update i (Stored t) (th_files (rn_host s))"
    and "tk_state t = Done \<longrightarrow> audited t"
  shows "done_ok h s'"
  using assms record_at_update [OF assms(2)] by (auto simp: done_ok_def)

lemma done_ok_files: "done_ok h s \<Longrightarrow> th_files (rn_host s') = th_files (rn_host s) \<Longrightarrow> done_ok h s'"
  by (simp add: done_ok_def record_at_def)

definition audited_write :: "task_state \<Rightarrow> job \<Rightarrow> bool" where
  "audited_write st j \<longleftrightarrow> (st = Done \<longrightarrow> audited (jb_task j))"

lemma files_simps [simp]:
  "rn_host (offer n k s) = rn_host s" "rn_host (close_channel k s) = rn_host s" "rn_host (release s) = rn_host s"
  "th_files (rn_host (set_world x s)) = th_files (rn_host s)"
  by (simp_all add: offer_def close_channel_def release_def set_world_def Let_def fault_of_def)

lemma host_close_channels [simp]: "rn_host (fold close_channel ks s) = rn_host s"
  by (induction ks arbitrary: s) simp_all

lemma host_close_subs [simp]: "rn_host (close_subs i s) = rn_host s"
  by (simp add: close_subs_def Let_def)

lemma host_offers [simp]: "rn_host (fold (offer n) ks s) = rn_host s"
  by (induction ks arbitrary: s) simp_all

lemma files_narrate [simp]: "th_files (rn_host (narrate d t k msg s)) = th_files (rn_host s)"
  by (simp add: narrate_def Let_def log_of_def)

lemma files_call [simp]: "th_files (rn_host (snd (call f s))) = th_files (rn_host s)"
  by (simp add: call_def case_prod_beta)

lemma kept_done: "kept_by_worker d audited_write (done_ok h)"
  unfolding kept_by_worker_def
proof (intro conjI allI impI)
  fix st f j s
  assume a: "stamps f" "audited_write st j" "done_ok h s"
  obtain r s' where w: "write_state d st f j s = (r, s')" by fastforce
  show "done_ok h (snd (write_state d st f j s))"
    using write_state_records [OF w]
  proof (elim disjE exE conjE)
    assume "th_files (rn_host s') = th_files (rn_host s)"
    with w show ?thesis by (simp add: done_ok_files [OF a(3)])
  next
    fix t
    let ?t1 = "f (shadow j (t\<lparr>tk_state := st\<rparr>))"
    let ?t2 = "if terminal st then ?t1\<lparr>tk_exit := Some (exit_code st)\<rparr> else ?t1"
    assume "let t1 = ?t1; t2 = if terminal st then t1\<lparr>tk_exit := Some (exit_code st)\<rparr> else t1
      in th_files (rn_host s') = AList.update (tk_id t2) (Stored t2) (th_files (rn_host s))"
    then have u: "th_files (rn_host s') = AList.update (tk_id ?t2) (Stored ?t2) (th_files (rn_host s))" by (simp add: Let_def)
    have "tk_state ?t2 = st" "tk_grounding ?t2 = tk_grounding (jb_task j)" "tk_files ?t2 = tk_files (jb_task j)"
      using stamps_fields [OF a(1)] by simp_all
    then have "tk_state ?t2 = Done \<longrightarrow> audited ?t2" using a(2) unfolding audited_write_def audited_def by metis
    from done_ok_update [OF a(3) u this] w show ?thesis by simp
  qed
qed (erule done_ok_files, simp)+

lemma done_ok_cong: "th_files (rn_host s') = th_files (rn_host s) \<Longrightarrow> done_ok h s' = done_ok h s"
  by (simp add: done_ok_def record_at_def)

lemma done_ok_call [simp]: "done_ok h (snd (call f s)) = done_ok h s"
  by (rule done_ok_cong [OF files_call])

lemma done_ok_create:
  assumes "done_ok h s" and "tk_state t \<noteq> Done"
  shows "done_ok h (snd (on_store (create_task os t) s))"
proof -
  obtain r h' where c: "create_task os t (rn_host s) = (r, h')" by fastforce
  define t1 where "t1 = t\<lparr>tk_exit := (if terminal (tk_state t) then Some (exit_code (tk_state t)) else tk_exit t),
                    tk_schema := schema_version\<rparr>"
  have "th_files h' = th_files (rn_host s) \<or> th_files h' = AList.update (tk_id t) (Stored t1) (th_files (rn_host s))"
    using c write_record_cases [of os t1 "rn_host s" r h']
    by (auto simp: create_task_def t1_def [symmetric] split: if_splits option.splits) (simp_all add: t1_def)
  then show ?thesis
    using done_ok_files [OF assms(1)] done_ok_update [OF assms(1), of _ "tk_id t" t1] assms(2)
    by (auto simp: on_store_def c t1_def)
qed

lemma done_ok_submit:
  fixes s :: "'x runner" and d :: "('x, 'c) run_deps"
  assumes "done_ok h s"
  shows "done_ok h (snd (submit d req s))"
proof -
  have a: "done_ok h (snd (accept d i r s)) = done_ok h s" for i r and s :: "'x runner"
    by (rule done_ok_cong) (simp add: accept_def Let_def)
  have r: "done_ok h (snd (refusal_of d cfg ws s)) = done_ok h s" for cfg ws and s :: "'x runner"
    by (simp add: refusal_of_def case_prod_beta)
  have "done_ok h (snd (submit_with d req mode cfg s))" if "done_ok h s" for mode cfg and s :: "'x runner"
    using that by (simp add: submit_with_def case_prod_beta r a done_ok_create submitted_task_def split: sum.split)
  then show ?thesis using assms by (simp add: submit_def Let_def case_prod_beta split: sum.split)
qed

lemma done_ok_cancel:
  assumes "done_ok h s" and "stamps f"
  shows "done_ok h (snd (on_store (transition os i Cancelled f) s))"
proof -
  obtain r h' where c: "transition os i Cancelled f (rn_host s) = (r, h')" by fastforce
  have "th_files h' = th_files (rn_host s) \<or> (\<exists>t j. tk_state t = Cancelled \<and> th_files h' = AList.update j (Stored t) (th_files (rn_host s)))"
  proof (cases "load_task os i (rn_host s)")
    case (Inl e)
    with c show ?thesis by (simp add: transition_def)
  next
    case (Inr t)
    define t2 where "t2 = (f (t\<lparr>tk_state := Cancelled\<rparr>))\<lparr>tk_exit := Some (exit_code Cancelled)\<rparr>"
    obtain q h1 where w: "write_record os t2 (rn_host s) = (q, h1)" by fastforce
    have "tk_state t2 = Cancelled" using stamps_fields [OF assms(2)] by (simp add: t2_def)
    moreover have "h' = (if can_transition (tk_state t) Cancelled then h1 else rn_host s)"
      using c Inr w by (auto simp: transition_def t2_def terminal_def Let_def split: sum.splits)
    ultimately show ?thesis using write_record_cases [OF w] by auto
  qed
  then show ?thesis
    using done_ok_files [OF assms(1)] done_ok_update [OF assms(1)] by (auto simp: on_store_def c)
qed

lemma done_ok_client:
  assumes "is_client l" and "done_ok h s"
  shows "done_ok h (client_step d l s)"
proof (cases l)
  case (Submit req)
  with assms show ?thesis by (simp add: client_step_def done_ok_submit)
next
  case (Cancel i)
  show ?thesis
  proof (cases "i \<in> set (rn_queue s)")
    case True
    let ?s = "s\<lparr>rn_queue := remove1 i (rn_queue s)\<rparr>"
    have "done_ok h ?s" using assms(2) by (rule done_ok_files) simp
    then have "done_ok h (snd (on_store (transition (rd_store d) i Cancelled (\<lambda>t. t\<lparr>tk_finished_at := now_of d s\<rparr>)) ?s))"
      by (intro done_ok_cancel) simp_all
    with Cancel True show ?thesis
      by (auto simp: client_step_def cancel_task_def Let_def split: sum.splits prod.splits elim!: done_ok_files)
  next
    case False
    have "th_files (rn_host (client_step d l s)) = th_files (rn_host s)"
      using Cancel False by (simp add: client_step_def cancel_task_def cancel_active_def Let_def fault_of_def)
    then show ?thesis by (rule done_ok_files [OF assms(2)])
  qed
next
  case (Answer i g)
  have "th_files (rn_host (client_step d l s)) = th_files (rn_host s)"
    using Answer by (simp add: client_step_def answer_def Let_def fault_of_def)
  then show ?thesis by (rule done_ok_files [OF assms(2)])
next
  case Close
  have "th_files (rn_host (client_step d l s)) = th_files (rn_host s)"
    using Close by (simp add: client_step_def close_runner_def cancel_active_def Let_def fault_of_def)
  then show ?thesis by (rule done_ok_files [OF assms(2)])
next
  case (Subscribe i)
  have "th_files (rn_host (client_step d l s)) = th_files (rn_host s)"
    using Subscribe by (simp add: client_step_def subscribe_def Let_def split: sum.split)
  then show ?thesis by (rule done_ok_files [OF assms(2)])
next
  case (Unsubscribe i k)
  have "th_files (rn_host (client_step d l s)) = th_files (rn_host s)"
    using Unsubscribe by (simp add: client_step_def unsubscribe_def)
  then show ?thesis by (rule done_ok_files [OF assms(2)])
next
  case (Receive k)
  have "th_files (rn_host (client_step d l s)) = th_files (rn_host s)"
    using Receive by (simp add: client_step_def receive_def)
  then show ?thesis by (rule done_ok_files [OF assms(2)])
qed (use assms(1) in \<open>simp_all add: is_client_def\<close>)

lemma done_ignores: "ignores_control (done_ok h)"
  by (simp add: ignores_control_def done_ok_def)

interpretation done_tasks: runner_invariant d audited_write "done_ok h" for d :: "('x, 'c) run_deps" and h
  by unfold_locales
     (auto simp: kept_done done_ignores done_ok_client audited_write_def audited_def set_grounding_def)

text \<open>C14: A task ends done only when its audit was clean: in any run, a record whose state is done is the
  record that was already done before the runner started, or its grounding says it was checked, covers
  exactly the files the task wrote, and lists no unsupported claim for any of them.\<close>

theorem done_tasks_audited:
  assumes "run_inputs d ls (new_runner h) = Some s" and "record_at (rn_host s) i = Some t" and "tk_state t = Done"
  shows "record_at h i = Some t
    \<or> (gr_checked (tk_grounding t)
       \<and> set (map gd_path (gr_documents (tk_grounding t))) = set (map fe_path (tk_files t))
       \<and> (\<forall>doc \<in> set (gr_documents (tk_grounding t)). gd_unsupported doc = []))"
proof -
  have "done_ok h (new_runner h)" by (simp add: done_ok_def new_runner_def)
  from done_tasks.runs [OF assms(1) this] assms(2,3) have "record_at h i = Some t \<or> audited t"
    unfolding done_ok_def by blast
  then show ?thesis unfolding audited_def clean_def audits_all_def by blast
qed

end
