(* ===== verification/TaskRunOrder.thy ===== *)
theory TaskRunOrder
  imports TaskRunLive
begin

text \<open>
  The runner on a disk that works, started after a recovery: one task at a time, every other open record
  queued, a cancelled task ends on its word, a closed runner's worker halts.
\<close>

subsection \<open>Records under the worker's steps\<close>

definition recs :: "'x runner \<Rightarrow> string \<Rightarrow> task option" where
  "recs s = record_at (rn_host s)"

definition sound_store :: "'x runner \<Rightarrow> bool" where
  "sound_store s \<longleftrightarrow> wf_store (rn_host s)"

lemma store_cong:
  "th_files (rn_host s') = th_files (rn_host s) \<Longrightarrow> recs s' = recs s"
  "th_files (rn_host s') = th_files (rn_host s) \<Longrightarrow> sound_store s' = sound_store s"
  by (auto simp: recs_def record_at_def sound_store_def wf_store_def)

lemma recs_simps [simp]:
  "recs (narrate d t k msg s) = recs s" "recs (snd (call f s)) = recs s" "recs (set_world x s) = recs s"
  "recs (close_subs i s) = recs s" "recs (release s) = recs s"
  "recs (s\<lparr>rn_queue := q\<rparr>) = recs s" "recs (s\<lparr>rn_active := a\<rparr>) = recs s" "recs (s\<lparr>rn_phase := ph\<rparr>) = recs s"
  "recs (s\<lparr>rn_current := b\<rparr>) = recs s" "recs (s\<lparr>rn_sent := cs\<rparr>) = recs s" "recs (s\<lparr>rn_wake := b\<rparr>) = recs s"
  by (rule store_cong(1), simp)+

lemma sound_simps [simp]:
  "sound_store (narrate d t k msg s) = sound_store s" "sound_store (snd (call f s)) = sound_store s"
  "sound_store (set_world x s) = sound_store s"
  "sound_store (close_subs i s) = sound_store s" "sound_store (release s) = sound_store s"
  "sound_store (s\<lparr>rn_queue := q\<rparr>) = sound_store s" "sound_store (s\<lparr>rn_active := a\<rparr>) = sound_store s"
  "sound_store (s\<lparr>rn_phase := ph\<rparr>) = sound_store s"
  "sound_store (s\<lparr>rn_current := b\<rparr>) = sound_store s" "sound_store (s\<lparr>rn_sent := cs\<rparr>) = sound_store s"
  "sound_store (s\<lparr>rn_wake := b\<rparr>) = sound_store s"
  by (rule store_cong(2), simp)+

lemma recs_say [simp]: "recs (snd (say d msg js)) = recs (snd js)" "sound_store (snd (say d msg js)) = sound_store (snd js)"
  by (simp_all add: say_def case_prod_beta)

lemma recs_valid: "sound_store s \<Longrightarrow> recs s i = Some t \<Longrightarrow> valid_id i \<and> wf_task i t \<and> map_of (th_files (rn_host s)) i = Some (Stored t)"
  using wf_store_at [of "rn_host s" i]
  by (auto simp: sound_store_def recs_def record_at_def split: option.splits task_file.splits)

lemma load_works:
  assumes "faultless (rd_store d)" "sound_store s" "recs s i = Some t"
  shows "load_of d i s = Inr t"
  using recs_valid [OF assms(2,3)] assms(1) by (simp add: load_of_def load_task_def faultless_def)

lemma store_transition_works:
  assumes "faultless os" "wf_store h" "record_at h i = Some t" "state_step (tk_state t) st" "tame_mutation f"
  shows "\<exists>t' h'. transition os i st f h = (Inr t', h') \<and> wf_store h' \<and> tk_state t' = st \<and> tk_id t' = i
    \<and> record_at h' = (record_at h)(i \<mapsto> t')"
proof -
  have m: "map_of (th_files h) i = Some (Stored t)"
    using assms(3) by (simp add: record_at_def split: option.splits task_file.splits)
  from faultless_load [OF assms(1,2) m] have l: "load_task os i h = Inr t" and w: "wf_task i t" by auto
  obtain r h' where tr: "transition os i st f h = (r, h')" by fastforce
  define t2 where "t2 = (let t1 = f (t\<lparr>tk_state := st\<rparr>) in if terminal st then t1\<lparr>tk_exit := Some (exit_code st)\<rparr> else t1)"
  have id2: "tk_id t2 = i" "tk_state t2 = st"
    using assms(5) w by (simp_all add: t2_def Let_def tame_mutation_def wf_task_def)
  obtain o' x where wr: "to_write os (tk_id t2) (th_world h) = (o', x)" by fastforce
  with assms(1) have "o' = Written" unfolding faultless_def by (metis fst_conv)
  then have "write_record os t2 h = (Inr (), h\<lparr>th_world := x, th_files := AList.update (tk_id t2) (Stored t2) (th_files h)\<rparr>)"
    using wr by (simp add: write_record_def Let_def)
  moreover have "transition os i st f h = (case write_record os t2 h of (Inl e, h') \<Rightarrow> (Inl e, h') | (Inr _, h') \<Rightarrow> (Inr t2, h'))"
    using assms(4) by (simp add: transition_def l can_transition_iff t2_def Let_def split: sum.split prod.split)
  ultimately have r: "r = Inr t2" "th_files h' = AList.update i (Stored t2) (th_files h)" using tr id2(1) by auto
  have "record_at h' = (record_at h)(i \<mapsto> t2)" using record_at_update [OF r(2)] by auto
  with tr r id2 transition_facts [OF tr assms(5,2)] show ?thesis by blast
qed

lemma tame_shadow: "stamps f \<Longrightarrow> tame_mutation (\<lambda>t. f (shadow j t))"
  by (simp add: tame_mutation_def stamps_fields)

lemma write_state_works:
  assumes "faultless (rd_store d)" "sound_store s" "recs s (tk_id (jb_task j)) = Some t"
    "state_step (tk_state t) st" "stamps f"
  obtains t' s' where "write_state d st f j s = (Inr t', s')" "sound_store s'" "tk_state t' = st"
    "tk_id t' = tk_id (jb_task j)" "recs s' = (recs s)(tk_id (jb_task j) \<mapsto> t')" "ctl s' = ctl s" "rn_current s' = rn_current s"
proof -
  from store_transition_works [OF assms(1) _ _ assms(4) tame_shadow [OF assms(5)], of "rn_host s" "tk_id (jb_task j)" j]
    assms(2,3) obtain t' h' where
    "transition (rd_store d) (tk_id (jb_task j)) st (\<lambda>t. f (shadow j t)) (rn_host s) = (Inr t', h')" "wf_store h'"
    "tk_state t' = st" "tk_id t' = tk_id (jb_task j)" "record_at h' = (record_at (rn_host s))(tk_id (jb_task j) \<mapsto> t')"
    by (auto simp: sound_store_def recs_def)
  then show thesis
    by (intro that [of t' "s\<lparr>rn_host := h'\<rparr>"])
       (simp_all add: write_state_def on_store_def sound_store_def recs_def ctl_def)
qed

lemma write_state_refused:
  assumes "faultless (rd_store d)" "sound_store s" "recs s (tk_id (jb_task j)) = Some t" "\<not> state_step (tk_state t) st"
  shows "\<exists>e. write_state d st f j s = (Inl e, s)"
proof -
  have "load_task (rd_store d) (tk_id (jb_task j)) (rn_host s) = Inr t"
    using load_works [OF assms(1-3)] by (simp add: load_of_def)
  with assms(4) show ?thesis by (simp add: write_state_def on_store_def transition_def can_transition_iff)
qed

lemma current_offers [simp]: "rn_current (fold (offer n) ks s) = rn_current s"
  by (induction ks arbitrary: s) (simp_all add: offer_def Let_def fault_of_def)

lemma current_narrate [simp]: "rn_current (narrate d t k msg s) = rn_current s"
  by (simp add: narrate_def Let_def log_of_def set_world_def)

lemma current_say [simp]: "rn_current (snd (say d msg js)) = rn_current (snd js)"
  by (simp add: say_def case_prod_beta)

lemma current_call [simp]: "rn_current (snd (call f s)) = rn_current s"
  by (simp add: call_def case_prod_beta set_world_def)

lemma move_works:
  assumes "faultless (rd_store d)" "sound_store s" "recs s (tk_id (jb_task j)) = Some t"
    "state_step (tk_state t) st" "stamps f"
  obtains t' s' where "move d st f (j, s) = (j\<lparr>jb_task := t'\<rparr>, s')" "sound_store s'" "tk_state t' = st"
    "tk_id t' = tk_id (jb_task j)" "recs s' = (recs s)(tk_id (jb_task j) \<mapsto> t')" "rn_current s' = rn_current s" "ctl s' = ctl s"
proof -
  obtain t' s' where w: "write_state d st f j s = (Inr t', s')" "sound_store s'" "tk_state t' = st"
    "tk_id t' = tk_id (jb_task j)" "recs s' = (recs s)(tk_id (jb_task j) \<mapsto> t')" "ctl s' = ctl s" "rn_current s' = rn_current s"
    by (rule write_state_works [OF assms])
  then show thesis
    by (intro that [of t' "narrate d t' kind_state (state_text st) s'"]) (simp_all add: move_def)
qed

text \<open>The end of a task: the wanted state when the edge is there, failed from a running task otherwise.\<close>

definition can_end :: "task \<Rightarrow> task_state \<Rightarrow> bool" where
  "can_end t st \<longleftrightarrow> state_step (tk_state t) st \<or> (st \<noteq> Failed \<and> state_step (tk_state t) Failed)"

lemma finish_works:
  assumes "faultless (rd_store d)" "sound_store (snd js)" "recs (snd js) (tk_id (jb_task (fst js))) = Some t"
    "can_end t st"
  shows "\<exists>t'. sound_store (snd (finish d st msg js)) \<and> recs (snd (finish d st msg js)) = (recs (snd js))(tk_id (jb_task (fst js)) \<mapsto> t')
    \<and> tk_state t' = (if state_step (tk_state t) st then st else Failed)"
  using assms
proof (induction d st msg js rule: finish.induct)
  case (1 d st msg js)
  obtain j s where a: "say d msg js = (j, s)" by fastforce
  have j: "fst js = j" using a fst_say [of d msg js] by simp
  have s: "sound_store s" "recs s = recs (snd js)" using recs_say [of d msg js] a 1(3) by simp_all
  let ?i = "tk_id (jb_task j)" and ?f = "\<lambda>t. t\<lparr>tk_finished_at := now_of d s\<rparr>"
  have r: "recs s ?i = Some t" using 1(4) s(2) j by simp
  show ?case
  proof (cases "state_step (tk_state t) st")
    case True
    obtain t' s' where w: "write_state d st ?f j s = (Inr t', s')" "sound_store s'" "tk_state t' = st"
      "recs s' = (recs s)(?i \<mapsto> t')"
      by (rule write_state_works [OF 1(2) s(1) r True, of ?f]) (simp, blast)
    with a show ?thesis
      by (subst (1 2) finish.simps) (simp add: Let_def True s(2) j, blast)
  next
    case False
    obtain e where w: "write_state d st ?f j s = (Inl e, s)" using write_state_refused [OF 1(2) s(1) r False] by blast
    from False 1(5) have st: "st \<noteq> Failed" "state_step (tk_state t) Failed" by (auto simp: can_end_def)
    obtain j2 s2 where c: "say d (''bug: '' @ rd_error_text d e) (j, s) = (j2, s2)" by fastforce
    have j2: "j2 = j" "recs s2 = recs s" "sound_store s2"
      using c fst_say [of d _ "(j, s)"] recs_say [of d "''bug: '' @ rd_error_text d e" "(j, s)"] s(1) by (metis fst_conv snd_conv)+
    from "1.IH" [OF a [symmetric] refl w [symmetric] refl c [symmetric] st(1) 1(2)] j2 r st(2) False
    have "\<exists>t'. sound_store (snd (finish d Failed ''failed: an illegal state transition was attempted'' (j2, s2)))
       \<and> recs (snd (finish d Failed ''failed: an illegal state transition was attempted'' (j2, s2))) = (recs s)(?i \<mapsto> t')
       \<and> tk_state t' = Failed"
      by (simp add: can_end_def fun_upd_def)
    with a w c st(1) False s(2) j show ?thesis by (subst (1 2) finish.simps) (simp add: Let_def)
  qed
qed

subsection \<open>The invariant\<close>

definition busy :: "phase \<Rightarrow> job option" where
  "busy ph = (case ph of AwaitingReady j \<Rightarrow> Some j | Serving j \<Rightarrow> Some j | Auditing j \<Rightarrow> Some j | _ \<Rightarrow> None)"

definition state_in :: "phase \<Rightarrow> task_state \<Rightarrow> bool" where
  "state_in ph st \<longleftrightarrow> (case ph of
     AwaitingReady j \<Rightarrow> st = Queued \<and> jb_pending j < 0
   | Serving j \<Rightarrow> st = (if jb_pending j < 0 then Running else AwaitingApproval)
   | Auditing j \<Rightarrow> st \<in> {Running, AwaitingApproval}
   | _ \<Rightarrow> False)"

definition orderly :: "'x runner \<Rightarrow> bool" where
  "orderly s \<longleftrightarrow> sound_store s \<and> distinct (rn_queue s)
     \<and> (\<forall>i \<in> set (rn_queue s). \<exists>t. recs s i = Some t \<and> tk_state t = Queued)
     \<and> (\<forall>i t. recs s i = Some t \<longrightarrow> terminal (tk_state t) \<or> i \<in> set (rn_queue s)
           \<or> (\<exists>j. busy (rn_phase s) = Some j \<and> i = tk_id (jb_task j)))
     \<and> (\<forall>j. busy (rn_phase s) = Some j \<longrightarrow> rn_current s \<and> tk_id (jb_task j) = ac_id (rn_active s)
           \<and> ac_id (rn_active s) \<notin> set (rn_queue s)
           \<and> (\<exists>t. recs s (tk_id (jb_task j)) = Some t \<and> state_in (rn_phase s) (tk_state t)))"

text \<open>A step that leaves the records, the queue and the active task alone, and a phase with the same job
  and state.\<close>

lemma orderly_same:
  assumes "orderly s" "recs s' = recs s" "sound_store s'" "rn_queue s' = rn_queue s"
    "busy (rn_phase s') = Some j'" "busy (rn_phase s) = Some j" "tk_id (jb_task j') = tk_id (jb_task j)"
    "rn_current s' = rn_current s" "ac_id (rn_active s') = ac_id (rn_active s)"
    "\<And>st. state_in (rn_phase s) st \<Longrightarrow> state_in (rn_phase s') st"
  shows "orderly s'"
  using assms(1) unfolding orderly_def by (auto simp: assms(2-9) intro: assms(10))

text \<open>The job's record moves along an edge.\<close>

lemma orderly_moved:
  assumes "orderly s" "busy (rn_phase s) = Some j" "recs s' = (recs s)(tk_id (jb_task j) \<mapsto> t)" "sound_store s'"
    "rn_queue s' = rn_queue s" "busy (rn_phase s') = Some j'" "tk_id (jb_task j') = tk_id (jb_task j)"
    "rn_current s' = rn_current s" "ac_id (rn_active s') = ac_id (rn_active s)" "state_in (rn_phase s') (tk_state t)"
  shows "orderly s'"
  using assms unfolding orderly_def by (auto split: if_splits)

text \<open>The job's record reaches a terminal state and the worker goes back to the queue.\<close>

lemma orderly_ended:
  assumes "orderly s" "busy (rn_phase s) = Some j" "recs s' = (recs s)(tk_id (jb_task j) \<mapsto> t)" "sound_store s'"
    "rn_queue s' = rn_queue s" "terminal (tk_state t)" "rn_phase s' = Looking"
  shows "orderly s'"
  using assms unfolding orderly_def by (auto simp: busy_def split: if_splits)

lemma ends_terminal: "can_end t st \<Longrightarrow> terminal st \<Longrightarrow> terminal (if state_step (tk_state t) st then st else Failed)"
  by (simp add: terminal_def)

lemma finish_ends:
  assumes f: "faultless (rd_store d)" and o: "orderly s" and b: "busy (rn_phase s) = Some j"
    and js: "fst js = j'" "tk_id (jb_task j') = tk_id (jb_task j)" "recs (snd js) = recs s" "sound_store (snd js)"
       "rn_queue (snd js) = rn_queue s"
    and r: "recs s (tk_id (jb_task j)) = Some t" "can_end t st" "terminal st"
  shows "orderly (ended (finish d st msg js))
    \<and> (\<exists>t'. recs (ended (finish d st msg js)) (tk_id (jb_task j)) = Some t' \<and> tk_state t' = (if state_step (tk_state t) st then st else Failed))"
proof -
  have "recs (snd js) (tk_id (jb_task (fst js))) = Some t" using js r(1) by simp
  from finish_works [OF f js(4) this r(2)] obtain t' where
    t: "sound_store (snd (finish d st msg js))" "recs (snd (finish d st msg js)) = (recs s)(tk_id (jb_task j) \<mapsto> t')"
      "tk_state t' = (if state_step (tk_state t) st then st else Failed)"
    using js by auto
  have q: "rn_queue (snd (finish d st msg js)) = rn_queue s"
    using ctl_job(2) [of d st msg js] js(5) by (simp add: ctl_def)
  have "terminal (tk_state t')" using ends_terminal [OF r(2,3)] t(3) by simp
  then have "orderly (ended (finish d st msg js))"
    by (intro orderly_ended [OF o b, of _ t']) (simp_all add: ended_def job_ends_def t q)
  then show ?thesis using t by (simp add: ended_def job_ends_def)
qed

subsection \<open>The worker's arms\<close>

definition same_place :: "job \<times> 'x runner \<Rightarrow> job \<times> 'x runner \<Rightarrow> bool" where
  "same_place js js' \<longleftrightarrow> recs (snd js') = recs (snd js) \<and> sound_store (snd js') = sound_store (snd js)
     \<and> rn_queue (snd js') = rn_queue (snd js) \<and> rn_current (snd js') = rn_current (snd js)
     \<and> ac_id (rn_active (snd js')) = ac_id (rn_active (snd js)) \<and> rn_phase (snd js') = rn_phase (snd js)
     \<and> tk_id (jb_task (fst js')) = tk_id (jb_task (fst js)) \<and> jb_pending (fst js') = jb_pending (fst js)"

lemma same_place_refl [simp]: "same_place js js"
  by (simp add: same_place_def)

lemma same_place_trans: "same_place js js1 \<Longrightarrow> same_place js1 js2 \<Longrightarrow> same_place js js2"
  by (simp add: same_place_def)

lemma ctl_place: "ctl s' = ctl s \<Longrightarrow> rn_queue s' = rn_queue s \<and> ac_id (rn_active s') = ac_id (rn_active s) \<and> rn_phase s' = rn_phase s"
  by (simp add: ctl_def)

lemma place_say [simp]: "same_place js (say d msg js)"
  using ctl_place [OF ctl_job(1) [of d msg js]] by (simp add: same_place_def)

lemma place_log [simp]: "same_place js (log_harness d ev js)"
  using ctl_place [OF ctl_job(4) [of d ev js]]
  by (simp add: same_place_def log_harness_def case_prod_beta log_of_def) (simp add: set_world_def)

lemma place_grant [simp]: "same_place js (grant d pid g js)"
proof -
  let ?s = "(snd js)\<lparr>rn_sent := rn_sent (snd js) @ [CmdGrant pid g]\<rparr>"
  obtain e s1 where c: "call (rd_send d (CmdGrant pid g)) ?s = (e, s1)" by fastforce
  have "recs s1 = recs (snd js)" "sound_store s1 = sound_store (snd js)" "rn_current s1 = rn_current (snd js)"
    "ctl s1 = ctl ?s"
    using recs_simps(2) [of "rd_send d (CmdGrant pid g)" ?s] sound_simps(2) [of "rd_send d (CmdGrant pid g)" ?s]
      current_call [of "rd_send d (CmdGrant pid g)" ?s] ctl_job(8) [of "rd_send d (CmdGrant pid g)" ?s] c by simp_all
  then have "same_place js (fst js, s1)" by (simp add: same_place_def ctl_def)
  then show ?thesis
    by (auto simp: grant_def send_def c case_prod_beta split: option.split intro: same_place_trans)
qed

lemma place_job: "tk_id (jb_task j') = tk_id (jb_task j) \<Longrightarrow> jb_pending j' = jb_pending j \<Longrightarrow> same_place (j, s) (j', s)"
  by (simp add: same_place_def)

lemma append_row_fields [simp]: "tk_id (jb_task (append_row r j)) = tk_id (jb_task j)" "jb_pending (append_row r j) = jb_pending j"
  by (simp_all add: append_row_def)

lemma orderly_place:
  assumes "orderly s" "same_place (j, s) js'" "busy (rn_phase s) = Some j" "busy (ph (fst js')) = Some (fst js')"
    "\<And>st. state_in (rn_phase s) st \<Longrightarrow> state_in (ph (fst js')) st"
  shows "orderly (goes_on ph js')"
  using assms
  by (intro orderly_same [OF assms(1), of _ "fst js'" j]) (auto simp: same_place_def goes_on_def orderly_def)

lemma decide_place:
  assumes f: "faultless (rd_store d)" and s: "sound_store s" and r: "recs s (tk_id (jb_task j)) = Some t"
    and st: "jb_pending j < 0 \<longrightarrow> tk_state t = Running"
  shows "same_place (j, s) (decide_request d p (j, s))
    \<or> (jb_pending j < 0 \<and> (\<exists>j' s' t'. decide_request d p (j, s) = (j', s') \<and> jb_pending j' \<ge> 0
         \<and> tk_id (jb_task j') = tk_id (jb_task j) \<and> recs s' = (recs s)(tk_id (jb_task j) \<mapsto> t')
         \<and> tk_state t' = AwaitingApproval \<and> sound_store s' \<and> rn_queue s' = rn_queue s \<and> rn_current s' = rn_current s
         \<and> ac_id (rn_active s') = ac_id (rn_active s) \<and> rn_phase s' = rn_phase s))"
proof -
  let ?dec = "decide (tk_mode (jb_task j)) (request_of d p)"
  note [simp] = decide_request_def Let_def
  have two: "same_place (j, s) (say d msg (grant d pid g (j', s)))" if "same_place (j, s) (j', s)" for msg pid g j'
    using same_place_trans [OF that same_place_trans [OF place_grant place_say]] .
  consider (full) "?dec = Ask" "jb_pending j \<ge> 0" | (session) "?dec = Ask" "jb_pending j < 0" "jb_session_allow j"
      "\<not> is_deletion (rq_command (request_of d p))"
    | (park) "?dec = Ask" "jb_pending j < 0" "\<not> (jb_session_allow j \<and> \<not> is_deletion (rq_command (request_of d p)))"
    | (allow) "?dec = Allow" | (deny) "?dec = Deny"
    using decide_set [of "tk_mode (jb_task j)" "request_of d p"] by (cases ?dec) force+
  then show ?thesis
  proof cases
    case full
    then show ?thesis by (simp add: two)
  next
    case session
    have "same_place (j, s) (session_job d p (now_of d s) j, s)" by (rule place_job) (simp_all add: session_job_def)
    with session show ?thesis by (simp add: two)
  next
    case park
    let ?j = "park_job d p (now_of d s) j" and ?s = "set_awaiting True s"
    have same: "recs ?s = recs s" "sound_store ?s = sound_store s" "tk_id (jb_task ?j) = tk_id (jb_task j)"
      by (simp_all add: set_awaiting_def park_job_def Let_def)
    have step: "state_step (tk_state t) AwaitingApproval" using st park(2) by (simp add: state_step.ask)
    obtain t' s' where m: "move d AwaitingApproval id (?j, ?s) = (?j\<lparr>jb_task := t'\<rparr>, s')" "sound_store s'"
        "tk_state t' = AwaitingApproval" "tk_id t' = tk_id (jb_task ?j)" "recs s' = (recs ?s)(tk_id (jb_task ?j) \<mapsto> t')"
        "rn_current s' = rn_current ?s" "ctl s' = ctl ?s"
      by (rule move_works [OF f, of ?s ?j t AwaitingApproval id]) (use s r same step in simp_all)
    let ?js = "(?j\<lparr>jb_task := t'\<rparr>, s')"
    have e: "decide_request d p (j, s) = say d (''awaiting approval #'' @ show_nat (nat (jb_pending ?j + 1)) @ '': '' @ what_of d p) ?js"
      using park m(1) by (cases "jb_session_allow j") simp_all
    have "same_place ?js (decide_request d p (j, s))" unfolding e by (rule place_say)
    moreover have "jb_pending ?j \<ge> 0" by (simp add: park_job_def append_row_def Let_def)
    ultimately show ?thesis using park(2) m same
      by (cases "decide_request d p (j, s)")
         (simp add: same_place_def set_awaiting_def ctl_def del: decide_request_def; blast)
  next
    case allow
    then show ?thesis by (simp add: two)
  next
    case deny
    then show ?thesis by (simp add: two)
  qed
qed

lemma serve_orderly:
  assumes f: "faultless (rd_store d)" and o': "orderly s" and ph: "rn_phase s = Serving j"
  shows "orderly (goes_on Serving (serve_event d ev (j, s)))"
proof -
  obtain t where r: "recs s (tk_id (jb_task j)) = Some t" "tk_state t = (if jb_pending j < 0 then Running else AwaitingApproval)"
    using o' ph by (auto simp: orderly_def busy_def state_in_def)
  obtain s1 where l: "log_harness d ev (j, s) = (j, s1)" using fst_log_harness [of d ev "(j, s)"] by (metis fst_conv prod.collapse)
  have p1: "same_place (j, s) (j, s1)" using place_log [of "(j, s)" d ev] l by simp
  have o1: "orderly (goes_on Serving js)" if "same_place (j, s) js" for js
    by (rule orderly_place [OF o' that]) (use ph that in \<open>auto simp: busy_def state_in_def same_place_def\<close>)
  have quiet: "orderly (goes_on Serving js)" if "same_place (j, s1) js" for js
    using o1 [OF same_place_trans [OF p1 that]] .
  show ?thesis
  proof (cases "ev_kind ev = kind_permission_request \<and> ev_permission ev \<noteq> None")
    case True
    then obtain p where e: "serve_event d ev (j, s) = decide_request d p (j, s1)"
      using l by (auto simp: serve_event_def Let_def)
    have s1: "sound_store s1" "recs s1 (tk_id (jb_task j)) = Some t" using p1 o' r by (simp_all add: same_place_def orderly_def)
    have "jb_pending j < 0 \<longrightarrow> tk_state t = Running" using r(2) by simp
    from decide_place [OF f s1 this, of p] show ?thesis
    proof (elim disjE exE conjE)
      assume "same_place (j, s1) (decide_request d p (j, s1))"
      with quiet e show ?thesis by simp
    next
      fix j' s' t'
      assume d: "decide_request d p (j, s1) = (j', s')" "0 \<le> jb_pending j'" "tk_id (jb_task j') = tk_id (jb_task j)"
        "recs s' = (recs s1)(tk_id (jb_task j) \<mapsto> t')" "tk_state t' = AwaitingApproval" "sound_store s'"
        "rn_queue s' = rn_queue s1" "rn_current s' = rn_current s1" "ac_id (rn_active s') = ac_id (rn_active s1)"
      show ?thesis
        by (rule orderly_moved [OF o', of j _ t' j'])
           (use d p1 ph in \<open>simp_all add: e goes_on_def busy_def state_in_def same_place_def\<close>)
    qed
  next
    case False
    have "same_place (j, s1) (serve_event d ev (j, s))"
    proof -
      have "same_place (j, s1) (say d msg (j', s1))" if "same_place (j, s1) (j', s1)" for msg j'
        using same_place_trans [OF that place_say] .
      then show ?thesis
        using False l
        by (auto simp: serve_event_def add_file_def Let_def same_place_def split: option.split)
    qed
    then show ?thesis by (rule quiet)
  qed
qed

lemma answer_orderly:
  assumes f: "faultless (rd_store d)" and o': "orderly s" and ph: "rn_phase s = Serving j" and p: "jb_pending j \<ge> 0"
  shows "orderly (goes_on Serving (answer_pending d ans (j, take_answer s)))"
proof -
  obtain t where r: "recs s (tk_id (jb_task j)) = Some t" "tk_state t = AwaitingApproval"
    using o' ph p by (auto simp: orderly_def busy_def state_in_def)
  let ?j = "answered_job ans (now_of d (take_answer s)) j"
  have j: "tk_id (jb_task ?j) = tk_id (jb_task j)" by (simp add: answered_job_def Let_def)
  obtain s1 where g: "grant d (jb_pending_id j) (fst ans) (?j, take_answer s) = (?j, s1)"
    using fst_grant by (metis fst_conv prod.collapse)
  have pl: "recs s1 = recs s" "sound_store s1 = sound_store s" "rn_queue s1 = rn_queue s" "rn_current s1 = rn_current s"
      "ac_id (rn_active s1) = ac_id (rn_active s)"
    using place_grant [of "(?j, take_answer s)" d "jb_pending_id j" "fst ans"] g
    by (simp_all add: same_place_def take_answer_def)
  obtain t' s2 where m: "move d Running id (?j\<lparr>jb_pending := -1\<rparr>, s1) = (?j\<lparr>jb_pending := -1\<rparr>\<lparr>jb_task := t'\<rparr>, s2)" "sound_store s2"
      "tk_state t' = Running" "tk_id t' = tk_id (jb_task j)" "recs s2 = (recs s1)(tk_id (jb_task j) \<mapsto> t')"
      "rn_current s2 = rn_current s1" "ctl s2 = ctl s1"
    by (rule move_works [OF f, of s1 "?j\<lparr>jb_pending := -1\<rparr>" t Running id])
       (use r pl o' j in \<open>simp_all add: orderly_def state_step.answered\<close>)
  let ?j2 = "?j\<lparr>jb_pending := -1\<rparr>\<lparr>jb_task := t'\<rparr>"
  obtain s3 where sy: "answer_pending d ans (j, take_answer s) = (?j2, s3)" and s3: "same_place (?j2, s2) (?j2, s3)"
  proof -
    let ?say = "say d (''approval #'' @ show_nat (length (tk_approvals (jb_task ?j2))) @ '' answered ''
                  @ grant_text (fst ans) @ '' by '' @ snd ans) (?j2, s2)"
    have "answer_pending d ans (j, take_answer s) = ?say" using p g m(1) by (simp add: answer_pending_def)
    moreover have "fst ?say = ?j2" by simp
    ultimately show thesis using that [of "snd ?say"] place_say [of "(?j2, s2)" d] by (metis prod.collapse)
  qed
  show ?thesis
    by (rule orderly_moved [OF o', of j _ t' ?j2])
       (use s3 sy m pl ph in \<open>simp_all add: goes_on_def busy_def state_in_def same_place_def ctl_def\<close>)
qed

lemma in_step: "state_in ph st \<Longrightarrow> st \<in> {Queued, Running, AwaitingApproval}"
  by (auto simp: state_in_def split: phase.splits if_splits)

lemma end_edges [simp]:
  "state_step Queued Refused" "s \<in> {Queued, Running, AwaitingApproval} \<Longrightarrow> state_step s Cancelled"
  "s \<in> {Queued, Running, AwaitingApproval} \<Longrightarrow> state_step s Interrupted" "state_step Running Done" "state_step Running Flagged"
  "state_step Running Failed" "state_step AwaitingApproval Failed" "state_step Queued Running"
  "\<not> state_step AwaitingApproval Done" "\<not> state_step AwaitingApproval Flagged"
  by (auto simp: state_step_from)

lemma end_states [simp]: "terminal Refused" "terminal Failed" "terminal Cancelled" "terminal Interrupted" "terminal Done" "terminal Flagged"
  by (simp_all add: terminal_def)

lemma busy_record:
  assumes "orderly s" "busy (rn_phase s) = Some j"
  obtains t where "recs s (tk_id (jb_task j)) = Some t" "state_in (rn_phase s) (tk_state t)"
  using assms unfolding orderly_def by blast

lemma busy_ex: "orderly s \<Longrightarrow> busy (rn_phase s) = Some j \<Longrightarrow>
    \<exists>t. recs s (tk_id (jb_task j)) = Some t \<and> state_in (rn_phase s) (tk_state t)"
  unfolding orderly_def by blast

lemma start_orderly:
  assumes f: "faultless (rd_store d)" and o': "orderly s" and ph: "rn_phase s = Looking" and q: "rn_queue s = i # is"
  shows "orderly (start_job d i (s\<lparr>rn_queue := is, rn_current := True, rn_active := new_active i\<rparr>))"
proof -
  let ?s = "s\<lparr>rn_queue := is, rn_current := True, rn_active := new_active i\<rparr>"
  obtain t where r: "recs s i = Some t" "tk_state t = Queued" using o' q by (auto simp: orderly_def)
  have snd: "sound_store ?s" "recs ?s i = Some t" using o' r by (simp_all add: orderly_def)
  note l = load_works [OF f snd]
  have i: "tk_id t = i" using recs_valid [of s i t] o' r by (simp add: orderly_def wf_task_def)
  show ?thesis
  proof (rule start_job_cases [of d i ?s])
    assume "\<forall>t. load_of d i ?s = Inr t \<longrightarrow> tk_state t \<noteq> Queued"
    with l r(2) show ?thesis by simp
  next
    fix u x msg
    assume u: "load_of d i ?s = Inr u" and e: "start_job d i ?s = ended (finish d Refused msg (new_job u, set_world x ?s))"
    let ?f = "finish d Refused msg (new_job t, set_world x ?s)"
    have "u = t" using u l by simp
    have "\<exists>t'. sound_store (snd ?f) \<and> recs (snd ?f) = (recs s)(i \<mapsto> t') \<and> tk_state t' = Refused"
      using finish_works [OF f, of "(new_job t, set_world x ?s)" t Refused msg] snd r i
      by (simp add: new_job_def can_end_def)
    then obtain t' where t': "sound_store (snd ?f)" "recs (snd ?f) = (recs s)(i \<mapsto> t')" "tk_state t' = Refused" by blast
    have qf: "rn_queue (snd ?f) = is"
      using ctl_job(2) [of d Refused msg "(new_job t, set_world x ?s)"] by (simp add: ctl_def set_world_def)
    show ?thesis
      unfolding e \<open>u = t\<close> using o' q qf t' ph
      by (auto simp: orderly_def ended_def job_ends_def busy_def)
  next
    fix u x
    assume u: "load_of d i ?s = Inr u" and e: "start_job d i ?s = (set_world x ?s)\<lparr>rn_phase := AwaitingReady (new_job u)\<rparr>"
    have "u = t" using u l by simp
    have w: "rn_queue (set_world x ?s) = is" "rn_current (set_world x ?s)" "rn_active (set_world x ?s) = new_active i"
      by (simp_all add: set_world_def)
    show ?thesis
      unfolding e \<open>u = t\<close> using o' q r i w ph
      by (auto simp: orderly_def busy_def state_in_def new_job_def new_active_def)
  qed
qed

text \<open>Before a task ends: the records, the queue and the active task as in the step's first state.\<close>

definition before_end :: "'x runner \<Rightarrow> job \<times> 'x runner \<Rightarrow> bool" where
  "before_end s js \<longleftrightarrow> recs (snd js) = recs s \<and> sound_store (snd js) = sound_store s
     \<and> rn_queue (snd js) = rn_queue s \<and> ac_interrupted (rn_active (snd js)) = ac_interrupted (rn_active s)
     \<and> ac_ctx_done (rn_active (snd js)) = ac_ctx_done (rn_active s)"

lemma ends_orderly:
  assumes f: "faultless (rd_store d)" and o': "orderly s" and b: "busy (rn_phase s) = Some j"
    and js: "before_end s js" "tk_id (jb_task (fst js)) = tk_id (jb_task j)"
    and r: "recs s (tk_id (jb_task j)) = Some t" "can_end t st" "terminal st"
  shows "orderly (ended (finish d st msg js))
    \<and> (\<exists>t'. recs (ended (finish d st msg js)) (tk_id (jb_task j)) = Some t'
          \<and> tk_state t' = (if state_step (tk_state t) st then st else Failed))"
proof (rule finish_ends [OF f o' b refl js(2) _ _ _ r])
  show "recs (snd js) = recs s" "sound_store (snd js)" "rn_queue (snd js) = rn_queue s"
    using js(1) o' by (simp_all add: before_end_def orderly_def)
qed

lemma before_ctl: "recs (snd js) = recs s \<Longrightarrow> sound_store (snd js) = sound_store s \<Longrightarrow> ctl (snd js) = ctl s \<Longrightarrow> before_end s js"
  by (simp add: before_end_def ctl_def)

lemma kept_place: "kept_by_worker d (\<lambda>_ _. False) (\<lambda>s. recs s = r \<and> sound_store s = b \<and> ctl s = c)"
proof -
  have "recs (offer n k s) = recs s \<and> sound_store (offer n k s) = sound_store s" for n k and s :: "'a runner"
    by (simp add: recs_def sound_store_def)
  then show ?thesis by (simp add: kept_by_worker_def)
qed

lemma before_kill: "before_end s (kill_sandbox d (j, take_cancel s))"
proof -
  have "before_end (take_cancel s) (kill_sandbox d (j, take_cancel s))"
    using kept_kill_sandbox [OF kept_place, of "(j, take_cancel s)" _ _ _ d] by (intro before_ctl) auto
  then show ?thesis by (simp add: before_end_def take_cancel_def)
qed

lemma cancel_end:
  assumes f: "faultless (rd_store d)" and o': "orderly s" and b: "busy (rn_phase s) = Some j"
    and js: "before_end s js" "tk_id (jb_task (fst js)) = tk_id (jb_task j)"
  shows "orderly (ended (finish_after_cancel d js))
    \<and> (\<exists>t. recs (ended (finish_after_cancel d js)) (tk_id (jb_task j)) = Some t
          \<and> tk_state t = (if ac_interrupted (rn_active s) then Interrupted else Cancelled))"
proof -
  obtain t where t: "recs s (tk_id (jb_task j)) = Some t" "state_in (rn_phase s) (tk_state t)" by (rule busy_record [OF o' b])
  have c: "state_step (tk_state t) Interrupted" "state_step (tk_state t) Cancelled"
    using in_step [OF t(2)] end_edges(2,3) by blast+
  have i: "ac_interrupted (rn_active (snd js)) = ac_interrupted (rn_active s)" using js(1) by (simp add: before_end_def)
  show ?thesis
    using ends_orderly [OF f o' b js t(1), of Interrupted] ends_orderly [OF f o' b js t(1), of Cancelled] c
    by (simp add: finish_after_cancel_def i can_end_def)
qed

lemma kill_orderly:
  assumes "faultless (rd_store d)" and "orderly s" and "busy (rn_phase s) = Some j"
  shows "orderly (ended (kill_and_cancel d (j, take_cancel s)))
    \<and> (\<exists>t. recs (ended (kill_and_cancel d (j, take_cancel s))) (tk_id (jb_task j)) = Some t
          \<and> tk_state t = (if ac_interrupted (rn_active s) then Interrupted else Cancelled))"
  unfolding kill_and_cancel_def by (rule cancel_end [OF assms before_kill]) simp

lemma audit_orderly:
  assumes f: "faultless (rd_store d)" and o': "orderly s" and ph: "rn_phase s = Auditing j"
  shows "orderly (ended (audit d (j, s)))
    \<and> (ac_ctx_done (rn_active s) \<longrightarrow> (\<exists>t. recs (ended (audit d (j, s))) (tk_id (jb_task j)) = Some t
          \<and> tk_state t = (if ac_interrupted (rn_active s) then Interrupted else Cancelled)))"
proof -
  have b: "busy (rn_phase s) = Some j" using ph by (simp add: busy_def)
  obtain t where t: "recs s (tk_id (jb_task j)) = Some t" "tk_state t \<in> {Running, AwaitingApproval}"
    using busy_ex [OF o' b] ph by (auto simp: state_in_def)
  obtain srcs j1 s1 where a: "read_sources d (jb_files_read j) (j, s) = (srcs, j1, s1)" by (metis prod_cases3)
  have j1: "j1 = j" using fst_read_sources [of d "jb_files_read j" "(j, s)"] a by simp
  have p1: "recs s1 = recs s \<and> sound_store s1 = sound_store s \<and> ctl s1 = ctl s"
    using kept_read_sources [OF kept_place, of "(j, s)" _ _ _ d "jb_files_read j"] a by auto
  obtain docs checked flagged j2 s2 where
    e: "audit_files d srcs [] (tk_files (jb_task j)) (j, s1) = ((docs, checked, flagged), j2, s2)"
    by (metis prod_cases5 prod.collapse)
  have j2: "j2 = j" using fst_audit_files [of d srcs "[]" "tk_files (jb_task j)" "(j, s1)"] e by simp
  have p2: "recs s2 = recs s \<and> sound_store s2 = sound_store s \<and> ctl s2 = ctl s"
    using kept_audit_files [OF kept_place, of "(j, s1)" _ _ _ d srcs "[]" "tk_files (jb_task j)"] e p1 by auto
  have be: "before_end s (j', s2)" for j' using p2 by (intro before_ctl) simp_all
  have cx: "ac_ctx_done (rn_active s2) = ac_ctx_done (rn_active s)" using p2 by (simp add: ctl_def)
  have c: "can_end t st" if "st \<in> {Done, Flagged}" for st using t(2) that by (auto simp: can_end_def)
  let ?j = "set_grounding \<lparr>gr_checked = checked, gr_documents = docs\<rparr> j"
  have gi: "tk_id (jb_task (fst (?j, s2))) = tk_id (jb_task j)" by (simp add: set_grounding_def)
  have "audit d (j, s) = (if ac_ctx_done (rn_active s) then finish_after_cancel d (j, s2)
      else if flagged then finish d Flagged ''flagged: the audit found claims it could not support; the document is left as written'' (?j, s2)
      else finish d Done ''done'' (?j, s2))"
    by (simp add: audit_def a j1 e j2 cx Let_def set_grounding_def)
  then show ?thesis
    using cancel_end [OF f o' b be, of j] ends_orderly [OF f o' b be gi t(1) c [of Done]]
      ends_orderly [OF f o' b be gi t(1) c [of Flagged]] by simp
qed

lemma place_world [simp]: "same_place (j, s) (j, set_world x s)"
  by (simp add: same_place_def) (simp add: set_world_def)

lemma before_place: "same_place (j, s) js \<Longrightarrow> ctl (snd js) = ctl s \<Longrightarrow> before_end s js"
  by (simp add: before_ctl same_place_def)

lemma settle_orderly:
  assumes f: "faultless (rd_store d)" and o': "orderly s" and ph: "rn_phase s = Serving j"
  shows "orderly (settle d (j, s))"
proof (rule settle_cases [of d j s])
  have b: "busy (rn_phase s) = Some j" using ph by (simp add: busy_def)
  fix x msg assume e: "settle d (j, s) = ended (finish d Failed msg (j, set_world x s))"
  obtain t where t: "recs s (tk_id (jb_task j)) = Some t" "tk_state t \<in> {Running, AwaitingApproval}"
    using busy_ex [OF o' b] ph by (auto simp: state_in_def split: if_splits)
  have "before_end s (j, set_world x s)" by (rule before_ctl) simp_all
  from ends_orderly [OF f o' b this _ t(1), of Failed msg] t(2) show ?thesis
    unfolding e by (auto simp: can_end_def)
next
  fix s' assume e: "settle d (j, s) = s'\<lparr>rn_phase := Auditing j\<rparr>" "ctl s' = ctl s"
  obtain er x where w: "call (rd_wait d) s = (er, set_world x s)" by (rule call_world)
  have pl: "same_place (j, s) (say d msg (j, set_world x s))" for msg
    by (rule same_place_trans [OF place_world place_say])
  have ou: "orderly (goes_on Auditing js)" if "same_place (j, s) js" "fst js = j" for js
    by (rule orderly_place [OF o' that(1)]) (use ph that in \<open>auto simp: busy_def state_in_def split: if_splits\<close>)
  show ?thesis
  proof (cases "jb_run_complete j")
    case False
    with w have "rn_phase (settle d (j, s)) = Looking" by (simp add: settle_def ended_def job_ends_def)
    with e(1) show ?thesis by simp
  next
    case True
    with w show ?thesis
      using ou [OF pl] ou [OF place_world [of j s x]] by (cases er) (simp_all add: settle_def)
  qed
qed

lemma ready_orderly:
  assumes f: "faultless (rd_store d)" and o': "orderly s" and ph: "rn_phase s = AwaitingReady j"
  shows "orderly (ready_event d ev (j, s))"
proof -
  have b: "busy (rn_phase s) = Some j" using ph by (simp add: busy_def)
  obtain t where t: "recs s (tk_id (jb_task j)) = Some t" "tk_state t = Queued" and pn: "jb_pending j < 0"
    using busy_ex [OF o' b] ph by (auto simp: state_in_def)
  obtain s1 where l: "log_harness d ev (j, s) = (j, s1)" using fst_log_harness [of d ev "(j, s)"] by (metis fst_conv prod.collapse)
  have pl: "same_place (j, s) (j, s1)" and s1: "ctl s1 = ctl s"
    using place_log [of "(j, s)" d ev] ctl_job(4) [of d ev "(j, s)"] l by simp_all
  consider (ready) "ev_kind ev = kind_bridge_ready" | (error) "ev_kind ev \<noteq> kind_bridge_ready" "ev_kind ev = kind_bridge_error"
    | (other) "ev_kind ev \<noteq> kind_bridge_ready" "ev_kind ev \<noteq> kind_bridge_error" by blast
  then show ?thesis
  proof cases
    case ready
    let ?j1 = "j\<lparr>jb_task := (jb_task j)\<lparr>tk_harness := (''crush'', ev_version ev)\<rparr>\<rparr>"
    let ?f = "\<lambda>t. t\<lparr>tk_started_at := now_of d s1\<rparr>"
    obtain t' s2 where m: "move d Running ?f (?j1, s1) = (?j1\<lparr>jb_task := t'\<rparr>, s2)" "sound_store s2"
      "tk_state t' = Running" "tk_id t' = tk_id (jb_task j)" "recs s2 = (recs s1)(tk_id (jb_task j) \<mapsto> t')"
      "rn_current s2 = rn_current s1" "ctl s2 = ctl s1"
      by (rule move_works [OF f, of s1 ?j1 t Running ?f]) (use t pl o' in \<open>simp_all add: orderly_def same_place_def\<close>)
    let ?j2 = "?j1\<lparr>jb_task := t'\<rparr>"
    let ?p = "CmdPrompt (tk_instruction (jb_task ?j2) @ [newline, newline] @ citation_instruction)"
    obtain er x where c: "call (rd_send d ?p) (s2\<lparr>rn_sent := rn_sent s2 @ [?p]\<rparr>) = (er, set_world x (s2\<lparr>rn_sent := rn_sent s2 @ [?p]\<rparr>))"
      by (rule call_world)
    let ?s3 = "set_world x (s2\<lparr>rn_sent := rn_sent s2 @ [?p]\<rparr>)"
    have o3: "orderly (goes_on Serving (?j2, ?s3))"
      by (rule orderly_moved [OF o' b, of _ t' ?j2])
         (use m pl s1 pn in \<open>simp_all add: goes_on_def busy_def state_in_def same_place_def ctl_def\<close>, simp_all add: set_world_def)
    show ?thesis
    proof (cases er)
      case None
      with ready l m(1) c o3 show ?thesis by (simp add: ready_event_def Let_def send_def)
    next
      case (Some e)
      let ?s4 = "goes_on Serving (?j2, ?s3)"
      obtain kr y where k: "call (rd_kill d) ?s3 = (kr, set_world y ?s3)" by (rule call_world)
      have be: "before_end ?s4 (?j2, set_world y ?s3)" by (simp add: before_end_def goes_on_def) (simp add: set_world_def)
      have r4: "recs ?s4 (tk_id (jb_task ?j2)) = Some t'" using m(4,5) by (simp add: goes_on_def)
      have "orderly (ended (finish d Failed msg (?j2, set_world y ?s3)))" for msg
        using ends_orderly [OF f o3 _ be _ r4, of Failed msg] m(3) by (simp add: busy_def goes_on_def can_end_def)
      with ready l m(1) c Some k show ?thesis by (simp add: ready_event_def Let_def send_def)
    qed
  next
    case error
    have "orderly (ended (finish d Refused msg (j, s1)))" for msg
      using ends_orderly [OF f o' b before_place [OF pl, simplified, OF s1] _ t(1), of Refused msg] t(2)
      by (simp add: can_end_def)
    with error l show ?thesis by (simp add: ready_event_def Let_def)
  next
    case other
    have "orderly (goes_on AwaitingReady (j, s1))"
      by (rule orderly_place [OF o' pl]) (use ph in \<open>simp_all add: busy_def\<close>)
    with other l show ?thesis by (simp add: ready_event_def Let_def)
  qed
qed

lemma ready_closed_orderly:
  assumes f: "faultless (rd_store d)" and o': "orderly s" and ph: "rn_phase s = AwaitingReady j"
  shows "orderly (ready_closed d (j, s))"
proof -
  have b: "busy (rn_phase s) = Some j" using ph by (simp add: busy_def)
  obtain t where t: "recs s (tk_id (jb_task j)) = Some t" "tk_state t = Queued"
    using busy_ex [OF o' b] ph by (auto simp: state_in_def)
  obtain e x where c: "call (rd_wait d) s = (e, set_world x s)" by (rule call_world)
  have "before_end s (j, set_world x s)" by (rule before_ctl) simp_all
  from ends_orderly [OF f o' b this _ t(1), of Refused] t(2) c show ?thesis
    by (simp add: ready_closed_def can_end_def)
qed

lemma worker_orderly:
  assumes f: "faultless (rd_store d)" and o': "orderly s" and tr: "traced ls s"
    and w: "worker_step d l (rn_phase s) s = Some s'"
  shows "orderly s'"
proof (cases "rn_phase s")
  case Looking
  have idle: "orderly (s\<lparr>rn_phase := ph\<rparr>)" if "busy ph = None" for ph
    using o' Looking that by (auto simp: orderly_def busy_def)
  from w Looking have "s' = look d s" by (simp add: worker_step_def split: input.splits)
  then show ?thesis
    using idle start_orderly [OF f o' Looking] by (auto simp: look_def busy_def split: list.split)
next
  case Parked
  have "orderly (s\<lparr>rn_wake := False, rn_phase := Looking\<rparr>)" "orderly (s\<lparr>rn_phase := Halted\<rparr>)"
    using o' Parked by (auto simp: orderly_def busy_def)
  with w Parked show ?thesis by (auto simp: worker_step_def split: input.splits if_splits)
next
  case (AwaitingReady j)
  with w kill_orderly [OF f o', of j] ready_orderly [OF f o' AwaitingReady] ready_closed_orderly [OF f o' AwaitingReady]
  show ?thesis by (auto simp: worker_step_def busy_def split: input.splits if_splits)
next
  case (Serving j)
  have p: "ac_answer (rn_active s) = Some ans \<Longrightarrow> jb_pending j \<ge> 0" for ans
    using tr Serving by (auto simp: traced_def Let_def)
  from w Serving kill_orderly [OF f o', of j] serve_orderly [OF f o' Serving] settle_orderly [OF f o' Serving]
    answer_orderly [OF f o' Serving p]
  show ?thesis by (auto simp: worker_step_def busy_def split: input.splits if_splits option.splits)
next
  case (Auditing j)
  with w audit_orderly [OF f o' Auditing] show ?thesis by (auto simp: worker_step_def split: input.splits)
next
  case Halted
  with w show ?thesis by (simp add: worker_step_def)
qed

subsection \<open>The clients\<close>

lemma narrate_fields [simp]:
  "rn_queue (narrate d t k msg s) = rn_queue s" "rn_phase (narrate d t k msg s) = rn_phase s"
  "rn_active (narrate d t k msg s) = rn_active s" "rn_stop (narrate d t k msg s) = rn_stop s"
  using ctl_job(7) [of d t k msg s] by (simp_all add: ctl_def)

lemma close_subs_fields [simp]:
  "rn_queue (close_subs i s) = rn_queue s" "rn_phase (close_subs i s) = rn_phase s"
  "rn_active (close_subs i s) = rn_active s" "rn_stop (close_subs i s) = rn_stop s" "rn_current (close_subs i s) = rn_current s"
proof -
  have "rn_current (fold close_channel ks s) = rn_current s" for ks and s :: "'a runner"
    by (induction ks arbitrary: s) (simp_all add: close_channel_def Let_def fault_of_def)
  then show "rn_current (close_subs i s) = rn_current s" by (simp add: close_subs_def Let_def)
qed (use ctl_close_subs [of i s] in \<open>simp_all add: ctl_def\<close>)

definition fresh_ids :: "('x, 'c) run_deps \<Rightarrow> bool" where
  "fresh_ids d \<longleftrightarrow> (\<forall>x. valid_id (fst (rd_new_id d x)))"

lemma create_works:
  assumes "faultless os" "wf_store h" "valid_id (tk_id t)" "tk_exit t = None" "tk_state t \<in> {Queued, Refused}"
  shows "(\<exists>e. create_task os t h = (Inl e, h))
    \<or> (\<exists>t1 h'. create_task os t h = (Inr (), h') \<and> wf_store h' \<and> tk_id t1 = tk_id t \<and> tk_state t1 = tk_state t
         \<and> record_at h (tk_id t) = None \<and> record_at h' = (record_at h)(tk_id t \<mapsto> t1))"
proof (cases "map_of (th_files h) (tk_id t)")
  case (Some f)
  with assms show ?thesis by (auto simp: create_task_def faultless_def valid_id_def)
next
  case None
  define t1 where "t1 = t\<lparr>tk_exit := (if terminal (tk_state t) then Some (exit_code (tk_state t)) else tk_exit t),
                    tk_schema := schema_version\<rparr>"
  obtain q x where w: "to_write os (tk_id t1) (th_world h) = (q, x)" by fastforce
  with assms(1) have "q = Written" unfolding faultless_def by (metis fst_conv)
  then have wr: "write_record os t1 h = (Inr (), h\<lparr>th_world := x, th_files := AList.update (tk_id t1) (Stored t1) (th_files h)\<rparr>)"
    using w by (simp add: write_record_def Let_def)
  let ?h = "h\<lparr>th_world := x, th_files := AList.update (tk_id t1) (Stored t1) (th_files h)\<rparr>"
  have ne: "tk_id t \<noteq> []" using assms(3) by (auto simp: valid_id_def)
  have c: "create_task os t h = (Inr (), ?h)"
    using ne assms(1,5) None wr by (auto simp: create_task_def faultless_def t1_def)
  have "record_at ?h = (record_at h)(tk_id t \<mapsto> t1)"
    using record_at_update [of ?h "tk_id t1" t1 h] by (auto simp: t1_def)
  moreover have "record_at h (tk_id t) = None" using None by (simp add: record_at_def)
  moreover have "tk_id t1 = tk_id t" "tk_state t1 = tk_state t" by (simp_all add: t1_def)
  ultimately show ?thesis using c create_task_facts [OF c assms(4,3,2)] by blast
qed

lemma orderly_more:
  assumes o': "orderly s" and new: "recs s i = None" and r: "recs s' = (recs s)(i \<mapsto> t)" and snd: "sound_store s'"
    and q: "tk_state t = Refused \<and> rn_queue s' = rn_queue s \<or> tk_state t = Queued \<and> rn_queue s' = rn_queue s @ [i]"
    and same: "rn_phase s' = rn_phase s" "rn_current s' = rn_current s" "rn_active s' = rn_active s"
  shows "orderly s'"
proof -
  have ni: "i \<notin> set (rn_queue s)" and nj: "busy (rn_phase s) = Some j \<Longrightarrow> tk_id (jb_task j) \<noteq> i" for j
    using o' new by (fastforce simp: orderly_def)+
  have rs: "recs s' k = (if k = i then Some t else recs s k)" for k using r by simp
  have qs: "set (rn_queue s') = (if tk_state t = Queued then insert i (set (rn_queue s)) else set (rn_queue s))"
    and d: "distinct (rn_queue s')" using q o' ni by (auto simp: orderly_def)
  have "\<exists>u. recs s' k = Some u \<and> tk_state u = Queued" if "k \<in> set (rn_queue s')" for k
    using that o' qs rs ni unfolding orderly_def by (cases "k = i") (auto split: if_splits)
  moreover have "terminal (tk_state u) \<or> k \<in> set (rn_queue s') \<or> (\<exists>j. busy (rn_phase s') = Some j \<and> k = tk_id (jb_task j))"
    if u: "recs s' k = Some u" for k u
  proof (cases "k = i")
    case True
    with u rs q qs show ?thesis by auto
  next
    case False
    with u rs have "recs s k = Some u" by simp
    with o' have "terminal (tk_state u) \<or> k \<in> set (rn_queue s) \<or> (\<exists>j. busy (rn_phase s) = Some j \<and> k = tk_id (jb_task j))"
      unfolding orderly_def by blast
    with qs same(1) show ?thesis by auto
  qed
  moreover have "rn_current s' \<and> tk_id (jb_task j) = ac_id (rn_active s') \<and> ac_id (rn_active s') \<notin> set (rn_queue s')
      \<and> (\<exists>u. recs s' (tk_id (jb_task j)) = Some u \<and> state_in (rn_phase s') (tk_state u))" if "busy (rn_phase s') = Some j" for j
  proof -
    from that same(1) have b: "busy (rn_phase s) = Some j" by simp
    with o' obtain u where u: "rn_current s" "tk_id (jb_task j) = ac_id (rn_active s)" "ac_id (rn_active s) \<notin> set (rn_queue s)"
        "recs s (tk_id (jb_task j)) = Some u" "state_in (rn_phase s) (tk_state u)"
      unfolding orderly_def by blast
    then show ?thesis using nj [OF b] rs qs same by simp
  qed
  ultimately show ?thesis using d snd unfolding orderly_def by blast
qed

lemma orderly_cong:
  assumes "recs s' = recs s" "sound_store s' = sound_store s" "rn_queue s' = rn_queue s" "rn_phase s' = rn_phase s"
      "rn_current s' = rn_current s" "ac_id (rn_active s') = ac_id (rn_active s)"
  shows "orderly s' = orderly s"
  unfolding orderly_def assms ..

lemma submit_orderly:
  fixes s :: "'x runner" and d :: "('x, 'c) run_deps"
  assumes f: "faultless (rd_store d)" and n: "fresh_ids d" and o': "orderly s"
  shows "orderly (snd (submit d req s))"
proof -
  have world: "orderly (set_world x s)" for x
  proof -
    have "rn_queue (set_world x s) = rn_queue s" "rn_phase (set_world x s) = rn_phase s"
      "rn_current (set_world x s) = rn_current s" "rn_active (set_world x s) = rn_active s" by (simp_all add: set_world_def)
    with o' show ?thesis using orderly_cong [of "set_world x s" s] by simp
  qed
  have refuse: "\<exists>ws r x. refusal_of d cfg w (set_world y s) = ((ws, r), set_world x s)" for cfg w y
  proof -
    obtain a x where "call (rd_sandbox_ready d) (set_world y s) = (a, set_world x (set_world y s))" by (rule call_world)
    then show ?thesis by (auto simp: refusal_of_def case_prod_beta)
  qed
  have with_cfg: "orderly (snd (submit_with d req mode cfg (set_world y s)))" for mode cfg y
  proof -
    obtain i x1 where c1: "call (rd_new_id d) (set_world y s) = (i, set_world x1 s)"
      using call_world [of "rd_new_id d" "set_world y s"] by auto
    have vi: "valid_id i" using n c1 unfolding fresh_ids_def call_def by (metis case_prod_beta fst_conv)
    obtain ws r x2 where c2: "refusal_of d cfg (su_workspace req) (set_world x1 s) = ((ws, r), set_world x2 s)" using refuse by blast
    let ?t = "submitted_task req mode i (now_of d (set_world x1 s)) ws r" and ?s = "set_world x2 s"
    have t: "tk_id ?t = i" "tk_exit ?t = None" "tk_state ?t = (if r \<noteq> [] then Refused else Queued)"
      by (simp_all add: submitted_task_def zero_task_def)
    have wf: "wf_store (rn_host ?s)" using world [of x2] by (simp add: orderly_def sound_store_def)
    have st: "tk_state ?t \<in> {Queued, Refused}" by (simp add: t(3))
    have vt: "valid_id (tk_id ?t)" using vi by (simp add: t(1))
    from create_works [OF f wf vt t(2) st]
    consider (no) e where "create_task (rd_store d) ?t (rn_host ?s) = (Inl e, rn_host ?s)"
      | (yes) t1 h' where "create_task (rd_store d) ?t (rn_host ?s) = (Inr (), h')" "wf_store h'" "tk_id t1 = i"
          "tk_state t1 = tk_state ?t" "recs ?s i = None" "record_at h' = (recs ?s)(i \<mapsto> t1)"
      unfolding recs_def t(1) by blast
    then show ?thesis
    proof cases
      case no
      then have "on_store (create_task (rd_store d) ?t) ?s = (Inl e, ?s)" by (simp add: on_store_def)
      then show ?thesis using world [of x2] by (simp add: submit_with_def c1 c2)
    next
      case yes
      let ?s3 = "?s\<lparr>rn_host := h'\<rparr>"
      have c3: "on_store (create_task (rd_store d) ?t) ?s = (Inr (), ?s3)" using yes(1) by (simp add: on_store_def)
      have r3: "recs ?s3 = (recs s)(i \<mapsto> t1)" "sound_store ?s3" using yes(2,6) by (simp_all add: recs_def [of ?s3] sound_store_def)
      have "recs ?s3 i = Some t1" using r3(1) by simp
      from load_works [OF f r3(2) this] have l: "load_or_zero d i ?s3 = t1" by (simp add: load_or_zero_def)
      let ?s4 = "snd (accept d i r ?s3)"
      have s4: "recs ?s4 = (recs s)(i \<mapsto> t1)" "sound_store ?s4" "rn_phase ?s4 = rn_phase s" "rn_current ?s4 = rn_current s"
          "rn_active ?s4 = rn_active s" "rn_queue ?s4 = (if r \<noteq> [] then rn_queue s else rn_queue s @ [i])"
        using r3 yes(3) by (simp_all add: accept_def l Let_def) (simp_all add: set_world_def)
      have "recs s i = None" using yes(5) by simp
      from orderly_more [OF o' this s4(1,2) _ s4(3-5)] s4(6) t(3) yes(4) have "orderly ?s4" by (simp split: if_splits)
      then show ?thesis by (simp add: submit_with_def c1 c2 c3 case_prod_beta)
    qed
  qed
  obtain a y where "call (rd_load_config d) s = (a, set_world y s)" by (rule call_world)
  then show ?thesis using o' with_cfg world by (simp add: submit_def Let_def split: sum.split)
qed

lemma cancel_orderly:
  assumes f: "faultless (rd_store d)" and o': "orderly s"
  shows "orderly (snd (cancel_task d i s))"
proof (cases "i \<in> set (rn_queue s)")
  case False
  have "orderly (cancel_active False s) = orderly s"
    by (rule orderly_cong)
       (simp_all add: cancel_active_def fault_of_def recs_def sound_store_def Let_def)
  with False o' show ?thesis by (simp add: cancel_task_def)
next
  case True
  let ?s = "s\<lparr>rn_queue := remove1 i (rn_queue s)\<rparr>" and ?f = "\<lambda>t. t\<lparr>tk_finished_at := now_of d s\<rparr>"
  obtain t where t: "recs s i = Some t" "tk_state t = Queued" using o' True by (auto simp: orderly_def)
  have "wf_store (rn_host s)" "record_at (rn_host s) i = Some t" using o' t by (simp_all add: orderly_def sound_store_def recs_def)
  from store_transition_works [OF f this, of Cancelled ?f] t(2) obtain t' h' where
    w: "transition (rd_store d) i Cancelled ?f (rn_host s) = (Inr t', h')" "wf_store h'" "tk_state t' = Cancelled"
       "record_at h' = (record_at (rn_host s))(i \<mapsto> t')"
    by (auto simp: tame_mutation_def)
  let ?s' = "?s\<lparr>rn_host := h'\<rparr>"
  have "on_store (transition (rd_store d) i Cancelled ?f) ?s = (Inr t', ?s')" using w(1) by (simp add: on_store_def)
  then have e: "snd (cancel_task d i s) = close_subs i (narrate d t' kind_state ''cancelled before it started'' ?s')"
    using True by (simp add: cancel_task_def Let_def)
  have d: "set (remove1 i (rn_queue s)) = set (rn_queue s) - {i}" "distinct (remove1 i (rn_queue s))"
    using o' by (simp_all add: orderly_def)
  have ni: "tk_id (jb_task j) \<noteq> i" if "busy (rn_phase s) = Some j" for j using o' that True by (auto simp: orderly_def)
  have tm: "terminal (tk_state t')" using w(3) by simp
  have "orderly ?s'"
    using o' d ni w(2,4) tm unfolding orderly_def
    by (auto simp: recs_def sound_store_def split: if_splits)
  then have "orderly (close_subs i (narrate d t' kind_state ''cancelled before it started'' ?s'))"
    by (subst orderly_cong [of _ ?s']) simp_all
  then show ?thesis by (simp add: e)
qed

lemma client_orderly:
  assumes f: "faultless (rd_store d)" and n: "fresh_ids d" and o': "orderly s"
  shows "orderly (client_step d l s)"
proof -
  have same: "orderly s'" if "th_files (rn_host s') = th_files (rn_host s)" "rn_queue s' = rn_queue s" "rn_phase s' = rn_phase s"
      "rn_current s' = rn_current s" "ac_id (rn_active s') = ac_id (rn_active s)" for s'
    using o' orderly_cong [OF store_cong(1) [OF that(1)] store_cong(2) [OF that(1)] that(2-5)] by simp
  show ?thesis
  proof (cases l)
    case (Submit req)
    with submit_orderly [OF assms] show ?thesis by (simp add: client_step_def)
  next
    case (Cancel i)
    with cancel_orderly [OF f o'] show ?thesis by (simp add: client_step_def)
  qed (rule same; simp add: client_step_def answer_def close_runner_def cancel_active_def fault_of_def subscribe_def
        unsubscribe_def receive_def Let_def split: sum.split)+
qed

subsection \<open>A cancel stays pending until it is taken\<close>

definition flags :: "'x runner \<Rightarrow> bool \<times> bool \<times> bool \<times> bool" where
  "flags s = (rn_stop s, ac_cancel (rn_active s), ac_ctx_done (rn_active s), ac_cancelled (rn_active s))"

lemma flags_ctl: "ctl s' = ctl s \<Longrightarrow> flags s' = flags s"
  by (simp add: ctl_def flags_def)

lemma flags_simps [simp]:
  "flags (set_awaiting b s) = flags s" "flags (take_answer s) = flags s" "flags (s\<lparr>rn_phase := ph\<rparr>) = flags s"
  by (simp_all add: set_awaiting_def take_answer_def flags_def)

lemma flags_job [simp]:
  "flags (snd (say d msg js)) = flags (snd js)" "flags (snd (log_harness d ev js)) = flags (snd js)"
  "stamps f \<Longrightarrow> flags (snd (move d st f js)) = flags (snd js)" "flags (snd (call h s)) = flags s"
  "flags (snd (finish d st msg js)) = flags (snd js)"
  by (rule flags_ctl, simp)+

lemma flags_ended [simp]: "flags (ended js) = flags (snd js)" "flags (goes_on ph js) = flags (snd js)"
  by (simp_all add: ended_def job_ends_def goes_on_def flags_def)

lemma flags_send [simp]: "flags (snd (send d c s)) = flags s"
proof -
  have "flags (snd (send d c s)) = flags (s\<lparr>rn_sent := rn_sent s @ [c]\<rparr>)" by (simp add: send_def)
  then show ?thesis by (simp add: flags_def)
qed

lemma flags_grant [simp]: "flags (snd (grant d pid g js)) = flags (snd js)"
  by (simp add: grant_def case_prod_beta split: option.split)

lemma flags_serve [simp]: "flags (snd (serve_event d ev js)) = flags (snd js)"
proof -
  have "flags (snd (decide_request d p js)) = flags (snd js)" for p js
    by (simp add: decide_request_def Let_def case_prod_beta split: decision.split)
  then show ?thesis
    by (simp add: serve_event_def Let_def add_file_def case_prod_beta split: option.split)
qed

lemma flags_answer [simp]: "flags (snd (answer_pending d ans js)) = flags (snd js)"
  by (simp add: answer_pending_def case_prod_beta)

definition cancel_waits :: "'x runner \<Rightarrow> bool" where
  "cancel_waits s \<longleftrightarrow> (case flags s of (stop, cancel, ctx, cancelled) \<Rightarrow>
     busy (rn_phase s) \<noteq> None \<longrightarrow> (cancelled \<longrightarrow> cancel \<and> ctx) \<and> (stop \<longrightarrow> cancelled))"

lemma idle_waits: "busy (rn_phase s) = None \<Longrightarrow> cancel_waits s"
  by (simp add: cancel_waits_def case_prod_beta)

lemma same_waits: "cancel_waits s \<Longrightarrow> busy (rn_phase s) \<noteq> None \<Longrightarrow> flags s' = flags s \<Longrightarrow> cancel_waits s'"
  by (simp add: cancel_waits_def case_prod_beta)

lemma ended_idle [simp]: "busy (rn_phase (ended js)) = None" "busy (rn_phase (job_ends s)) = None"
  by (simp_all add: ended_def job_ends_def busy_def)

lemma worker_waits:
  assumes c: "cancel_waits s" and w: "worker_step d l (rn_phase s) s = Some s'"
  shows "cancel_waits s'"
proof (cases "rn_phase s")
  case Looking
  with w have s': "s' = look d s" by (simp add: worker_step_def split: input.splits)
  show ?thesis
  proof (cases "rn_stop s \<or> rn_queue s = []")
    case True
    then show ?thesis by (auto simp: s' look_def busy_def intro: idle_waits)
  next
    case False
    then obtain i "is" where q: "rn_queue s = i # is" by (cases "rn_queue s") auto
    let ?s = "s\<lparr>rn_queue := is, rn_current := True, rn_active := new_active i\<rparr>"
    have "cancel_waits (start_job d i ?s)"
    proof (rule start_job_cases [of d i ?s])
      fix t x assume "start_job d i ?s = (set_world x ?s)\<lparr>rn_phase := AwaitingReady (new_job t)\<rparr>"
      with False show ?thesis by (simp add: cancel_waits_def flags_def set_world_def new_active_def)
    qed (simp_all add: idle_waits)
    with False q show ?thesis by (simp add: s' look_def)
  qed
next
  case Parked
  with w show ?thesis by (auto simp: worker_step_def busy_def intro!: idle_waits split: input.splits if_splits)
next
  case (AwaitingReady j)
  have b: "busy (rn_phase s) \<noteq> None" using AwaitingReady by (simp add: busy_def)
  have "flags (ready_event d ev (j, s)) = flags s" for ev
    by (simp add: ready_event_def Let_def case_prod_beta split: option.split)
  then have ready: "cancel_waits (ready_event d ev (j, s))" for ev by (rule same_waits [OF c b])
  with AwaitingReady w show ?thesis
    by (auto simp: worker_step_def ready_closed_def case_prod_beta idle_waits split: input.splits if_splits)
next
  case (Serving j)
  have b: "busy (rn_phase s) \<noteq> None" using Serving by (simp add: busy_def)
  have g: "cancel_waits (goes_on Serving (serve_event d ev (j, s)))"
      "cancel_waits (goes_on Serving (answer_pending d ans (j, take_answer s)))" for ev ans
    by (rule same_waits [OF c b]; simp)+
  have settles: "cancel_waits (settle d (j, s))"
  proof (rule settle_cases [of d j s])
    fix s1 assume "settle d (j, s) = s1\<lparr>rn_phase := Auditing j\<rparr>" "ctl s1 = ctl s"
    then show ?thesis by (intro same_waits [OF c b]) (simp add: flags_ctl [of s1 s])
  qed (simp_all add: idle_waits)
  from w Serving consider (ev) ev where "s' = goes_on Serving (serve_event d ev (j, s))"
      | (closed) "s' = settle d (j, s)" | (cancel) "s' = ended (kill_and_cancel d (j, take_cancel s))"
      | (ans) ans where "s' = goes_on Serving (answer_pending d ans (j, take_answer s))"
    by (auto simp: worker_step_def split: input.splits if_splits option.splits)
  then show ?thesis by cases (simp_all add: g settles idle_waits)
next
  case (Auditing j)
  with w show ?thesis by (auto simp: worker_step_def idle_waits split: input.splits)
next
  case Halted
  with w show ?thesis by (simp add: worker_step_def)
qed

lemma stops_call [simp]: "rn_stop (snd (call f s)) = rn_stop s" "rn_stop (snd (on_store g s)) = rn_stop s"
  by (simp_all add: call_def set_world_def on_store_def case_prod_beta)

lemma stop_submit:
  fixes s :: "'x runner" and d :: "('x, 'c) run_deps"
  shows "rn_stop (snd (submit d req s)) = rn_stop s"
proof -
  have r: "rn_stop (snd (refusal_of d cfg ws s)) = rn_stop s" for cfg ws and s :: "'x runner"
    by (simp add: refusal_of_def case_prod_beta)
  have a: "rn_stop (snd (accept d i x s)) = rn_stop s" for i x and s :: "'x runner"
    by (simp add: accept_def Let_def)
  have "rn_stop (snd (submit_with d req mode cfg s)) = rn_stop s" for mode cfg and s :: "'x runner"
    by (simp add: submit_with_def case_prod_beta r a split: sum.split)
  then show ?thesis by (simp add: submit_def Let_def case_prod_beta split: sum.split)
qed

lemma client_waits:
  assumes o': "orderly s" and c: "cancel_waits s" and t: "traced ls s" and l: "is_client l"
  shows "cancel_waits (client_step d l s)"
proof -
  have ph: "rn_phase (client_step d l s) = rn_phase s" using client_control [OF l t, of d] by (rule conjunct1)
  have cur: "busy (rn_phase s) \<noteq> None \<longrightarrow> rn_current s" using o' by (auto simp: orderly_def)
  have same: "cancel_waits (client_step d l s)" if "flags (client_step d l s) = flags s"
    using c ph that by (simp add: cancel_waits_def)
  show ?thesis
  proof (cases l)
    case (Submit req)
    show ?thesis
    proof (rule same)
      show "flags (client_step d l s) = flags s"
        using core_submit [of d req s] stop_submit [of d req s] by (simp add: client_step_def Submit flags_def core_def)
    qed
  next
    case (Cancel i)
    show ?thesis
    proof (cases "i \<in> set (rn_queue s)")
      case True
      have "rn_stop (snd (cancel_task d i s)) = rn_stop s"
        using True by (simp add: cancel_task_def Let_def case_prod_beta split: sum.split)
      then show ?thesis using core_cancel_queued [OF True, of d]
        by (intro same) (simp add: client_step_def Cancel flags_def core_def)
    next
      case False
      have "snd (cancel_task d i s) = s \<or> snd (cancel_task d i s) = cancel_active False s"
        using False by (simp add: cancel_task_def)
      moreover have "cancel_waits (cancel_active False s)"
        using c by (simp add: cancel_waits_def flags_def cancel_active_def fault_of_def Let_def)
      ultimately show ?thesis using c by (auto simp: client_step_def Cancel)
    qed
  next
    case Close
    have "cancel_waits (close_runner s)"
      using c cur by (simp add: close_runner_def cancel_waits_def flags_def cancel_active_def fault_of_def Let_def)
    then show ?thesis by (simp add: client_step_def Close)
  qed (rule same; simp add: client_step_def answer_def fault_of_def flags_def subscribe_def unsubscribe_def receive_def
        Let_def split: sum.split)+
qed

subsection \<open>Properties\<close>

text \<open>The runner as the service starts it: over the store that a recovery left.\<close>

definition recovered :: "('x, 'c) run_deps \<Rightarrow> 'x task_host \<Rightarrow> 'x task_host" where
  "recovered d h0 = snd (recover (rd_store d) h0)"

lemma orderly_new:
  assumes "faultless (rd_store d)" and "wf_store h0"
  shows "orderly (new_runner (recovered d h0))"
proof -
  from recover_faultless [OF assms] obtain h' where h: "recovered d h0 = h'" "wf_store h'"
      "\<forall>j. record_at h' j = (if nonterminal_at h0 j then map_option interrupted (record_at h0 j) else record_at h0 j)"
    by (auto simp: recovered_def)
  have "terminal (tk_state t)" if "record_at h' i = Some t" for i t
    using that h(3) by (auto simp: interrupted_terminal nonterminal_at_def split: if_splits option.splits)
  with h(1,2) show ?thesis by (auto simp: orderly_def new_runner_def sound_store_def recs_def busy_def)
qed

lemma run_orderly:
  assumes "faultless (rd_store d)" "fresh_ids d" "wf_store h0" "run_inputs d ls (new_runner (recovered d h0)) = Some s"
  shows "orderly s \<and> cancel_waits s"
  using assms(4)
proof (induction rule: run_inputs_induct)
  case start
  have "cancel_waits (new_runner (recovered d h0))" by (rule idle_waits) (simp add: new_runner_def busy_def)
  with orderly_new [OF assms(1,3)] show ?case by simp
next
  case (step ls s l s')
  note t = run_traced [OF step(1)]
  show ?case
  proof (cases "is_client l")
    case True
    with step(2,3) client_orderly [OF assms(1,2)] client_waits [OF _ _ t True] show ?thesis by (auto simp: step_on_def)
  next
    case False
    with step(2,3) worker_orderly [OF assms(1) _ t] worker_waits show ?thesis by (auto simp: step_on_def)
  qed
qed

text \<open>C15: One task at a time. On a disk that works, in any run of a runner started over a recovered store,
  a record that is open is either queued, its state then \<open>queued\<close> and its place in the queue unique, or it is
  the one record the worker holds: no two records are ever running or awaiting approval.\<close>

theorem one_task_at_a_time:
  assumes "faultless (rd_store d)" and "fresh_ids d" and "wf_store h0"
    and "run_inputs d ls (new_runner (recovered d h0)) = Some s"
  shows "distinct (rn_queue s)
    \<and> (\<forall>i t. record_at (rn_host s) i = Some t \<and> \<not> terminal (tk_state t) \<longrightarrow>
         (i \<in> set (rn_queue s) \<and> tk_state t = Queued) \<or> (i = ac_id (rn_active s) \<and> busy (rn_phase s) \<noteq> None))"
proof -
  have o': "orderly s" using run_orderly [OF assms] ..
  have "(i \<in> set (rn_queue s) \<and> tk_state t = Queued) \<or> (i = ac_id (rn_active s) \<and> busy (rn_phase s) \<noteq> None)"
    if "recs s i = Some t" "\<not> terminal (tk_state t)" for i t
  proof -
    from o' that consider "i \<in> set (rn_queue s)" | j where "busy (rn_phase s) = Some j" "i = tk_id (jb_task j)"
      unfolding orderly_def by blast
    then show ?thesis using o' that(1) by cases (auto simp: orderly_def)
  qed
  with o' show ?thesis by (simp add: orderly_def recs_def)
qed


subsection \<open>A sample run\<close>

definition sample_deps :: "(unit, unit) run_deps" where
  "sample_deps = \<lparr>rd_store = sample_os, rd_load_config = \<lambda>_. (Inr (), ()), rd_render_args = \<lambda>_ _ _ _. (Inr [], ()),
     rd_launch = \<lambda>_ _. (None, ()), rd_send = \<lambda>_ _. (None, ()), rd_wait = \<lambda>_. (None, ()), rd_kill = \<lambda>_. (None, ()),
     rd_kill_by_name = \<lambda>_ _. (None, ()), rd_registered = \<lambda>_ ws. (ws, True), rd_tools_on = \<lambda>_. True,
     rd_sandbox_ready = \<lambda>_. ((True, []), ()),
     rd_audit = \<lambda>_ _ _ _. (\<lparr>dr_checked = True, dr_claims = 1, dr_unsupported = [], dr_err = []\<rparr>, ()),
     rd_read_file = \<lambda>_ _ _. (Inr [], ()), rd_append_log = \<lambda>_ _ _. (), rd_now = \<lambda>_. ''now'',
     rd_new_id = \<lambda>_. (sample_id, ()), rd_command_param = \<lambda>p. p, rd_error_text = \<lambda>_. []\<rparr>"

definition sample_event :: "string \<Rightarrow> crush_event" where
  "sample_event k = \<lparr>ev_kind = k, ev_permission = None, ev_file = None, ev_version = [], ev_error = [], ev_files = []\<rparr>"

definition sample_ask :: crush_event where
  "sample_ask = (sample_event kind_permission_request)\<lparr>ev_permission :=
     Some \<lparr>pr_id = ''p1'', pr_tool = ''bash'', pr_action = ''execute'', pr_path = [], pr_params = ''rm -rf out''\<rparr>\<rparr>"

definition sample_inputs :: "input list" where
  "sample_inputs = [Submit \<lparr>su_workspace = ''/ws'', su_instruction = ''tidy'', su_mode = ''auto''\<rparr>, Look,
     StreamEvent (sample_event kind_bridge_ready), StreamEvent sample_ask, Answer sample_id GrantAllow]"

definition empty_store :: "unit task_host" where
  "empty_store = \<lparr>th_files = [], th_world = ()\<rparr>"

definition sample_runner :: "unit runner" where
  "sample_runner = the (run_inputs sample_deps sample_inputs (new_runner empty_store))"

lemma sample_task_run: "run_inputs sample_deps sample_inputs (new_runner empty_store) = Some sample_runner"
proof -
  have "\<not> Option.is_none (run_inputs sample_deps sample_inputs (new_runner empty_store))" by code_simp
  then show ?thesis by (simp add: sample_runner_def Option.is_none_def)
qed

lemma sample_recovered: "recovered sample_deps empty_store = empty_store" "faultless (rd_store sample_deps)"
    "fresh_ids sample_deps" "wf_store empty_store"
proof -
  show "recovered sample_deps empty_store = empty_store"
    by (simp add: recovered_def sample_deps_def sample_os_def recover_def empty_store_def list_ids_def sort_strings_def)
  show "faultless (rd_store sample_deps)" "fresh_ids sample_deps" "wf_store empty_store"
    using sample_wf(2) sample_valid(1) by (simp_all add: sample_deps_def fresh_ids_def wf_store_def empty_store_def)
qed

lemma some_step: "\<not> Option.is_none m \<Longrightarrow> m = Some (the m)"
  by (simp add: Option.is_none_def)

theorem grants_have_a_reason_witness:
  "\<exists>ls1 ev ls2. sample_inputs = ls1 @ StreamEvent ev # ls2 \<and> Answer (ac_id (rn_active sample_runner)) GrantAllow \<in> set ls2"
proof -
  let ?m = "step_on sample_deps AnswerArrives sample_runner"
  have "\<not> Option.is_none ?m" by code_simp
  from some_step [OF this] have m: "?m = Some (the ?m)" .
  have "rn_sent (the ?m) = rn_sent sample_runner @ [CmdGrant ''p1'' GrantAllow]" by code_simp
  from grants_have_a_reason [OF sample_task_run m this, of "''p1''" GrantAllow] show ?thesis by auto
qed

theorem runner_never_stuck_witness: "rn_faults sample_runner = []"
  using runner_never_stuck [OF sample_task_run] by simp

definition finished_inputs :: "input list" where
  "finished_inputs = sample_inputs @ [AnswerArrives, StreamEvent ((sample_event kind_file)\<lparr>ev_file := Some ''/workspace/a.md''\<rparr>),
     StreamEvent (sample_event kind_run_complete), StreamEnds, AuditEnds]"

definition finished_runner :: "unit runner" where
  "finished_runner = the (run_inputs sample_deps finished_inputs (new_runner empty_store))"

theorem done_tasks_audited_witness:
  "gr_checked (tk_grounding (the (record_at (rn_host finished_runner) sample_id)))
   \<and> set (map gd_path (gr_documents (tk_grounding (the (record_at (rn_host finished_runner) sample_id))))) = {''a.md''}"
proof -
  let ?m = "run_inputs sample_deps finished_inputs (new_runner empty_store)"
  let ?r = "record_at (rn_host finished_runner) sample_id"
  have "\<not> Option.is_none ?m" by code_simp
  from some_step [OF this] have m: "?m = Some finished_runner" by (simp add: finished_runner_def)
  have "\<not> Option.is_none ?r" by code_simp
  from some_step [OF this] have r: "?r = Some (the ?r)" .
  have "tk_state (the ?r) = Done" by code_simp
  moreover have "set (map fe_path (tk_files (the ?r))) = {''a.md''}" by code_simp
  moreover have "record_at empty_store sample_id = None" by (simp add: record_at_def empty_store_def)
  ultimately show ?thesis using done_tasks_audited [OF m r] by simp
qed

theorem one_task_at_a_time_witness: "distinct (rn_queue sample_runner)"
  using one_task_at_a_time [OF sample_recovered(2-4), of sample_inputs sample_runner] sample_task_run sample_recovered(1) by simp

definition closed_inputs :: "input list" where "closed_inputs = sample_inputs @ [Close]"

definition closed_runner :: "unit runner" where
  "closed_runner = the (run_inputs sample_deps closed_inputs (new_runner empty_store))"


text \<open>
  On a disk that fails the liveness is lost: when the write of \<open>awaiting_approval\<close> fails, the record is
  ended failed and the task is no longer the runner's current one, but the worker goes on serving the sandbox:
  a cancel answers that the task is finished, and a close neither kills the sandbox nor gives the worker a step.
\<close>

definition flaky_deps :: "(nat, unit) run_deps" where
  "flaky_deps = \<lparr>rd_store = \<lparr>to_list = \<lambda>_. None, to_read = \<lambda>_ _. None,
       to_write = \<lambda>_ n. (if n = 2 then NotWritten ''disk full'' else Written, n + 1)\<rparr>,
     rd_load_config = \<lambda>n. (Inr (), n), rd_render_args = \<lambda>_ _ _ n. (Inr [], n),
     rd_launch = \<lambda>_ n. (None, n), rd_send = \<lambda>_ n. (None, n), rd_wait = \<lambda>n. (None, n), rd_kill = \<lambda>n. (None, n),
     rd_kill_by_name = \<lambda>_ n. (None, n), rd_registered = \<lambda>_ ws. (ws, True), rd_tools_on = \<lambda>_. True,
     rd_sandbox_ready = \<lambda>n. ((True, []), n),
     rd_audit = \<lambda>_ _ _ n. (\<lparr>dr_checked = True, dr_claims = 1, dr_unsupported = [], dr_err = []\<rparr>, n),
     rd_read_file = \<lambda>_ _ n. (Inr [], n), rd_append_log = \<lambda>_ _ n. n, rd_now = \<lambda>_. ''now'',
     rd_new_id = \<lambda>n. (sample_id, n), rd_command_param = \<lambda>p. p, rd_error_text = \<lambda>_. []\<rparr>"

definition orphaned_runner :: "nat runner" where
  "orphaned_runner = the (run_inputs flaky_deps
     (take 4 sample_inputs @ [Cancel sample_id, Close]) (new_runner \<lparr>th_files = [], th_world = 0\<rparr>))"

lemma failed_write_orphans_the_sandbox:
  "map_option tk_state (record_at (rn_host orphaned_runner) sample_id) = Some Failed"
  "rn_stop orphaned_runner \<and> busy (rn_phase orphaned_runner) \<noteq> None"
  "\<forall>l \<in> {Look, Wake, StopSeen, CancelArrives, AnswerArrives, AuditEnds}. step_on flaky_deps l orphaned_runner = None"
proof -
  show "map_option tk_state (record_at (rn_host orphaned_runner) sample_id) = Some Failed" by code_simp
  have "rn_stop orphaned_runner \<and> \<not> Option.is_none (busy (rn_phase orphaned_runner))" by code_simp
  then show "rn_stop orphaned_runner \<and> busy (rn_phase orphaned_runner) \<noteq> None" by (simp add: Option.is_none_def)
  have "list_all (\<lambda>l. Option.is_none (step_on flaky_deps l orphaned_runner))
      [Look, Wake, StopSeen, CancelArrives, AnswerArrives, AuditEnds]" by code_simp
  then show "\<forall>l \<in> {Look, Wake, StopSeen, CancelArrives, AnswerArrives, AuditEnds}. step_on flaky_deps l orphaned_runner = None"
    by (simp add: Option.is_none_def)
qed

end
