(* ===== verification/Grounding.thy ===== *)
theory Grounding
  imports TaskRun
begin

text \<open>
  \<open>internal/grounding\<close>: the audit of a document by a second pass of the model, and how its answer is read.
  The chat completion is a parameter. The three regular expressions are written out as functions on a line:
  their \<open>\s\<close> is the class of tab, newline, form feed, carriage return and blank, and a word is a run of ASCII
  letters, digits and underscores.
\<close>

subsection \<open>The expressions\<close>

definition re_space :: "char \<Rightarrow> bool" where
  "re_space c \<longleftrightarrow> c \<in> {CHR 0x09, CHR 0x0A, CHR 0x0C, CHR 0x0D, CHR '' ''}"

definition is_digit :: "char \<Rightarrow> bool" where
  "is_digit c \<longleftrightarrow> c \<in> set ''0123456789''"

definition is_word :: "char \<Rightarrow> bool" where
  "is_word c \<longleftrightarrow> is_digit c \<or> c = CHR ''_''
     \<or> (let n = of_char c :: nat in (65 \<le> n \<and> n \<le> 90) \<or> (97 \<le> n \<and> n \<le> 122))"

text \<open>The marker of a claim line: a bullet, or digits and a dot or a bracket.\<close>

definition after_marker :: "string \<Rightarrow> string option" where
  "after_marker line =
     (case line of [] \<Rightarrow> None
      | c # cs \<Rightarrow>
          if c = CHR ''-'' \<or> c = CHR ''*'' then Some cs
          else if is_digit c
          then (case dropWhile is_digit line of
                  [] \<Rightarrow> None
                | e # es \<Rightarrow> if e = CHR ''.'' \<or> e = CHR '')'' then Some es else None)
          else None)"

definition claim_start :: "string \<Rightarrow> string option" where
  "claim_start line =
     (case after_marker line of
        Some (c # d # cs) \<Rightarrow> if re_space c then Some (trim_space (d # cs)) else None
      | _ \<Rightarrow> None)"

definition total_line :: "string \<Rightarrow> bool" where
  "total_line line \<longleftrightarrow> has_prefix (to_lower (dropWhile re_space line)) ''total:''"

text \<open>What follows the last occurrence of a word.\<close>

fun after_last_word :: "string \<Rightarrow> bool \<Rightarrow> string \<Rightarrow> string option" where
  "after_last_word w prev [] = None"
| "after_last_word w prev (c # cs) =
     (case after_last_word w (is_word c) cs of
        Some r \<Rightarrow> Some r
      | None \<Rightarrow>
          if \<not> prev \<and> prefix w (c # cs) \<and> (case drop (length w) (c # cs) of [] \<Rightarrow> True | n # _ \<Rightarrow> \<not> is_word n)
          then Some (drop (length w) (c # cs)) else None)"

subsection \<open>The report\<close>

record claim_block =
  cb_text :: string
  cb_body :: string

definition unsupported_verdict :: "claim_block \<Rightarrow> string option" where
  "unsupported_verdict c =
     (case after_last_word ''UNSUPPORTED'' False (cb_body c) of
        None \<Rightarrow> None
      | Some rest \<Rightarrow>
          (let r = trim_space (takeWhile (\<lambda>x. x \<noteq> newline) rest) in
           if has_prefix r ''('' \<and> has_suffix r '')'' then Some (trim_space (butlast (tl r))) else Some r))"

fun join_lines :: "string list \<Rightarrow> string" where
  "join_lines [] = []"
| "join_lines [l] = l"
| "join_lines (l # ls) = l @ newline # join_lines ls"

text \<open>The walk over the lines: the open claim and its continuation lines so far.\<close>

fun split_claims :: "(string \<times> string list) option \<Rightarrow> string list \<Rightarrow> claim_block list \<times> bool" where
  "split_claims cur [] = (case cur of None \<Rightarrow> [] | Some (t, b) \<Rightarrow> [\<lparr>cb_text = t, cb_body = join_lines b\<rparr>], False)"
| "split_claims cur (line # lines) =
     (let flushed = (case cur of None \<Rightarrow> [] | Some (t, b) \<Rightarrow> [\<lparr>cb_text = t, cb_body = join_lines b\<rparr>]) in
      if total_line line then (flushed, True)
      else (case claim_start line of
        Some t \<Rightarrow> (case split_claims (Some (t, [])) lines of (cs, saw_total) \<Rightarrow> (flushed @ cs, saw_total))
      | None \<Rightarrow> split_claims (map_option (\<lambda>(t, b). (t, b @ [line])) cur) lines))"

fun unsupported_claims :: "claim_block list \<Rightarrow> unsupported list" where
  "unsupported_claims [] = []"
| "unsupported_claims (c # cs) =
     (case unsupported_verdict c of
        Some reason \<Rightarrow> \<lparr>us_claim = cb_text c, us_reason = reason\<rparr> # unsupported_claims cs
      | None \<Rightarrow> unsupported_claims cs)"

definition parse_report :: "string \<Rightarrow> document_report" where
  "parse_report out =
     (if trim_space out = []
      then \<lparr>dr_checked = False, dr_claims = 0, dr_unsupported = [], dr_err = ''empty audit response''\<rparr>
      else (case split_claims None (split_char newline out) of
        (claims, saw_total) \<Rightarrow>
          if claims = []
          then \<lparr>dr_checked = False, dr_claims = 0, dr_unsupported = [], dr_err = ''no recognisable claims in audit response''\<rparr>
          else \<lparr>dr_checked = True, dr_claims = int (length claims), dr_unsupported = unsupported_claims claims,
                dr_err = (if saw_total then [] else ''truncated: audit response ended before a TOTAL line'')\<rparr>))"

definition audit_document :: "(string \<Rightarrow> string + string) \<Rightarrow> string \<Rightarrow> document_report" where
  "audit_document complete prompt =
     (case complete prompt of
        Inl e \<Rightarrow> \<lparr>dr_checked = False, dr_claims = 0, dr_unsupported = [], dr_err = e\<rparr>
      | Inr out \<Rightarrow> parse_report out)"

lemma sample_reports:
  "parse_report (''1. Sky is blue'' @ [newline] @ ''   - SOURCE: a.md'' @ [newline] @ ''2) Grass is red'' @ [newline]
      @ ''   - UNSUPPORTED (no source)'' @ [newline] @ ''TOTAL: 2'')
   = \<lparr>dr_checked = True, dr_claims = 2, dr_unsupported = [\<lparr>us_claim = ''Grass is red'', us_reason = ''no source''\<rparr>], dr_err = []\<rparr>"
  by code_simp

lemma inline_verdict_missed:
  "parse_report (''1. Grass is red - UNSUPPORTED (no source)'' @ [newline] @ ''TOTAL: 1'')
   = \<lparr>dr_checked = True, dr_claims = 1, dr_unsupported = [], dr_err = []\<rparr>"
  by code_simp

subsection \<open>The answer read back\<close>

text \<open>An answer as the auditor is asked for it: each claim on a marked line, its lines below it, the total last.\<close>

record audit_claim =
  au_line :: string
  au_body :: "string list"

definition claim_lines :: "audit_claim \<Rightarrow> string list" where
  "claim_lines c = au_line c # au_body c"

definition plain_line :: "string \<Rightarrow> bool" where
  "plain_line l \<longleftrightarrow> claim_start l = None \<and> \<not> total_line l"

definition well_marked :: "audit_claim \<Rightarrow> bool" where
  "well_marked c \<longleftrightarrow> claim_start (au_line c) \<noteq> None \<and> \<not> total_line (au_line c) \<and> list_all plain_line (au_body c)"

definition block_of :: "audit_claim \<Rightarrow> claim_block" where
  "block_of c = \<lparr>cb_text = the (claim_start (au_line c)), cb_body = join_lines (au_body c)\<rparr>"

lemma split_claims_body:
  "list_all plain_line ls \<Longrightarrow> split_claims (Some (t, b)) (ls @ rest) = split_claims (Some (t, b @ ls)) rest"
  by (induction ls arbitrary: b) (simp_all add: plain_line_def)

lemma split_claims_blocks:
  assumes "list_all well_marked cs" and "total_line tl_line"
  shows "split_claims (Some (t, b)) (concat (map claim_lines cs) @ tl_line # rest)
    = (\<lparr>cb_text = t, cb_body = join_lines b\<rparr> # map block_of cs, True)"
  using assms(1)
proof (induction cs arbitrary: t b)
  case Nil
  with assms(2) show ?case by simp
next
  case (Cons c cs)
  then obtain u where u: "claim_start (au_line c) = Some u" "\<not> total_line (au_line c)" "list_all plain_line (au_body c)"
    by (auto simp: well_marked_def)
  have "split_claims (Some (u, [])) (au_body c @ concat (map claim_lines cs) @ tl_line # rest)
      = (\<lparr>cb_text = u, cb_body = join_lines (au_body c)\<rparr> # map block_of cs, True)"
    using split_claims_body [OF u(3), of u "[]"] Cons by simp
  with u show ?case by (simp add: claim_lines_def [of c] block_of_def [of c])
qed

lemma split_claims_all:
  assumes "list_all well_marked cs" "total_line tl_line" "list_all plain_line pre"
  shows "split_claims None (pre @ concat (map claim_lines cs) @ tl_line # rest) = (map block_of cs, True)"
proof -
  have pre: "split_claims None (pre @ ls) = split_claims None ls" for ls
    using assms(3) by (induction pre) (simp_all add: plain_line_def)
  show ?thesis
  proof (cases cs)
    case Nil
    with assms(2) show ?thesis by (simp add: pre)
  next
    case (Cons c cs')
    then obtain u where u: "claim_start (au_line c) = Some u" "\<not> total_line (au_line c)" "list_all plain_line (au_body c)"
      using assms(1) by (auto simp: well_marked_def)
    have "split_claims (Some (u, [])) (au_body c @ concat (map claim_lines cs') @ tl_line # rest)
        = (\<lparr>cb_text = u, cb_body = join_lines (au_body c)\<rparr> # map block_of cs', True)"
      using split_claims_body [OF u(3), of u "[]"] split_claims_blocks [of cs' tl_line] Cons assms by simp
    with u show ?thesis unfolding pre by (simp add: Cons claim_lines_def [of c] block_of_def [of c])
  qed
qed

lemma split_char_join:
  "ls \<noteq> [] \<Longrightarrow> \<forall>l \<in> set ls. newline \<notin> set l \<Longrightarrow> split_char newline (join_lines ls) = ls"
proof (induction ls rule: join_lines.induct)
  case (3 l m ls)
  have "split_char newline (l @ newline # s) = l # split_char newline s" if "newline \<notin> set l" for l s
    using that by (induction l) auto
  with 3 show ?case by simp
qed (simp_all add: split_char_no_sep)

lemma unsupported_claims_iff:
  "u \<in> set (unsupported_claims bs) \<longleftrightarrow>
     (\<exists>b \<in> set bs. unsupported_verdict b = Some (us_reason u) \<and> us_claim u = cb_text b)"
  by (induction bs) (auto split: option.splits)

text \<open>A word standing alone in a text.\<close>

definition stands_alone :: "string \<Rightarrow> bool \<Rightarrow> string \<Rightarrow> bool" where
  "stands_alone w prev s \<longleftrightarrow> (\<exists>a b. s = a @ w @ b \<and> (if a = [] then \<not> prev else \<not> is_word (last a))
     \<and> (b = [] \<or> \<not> is_word (hd b)))"

lemma after_last_word_iff:
  assumes "w \<noteq> []"
  shows "after_last_word w prev s \<noteq> None \<longleftrightarrow> stands_alone w prev s"
proof (induction s arbitrary: prev)
  case Nil
  with assms show ?case by (simp add: stands_alone_def)
next
  case (Cons c cs)
  have "stands_alone w prev (c # cs) \<longleftrightarrow> stands_alone w (is_word c) cs
      \<or> (\<not> prev \<and> (\<exists>b. c # cs = w @ b \<and> (b = [] \<or> \<not> is_word (hd b))))" (is "?l \<longleftrightarrow> ?r \<or> ?h")
  proof
    assume ?l
    then obtain a b where a: "c # cs = a @ w @ b" "if a = [] then \<not> prev else \<not> is_word (last a)" "b = [] \<or> \<not> is_word (hd b)"
      unfolding stands_alone_def by blast
    show "?r \<or> ?h"
    proof (cases a)
      case Nil
      with a show ?thesis by auto
    next
      case (Cons x a')
      with a have "cs = a' @ w @ b" "x = c" "if a' = [] then \<not> is_word c else \<not> is_word (last a')" by (auto split: if_splits)
      with a(3) have ?r unfolding stands_alone_def by blast
      then show ?thesis ..
    qed
  next
    assume "?r \<or> ?h"
    then show ?l
    proof
      assume ?r
      then obtain a b where "cs = a @ w @ b" "if a = [] then \<not> is_word c else \<not> is_word (last a)" "b = [] \<or> \<not> is_word (hd b)"
        unfolding stands_alone_def by blast
      then show ?l unfolding stands_alone_def by (intro exI [of _ "c # a"] exI [of _ b]) (auto split: if_splits)
    next
      assume ?h
      then show ?l unfolding stands_alone_def by (auto intro: exI [of _ "[]"])
    qed
  qed
  moreover have "(\<exists>b. c # cs = w @ b \<and> (b = [] \<or> \<not> is_word (hd b)))
      \<longleftrightarrow> prefix w (c # cs) \<and> (case drop (length w) (c # cs) of [] \<Rightarrow> True | n # _ \<Rightarrow> \<not> is_word n)"
  proof (cases "prefix w (c # cs)")
    case True
    then obtain b where b: "c # cs = w @ b" by (auto simp: prefix_def)
    show ?thesis unfolding b by (cases b) auto
  qed (auto simp: prefix_def)
  ultimately show ?case using Cons.IH [of "is_word c"] by (auto split: option.split)
qed

lemma trim_space_nonempty: "x \<in> set s \<Longrightarrow> \<not> is_space x \<Longrightarrow> trim_space s \<noteq> []"
  by (auto simp: trim_space_def dropWhile_eq_Nil_conv set_dropWhileD)
     (metis dropWhile_eq_Nil_conv set_takeWhileD takeWhile_dropWhile_id Un_iff set_append)

lemma claim_start_char:
  assumes "claim_start l \<noteq> None"
  shows "\<exists>x \<in> set l. \<not> is_space x"
proof (cases l)
  case Nil
  with assms show ?thesis by (simp add: claim_start_def after_marker_def)
next
  case (Cons c cs)
  have "is_digit c \<Longrightarrow> \<not> is_space c" by (auto simp: is_digit_def is_space_def)
  with assms Cons have "\<not> is_space c"
    by (auto simp: claim_start_def after_marker_def is_space_def split: if_splits)
  with Cons show ?thesis by simp
qed

lemma set_join_lines: "l \<in> set ls \<Longrightarrow> set l \<subseteq> set (join_lines ls)"
  by (induction ls rule: join_lines.induct) auto

text \<open>C39: An audit answer in the asked form is read back exactly: behind any preamble without claim lines, one
  claim per marked line, nothing after the total; a claim counts as unsupported exactly when the word
  UNSUPPORTED stands alone somewhere in the lines below its own, and the report is then complete.\<close>

theorem audit_answer_read_exactly:
  assumes "list_all plain_line pre" and "cs \<noteq> []" and "list_all well_marked cs" and "total_line tl_line"
    and "\<forall>l \<in> set (pre @ concat (map claim_lines cs) @ tl_line # rest). newline \<notin> set l"
  shows "\<exists>rep. parse_report (join_lines (pre @ concat (map claim_lines cs) @ tl_line # rest)) = rep
    \<and> dr_checked rep \<and> dr_err rep = [] \<and> dr_claims rep = int (length cs)
    \<and> us_claim ` set (dr_unsupported rep)
        = (\<lambda>c. the (claim_start (au_line c))) ` {c \<in> set cs. stands_alone ''UNSUPPORTED'' False (join_lines (au_body c))}"
proof -
  let ?ls = "pre @ concat (map claim_lines cs) @ tl_line # rest"
  obtain c where c: "c \<in> set cs" using assms(2) by (cases cs) auto
  then have "claim_start (au_line c) \<noteq> None" using assms(3) by (simp add: list_all_iff well_marked_def)
  then obtain x where x: "x \<in> set (au_line c)" "\<not> is_space x" using claim_start_char by blast
  have "au_line c \<in> set ?ls" using c by (auto simp: claim_lines_def)
  with x(1) have "x \<in> set (join_lines ?ls)" using set_join_lines by blast
  with x(2) have ne: "trim_space (join_lines ?ls) \<noteq> []" by (simp add: trim_space_nonempty)
  have "split_claims None (split_char newline (join_lines ?ls)) = (map block_of cs, True)"
    using split_char_join [OF _ assms(5)] split_claims_all [OF assms(3,4,1)] by simp
  then have p: "parse_report (join_lines ?ls) = \<lparr>dr_checked = True, dr_claims = int (length cs),
      dr_unsupported = unsupported_claims (map block_of cs), dr_err = []\<rparr>"
    using ne assms(2) by (simp add: parse_report_def)
  have v: "unsupported_verdict (block_of c) \<noteq> None \<longleftrightarrow> stands_alone ''UNSUPPORTED'' False (join_lines (au_body c))" for c
    using after_last_word_iff [of "''UNSUPPORTED''" False "join_lines (au_body c)"]
    by (auto simp: unsupported_verdict_def block_of_def Let_def split: option.splits)
  have "us_claim ` set (unsupported_claims (map block_of cs))
      = (\<lambda>c. the (claim_start (au_line c))) ` {c \<in> set cs. unsupported_verdict (block_of c) \<noteq> None}"
  proof -
    have "us_claim ` set (unsupported_claims bs) = cb_text ` {b \<in> set bs. unsupported_verdict b \<noteq> None}" for bs
      by (induction bs) (auto split: option.splits)
    moreover have "{b \<in> set (map block_of cs). unsupported_verdict b \<noteq> None}
        = block_of ` {c \<in> set cs. unsupported_verdict (block_of c) \<noteq> None}" by auto
    ultimately show ?thesis by (simp add: image_image, simp add: block_of_def)
  qed
  then show ?thesis unfolding v by (simp add: p)
qed

theorem audit_answer_read_exactly_witness:
  "\<exists>rep. parse_report (join_lines [''- a'', ''  UNSUPPORTED'', ''TOTAL: 1'']) = rep \<and> dr_claims rep = 1"
proof -
  let ?c = "\<lparr>au_line = ''- a'', au_body = [''  UNSUPPORTED'']\<rparr>"
  have "list_all plain_line []" "[?c] \<noteq> []" "list_all well_marked [?c]" "total_line ''TOTAL: 1''"
    "\<forall>l \<in> set ([] @ concat (map claim_lines [?c]) @ ''TOTAL: 1'' # []). newline \<notin> set l" by code_simp+
  from audit_answer_read_exactly [OF this] show ?thesis by (auto simp: claim_lines_def)
qed

end
