(* ===== verification/Gguf.thy ===== *)
theory Gguf
  imports Catalog "HOL-Library.Signed_Division"
begin

text \<open>
  \<open>internal/gguf\<close>: the reader of a GGUF file's header and metadata, and the geometry drawn from it. An input
  is the bytes a reader yields and what it answers after them: the end of the file, or an error. Arrays nest,
  so a value is read by a recursion that the text of the code does not bound: it is a partial function, and
  that it returns on every input is proved in \<open>GgufFacts\<close>. A float is kept as its bits, since nothing reads it.
\<close>

type_synonym u32 = "32 word"

subsection \<open>The wire types\<close>

definition type_uint8 :: u32 where "type_uint8 = 0"
definition type_int8 :: u32 where "type_int8 = 1"
definition type_uint16 :: u32 where "type_uint16 = 2"
definition type_int16 :: u32 where "type_int16 = 3"
definition type_uint32 :: u32 where "type_uint32 = 4"
definition type_int32 :: u32 where "type_int32 = 5"
definition type_float32 :: u32 where "type_float32 = 6"
definition type_bool :: u32 where "type_bool = 7"
definition type_string :: u32 where "type_string = 8"
definition type_array :: u32 where "type_array = 9"
definition type_uint64 :: u32 where "type_uint64 = 10"
definition type_int64 :: u32 where "type_int64 = 11"
definition type_float64 :: u32 where "type_float64 = 12"

lemmas wire_types = type_uint8_def type_int8_def type_uint16_def type_int16_def type_uint32_def type_int32_def
  type_float32_def type_bool_def type_string_def type_array_def type_uint64_def type_int64_def type_float64_def

definition max_kv_count :: nat where "max_kv_count = 2 ^ 20"
definition max_string_len :: nat where "max_string_len = 2 ^ 24"
definition max_array_count :: nat where "max_array_count = 2 ^ 28"
definition max_layer_array :: nat where "max_layer_array = 4096"

lemmas gguf_caps = max_kv_count_def max_string_len_def max_array_count_def max_layer_array_def

datatype gguf_value =
    GUint u64 | GInt int | GBool bool | GFloat32 u32 | GFloat64 u64 | GString string
  | GUints "u64 list" | GBools "bool list" | GArray

datatype gguf_error =
    BadMagic string | UnsupportedVersion u32 | HeaderEndsEarly | InputFailed string
  | KVCountCap u64 | StringCap u64 | ArrayCap u64 | UnknownType u32 | InKey string gguf_error
  | MissingKey string | PerLayerArray string | NotAnInteger string | LengthMismatch string nat int
  | LayersDisagree string "u64 list" | ZeroHeadCount string | IndexOutOfRange

subsection \<open>Reading bytes\<close>

record input =
  in_bytes :: string
  in_error :: "string option"

type_synonym 'a reading = "gguf_error + 'a \<times> input"

text \<open>\<open>io.ReadFull\<close>, with the error \<open>wrapEOF\<close> makes of it.\<close>

definition read_full :: "nat \<Rightarrow> input \<Rightarrow> string reading" where
  "read_full n r =
     (if n \<le> length (in_bytes r) then Inr (take n (in_bytes r), r\<lparr>in_bytes := drop n (in_bytes r)\<rparr>)
      else Inl (case in_error r of None \<Rightarrow> HeaderEndsEarly | Some e \<Rightarrow> InputFailed e))"

definition le_value :: "string \<Rightarrow> u64" where
  "le_value bs = of_nat (horner_sum of_char 256 bs)"

definition read_le :: "nat \<Rightarrow> input \<Rightarrow> u64 reading" where
  "read_le width r = result_bind (read_full width r) (\<lambda>(bs, r'). Inr (le_value bs, r'))"

definition read_u32 :: "input \<Rightarrow> u32 reading" where
  "read_u32 r = result_bind (read_le 4 r) (\<lambda>(u, r'). Inr (ucast u, r'))"

definition read_u64 :: "input \<Rightarrow> u64 reading" where
  "read_u64 = read_le 8"

definition read_string :: "input \<Rightarrow> string reading" where
  "read_string r =
     result_bind (read_u64 r) (\<lambda>(n, r1).
       if unat n > max_string_len then Inl (StringCap n) else read_full (unat n) r1)"

subsection \<open>Values\<close>

definition scalar_width :: "u32 \<Rightarrow> nat" where
  "scalar_width typ =
     (if typ = type_uint8 \<or> typ = type_int8 then 1 else if typ = type_uint16 \<or> typ = type_int16 then 2
      else if typ = type_uint32 \<or> typ = type_int32 then 4 else 8)"

definition scalar_int :: "u32 \<Rightarrow> bool" where
  "scalar_int typ \<longleftrightarrow> typ \<in> {type_uint8, type_int8, type_uint16, type_int16, type_uint32, type_int32, type_uint64, type_int64}"

text \<open>\<open>int64(u<<shift) >> shift\<close>: the sign of the narrow integer is carried up.\<close>

definition sign_extend :: "nat \<Rightarrow> u64 \<Rightarrow> int" where
  "sign_extend width u = sint (signed_drop_bit (64 - 8 * width) (push_bit (64 - 8 * width) u))"

definition with_value :: "('a \<Rightarrow> 'b) \<Rightarrow> 'a reading \<Rightarrow> 'b reading" where
  "with_value f q = result_bind q (\<lambda>(a, r). Inr (f a, r))"

text \<open>The state of \<open>readArray\<close>'s loop.\<close>

record array_acc =
  aa_keep :: bool
  aa_uints :: "u64 list"
  aa_bools :: "bool list"

definition array_step :: "gguf_value \<Rightarrow> array_acc \<Rightarrow> array_acc" where
  "array_step v a =
     (case v of
        GBool b \<Rightarrow> if aa_keep a then a\<lparr>aa_bools := aa_bools a @ [b]\<rparr> else a
      | GUint u \<Rightarrow> if aa_keep a then a\<lparr>aa_uints := aa_uints a @ [u]\<rparr> else a
      | GInt i \<Rightarrow> if i < 0 then a\<lparr>aa_keep := False\<rparr>
                  else if aa_keep a then a\<lparr>aa_uints := aa_uints a @ [u64_of_int i]\<rparr> else a
      | _ \<Rightarrow> a)"

definition array_value :: "bool \<Rightarrow> array_acc \<Rightarrow> gguf_value" where
  "array_value is_bool a =
     (if \<not> aa_keep a then GArray else if is_bool then GBools (aa_bools a) else GUints (aa_uints a))"

definition array_start :: "u32 \<Rightarrow> nat \<Rightarrow> array_acc" where
  "array_start elem count =
     \<lparr>aa_keep = (count \<le> max_layer_array \<and> (elem = type_bool \<or> scalar_int elem)), aa_uints = [], aa_bools = []\<rparr>"

text \<open>The element type and the count of an array.\<close>

definition read_array_head :: "input \<Rightarrow> (u32 \<times> nat) reading" where
  "read_array_head r =
     result_bind (read_u32 r) (\<lambda>(elem, r1).
     result_bind (read_u64 r1) (\<lambda>(count, r2).
       if unat count > max_array_count then Inl (ArrayCap count) else Inr ((elem, unat count), r2)))"

text \<open>The elements, one after the other, by a reader of one value that may not return.\<close>

primrec read_elems ::
  "(input \<Rightarrow> gguf_value reading option) \<Rightarrow> nat \<Rightarrow> array_acc \<Rightarrow> input \<Rightarrow> array_acc reading option" where
  "read_elems f 0 a r = Some (Inr (a, r))"
| "read_elems f (Suc n) a r =
     Option.bind (f r) (\<lambda>q. case q of Inl e \<Rightarrow> Some (Inl e) | Inr (v, r') \<Rightarrow> read_elems f n (array_step v a) r')"

definition read_array_with ::
  "(u32 \<Rightarrow> input \<Rightarrow> gguf_value reading option) \<Rightarrow> input \<Rightarrow> gguf_value reading option" where
  "read_array_with f r =
     (case read_array_head r of
        Inl e \<Rightarrow> Some (Inl e)
      | Inr ((elem, count), r1) \<Rightarrow>
          map_option (with_value (array_value (elem = type_bool))) (read_elems (f elem) count (array_start elem count) r1))"

definition read_scalar :: "u32 \<Rightarrow> input \<Rightarrow> gguf_value reading" where
  "read_scalar typ r =
     (if typ \<in> {type_uint8, type_uint16, type_uint32, type_uint64} then with_value GUint (read_le (scalar_width typ) r)
      else if typ = type_bool then with_value (\<lambda>u. GBool (u \<noteq> 0)) (read_le 1 r)
      else if typ \<in> {type_int8, type_int16, type_int32, type_int64}
      then with_value (\<lambda>u. GInt (sign_extend (scalar_width typ) u)) (read_le (scalar_width typ) r)
      else if typ = type_float32 then with_value (\<lambda>u. GFloat32 (ucast u)) (read_le 4 r)
      else if typ = type_float64 then with_value GFloat64 (read_le 8 r)
      else if typ = type_string then with_value GString (read_string r)
      else Inl (UnknownType typ))"

lemma read_elems_mono:
  assumes "\<And>r. mono_option (\<lambda>F. G F r)"
  shows "mono_option (\<lambda>F. read_elems (G F) n a r)"
proof (induction n arbitrary: a r)
  case (Suc n)
  have "mono_option (\<lambda>F. case q of Inl e \<Rightarrow> Some (Inl e) | Inr (v, r') \<Rightarrow> read_elems (G F) n (array_step v a) r')" for q
    using Suc.IH by (cases q) (auto split: prod.split intro: option.const_mono)
  then show ?case using assms by (simp add: bind_mono)
qed (simp add: option.const_mono)

lemma read_array_with_mono [partial_function_mono]:
  "mono_option (\<lambda>F. read_array_with (\<lambda>x y. F (x, y)) r)"
proof (cases "read_array_head r")
  case (Inr q)
  obtain elem count r1 where q: "q = ((elem, count), r1)" by (metis surj_pair)
  have m: "map_option g x = Option.bind x (\<lambda>x. Some (g x))" for g x by (cases x) auto
  have "mono_option (\<lambda>F. read_elems (\<lambda>y. F (elem, y)) count (array_start elem count) r1)"
    by (intro read_elems_mono call_mono)
  then show ?thesis unfolding read_array_with_def Inr q m by (simp add: bind_mono option.const_mono)
qed (simp add: read_array_with_def option.const_mono)

partial_function (option) read_value :: "u32 \<Rightarrow> input \<Rightarrow> gguf_value reading option" where
  "read_value typ r = (if typ = type_array then read_array_with read_value r else Some (read_scalar typ r))"

declare read_value.simps [code]

subsection \<open>The header\<close>

record header =
  hd_version :: u32
  hd_tensors :: u64
  hd_kv :: "string \<Rightarrow> gguf_value option"

definition read_entry :: "input \<Rightarrow> (string \<times> gguf_value) reading option" where
  "read_entry r =
     (case read_string r of
        Inl e \<Rightarrow> Some (Inl e)
      | Inr (key, r1) \<Rightarrow>
          (case read_u32 r1 of
             Inl e \<Rightarrow> Some (Inl e)
           | Inr (typ, r2) \<Rightarrow>
               map_option (\<lambda>q. case q of Inl e \<Rightarrow> Inl (InKey key e) | Inr (v, r3) \<Rightarrow> Inr ((key, v), r3)) (read_value typ r2)))"

primrec read_entries ::
  "nat \<Rightarrow> (string \<Rightarrow> gguf_value option) \<Rightarrow> input \<Rightarrow> (string \<Rightarrow> gguf_value option) reading option" where
  "read_entries 0 kv r = Some (Inr (kv, r))"
| "read_entries (Suc n) kv r =
     Option.bind (read_entry r) (\<lambda>q. case q of
        Inl e \<Rightarrow> Some (Inl e) | Inr ((key, v), r') \<Rightarrow> read_entries n (kv(key \<mapsto> v)) r')"

definition read_preamble :: "input \<Rightarrow> (u32 \<times> u64 \<times> nat) reading" where
  "read_preamble r =
     result_bind (read_full 4 r) (\<lambda>(magic, r1).
     if magic \<noteq> ''GGUF'' then Inl (BadMagic magic)
     else result_bind (read_u32 r1) (\<lambda>(version, r2).
     if version \<noteq> 2 \<and> version \<noteq> 3 then Inl (UnsupportedVersion version)
     else result_bind (read_u64 r2) (\<lambda>(tensors, r3).
          result_bind (read_u64 r3) (\<lambda>(count, r4).
     if unat count > max_kv_count then Inl (KVCountCap count) else Inr ((version, tensors, unat count), r4)))))"

definition read_header :: "input \<Rightarrow> header reading option" where
  "read_header r =
     (case read_preamble r of
        Inl e \<Rightarrow> Some (Inl e)
      | Inr ((version, tensors, count), r1) \<Rightarrow>
          map_option (with_value (\<lambda>kv. \<lparr>hd_version = version, hd_tensors = tensors, hd_kv = kv\<rparr>))
            (read_entries count Map.empty r1))"

subsection \<open>Looking values up\<close>

definition arch_key :: string where "arch_key = ''general.architecture''"

definition header_string :: "header \<Rightarrow> string \<Rightarrow> string option" where
  "header_string h key = (case hd_kv h key of Some (GString s) \<Rightarrow> Some s | _ \<Rightarrow> None)"

definition header_arch :: "header \<Rightarrow> string" where
  "header_arch h = (case header_string h arch_key of Some s \<Rightarrow> s | None \<Rightarrow> [])"

definition header_uint :: "header \<Rightarrow> string \<Rightarrow> u64 option" where
  "header_uint h key =
     (case hd_kv h key of
        Some (GUint u) \<Rightarrow> Some u
      | Some (GInt i) \<Rightarrow> if i < 0 then None else Some (u64_of_int i)
      | _ \<Rightarrow> None)"

definition header_uints :: "header \<Rightarrow> string \<Rightarrow> u64 list option" where
  "header_uints h key = (case hd_kv h key of Some (GUints us) \<Rightarrow> Some us | _ \<Rightarrow> None)"

definition header_bools :: "header \<Rightarrow> string \<Rightarrow> bool list option" where
  "header_bools h key = (case hd_kv h key of Some (GBools bs) \<Rightarrow> Some bs | _ \<Rightarrow> None)"

definition uint_key :: "header \<Rightarrow> string \<Rightarrow> gguf_error + u64" where
  "uint_key h key =
     (case hd_kv h key of
        None \<Rightarrow> Inl (MissingKey key)
      | Some v \<Rightarrow>
          (case v of
             GArray \<Rightarrow> Inl (PerLayerArray key) | GUints _ \<Rightarrow> Inl (PerLayerArray key) | GBools _ \<Rightarrow> Inl (PerLayerArray key)
           | _ \<Rightarrow> (case header_uint h key of None \<Rightarrow> Inl (NotAnInteger key) | Some n \<Rightarrow> Inr n)))"

subsection \<open>The geometry\<close>

text \<open>Go's \<open>int(u)\<close> of a \<open>uint64\<close>, and its division, which truncates and wraps.\<close>

definition go_int :: "u64 \<Rightarrow> int" where "go_int u = sint u"

definition go_div :: "int \<Rightarrow> int \<Rightarrow> int" where "go_div a b = int64 (a sdiv b)"

text \<open>Which blocks are read: all of them, or those whose entry in the pattern is the given one. An index
  outside the pattern has no answer (the code would panic).\<close>

datatype bearing = EveryBlock | InPattern "bool list" bool

definition bears :: "bearing \<Rightarrow> nat \<Rightarrow> bool option" where
  "bears p i =
     (case p of EveryBlock \<Rightarrow> Some True
      | InPattern pattern b \<Rightarrow> if i < length pattern then Some (pattern ! i = b) else None)"

definition window_pattern :: "string \<Rightarrow> string" where
  "window_pattern arch = arch @ ''.attention.sliding_window_pattern''"

definition kv_layer_set :: "header \<Rightarrow> string \<Rightarrow> int \<Rightarrow> gguf_error + int \<times> bearing" where
  "kv_layer_set h arch blocks =
     (case header_bools h (window_pattern arch) of
        Some pattern \<Rightarrow>
          if int (length pattern) \<noteq> blocks then Inl (LengthMismatch (window_pattern arch) (length pattern) blocks)
          else Inr (int (length (filter (\<lambda>sliding. \<not> sliding) pattern)), InPattern pattern False)
      | None \<Rightarrow>
          (case header_uint h (arch @ ''.full_attention_interval'') of
             Some interval \<Rightarrow> if interval > 0 then Inr (go_div blocks (go_int interval), EveryBlock) else Inr (blocks, EveryBlock)
           | None \<Rightarrow> Inr (blocks, EveryBlock)))"

fun bearing_values :: "bearing \<Rightarrow> nat \<Rightarrow> u64 list \<Rightarrow> gguf_error + u64 list" where
  "bearing_values p i [] = Inr []"
| "bearing_values p i (v # vs) =
     (case bears p i of
        None \<Rightarrow> Inl IndexOutOfRange
      | Some b \<Rightarrow> result_bind (bearing_values p (i + 1) vs) (\<lambda>us. Inr (if b then v # us else us)))"

definition kv_head_count :: "header \<Rightarrow> string \<Rightarrow> int \<Rightarrow> bearing \<Rightarrow> gguf_error + u64" where
  "kv_head_count h key blocks p =
     (case header_uints h key of
        None \<Rightarrow> uint_key h key
      | Some per \<Rightarrow>
          if int (length per) \<noteq> blocks then Inl (LengthMismatch key (length per) blocks)
          else result_bind (bearing_values p 0 per) (\<lambda>vs.
            (case sort (remdups vs) of
               [] \<Rightarrow> Inr 0 | [v] \<Rightarrow> Inr v | us \<Rightarrow> Inl (LayersDisagree key us))))"

definition key_length :: "header \<Rightarrow> string \<Rightarrow> gguf_error + u64" where
  "key_length h arch =
     (case header_uint h (arch @ ''.attention.key_length'') of
        Some n \<Rightarrow> Inr n
      | None \<Rightarrow>
          result_bind (uint_key h (arch @ ''.embedding_length'')) (\<lambda>embed.
          result_bind (uint_key h (arch @ ''.attention.head_count'')) (\<lambda>heads.
            if heads = 0 then Inl (ZeroHeadCount arch) else Inr (embed div heads))))"

definition header_sliding_window :: "header \<Rightarrow> geometry \<Rightarrow> string \<Rightarrow> int \<Rightarrow> gguf_error + geometry" where
  "header_sliding_window h g arch blocks =
     (case header_bools h (window_pattern arch) of
        None \<Rightarrow> Inr g
      | Some pattern \<Rightarrow>
          (let n = length (filter (\<lambda>sliding. sliding) pattern) in
           if n = 0 then Inr g
           else
             result_bind (kv_head_count h (arch @ ''.attention.head_count_kv'') blocks (InPattern pattern True)) (\<lambda>heads.
             result_bind (uint_key h (arch @ ''.attention.sliding_window'')) (\<lambda>window.
               Inr (g\<lparr>g_swa_layers := int n, g_swa_head_count_kv := go_int heads,
                      g_swa_key_length := go_int (case header_uint h (arch @ ''.attention.key_length_swa'') of
                                                    Some v \<Rightarrow> v | None \<Rightarrow> u64_of_int (g_key_length g)),
                      g_swa_window := go_int window\<rparr>)))))"

definition header_geometry :: "header \<Rightarrow> gguf_error + geometry" where
  "header_geometry h =
     (let arch = header_arch h in
      if arch = [] then Inl (MissingKey arch_key)
      else
        result_bind (uint_key h (arch @ ''.block_count'')) (\<lambda>blocks.
        result_bind (kv_layer_set h arch (go_int blocks)) (\<lambda>(layers, p).
        result_bind (kv_head_count h (arch @ ''.attention.head_count_kv'') (go_int blocks) p) (\<lambda>heads.
        result_bind (key_length h arch) (\<lambda>len.
          header_sliding_window h
            \<lparr>g_kv_layers = layers, g_head_count_kv = go_int heads, g_key_length = go_int len, g_swa_layers = 0,
             g_swa_head_count_kv = 0, g_swa_key_length = 0, g_swa_window = 0\<rparr> arch (go_int blocks))))))"

definition has_sliding_window :: "geometry \<Rightarrow> bool" where
  "has_sliding_window g \<longleftrightarrow>
     g_swa_layers g \<noteq> 0 \<or> g_swa_head_count_kv g \<noteq> 0 \<or> g_swa_key_length g \<noteq> 0 \<or> g_swa_window g \<noteq> 0"

subsection \<open>The encoder of the fixtures\<close>

text \<open>\<open>FixtureWithArraysForTest\<close>; where it ranges over a map, the entries come in the order given.\<close>

fun le_bytes :: "nat \<Rightarrow> nat \<Rightarrow> string" where
  "le_bytes 0 n = []"
| "le_bytes (Suc w) n = char_of (n mod 256) # le_bytes w (n div 256)"

definition append_u32 :: "nat \<Rightarrow> string" where "append_u32 n = le_bytes 4 n"
definition append_u64 :: "nat \<Rightarrow> string" where "append_u64 n = le_bytes 8 n"

definition fixture_string :: "string \<Rightarrow> string" where
  "fixture_string s = append_u64 (length s) @ s"

definition fixture_typed :: "string \<Rightarrow> u32 \<Rightarrow> string" where
  "fixture_typed key typ = fixture_string key @ append_u32 (unat typ)"

definition fixture_key :: "string \<times> u64 \<Rightarrow> string" where
  "fixture_key e = (case e of (k, v) \<Rightarrow> fixture_typed k type_uint64 @ append_u64 (unat v))"

definition fixture_uints :: "string \<times> u64 list \<Rightarrow> string" where
  "fixture_uints e = (case e of (k, vs) \<Rightarrow>
     fixture_typed k type_array @ append_u32 (unat type_uint32) @ append_u64 (length vs)
       @ concat (map (\<lambda>v. append_u32 (unat (ucast v :: u32))) vs))"

definition fixture_bools :: "string \<times> bool list \<Rightarrow> string" where
  "fixture_bools e = (case e of (k, vs) \<Rightarrow>
     fixture_typed k type_array @ append_u32 (unat type_bool) @ append_u64 (length vs)
       @ map (\<lambda>v. char_of (if v then 1 else 0 :: nat)) vs)"

definition fixture ::
  "string \<Rightarrow> (string \<times> u64) list \<Rightarrow> (string \<times> u64 list) list \<Rightarrow> (string \<times> bool list) list \<Rightarrow> string" where
  "fixture arch keys uints bools =
     ''GGUF'' @ append_u32 3 @ append_u64 0 @ append_u64 (length keys + length uints + length bools + 1)
     @ fixture_typed arch_key type_string @ fixture_string arch
     @ concat (map fixture_key keys) @ concat (map fixture_uints uints) @ concat (map fixture_bools bools)"

end
