(* ===== verification/Download.thy ===== *)
theory Download
  imports Gguf
begin

text \<open>
  \<open>internal/download\<close>: a model's files are fetched into the models directory. The disk is a map from paths
  to bytes. What the server answers, and at which step a call of the operating system fails, is decided by
  parameters over a state of their own; SHA-256 is the parameter \<open>de_sha\<close>, applied to all that was fed to
  the rolling hash. Two hexadecimal digests are compared as the ASCII they are.
\<close>

subsection \<open>The host and the server\<close>

record 'x dl_host =
  dh_files :: "string \<Rightarrow> string option"
  dh_world :: 'x

record http_response =
  hr_status :: nat
  hr_etag :: string
  hr_size :: string
  hr_body :: string
  hr_body_error :: "string option"

datatype http_request = HeadOf string | GetOf string "nat option"

record 'x dl_env =
  de_cwd :: "string option"
  de_sha :: "string \<Rightarrow> string"
  de_bad_request :: "string \<Rightarrow> string option"
  de_http :: "http_request \<Rightarrow> 'x \<Rightarrow> (string + http_response) \<times> 'x"
  de_cancelled :: "'x \<Rightarrow> string option"
  de_stat_error :: "string \<Rightarrow> 'x \<Rightarrow> bool"
  de_read_error :: "string \<Rightarrow> 'x \<Rightarrow> string option"
  de_open_error :: "string \<Rightarrow> 'x \<Rightarrow> string option \<times> 'x"
  de_write_error :: "string \<Rightarrow> string \<Rightarrow> 'x \<Rightarrow> (nat \<times> string) option \<times> 'x"
  de_close_error :: "string \<Rightarrow> 'x \<Rightarrow> string option \<times> 'x"
  de_rename_error :: "string \<Rightarrow> 'x \<Rightarrow> string option \<times> 'x"
  de_remove_error :: "string \<Rightarrow> 'x \<Rightarrow> bool \<times> 'x"

datatype download_error =
    OutsideModels path_error | NotBare string | BadRequest string string | RequestFailed string string
  | UnexpectedStatus string nat | EtagDiffers string string | SizeDiffers string u64
  | PartOpen string string | StreamFailed string string | PartClose string string
  | SizeMismatch string int u64 | ChecksumMismatch string string | PublishFailed string string
  | NoShards string | Cancelled string | InShard string nat nat download_error
  | GeometryOpen string string | GeometryHeader string gguf_error | GeometryRead string gguf_error
  | GeometryDisagrees string geometry geometry

definition set_bytes :: "string \<Rightarrow> string option \<Rightarrow> 'x dl_host \<Rightarrow> 'x dl_host" where
  "set_bytes p b h = h\<lparr>dh_files := (dh_files h)(p := b)\<rparr>"

definition on_dl_world :: "('x \<Rightarrow> 'r \<times> 'x) \<Rightarrow> 'x dl_host \<Rightarrow> 'r \<times> 'x dl_host" where
  "on_dl_world f h = (case f (dh_world h) of (r, w) \<Rightarrow> (r, h\<lparr>dh_world := w\<rparr>))"

text \<open>\<open>os.Stat\<close>: the size of a file that is there.\<close>

definition stat_size :: "'x dl_env \<Rightarrow> string \<Rightarrow> 'x dl_host \<Rightarrow> nat option" where
  "stat_size env p h = (if de_stat_error env p (dh_world h) then None else map_option length (dh_files h p))"

text \<open>\<open>os.Remove\<close>, its error not looked at.\<close>

definition remove_part :: "'x dl_env \<Rightarrow> string \<Rightarrow> 'x dl_host \<Rightarrow> 'x dl_host" where
  "remove_part env p h =
     (case on_dl_world (de_remove_error env p) h of (failed, h') \<Rightarrow> if failed then h' else set_bytes p None h')"

subsection \<open>Headers\<close>

definition equal_fold :: "string \<Rightarrow> string \<Rightarrow> bool" where
  "equal_fold a b \<longleftrightarrow> to_lower a = to_lower b"

definition trim_quotes :: "string \<Rightarrow> string" where
  "trim_quotes s = rev (dropWhile (\<lambda>c. c = CHR 0x22) (rev (dropWhile (\<lambda>c. c = CHR 0x22) s)))"

definition digit_of :: "char \<Rightarrow> nat option" where
  "digit_of c = (let n = of_char c in if 48 \<le> n \<and> n \<le> (57 :: nat) then Some (n - 48) else None)"

text \<open>\<open>strconv.ParseUint(s, 10, 64)\<close>.\<close>

fun digits_value :: "nat \<Rightarrow> string \<Rightarrow> nat option" where
  "digits_value acc [] = Some acc"
| "digits_value acc (c # cs) = (case digit_of c of None \<Rightarrow> None | Some d \<Rightarrow> digits_value (10 * acc + d) cs)"

definition parse_u64 :: "string \<Rightarrow> u64 option" where
  "parse_u64 s =
     (if s = [] then None
      else case digits_value 0 s of None \<Rightarrow> None | Some n \<Rightarrow> if n \<le> max_u64_nat then Some (of_nat n) else None)"

definition check_head :: "shard \<Rightarrow> http_response \<Rightarrow> download_error + unit" where
  "check_head sh resp =
     (if hr_status resp \<noteq> 200 then Inl (UnexpectedStatus (sh_filename sh) (hr_status resp))
      else if hr_etag resp \<noteq> [] \<and> \<not> equal_fold (trim_quotes (hr_etag resp)) (sh_sha256 sh)
      then Inl (EtagDiffers (sh_filename sh) (trim_quotes (hr_etag resp)))
      else if hr_size resp \<noteq> []
      then (case parse_u64 (hr_size resp) of
              Some n \<Rightarrow> if n \<noteq> sh_size_bytes sh then Inl (SizeDiffers (sh_filename sh) n) else Inr ()
            | None \<Rightarrow> Inr ())
      else Inr ())"

definition send_request ::
  "'x dl_env \<Rightarrow> shard \<Rightarrow> http_request \<Rightarrow> 'x dl_host \<Rightarrow> (download_error + http_response) \<times> 'x dl_host" where
  "send_request env sh req h =
     (case de_bad_request env (sh_url sh) of
        Some e \<Rightarrow> (Inl (BadRequest (sh_filename sh) e), h)
      | None \<Rightarrow>
          (case on_dl_world (de_http env req) h of
             (Inl e, h') \<Rightarrow> (Inl (RequestFailed (sh_filename sh) e), h') | (Inr r, h') \<Rightarrow> (Inr r, h')))"

definition head_verify :: "'x dl_env \<Rightarrow> shard \<Rightarrow> 'x dl_host \<Rightarrow> (download_error + unit) \<times> 'x dl_host" where
  "head_verify env sh h =
     (case send_request env sh (HeadOf (sh_url sh)) h of
        (Inl e, h') \<Rightarrow> (Inl e, h') | (Inr resp, h') \<Rightarrow> (check_head sh resp, h'))"

subsection \<open>Streaming into the part\<close>

text \<open>The bytes a rolling hash holds and where the transfer resumes: a part that cannot be read is discarded.\<close>

definition seed_part :: "'x dl_env \<Rightarrow> string \<Rightarrow> 'x dl_host \<Rightarrow> (string \<times> nat) \<times> 'x dl_host" where
  "seed_part env part h =
     (case stat_size env part h of
        Some (Suc _) \<Rightarrow>
          (case (de_read_error env part (dh_world h), dh_files h part) of
             (None, Some b) \<Rightarrow> ((b, length b), h)
           | _ \<Rightarrow> (([], 0), remove_part env part h))
      | _ \<Rightarrow> (([], 0), h))"

text \<open>The copy appends to the part, or starts it over when nothing is resumed, and feeds the same bytes to the hash.\<close>

definition copy_body ::
  "'x dl_env \<Rightarrow> shard \<Rightarrow> string \<Rightarrow> string \<Rightarrow> nat \<Rightarrow> http_response \<Rightarrow> 'x dl_host \<Rightarrow> (download_error + string \<times> nat) \<times> 'x dl_host" where
  "copy_body env sh part hashed resume resp h =
     (case on_dl_world (de_open_error env part) h of
        (Some e, h1) \<Rightarrow> (Inl (PartOpen (sh_filename sh) e), h1)
      | (None, h1) \<Rightarrow>
          (let old = (if resume > 0 then (case dh_files h1 part of None \<Rightarrow> [] | Some b \<Rightarrow> b) else []);
               body = hr_body resp in
           case on_dl_world (de_write_error env part body) h1 of
             (Some (n, e), h2) \<Rightarrow>
               (Inl (StreamFailed (sh_filename sh) e),
                snd (on_dl_world (de_close_error env part) (set_bytes part (Some (old @ take n body)) h2)))
           | (None, h2) \<Rightarrow>
               (case on_dl_world (de_close_error env part) (set_bytes part (Some (old @ body)) h2) of (shut, h3) \<Rightarrow>
                  (case hr_body_error resp of
                     Some e \<Rightarrow> (Inl (StreamFailed (sh_filename sh) e), h3)
                   | None \<Rightarrow>
                       (case shut of
                          Some e \<Rightarrow> (Inl (PartClose (sh_filename sh) e), h3)
                        | None \<Rightarrow> (Inr (hashed @ body, resume + length body), h3))))))"

definition stream_to_part ::
  "'x dl_env \<Rightarrow> shard \<Rightarrow> string \<Rightarrow> string \<Rightarrow> nat \<Rightarrow> 'x dl_host \<Rightarrow> (download_error + string \<times> nat) \<times> 'x dl_host" where
  "stream_to_part env sh part hashed resume h =
     (case send_request env sh (GetOf (sh_url sh) (if resume > 0 then Some resume else None)) h of
        (Inl e, h1) \<Rightarrow> (Inl e, h1)
      | (Inr resp, h1) \<Rightarrow>
          if hr_status resp = 200
          then copy_body env sh part (if resume > 0 then [] else hashed) 0 resp h1
          else if hr_status resp = 206 then copy_body env sh part hashed resume resp h1
          else (Inl (UnexpectedStatus (sh_filename sh) (hr_status resp)), h1))"

subsection \<open>One file\<close>

definition part_suffix :: string where "part_suffix = ''.part''"

definition bare_name :: "string \<Rightarrow> bool" where
  "bare_name n \<longleftrightarrow> slash \<notin> set n \<and> n = base_path n"

text \<open>The checks after the transfer; the final path appears only by the rename.\<close>

definition publish :: "'x dl_env \<Rightarrow> shard \<Rightarrow> string \<Rightarrow> string \<Rightarrow> string \<Rightarrow> nat \<Rightarrow> 'x dl_host \<Rightarrow> (download_error + unit) \<times> 'x dl_host" where
  "publish env sh final part hashed written h =
     (if u64_of_int (int written) \<noteq> sh_size_bytes sh
      then (Inl (SizeMismatch (sh_filename sh) (int written) (sh_size_bytes sh)), remove_part env part h)
      else if \<not> equal_fold (de_sha env hashed) (sh_sha256 sh)
      then (Inl (ChecksumMismatch (sh_filename sh) (de_sha env hashed)), remove_part env part h)
      else (case on_dl_world (de_rename_error env part) h of
              (Some e, h1) \<Rightarrow> (Inl (PublishFailed (sh_filename sh) e), remove_part env part h1)
            | (None, h1) \<Rightarrow> (Inr (), set_bytes part None (set_bytes final (dh_files h1 part) h1))))"

definition fetch_file :: "'x dl_env \<Rightarrow> shard \<Rightarrow> string \<Rightarrow> string \<Rightarrow> 'x dl_host \<Rightarrow> (download_error + unit) \<times> 'x dl_host" where
  "fetch_file env sh final part h =
     (case head_verify env sh h of
        (Inl e, h1) \<Rightarrow> (Inl e, h1)
      | (Inr _, h1) \<Rightarrow>
          (case seed_part env part h1 of ((hashed, resume), h2) \<Rightarrow>
             (case stream_to_part env sh part hashed resume h2 of
                (Inl e, h3) \<Rightarrow> (Inl e, h3)
              | (Inr (hashed, written), h3) \<Rightarrow> publish env sh final part hashed written h3)))"

definition download_file :: "'x dl_env \<Rightarrow> shard \<Rightarrow> string \<Rightarrow> 'x dl_host \<Rightarrow> (download_error + unit) \<times> 'x dl_host" where
  "download_file env sh dir h =
     (let final = join_path dir (sh_filename sh); part = final @ part_suffix in
      case inside (de_cwd env) final dir of
        Inl e \<Rightarrow> (Inl (OutsideModels e), h)
      | Inr _ \<Rightarrow>
          if \<not> bare_name (sh_filename sh) then (Inl (NotBare (sh_filename sh)), h)
          else if map_option (\<lambda>n. u64_of_int (int n)) (stat_size env final h) = Some (sh_size_bytes sh) then (Inr (), h)
          else fetch_file env sh final part h)"

subsection \<open>A model\<close>

definition zero_geometry :: geometry where
  "zero_geometry = \<lparr>g_kv_layers = 0, g_head_count_kv = 0, g_key_length = 0, g_swa_layers = 0,
     g_swa_head_count_kv = 0, g_swa_key_length = 0, g_swa_window = 0\<rparr>"

definition verify_geometry :: "'x dl_env \<Rightarrow> model \<Rightarrow> string \<Rightarrow> 'x dl_host \<Rightarrow> (download_error + unit) option" where
  "verify_geometry env m dir h =
     (let want = model_geometry m; path = join_path dir (primary_file m) in
      if want = zero_geometry then Some (Inr ())
      else (case dh_files h path of
        None \<Rightarrow> Some (Inl (GeometryOpen (m_id m) ''no such file''))
      | Some b \<Rightarrow>
          map_option (\<lambda>q. case q of
             Inl e \<Rightarrow> Inl (GeometryHeader (m_id m) e)
           | Inr (head, _) \<Rightarrow>
               (case header_geometry head of
                  Inl e \<Rightarrow> Inl (GeometryRead (m_id m) e)
                | Inr got \<Rightarrow> if got \<noteq> want then Inl (GeometryDisagrees (m_id m) got want) else Inr ()))
            (read_header \<lparr>in_bytes = b, in_error = de_read_error env path (dh_world h)\<rparr>)))"

text \<open>The shards from the \<open>i\<close>-th of \<open>n\<close> on; the context is looked at before each.\<close>

fun pull_from ::
  "'x dl_env \<Rightarrow> string \<Rightarrow> nat \<Rightarrow> nat \<Rightarrow> string \<Rightarrow> shard list \<Rightarrow> 'x dl_host \<Rightarrow> (download_error + unit) \<times> 'x dl_host" where
  "pull_from env mid i n dir [] h = (Inr (), h)"
| "pull_from env mid i n dir (sh # shs) h =
     (case de_cancelled env (dh_world h) of
        Some e \<Rightarrow> (Inl (Cancelled e), h)
      | None \<Rightarrow>
          (case download_file env sh dir h of
             (Inl e, h1) \<Rightarrow> (Inl (InShard mid (i + 1) n e), h1)
           | (Inr _, h1) \<Rightarrow> pull_from env mid (i + 1) n dir shs h1))"

definition pull_model :: "'x dl_env \<Rightarrow> model \<Rightarrow> string \<Rightarrow> 'x dl_host \<Rightarrow> (download_error + unit) option \<times> 'x dl_host" where
  "pull_model env m dir h =
     (if all_shards m = [] then (Some (Inl (NoShards (m_id m))), h)
      else (case pull_from env (m_id m) 0 (length (all_shards m)) dir (all_shards m) h of
              (Inl e, h1) \<Rightarrow> (Some (Inl e), h1)
            | (Inr _, h1) \<Rightarrow> (verify_geometry env m dir h1, h1)))"

end
