(* ===== verification/GgufFacts.thy ===== *)
theory GgufFacts
  imports Gguf
begin

text \<open>
  The reader of \<open>Gguf\<close> returns on every input, reads a prefix of it and nothing of what follows, answers only
  well-typed values within the caps, reads back what the fixture encoder writes, and its geometry never
  indexes outside a pattern.
\<close>

subsection \<open>What a reader consumes\<close>

abbreviation at_input :: "string \<Rightarrow> string option \<Rightarrow> input" where
  "at_input bs e \<equiv> \<lparr>in_bytes = bs, in_error = e\<rparr>"

text \<open>A success consumes a prefix of at least \<open>k\<close> bytes that decides it, and its value satisfies \<open>Q\<close>.\<close>

definition consumes :: "nat \<Rightarrow> ('a \<Rightarrow> bool) \<Rightarrow> (input \<Rightarrow> 'a reading option) \<Rightarrow> input \<Rightarrow> bool" where
  "consumes k Q f r \<longleftrightarrow>
     (\<exists>q. f r = Some q \<and> (\<forall>a r'. q = Inr (a, r') \<longrightarrow> Q a \<and>
        (\<exists>pre. k \<le> length pre \<and> in_bytes r = pre @ in_bytes r' \<and> in_error r' = in_error r
          \<and> (\<forall>rest e. f (at_input (pre @ rest) e) = Some (Inr (a, at_input rest e))))))"

lemma consumes_bind:
  assumes "consumes k Q f r" "\<And>a r'. Q a \<Longrightarrow> length (in_bytes r') + k \<le> length (in_bytes r) \<Longrightarrow> consumes m R (g a) r'"
    and "j \<le> k + m"
  shows "consumes j R (\<lambda>r. Option.bind (f r) (\<lambda>q. case q of Inl e \<Rightarrow> Some (Inl (w e)) | Inr (a, r') \<Rightarrow> g a r')) r"
proof -
  from assms(1) obtain q where q: "f r = Some q" "\<forall>a r'. q = Inr (a, r') \<longrightarrow> Q a \<and>
        (\<exists>pre. k \<le> length pre \<and> in_bytes r = pre @ in_bytes r' \<and> in_error r' = in_error r
          \<and> (\<forall>rest e. f (at_input (pre @ rest) e) = Some (Inr (a, at_input rest e))))"
    by (auto simp: consumes_def)
  show ?thesis
  proof (cases q)
    case (Inl e)
    with q(1) show ?thesis by (simp add: consumes_def)
  next
    case (Inr p)
    obtain a r1 where p: "p = (a, r1)" by fastforce
    from q(2) Inr p obtain pre where pre: "Q a" "k \<le> length pre" "in_bytes r = pre @ in_bytes r1" "in_error r1 = in_error r"
      "\<forall>rest e. f (at_input (pre @ rest) e) = Some (Inr (a, at_input rest e))" by auto
    have "consumes m R (g a) r1" by (rule assms(2)) (use pre in auto)
    then obtain q2 where q2: "g a r1 = Some q2" "\<forall>b r'. q2 = Inr (b, r') \<longrightarrow> R b \<and>
        (\<exists>pre. m \<le> length pre \<and> in_bytes r1 = pre @ in_bytes r' \<and> in_error r' = in_error r1
          \<and> (\<forall>rest e. g a (at_input (pre @ rest) e) = Some (Inr (b, at_input rest e))))"
      by (auto simp: consumes_def)
    show ?thesis
    proof (cases q2)
      case (Inl e)
      then show ?thesis using q(1) Inr p q2 by (simp add: consumes_def)
    next
      case (Inr p2)
      obtain b r2 where p2: "p2 = (b, r2)" by fastforce
      from q2(2) Inr p2 obtain pre2 where pre2: "R b" "m \<le> length pre2" "in_bytes r1 = pre2 @ in_bytes r2" "in_error r2 = in_error r1"
        "\<forall>rest e. g a (at_input (pre2 @ rest) e) = Some (Inr (b, at_input rest e))" by auto
      have "\<exists>pre. j \<le> length pre \<and> in_bytes r = pre @ in_bytes r2 \<and> in_error r2 = in_error r
          \<and> (\<forall>rest e. Option.bind (f (at_input (pre @ rest) e))
               (\<lambda>q. case q of Inl e \<Rightarrow> Some (Inl (w e)) | Inr (a, r') \<Rightarrow> g a r') = Some (Inr (b, at_input rest e)))"
        using pre pre2 assms(3) by (intro exI [of _ "pre @ pre2"]) simp
      with q(1) \<open>q = Inr p\<close> p q2(1) Inr p2 pre2(1) show ?thesis by (auto simp: consumes_def)
    qed
  qed
qed

lemma consumes_total:
  "(\<And>a r'. f r = Inr (a, r') \<Longrightarrow> Q a \<and> (\<exists>pre. k \<le> length pre \<and> in_bytes r = pre @ in_bytes r' \<and> in_error r' = in_error r
      \<and> (\<forall>rest e. f (at_input (pre @ rest) e) = Inr (a, at_input rest e)))) \<Longrightarrow> consumes k Q (\<lambda>r. Some (f r)) r"
  by (auto simp: consumes_def)

lemma consumes_weaken: "consumes k Q f r \<Longrightarrow> (\<And>a. Q a \<Longrightarrow> R a) \<Longrightarrow> j \<le> k \<Longrightarrow> consumes j R f r"
  unfolding consumes_def by (meson order.trans)

lemma consumes_map:
  assumes "consumes k Q f r" "\<And>a. Q a \<Longrightarrow> R (g a)"
  shows "consumes k R (\<lambda>r. map_option (with_value g) (f r)) r"
proof -
  from assms(1) obtain q where q: "f r = Some q" "\<forall>a r'. q = Inr (a, r') \<longrightarrow> Q a \<and>
        (\<exists>pre. k \<le> length pre \<and> in_bytes r = pre @ in_bytes r' \<and> in_error r' = in_error r
          \<and> (\<forall>rest e. f (at_input (pre @ rest) e) = Some (Inr (a, at_input rest e))))"
    by (auto simp: consumes_def)
  have "R b \<and> (\<exists>pre. k \<le> length pre \<and> in_bytes r = pre @ in_bytes r' \<and> in_error r' = in_error r
      \<and> (\<forall>rest e. map_option (with_value g) (f (at_input (pre @ rest) e)) = Some (Inr (b, at_input rest e))))"
    if b: "with_value g q = Inr (b, r')" for b r'
  proof -
    from b obtain a where a: "q = Inr (a, r')" "b = g a" by (auto simp: with_value_def)
    with q(2) obtain pre where pre: "Q a" "k \<le> length pre" "in_bytes r = pre @ in_bytes r'" "in_error r' = in_error r"
      "\<forall>rest e. f (at_input (pre @ rest) e) = Some (Inr (a, at_input rest e))" by auto
    then show ?thesis using a assms(2) by (intro conjI exI [of _ pre]) (auto simp: with_value_def)
  qed
  with q(1) show ?thesis by (auto simp: consumes_def)
qed

subsection \<open>The primitive readers\<close>

lemma read_full_Inr:
  "read_full n r = Inr (bs, r') \<longleftrightarrow> length bs = n \<and> in_bytes r = bs @ in_bytes r' \<and> in_error r' = in_error r"
proof
  assume "length bs = n \<and> in_bytes r = bs @ in_bytes r' \<and> in_error r' = in_error r"
  then have "length bs = n" "in_bytes r = bs @ in_bytes r'" "r' = r\<lparr>in_bytes := in_bytes r'\<rparr>" by auto
  then show "read_full n r = Inr (bs, r')" by (simp add: read_full_def)
qed (auto simp: read_full_def split: if_splits)

lemma read_le_Inr:
  "read_le n r = Inr (u, r') \<longleftrightarrow>
    (\<exists>bs. length bs = n \<and> in_bytes r = bs @ in_bytes r' \<and> in_error r' = in_error r \<and> u = le_value bs)"
  by (auto simp: read_le_def read_full_Inr split: prod.splits)

lemma digit_less: "a < 256 \<Longrightarrow> h < k \<Longrightarrow> a + 256 * h < (256 :: nat) * k"
  by simp

lemma horner_bytes: "horner_sum of_char (256 :: nat) bs < 256 ^ length bs"
proof (induction bs)
  case (Cons c bs)
  have "(of_char c :: nat) < 256" by simp
  from digit_less [OF this Cons] show ?case by simp
qed simp

lemma unat_le_value: "length bs \<le> 8 \<Longrightarrow> unat (le_value bs) = horner_sum of_char 256 bs"
proof -
  assume "length bs \<le> 8"
  then have "(256 :: nat) ^ length bs \<le> 256 ^ 8" by (rule power_increasing) simp
  with horner_bytes [of bs] show ?thesis unfolding le_value_def by (intro unat_of_nat_u64) simp
qed

lemma le_value_bound: "length bs = n \<Longrightarrow> n \<le> 8 \<Longrightarrow> unat (le_value bs) < 256 ^ n"
  using horner_bytes [of bs] unat_le_value [of bs] by simp

lemma consumes_le:
  "0 < n \<Longrightarrow> n \<le> 8 \<Longrightarrow> consumes n (\<lambda>u. unat u < 256 ^ n) (\<lambda>r. Some (read_le n r)) r"
  by (rule consumes_total) (auto simp: read_le_Inr le_value_bound)

lemma consumes_done: "Q a \<Longrightarrow> consumes 0 Q (\<lambda>r. Some (Inr (a, r))) r" "consumes k Q (\<lambda>r. Some (Inl e)) r"
  by (auto simp: consumes_def)

lemma consumes_result_bind:
  assumes "consumes k Q (\<lambda>r. Some (f r)) r"
    and "\<And>a r'. Q a \<Longrightarrow> length (in_bytes r') + k \<le> length (in_bytes r) \<Longrightarrow> consumes m R (\<lambda>r. Some (g a r)) r'"
    and "j \<le> k + m"
  shows "consumes j R (\<lambda>r. Some (result_bind (f r) (\<lambda>(a, r'). g a r'))) r"
proof -
  have "(\<lambda>r. Some (result_bind (f r) (\<lambda>(a, r'). g a r'))) =
      (\<lambda>r. Option.bind (Some (f r)) (\<lambda>q. case q of Inl e \<Rightarrow> Some (Inl e) | Inr (a, r') \<Rightarrow> Some (g a r')))"
    by (auto simp: fun_eq_iff split: sum.split)
  with consumes_bind [OF assms, where w = "\<lambda>e. e"] show ?thesis by simp
qed

lemma consumes_if:
  "(b \<Longrightarrow> consumes k R (\<lambda>r. Some (f r)) r) \<Longrightarrow> (\<not> b \<Longrightarrow> consumes k R (\<lambda>r. Some (g r)) r) \<Longrightarrow>
     consumes k R (\<lambda>r. Some (if b then f r else g r)) r"
  by (cases b) simp_all

lemma consumes_full: "consumes n (\<lambda>bs. length bs = n) (\<lambda>r. Some (read_full n r)) r"
  by (rule consumes_total) (auto simp: read_full_Inr)

lemma consumes_le_all: "0 < n \<Longrightarrow> n \<le> 8 \<Longrightarrow> consumes n (\<lambda>_. True) (\<lambda>r. Some (read_le n r)) r"
  by (rule consumes_weaken [OF consumes_le]) simp_all

lemma consumes_u32: "consumes 4 (\<lambda>_. True) (\<lambda>r. Some (read_u32 r)) r"
  unfolding read_u32_def by (rule consumes_result_bind [OF consumes_le_all]) (simp_all, rule consumes_done, simp_all)

lemma consumes_u64: "consumes 8 (\<lambda>_. True) (\<lambda>r. Some (read_u64 r)) r"
  unfolding read_u64_def by (simp add: consumes_le_all)

lemma consumes_string: "consumes 8 (\<lambda>s. length s \<le> max_string_len) (\<lambda>r. Some (read_string r)) r"
  unfolding read_string_def
  by (rule consumes_result_bind [OF consumes_u64], rule consumes_if [where k = 0])
    (auto intro: consumes_done consumes_weaken [OF consumes_full])

subsection \<open>Typed values\<close>

text \<open>What a value read for a wire type may be.\<close>

definition typed_value :: "u32 \<Rightarrow> gguf_value \<Rightarrow> bool" where
  "typed_value typ v \<longleftrightarrow>
     (case v of
        GUint u \<Rightarrow> typ \<in> {type_uint8, type_uint16, type_uint32, type_uint64} \<and> unat u < 256 ^ scalar_width typ
      | GInt i \<Rightarrow> typ \<in> {type_int8, type_int16, type_int32, type_int64}
          \<and> - (2 ^ (8 * scalar_width typ - 1)) \<le> i \<and> i < 2 ^ (8 * scalar_width typ - 1)
      | GBool _ \<Rightarrow> typ = type_bool
      | GFloat32 _ \<Rightarrow> typ = type_float32
      | GFloat64 _ \<Rightarrow> typ = type_float64
      | GString s \<Rightarrow> typ = type_string \<and> length s \<le> max_string_len
      | GUints us \<Rightarrow> typ = type_array \<and> length us \<le> max_layer_array
      | GBools bs \<Rightarrow> typ = type_array \<and> length bs \<le> max_layer_array
      | GArray \<Rightarrow> typ = type_array)"

lemma int_div_between:
  assumes "- (n * m) \<le> (x :: int)" "x < n * m" "0 < m"
  shows "- n \<le> x div m" "x div m < n"
proof -
  have "(- n) * m div m \<le> x div m" using assms by (intro zdiv_mono1) auto
  moreover have "(- n) * m div m = - n" using assms(3) by (intro nonzero_mult_div_cancel_right) simp
  ultimately show "- n \<le> x div m" by metis
  show "x div m < n"
  proof (rule ccontr)
    assume "\<not> x div m < n"
    then have "n * m \<le> x div m * m" using assms(3) by (intro mult_right_mono) auto
    also have "\<dots> \<le> x" using assms(3) by (metis div_mult_mod_eq le_add_same_cancel1 pos_mod_sign)
    finally show False using assms(2) by simp
  qed
qed
lemma sign_extend_range:
  assumes "w \<in> {1, 2, 4, 8}"
  shows "- (2 ^ (8 * w - 1)) \<le> sign_extend w u" "sign_extend w u < 2 ^ (8 * w - 1)"
proof -
  let ?v = "sint (push_bit (64 - 8 * w) u :: u64)"
  have e: "sign_extend w u = ?v div 2 ^ (64 - 8 * w)"
    by (simp add: sign_extend_def sint_signed_drop_bit_eq drop_bit_eq_div)
  have v: "- (2 ^ 63) \<le> ?v" "?v < 2 ^ 63" using sint_range_size [of "push_bit (64 - 8 * w) u :: u64"] by (simp_all add: word_size)
  have "(2 :: int) ^ 63 = 2 ^ (8 * w - 1) * 2 ^ (64 - 8 * w)" using assms by (auto simp flip: power_add)
  with v show "- (2 ^ (8 * w - 1)) \<le> sign_extend w u" "sign_extend w u < 2 ^ (8 * w - 1)"
    unfolding e using int_div_between [of "2 ^ (8 * w - 1)" "2 ^ (64 - 8 * w)" ?v] by simp_all
qed

lemma consumes_with:
  assumes "consumes k Q (\<lambda>r. Some (f r)) r" "\<And>a. Q a \<Longrightarrow> R (g a)" "j \<le> k"
  shows "consumes j R (\<lambda>r. Some (with_value g (f r))) r"
proof -
  have "consumes k R (\<lambda>r. map_option (with_value g) (Some (f r))) r"
    by (rule consumes_map [of k Q "\<lambda>r. Some (f r)"]) (fact assms)+
  then show ?thesis using assms(3) by (simp add: consumes_weaken)
qed

lemma consumes_scalar:
  assumes "typ \<noteq> type_array"
  shows "consumes 1 (typed_value typ) (\<lambda>r. Some (read_scalar typ r)) r"
proof -
  have w: "scalar_width t \<in> {1, 2, 4, 8}" for t by (simp add: scalar_width_def)
  have w8: "0 < scalar_width t" "scalar_width t \<le> 8" for t by (simp_all add: scalar_width_def)
  note le = consumes_le [OF w8]
  show ?thesis unfolding read_scalar_def
  proof (intro consumes_if consumes_done)
    show "consumes 1 (typed_value typ) (\<lambda>r. Some (with_value GUint (read_le (scalar_width typ) r))) r"
      if "typ \<in> {type_uint8, type_uint16, type_uint32, type_uint64}"
      using that by (intro consumes_with [OF le]) (auto simp: typed_value_def scalar_width_def)
    show "consumes 1 (typed_value typ) (\<lambda>r. Some (with_value (\<lambda>u. GBool (u \<noteq> 0)) (read_le 1 r))) r" if "typ = type_bool"
      using that by (intro consumes_with [OF consumes_le_all]) (simp_all add: typed_value_def)
    show "consumes 1 (typed_value typ) (\<lambda>r. Some (with_value (\<lambda>u. GInt (sign_extend (scalar_width typ) u))
        (read_le (scalar_width typ) r))) r" if "typ \<in> {type_int8, type_int16, type_int32, type_int64}"
      using that sign_extend_range [OF w] by (intro consumes_with [OF le]) (auto simp: typed_value_def scalar_width_def)
    show "consumes 1 (typed_value typ) (\<lambda>r. Some (with_value (\<lambda>u. GFloat32 (ucast u)) (read_le 4 r))) r" if "typ = type_float32"
      using that by (intro consumes_with [OF consumes_le_all]) (simp_all add: typed_value_def)
    show "consumes 1 (typed_value typ) (\<lambda>r. Some (with_value GFloat64 (read_le 8 r))) r" if "typ = type_float64"
      using that by (intro consumes_with [OF consumes_le_all]) (simp_all add: typed_value_def)
    show "consumes 1 (typed_value typ) (\<lambda>r. Some (with_value GString (read_string r))) r" if "typ = type_string"
      using that by (intro consumes_with [OF consumes_string]) (simp_all add: typed_value_def)
  qed
qed

subsection \<open>Every value is read\<close>

text \<open>The elements kept so far and those to come fit into the cap.\<close>

definition fits_array :: "nat \<Rightarrow> array_acc \<Rightarrow> bool" where
  "fits_array n a \<longleftrightarrow>
     (aa_keep a \<longrightarrow> length (aa_uints a) + n \<le> max_layer_array \<and> length (aa_bools a) + n \<le> max_layer_array)"

lemma fits_array_step: "fits_array (Suc n) a \<Longrightarrow> fits_array n (array_step v a)"
  by (auto simp: fits_array_def array_step_def split: gguf_value.splits)

lemma consumes_elems:
  assumes "\<And>r'. length (in_bytes r') \<le> length (in_bytes r) \<Longrightarrow> consumes k P f r'" "fits_array n a"
  shows "consumes 0 (fits_array 0) (read_elems f n a) r"
  using assms
proof (induction n arbitrary: a r)
  case (Suc n)
  have "consumes k (fits_array 0) (\<lambda>r. Option.bind (f r)
      (\<lambda>q. case q of Inl e \<Rightarrow> Some (Inl e) | Inr (v, r') \<Rightarrow> read_elems f n (array_step v a) r')) r"
  proof (rule consumes_bind)
    show "consumes k P f r" by (rule Suc.prems(1)) simp
    fix v and r' :: input assume "length (in_bytes r') + k \<le> length (in_bytes r)"
    then show "consumes 0 (fits_array 0) (read_elems f n (array_step v a)) r'"
      using fits_array_step [OF Suc.prems(2)] by (intro Suc.IH Suc.prems(1)) auto
  qed simp
  then show ?case by (auto intro: consumes_weaken)
qed (simp add: consumes_def)

lemma consumes_array_head:
  "consumes 12 (\<lambda>_. True) (\<lambda>r. Some (read_array_head r)) r"
  unfolding read_array_head_def
  by (rule consumes_result_bind [OF consumes_u32], rule consumes_result_bind [OF consumes_u64, where m = 0 and j = 8],
      rule consumes_if) (auto intro: consumes_done)

lemma read_array_value:
  "read_value type_array r = Option.bind (Some (read_array_head r)) (\<lambda>q. case q of Inl e \<Rightarrow> Some (Inl e)
     | Inr (h, r') \<Rightarrow> map_option (with_value (array_value (fst h = type_bool)))
          (read_elems (read_value (fst h)) (snd h) (array_start (fst h) (snd h)) r'))"
proof -
  have "read_value type_array r = read_array_with read_value r" by (subst read_value.simps) simp
  then show ?thesis unfolding read_array_with_def by (cases "read_array_head r") (simp_all split: prod.split)
qed

lemma value_consumes: "consumes 1 (typed_value t) (read_value t) r"
proof (induction "length (in_bytes r)" arbitrary: t r rule: less_induct)
  case less
  show ?case
  proof (cases "t = type_array")
    case False
    then have "read_value t = (\<lambda>r. Some (read_scalar t r))" by (intro ext, subst read_value.simps) simp
    then show ?thesis using consumes_scalar [OF False] by simp
  next
    case True
    have rec: "consumes 0 (fits_array 0) (read_elems (read_value elem) count (array_start elem count)) r'"
      if "length (in_bytes r') + 12 \<le> length (in_bytes r)" for elem count r'
    proof (rule consumes_elems)
      show "consumes 1 (typed_value elem) (read_value elem) r''" if "length (in_bytes r'') \<le> length (in_bytes r')" for r''
        using that \<open>length (in_bytes r') + 12 \<le> length (in_bytes r)\<close> by (intro less) simp
    qed (simp add: fits_array_def array_start_def)
    have val: "fits_array 0 a \<Longrightarrow> typed_value type_array (array_value b a)" for b a
      by (simp add: typed_value_def array_value_def fits_array_def)
    have "consumes 12 (typed_value type_array) (\<lambda>r. Option.bind (Some (read_array_head r)) (\<lambda>q. case q of Inl e \<Rightarrow> Some (Inl e)
        | Inr (h, r') \<Rightarrow> map_option (with_value (array_value (fst h = type_bool)))
             (read_elems (read_value (fst h)) (snd h) (array_start (fst h) (snd h)) r'))) r"
    proof (rule consumes_bind [OF consumes_array_head])
      show "consumes 0 (typed_value type_array) (\<lambda>r'. map_option (with_value (array_value (fst h = type_bool)))
             (read_elems (read_value (fst h)) (snd h) (array_start (fst h) (snd h)) r')) r'"
        if "length (in_bytes r') + 12 \<le> length (in_bytes r)" for h r'
        by (rule consumes_map) (rule rec [OF that], rule val)
    qed simp
    moreover have "read_value type_array = (\<lambda>r. Option.bind (Some (read_array_head r)) (\<lambda>q. case q of Inl e \<Rightarrow> Some (Inl e)
        | Inr (h, r') \<Rightarrow> map_option (with_value (array_value (fst h = type_bool)))
             (read_elems (read_value (fst h)) (snd h) (array_start (fst h) (snd h)) r')))"
      by (rule ext) (rule read_array_value)
    ultimately have "consumes 12 (typed_value type_array) (read_value type_array) r" by simp
    then show ?thesis unfolding True by (rule consumes_weaken) simp_all
  qed
qed

subsection \<open>The whole header\<close>

definition typed_entries :: "(string \<Rightarrow> gguf_value option) \<Rightarrow> bool" where
  "typed_entries kv \<longleftrightarrow> (\<forall>key v. kv key = Some v \<longrightarrow> length key \<le> max_string_len \<and> (\<exists>t. typed_value t v))"

lemma consumes_entry:
  "consumes 13 (\<lambda>(key, v). length key \<le> max_string_len \<and> (\<exists>t. typed_value t v)) read_entry r"
proof -
  have val: "consumes 1 (\<lambda>(key', v). length key' \<le> max_string_len \<and> (\<exists>t. typed_value t v))
      (\<lambda>r. Option.bind (read_value t r) (\<lambda>q. case q of Inl e \<Rightarrow> Some (Inl (InKey key e)) | Inr (v, r3) \<Rightarrow> Some (Inr ((key, v), r3)))) r'"
    if "length key \<le> max_string_len" for key t r'
    by (rule consumes_bind [OF value_consumes]) (use that in \<open>auto intro!: consumes_done\<close>)
  have "consumes 13 (\<lambda>(key, v). length key \<le> max_string_len \<and> (\<exists>t. typed_value t v))
      (\<lambda>r. Option.bind (Some (read_string r)) (\<lambda>q. case q of Inl e \<Rightarrow> Some (Inl e) | Inr (key, r1) \<Rightarrow>
         Option.bind (Some (read_u32 r1)) (\<lambda>q. case q of Inl e \<Rightarrow> Some (Inl e) | Inr (t, r2) \<Rightarrow>
           Option.bind (read_value t r2) (\<lambda>q. case q of Inl e \<Rightarrow> Some (Inl (InKey key e)) | Inr (v, r3) \<Rightarrow> Some (Inr ((key, v), r3)))))) r"
    by (rule consumes_bind [OF consumes_string], rule consumes_bind [OF consumes_u32, where j = 5], rule val) simp_all
  moreover have "read_entry r = Option.bind (Some (read_string r)) (\<lambda>q. case q of Inl e \<Rightarrow> Some (Inl e) | Inr (key, r1) \<Rightarrow>
         Option.bind (Some (read_u32 r1)) (\<lambda>q. case q of Inl e \<Rightarrow> Some (Inl e) | Inr (t, r2) \<Rightarrow>
           Option.bind (read_value t r2) (\<lambda>q. case q of Inl e \<Rightarrow> Some (Inl (InKey key e)) | Inr (v, r3) \<Rightarrow> Some (Inr ((key, v), r3)))))"
    for r
  proof (cases "read_string r")
    case (Inr q)
    obtain key r1 where q: "q = (key, r1)" by fastforce
    show ?thesis
    proof (cases "read_u32 r1")
      case (Inr q')
      obtain t r2 where "q' = (t, r2)" by fastforce
      with Inr q \<open>read_string r = Inr q\<close> show ?thesis
        by (cases "read_value t r2") (auto simp: read_entry_def split: sum.split)
    qed (use Inr q in \<open>simp add: read_entry_def\<close>)
  qed (simp add: read_entry_def)
  ultimately show ?thesis by presburger
qed

lemma consumes_entries:
  assumes "typed_entries kv" "finite (dom kv)" "card (dom kv) + n \<le> c"
  shows "consumes 0 (\<lambda>kv. typed_entries kv \<and> finite (dom kv) \<and> card (dom kv) \<le> c) (read_entries n kv) r"
  using assms
proof (induction n arbitrary: kv r)
  case (Suc n kv r)
  have "consumes 0 (\<lambda>kv. typed_entries kv \<and> finite (dom kv) \<and> card (dom kv) \<le> c) (\<lambda>r. Option.bind (read_entry r)
      (\<lambda>q. case q of Inl e \<Rightarrow> Some (Inl e) | Inr (p, r') \<Rightarrow> read_entries n (kv(fst p \<mapsto> snd p)) r')) r"
  proof (rule consumes_bind [OF consumes_entry])
    fix p :: "string \<times> gguf_value" and r' :: input
    assume p: "case p of (key, v) \<Rightarrow> length key \<le> max_string_len \<and> (\<exists>t. typed_value t v)"
    have "card (insert (fst p) (dom kv)) \<le> Suc (card (dom kv))" by (rule card_insert_le_m1 [of "Suc _", simplified]) simp_all
    moreover have d: "dom (kv(fst p \<mapsto> snd p)) = insert (fst p) (dom kv)" by simp
    ultimately have c: "card (dom (kv(fst p \<mapsto> snd p))) + n \<le> c" using Suc.prems(3) by simp
    have t: "typed_entries (kv(fst p \<mapsto> snd p))" using Suc.prems(1) p by (auto simp: typed_entries_def case_prod_beta)
    have f: "finite (dom (kv(fst p \<mapsto> snd p)))" unfolding d using Suc.prems(2) by simp
    show "consumes 0 (\<lambda>kv. typed_entries kv \<and> finite (dom kv) \<and> card (dom kv) \<le> c) (read_entries n (kv(fst p \<mapsto> snd p))) r'"
      by (rule Suc.IH [OF t f c])
  qed simp
  moreover have "read_entries (Suc n) kv = (\<lambda>r. Option.bind (read_entry r)
      (\<lambda>q. case q of Inl e \<Rightarrow> Some (Inl e) | Inr (p, r') \<Rightarrow> read_entries n (kv(fst p \<mapsto> snd p)) r'))"
  proof (rule ext)
    fix r show "read_entries (Suc n) kv r = Option.bind (read_entry r)
      (\<lambda>q. case q of Inl e \<Rightarrow> Some (Inl e) | Inr (p, r') \<Rightarrow> read_entries n (kv(fst p \<mapsto> snd p)) r')"
      by (cases "read_entry r") (auto split: sum.split)
  qed
  ultimately show ?case by (simp only:)
qed (simp add: consumes_def)

lemma consumes_preamble:
  "consumes 24 (\<lambda>(version, tensors, count). version \<in> {2, 3} \<and> count \<le> max_kv_count) (\<lambda>r. Some (read_preamble r)) r"
  unfolding read_preamble_def
  by (rule consumes_result_bind [OF consumes_full, where m = 20], rule consumes_if, rule consumes_done,
      rule consumes_result_bind [OF consumes_u32, where m = 16], rule consumes_if, rule consumes_done,
      rule consumes_result_bind [OF consumes_u64, where m = 8], rule consumes_result_bind [OF consumes_u64, where m = 0],
      rule consumes_if, rule consumes_done) (auto intro: consumes_done)

lemma header_consumes:
  "consumes 24 (\<lambda>h. hd_version h \<in> {2, 3} \<and> typed_entries (hd_kv h) \<and> finite (dom (hd_kv h)) \<and> card (dom (hd_kv h)) \<le> max_kv_count)
     read_header r"
proof -
  have kv: "typed_entries Map.empty" by (simp add: typed_entries_def)
  have "consumes 24 (\<lambda>h. hd_version h \<in> {2, 3} \<and> typed_entries (hd_kv h) \<and> finite (dom (hd_kv h)) \<and> card (dom (hd_kv h)) \<le> max_kv_count)
    (\<lambda>r. Option.bind (Some (read_preamble r)) (\<lambda>q. case q of Inl e \<Rightarrow> Some (Inl e) | Inr (p, r1) \<Rightarrow>
       map_option (with_value (\<lambda>kv. \<lparr>hd_version = fst p, hd_tensors = fst (snd p), hd_kv = kv\<rparr>)) (read_entries (snd (snd p)) Map.empty r1))) r"
    by (rule consumes_bind [OF consumes_preamble], rule consumes_map, rule consumes_entries [OF kv]) auto
  moreover have "read_header = (\<lambda>r. Option.bind (Some (read_preamble r)) (\<lambda>q. case q of Inl e \<Rightarrow> Some (Inl e) | Inr (p, r1) \<Rightarrow>
       map_option (with_value (\<lambda>kv. \<lparr>hd_version = fst p, hd_tensors = fst (snd p), hd_kv = kv\<rparr>)) (read_entries (snd (snd p)) Map.empty r1)))"
    by (rule ext) (auto simp: read_header_def split: sum.split)
  ultimately show ?thesis by simp
qed

text \<open>C20: The header reader returns on every input, however arrays nest in it and wherever it ends: a header or an
  error. A header took at least 24 bytes and was decided by a prefix of the input: whatever follows it, or
  an error of the reader behind it, changes nothing, and is left unread.\<close>

theorem header_read_returns:
  "\<exists>res. read_header r = Some res \<and> (\<forall>h r'. res = Inr (h, r') \<longrightarrow>
     (\<exists>pre. 24 \<le> length pre \<and> in_bytes r = pre @ in_bytes r' \<and> in_error r' = in_error r
       \<and> (\<forall>rest e. read_header \<lparr>in_bytes = pre @ rest, in_error = e\<rparr> = Some (Inr (h, \<lparr>in_bytes = rest, in_error = e\<rparr>)))))"
  using header_consumes [of r] unfolding consumes_def by blast

text \<open>C21: What a header holds is within the limits and of its type: at most 2^20 keys of at most 2^24 bytes; an
  integer in the range of its wire type, a string of at most 2^24 bytes, an array kept only up to 4096
  elements.\<close>

theorem header_values_typed:
  assumes "read_header r = Some (Inr (h, r'))"
  shows "hd_version h \<in> {2, 3} \<and> card (dom (hd_kv h)) \<le> 2 ^ 20
    \<and> (\<forall>key v. hd_kv h key = Some v \<longrightarrow> length key \<le> 2 ^ 24 \<and> (\<exists>t. typed_value t v))"
  using assms header_consumes [of r] by (auto simp: consumes_def typed_entries_def max_kv_count_def max_string_len_def)

subsection \<open>Reading what the fixtures write\<close>

lemma length_le_bytes [simp]: "length (le_bytes w n) = w"
  by (induction w arbitrary: n) auto

lemma horner_le_bytes: "horner_sum of_char 256 (le_bytes w n) = n mod (256 :: nat) ^ w"
proof (induction w arbitrary: n)
  case (Suc w)
  have "n mod 256 + 256 * (n div 256 mod 256 ^ w) = n mod (256 * 256 ^ w)" by (simp add: mod_mult2_eq)
  with Suc show ?case by simp
qed simp

lemma le_value_le_bytes: "n < 256 ^ w \<Longrightarrow> le_value (le_bytes w n) = of_nat n"
  by (simp add: le_value_def horner_le_bytes)

lemma read_le_bytes:
  "n < 256 ^ w \<Longrightarrow> read_le w (at_input (le_bytes w n @ rest) e) = Inr (of_nat n, at_input rest e)"
  by (auto simp: read_le_Inr le_value_le_bytes intro!: exI [of _ "le_bytes w n"])

lemma read_fixture_int [simp]:
  "n < 2 ^ 32 \<Longrightarrow> read_u32 (at_input (append_u32 n @ rest) e) = Inr (of_nat n, at_input rest e)"
  "n < 2 ^ 64 \<Longrightarrow> read_u64 (at_input (append_u64 n @ rest) e) = Inr (of_nat n, at_input rest e)"
  by (simp_all add: read_u32_def read_u64_def append_u32_def append_u64_def read_le_bytes unsigned_of_nat take_bit_nat_eq_self)

lemma read_fixture_type [simp]:
  "read_u32 (at_input (append_u32 (unat t) @ rest) e) = Inr (t, at_input rest e)"
  using unsigned_less [of t, where ?'a = nat] by simp

lemma read_fixture_string [simp]:
  "length s \<le> max_string_len \<Longrightarrow> read_string (at_input (fixture_string s @ rest) e) = Inr (s, at_input rest e)"
  by (simp add: read_string_def fixture_string_def max_string_len_def unat_of_nat_u64 read_full_Inr)

lemma read_le_word:
  "read_le 8 (at_input (le_bytes 8 (unat (v :: u64)) @ rest) e) = Inr (v, at_input rest e)"
  "read_le 4 (at_input (le_bytes 4 (unat (t :: u32)) @ rest) e) = Inr (ucast t, at_input rest e)"
proof -
  have "unat v < 256 ^ 8" by (rule le_less_trans [OF unat_u64_bound]) simp
  from read_le_bytes [OF this] show "read_le 8 (at_input (le_bytes 8 (unat v) @ rest) e) = Inr (v, at_input rest e)" by simp
  have "unat t < 2 ^ LENGTH(32)" by (rule unsigned_less)
  then have "unat t < 256 ^ 4" by simp
  from read_le_bytes [OF this]
  show "read_le 4 (at_input (le_bytes 4 (unat t) @ rest) e) = Inr (ucast t, at_input rest e)" by simp
qed

lemma read_one_byte: "read_le (Suc 0) (at_input (c # rest) e) = Inr (of_nat (of_char c), at_input rest e)"
  by (auto simp: read_le_Inr le_value_def intro!: exI [of _ "[c]"])

lemma read_scalars [simp]:
  "read_value type_uint64 (at_input (append_u64 (unat v) @ rest) e) = Some (Inr (GUint v, at_input rest e))"
  "read_value type_uint32 (at_input (append_u32 (unat (t :: u32)) @ rest) e) = Some (Inr (GUint (ucast t), at_input rest e))"
  "read_value type_bool (at_input (char_of (if b then 1 else 0 :: nat) # rest) e) = Some (Inr (GBool b, at_input rest e))"
  "length s \<le> max_string_len \<Longrightarrow>
     read_value type_string (at_input (fixture_string s @ rest) e) = Some (Inr (GString s, at_input rest e))"
proof -
  have simple: "t' \<noteq> type_array \<Longrightarrow> read_value t' r = Some (read_scalar t' r)" for t' r
    by (subst read_value.simps) simp
  note ty = wire_types read_scalar_def scalar_width_def with_value_def
  show "read_value type_uint64 (at_input (append_u64 (unat v) @ rest) e) = Some (Inr (GUint v, at_input rest e))"
    by (subst simple) (simp_all add: ty append_u64_def read_le_word)
  show "read_value type_uint32 (at_input (append_u32 (unat (t :: u32)) @ rest) e) = Some (Inr (GUint (ucast t), at_input rest e))"
    by (subst simple) (simp_all add: ty append_u32_def read_le_word)
  show "read_value type_bool (at_input (char_of (if b then 1 else 0 :: nat) # rest) e) = Some (Inr (GBool b, at_input rest e))"
    by (subst simple) (simp_all add: ty read_one_byte)
  show "read_value type_string (at_input (fixture_string s @ rest) e) = Some (Inr (GString s, at_input rest e))"
    if "length s \<le> max_string_len"
    by (subst simple) (simp_all add: ty that)
qed

lemma read_uint_elems:
  "aa_keep a \<Longrightarrow> read_elems (read_value type_uint32) (length ts) a (at_input (concat (map (\<lambda>v. append_u32 (unat (ucast v :: u32))) ts) @ rest) e)
     = Some (Inr (a\<lparr>aa_uints := aa_uints a @ map (\<lambda>v. ucast (ucast v :: u32)) ts\<rparr>, at_input rest e))"
  by (induction ts arbitrary: a) (simp_all add: array_step_def)

lemma read_bool_elems:
  "aa_keep a \<Longrightarrow> read_elems (read_value type_bool) (length bs) a (at_input (map (\<lambda>v. char_of (if v then 1 else 0 :: nat)) bs @ rest) e)
     = Some (Inr (a\<lparr>aa_bools := aa_bools a @ bs\<rparr>, at_input rest e))"
  by (induction bs arbitrary: a) (simp_all add: array_step_def)

text \<open>What the fixture encoder is given, as the values it means, and the sizes the format has room for.\<close>

definition fixture_entries ::
  "string \<Rightarrow> (string \<times> u64) list \<Rightarrow> (string \<times> u64 list) list \<Rightarrow> (string \<times> bool list) list \<Rightarrow> (string \<times> gguf_value) list" where
  "fixture_entries arch keys uints bools =
     (arch_key, GString arch) # map (\<lambda>(k, v). (k, GUint v)) keys @ map (\<lambda>(k, vs). (k, GUints vs)) uints
       @ map (\<lambda>(k, vs). (k, GBools vs)) bools"

definition fixture_fits ::
  "string \<Rightarrow> (string \<times> u64) list \<Rightarrow> (string \<times> u64 list) list \<Rightarrow> (string \<times> bool list) list \<Rightarrow> bool" where
  "fixture_fits arch keys uints bools \<longleftrightarrow>
     length arch \<le> max_string_len \<and> length keys + length uints + length bools < max_kv_count
     \<and> (\<forall>(k, v) \<in> set keys. length k \<le> max_string_len)
     \<and> (\<forall>(k, vs) \<in> set uints. length k \<le> max_string_len \<and> length vs \<le> max_layer_array \<and> (\<forall>v \<in> set vs. unat v < 2 ^ 32))
     \<and> (\<forall>(k, vs) \<in> set bools. length k \<le> max_string_len \<and> length vs \<le> max_layer_array)"

definition reads_as :: "string \<Rightarrow> string \<times> gguf_value \<Rightarrow> bool" where
  "reads_as bs entry \<longleftrightarrow> (\<forall>rest e. read_entry (at_input (bs @ rest) e) = Some (Inr (entry, at_input rest e)))"

lemma reads_typed:
  assumes "length key \<le> max_string_len" "\<And>rest e. read_value t (at_input (bs @ rest) e) = Some (Inr (v, at_input rest e))"
  shows "reads_as (fixture_typed key t @ bs) (key, v)"
  using assms by (simp add: reads_as_def read_entry_def fixture_typed_def)

lemma read_fixture_array:
  assumes "length ts \<le> max_layer_array" "elem = type_bool \<or> scalar_int elem"
    and "\<And>a rest. aa_keep a \<Longrightarrow> read_elems (read_value elem) (length ts) a (at_input (bs @ rest) e) = Some (Inr (f a, at_input rest e))"
  shows "read_value type_array (at_input (append_u32 (unat elem) @ append_u64 (length ts) @ bs @ rest) e) =
    Some (Inr (array_value (elem = type_bool) (f (array_start elem (length ts))), at_input rest e))"
proof -
  have "length ts < 2 ^ 64" "length ts \<le> max_u64_nat" "length ts \<le> max_array_count"
    using assms(1) by (simp_all add: max_layer_array_def max_array_count_def)
  then have h: "read_array_head (at_input (append_u32 (unat elem) @ append_u64 (length ts) @ bs @ rest) e) =
      Inr ((elem, length ts), at_input (bs @ rest) e)"
    by (simp add: read_array_head_def unat_of_nat_u64)
  have "aa_keep (array_start elem (length ts))" using assms(1,2) by (simp add: array_start_def)
  from assms(3) [OF this] show ?thesis by (simp add: read_array_value h with_value_def)
qed

lemma reads_key: "length k \<le> max_string_len \<Longrightarrow> reads_as (fixture_key (k, v)) (k, GUint v)"
  unfolding fixture_key_def prod.case by (rule reads_typed) simp_all

lemma ucast_narrow: "unat (v :: u64) < 2 ^ 32 \<Longrightarrow> ucast (ucast v :: u32) = v"
  by (simp add: word_unat_eq_iff unsigned_ucast_eq unsigned_take_bit_eq take_bit_nat_eq_self)

lemma reads_uints:
  assumes "length k \<le> max_string_len" "length vs \<le> max_layer_array" "\<forall>v \<in> set vs. unat v < 2 ^ 32"
  shows "reads_as (fixture_uints (k, vs)) (k, GUints vs)"
proof -
  have v: "map (\<lambda>v. ucast (ucast v :: u32)) vs = vs"
    using assms(3) by (intro map_idI) (simp add: ucast_narrow)
  have s: "scalar_int type_uint32" "type_uint32 \<noteq> type_bool" by (simp_all add: scalar_int_def wire_types)
  let ?bs = "concat (map (\<lambda>v. append_u32 (unat (ucast v :: u32))) vs)"
  have "read_value type_array (at_input (append_u32 (unat type_uint32) @ append_u64 (length vs) @ ?bs @ rest) e) =
      Some (Inr (GUints vs, at_input rest e))" for rest e
    by (subst read_fixture_array [OF assms(2) disjI2 [OF s(1)] read_uint_elems])
      (use assms(2) s in \<open>simp_all add: array_value_def array_start_def v\<close>)
  then show ?thesis unfolding fixture_uints_def prod.case by (intro reads_typed [OF assms(1)]) simp
qed

lemma reads_bools:
  assumes "length k \<le> max_string_len" "length bs \<le> max_layer_array"
  shows "reads_as (fixture_bools (k, bs)) (k, GBools bs)"
proof -
  let ?bs = "map (\<lambda>v. char_of (if v then 1 else 0 :: nat)) bs"
  have "read_value type_array (at_input (append_u32 (unat type_bool) @ append_u64 (length bs) @ ?bs @ rest) e) =
      Some (Inr (GBools bs, at_input rest e))" for rest e
    by (subst read_fixture_array [OF assms(2) disjI1 [OF refl] read_bool_elems])
      (use assms(2) in \<open>simp_all add: array_value_def array_start_def\<close>)
  then show ?thesis unfolding fixture_bools_def prod.case by (intro reads_typed [OF assms(1)]) simp
qed

lemma read_all_entries:
  assumes "list_all2 reads_as bss es"
  shows "read_entries (length es) kv (at_input (concat bss @ rest) e) = Some (Inr (kv ++ map_of (rev es), at_input rest e))"
  using assms
proof (induction bss es arbitrary: kv rule: list_all2_induct)
  case (Cons bs bss en es)
  obtain key v where en: "en = (key, v)" by fastforce
  have e: "kv ++ map_of (rev (en # es)) = kv(key \<mapsto> v) ++ map_of (rev es)" by (simp add: en)
  show ?case unfolding e using Cons by (simp add: reads_as_def en fun_upd_def)
qed simp

lemma read_fixture:
  assumes "fixture_fits arch keys uints bools"
  shows "read_header \<lparr>in_bytes = fixture arch keys uints bools @ rest, in_error = e\<rparr> =
    Some (Inr (\<lparr>hd_version = 3, hd_tensors = 0, hd_kv = map_of (rev (fixture_entries arch keys uints bools))\<rparr>,
      \<lparr>in_bytes = rest, in_error = e\<rparr>))"
proof -
  let ?bss = "(fixture_typed arch_key type_string @ fixture_string arch)
      # map fixture_key keys @ map fixture_uints uints @ map fixture_bools bools"
  let ?es = "fixture_entries arch keys uints bools"
  have "reads_as (fixture_typed arch_key type_string @ fixture_string arch) (arch_key, GString arch)"
    using assms by (intro reads_typed) (simp_all add: fixture_fits_def arch_key_def max_string_len_def)
  moreover have "list_all2 reads_as (map fixture_key keys) (map (\<lambda>(k, v). (k, GUint v)) keys)"
    "list_all2 reads_as (map fixture_uints uints) (map (\<lambda>(k, vs). (k, GUints vs)) uints)"
    "list_all2 reads_as (map fixture_bools bools) (map (\<lambda>(k, vs). (k, GBools vs)) bools)"
    using assms by (auto simp: list.rel_map list_all2_same fixture_fits_def split: prod.split
        intro!: reads_key reads_uints reads_bools)
  ultimately have all: "list_all2 reads_as ?bss ?es"
    by (simp add: fixture_entries_def list_all2_appendI)
  have len: "length keys + length uints + length bools + 1 = length ?es" by (simp add: fixture_entries_def)
  have small: "length ?es \<le> max_kv_count" using assms len by (simp add: fixture_fits_def)
  have three: "append_u32 3 = append_u32 (unat (3 :: u32))" by simp
  have pre: "read_preamble (at_input (fixture arch keys uints bools @ rest) e) =
      Inr ((3, 0, length ?es), at_input (concat ?bss @ rest) e)"
    using small unfolding fixture_def len three
    by (simp add: read_preamble_def read_full_def unat_of_nat_u64 max_kv_count_def del: unsigned_numeral)
  show ?thesis using read_all_entries [OF all, of Map.empty rest e] by (simp add: read_header_def pre with_value_def)
qed

text \<open>C22: Whatever the encoder writes within the format's sizes, the reader reads back, to the byte: the version and
  every key with its value, a later entry of a key replacing an earlier one, and the rest of the input left
  unread.\<close>

theorem fixture_round_trip:
  assumes "fixture_fits arch keys uints bools"
  shows "read_header \<lparr>in_bytes = fixture arch keys uints bools @ rest, in_error = e\<rparr> =
    Some (Inr (\<lparr>hd_version = 3, hd_tensors = 0, hd_kv = map_of (rev (fixture_entries arch keys uints bools))\<rparr>,
      \<lparr>in_bytes = rest, in_error = e\<rparr>))"
  using assms by (rule read_fixture)

lemma tiny_fits: "fixture_fits ''q'' [(''q.block_count'', 4)] [] [(''w'', [True])]"
  by (simp add: fixture_fits_def gguf_caps)

theorem fixture_round_trip_witness:
  "read_header \<lparr>in_bytes = fixture ''q'' [(''q.block_count'', 4)] [] [(''w'', [True])] @ ''rest'', in_error = None\<rparr> =
     Some (Inr (\<lparr>hd_version = 3, hd_tensors = 0,
       hd_kv = [arch_key \<mapsto> GString ''q'', ''q.block_count'' \<mapsto> GUint 4, ''w'' \<mapsto> GBools [True]]\<rparr>, \<lparr>in_bytes = ''rest'', in_error = None\<rparr>))"
  using fixture_round_trip [OF tiny_fits, of "''rest''" None] by (simp add: fixture_entries_def)

theorem header_read_returns_witness:
  "\<exists>pre. 24 \<le> length pre \<and> fixture ''q'' [(''q.block_count'', 4)] [] [(''w'', [True])] @ ''rest'' = pre @ ''rest''
     \<and> (\<exists>h. read_header \<lparr>in_bytes = pre @ ''other'', in_error = Some ''closed''\<rparr> = Some (Inr (h, \<lparr>in_bytes = ''other'', in_error = Some ''closed''\<rparr>)))"
  using header_read_returns [of "\<lparr>in_bytes = fixture ''q'' [(''q.block_count'', 4)] [] [(''w'', [True])] @ ''rest'', in_error = None\<rparr>"]
  unfolding read_fixture [OF tiny_fits] by fastforce

theorem header_values_typed_witness:
  "\<exists>t. typed_value t (GBools [True])"
  using header_values_typed [OF read_fixture [OF tiny_fits, of "[]" None]]
  by (simp add: fixture_entries_def)

text \<open>Nothing bounds how deep arrays nest but the input: twelve bytes are one more level.\<close>

primrec nested :: "nat \<Rightarrow> string" where
  "nested 0 = append_u32 (unat type_uint8) @ append_u64 0"
| "nested (Suc n) = append_u32 (unat type_array) @ append_u64 1 @ nested n"

lemma nested_accepted:
  "length (nested n) = 12 * (n + 1) \<and> (\<exists>v. read_value type_array (at_input (nested n @ rest) e) = Some (Inr (v, at_input rest e)))"
proof (induction n)
  case 0
  have h: "read_array_head (at_input (nested 0 @ rest) e) = Inr ((type_uint8, 0), at_input rest e)"
    by (simp add: read_array_head_def max_array_count_def)
  have "read_value type_array (at_input (nested 0 @ rest) e)
      = Some (Inr (array_value (type_uint8 = type_bool) (array_start type_uint8 0), at_input rest e))"
    unfolding read_array_value h by (simp add: with_value_def)
  moreover have "length (nested 0) = 12 * (0 + 1)" by (simp add: append_u32_def append_u64_def)
  ultimately show ?case by blast
next
  case (Suc n)
  then obtain v where v: "read_value type_array (at_input (nested n @ rest) e) = Some (Inr (v, at_input rest e))" by blast
  have h: "read_array_head (at_input (nested (Suc n) @ rest) e) = Inr ((type_array, Suc 0), at_input (nested n @ rest) e)"
    by (simp add: read_array_head_def max_array_count_def)
  have "read_value type_array (at_input (nested (Suc n) @ rest) e)
      = Some (Inr (array_value (type_array = type_bool) (array_step v (array_start type_array (Suc 0))), at_input rest e))"
    unfolding read_array_value h by (simp add: v with_value_def)
  moreover have "length (nested (Suc n)) = 12 * (Suc n + 1)" using Suc by (simp add: append_u32_def append_u64_def)
  ultimately show ?case by blast
qed

subsection \<open>The geometry\<close>

lemma bearing_values_in_range:
  assumes "p = EveryBlock \<or> (\<exists>pattern b. p = InPattern pattern b \<and> i + length vs \<le> length pattern)"
  shows "bearing_values p i vs \<noteq> Inl e"
  using assms by (induction vs arbitrary: i) (auto simp: bears_def result_bind_Inl split: option.splits)

lemma uint_key_error: "uint_key h key \<noteq> Inl IndexOutOfRange"
  by (simp add: uint_key_def split: option.split gguf_value.split)

lemma head_count_in_range:
  assumes "p = EveryBlock \<or> (\<exists>pattern b. p = InPattern pattern b \<and> int (length pattern) = blocks)"
  shows "kv_head_count h key blocks p \<noteq> Inl IndexOutOfRange"
proof (cases "header_uints h key")
  case (Some per)
  have "bearing_values p 0 per \<noteq> Inl IndexOutOfRange" if "int (length per) = blocks"
    by (rule bearing_values_in_range) (use assms that in auto)
  with Some show ?thesis
    by (auto simp: kv_head_count_def result_bind_Inl split: list.splits)
qed (simp add: kv_head_count_def uint_key_error)

lemma count_partition: "length (filter (\<lambda>b. \<not> b) bs) + length (filter (\<lambda>b. b) bs) = length bs"
  using sum_length_filter_compl [of "\<lambda>b. b" bs] by simp

lemma layer_set_cases:
  assumes "kv_layer_set h arch blocks = Inr (n, p)"
  shows "(\<exists>pattern. header_bools h (window_pattern arch) = Some pattern \<and> int (length pattern) = blocks \<and> p = InPattern pattern False
      \<and> n = int (length (filter (\<lambda>b. \<not> b) pattern))) \<or> (header_bools h (window_pattern arch) = None \<and> p = EveryBlock)"
  using assms by (auto simp: kv_layer_set_def split: option.splits if_splits)

text \<open>C23: Reading the geometry never indexes outside a per-layer pattern, whatever the header's arrays are. When the
  header has a sliding-window pattern, every block is counted once: the layers whose cache grows with the
  context and the sliding ones add up to the block count.\<close>

theorem geometry_counts_blocks:
  "header_geometry h \<noteq> Inl IndexOutOfRange
   \<and> (\<forall>g. header_geometry h = Inr g \<and> header_bools h (window_pattern (header_arch h)) \<noteq> None \<longrightarrow>
        (\<exists>blocks. uint_key h (header_arch h @ ''.block_count'') = Inr blocks \<and> g_kv_layers g + g_swa_layers g = go_int blocks
           \<and> 0 \<le> g_kv_layers g \<and> 0 \<le> g_swa_layers g))"
proof -
  let ?arch = "header_arch h"
  have pat: "kv_head_count h key (int (length pattern)) (InPattern pattern b) \<noteq> Inl IndexOutOfRange" for key pattern b
    by (rule head_count_in_range) simp
  have swa: "header_sliding_window h g a b \<noteq> Inl IndexOutOfRange" if "kv_layer_set h a b = Inr (n, p)" for g a b n p
    using layer_set_cases [OF that] pat by (auto simp: header_sliding_window_def Let_def result_bind_Inl uint_key_error split: option.splits)
  have set: "kv_layer_set h a b \<noteq> Inl IndexOutOfRange" for a b
    by (simp add: kv_layer_set_def split: option.split)
  have heads: "kv_head_count h key b p \<noteq> Inl IndexOutOfRange" if "kv_layer_set h a b = Inr (n, p)" for key a b n p
    using layer_set_cases [OF that] pat head_count_in_range by blast
  have len: "key_length h a \<noteq> Inl IndexOutOfRange" for a
    by (auto simp: key_length_def result_bind_Inl uint_key_error split: option.splits)
  have panic: "header_geometry h \<noteq> Inl IndexOutOfRange"
    using swa set heads len by (auto simp: header_geometry_def Let_def result_bind_Inl uint_key_error)
  have count: "g_kv_layers g + g_swa_layers g = b \<and> 0 \<le> g_kv_layers g \<and> 0 \<le> g_swa_layers g"
    if k: "kv_layer_set h a b = Inr (n, p)" and pt: "header_bools h (window_pattern a) = Some pattern"
      and g: "header_sliding_window h g0 a b = Inr g" "g_kv_layers g0 = n" "g_swa_layers g0 = 0" for a b n p pattern g0 g
  proof -
    from layer_set_cases [OF k] pt have n: "int (length pattern) = b" "n = int (length (filter (\<lambda>b. \<not> b) pattern))" by auto
    show ?thesis using g n count_partition [of pattern] pt
      by (auto simp: header_sliding_window_def Let_def split: if_splits)
  qed
  show ?thesis
  proof (intro conjI allI impI panic)
    fix g assume "header_geometry h = Inr g \<and> header_bools h (window_pattern ?arch) \<noteq> None"
    then obtain blocks n p heads len pattern where s: "uint_key h (?arch @ ''.block_count'') = Inr blocks"
      "kv_layer_set h ?arch (go_int blocks) = Inr (n, p)" "header_bools h (window_pattern ?arch) = Some pattern"
      "header_sliding_window h \<lparr>g_kv_layers = n, g_head_count_kv = heads, g_key_length = len, g_swa_layers = 0,
         g_swa_head_count_kv = 0, g_swa_key_length = 0, g_swa_window = 0\<rparr> ?arch (go_int blocks) = Inr g"
      by (auto simp: header_geometry_def Let_def split: if_splits)
    from count [OF s(2,3,4)] s(1) show "\<exists>blocks. uint_key h (?arch @ ''.block_count'') = Inr blocks
        \<and> g_kv_layers g + g_swa_layers g = go_int blocks \<and> 0 \<le> g_kv_layers g \<and> 0 \<le> g_swa_layers g" by simp
  qed
qed

theorem geometry_counts_blocks_witness:
  "\<exists>g. header_geometry \<lparr>hd_version = 3, hd_tensors = 0, hd_kv = [arch_key \<mapsto> GString ''q'', ''q.block_count'' \<mapsto> GUint 3,
       ''q.attention.head_count_kv'' \<mapsto> GUint 2, ''q.attention.key_length'' \<mapsto> GUint 64, ''q.attention.sliding_window'' \<mapsto> GUint 8,
       window_pattern ''q'' \<mapsto> GBools [True, False, True]]\<rparr> = Inr g \<and> g_kv_layers g + g_swa_layers g = 3"
proof -
  let ?h = "\<lparr>hd_version = 3, hd_tensors = 0, hd_kv = [arch_key \<mapsto> GString ''q'', ''q.block_count'' \<mapsto> GUint 3,
       ''q.attention.head_count_kv'' \<mapsto> GUint 2, ''q.attention.key_length'' \<mapsto> GUint 64, ''q.attention.sliding_window'' \<mapsto> GUint 8,
       window_pattern ''q'' \<mapsto> GBools [True, False, True]]\<rparr>"
  have a: "header_arch ?h = ''q''" by (simp add: header_arch_def header_string_def window_pattern_def arch_key_def)
  have b: "header_bools ?h (window_pattern ''q'') \<noteq> None" by (simp add: header_bools_def)
  have "\<exists>g. header_geometry ?h = Inr g"
    by (simp add: header_geometry_def Let_def a) (simp add: uint_key_def kv_layer_set_def header_bools_def kv_head_count_def
        header_uints_def header_uint_def key_length_def header_sliding_window_def Let_def window_pattern_def arch_key_def go_int_def)
  then obtain g where g: "header_geometry ?h = Inr g" by blast
  with geometry_counts_blocks [of ?h] b a obtain blocks where
    "uint_key ?h (''q'' @ ''.block_count'') = Inr blocks" "g_kv_layers g + g_swa_layers g = go_int blocks" by auto
  then have "g_kv_layers g + g_swa_layers g = 3" by (simp add: uint_key_def header_uint_def window_pattern_def arch_key_def go_int_def)
  with g show ?thesis by blast
qed

end
