(* ===== verification/DownloadFacts.thy ===== *)
theory DownloadFacts
  imports Download GgufFacts
begin

text \<open>
  A file appears under its final name only with the bytes its checksum names, whatever the server sends and
  whichever call fails; a transfer that breaks off is taken up where it stopped.
\<close>

definition same_but :: "string set \<Rightarrow> 'x dl_host \<Rightarrow> 'x dl_host \<Rightarrow> bool" where
  "same_but ps h h' \<longleftrightarrow> (\<forall>p. p \<notin> ps \<longrightarrow> dh_files h' p = dh_files h p)"

lemma same_but_refl [simp]: "same_but ps h h"
  by (simp add: same_but_def)

lemma same_but_trans: "same_but ps h h1 \<Longrightarrow> same_but ps h1 h2 \<Longrightarrow> same_but ps h h2"
  by (simp add: same_but_def)

lemma same_but_mono: "same_but ps h h' \<Longrightarrow> ps \<subseteq> qs \<Longrightarrow> same_but qs h h'"
  by (auto simp: same_but_def)

lemma dl_world_files: "on_dl_world f h = (r, h') \<Longrightarrow> dh_files h' = dh_files h"
  by (auto simp: on_dl_world_def split: prod.splits)

lemma dl_world_snd [simp]: "dh_files (snd (on_dl_world f h)) = dh_files h"
  by (simp add: on_dl_world_def split: prod.splits)

lemma set_bytes_files [simp]: "dh_files (set_bytes p b h) = (dh_files h)(p := b)"
  by (simp add: set_bytes_def)

lemma remove_part_same: "same_but {part} h (remove_part env part h)"
  by (auto simp: remove_part_def same_but_def dest: dl_world_files split: prod.splits)

lemma sent_same: "send_request env sh req h = (q, h') \<Longrightarrow> dh_files h' = dh_files h"
  by (auto simp: send_request_def dest: dl_world_files split: option.splits prod.splits sum.splits)

lemma head_same: "head_verify env sh h = (q, h') \<Longrightarrow> dh_files h' = dh_files h"
  by (auto simp: head_verify_def dest: sent_same split: prod.splits sum.splits)

text \<open>The rolling hash holds what the part holds, where a transfer resumes.\<close>

lemma seeded:
  assumes "seed_part env part h = ((hashed, resume), h')"
  shows "same_but {part} h h'" "resume = length hashed" "resume > 0 \<Longrightarrow> dh_files h' part = Some hashed"
  using assms remove_part_same [of part h env]
  by (auto simp: seed_part_def stat_size_def split: option.splits nat.splits if_splits)

lemma copied:
  assumes "copy_body env sh part hashed resume resp h = (q, h')" "resume = length hashed"
    and "resume > 0 \<Longrightarrow> dh_files h part = Some hashed"
  shows "same_but {part} h h' \<and> (\<forall>hashed' written. q = Inr (hashed', written) \<longrightarrow>
      dh_files h' part = Some hashed' \<and> written = length hashed')"
  using assms
  by (cases "hashed = []") (auto simp: copy_body_def same_but_def Let_def dest!: dl_world_files split: prod.splits option.splits if_splits)

lemma streamed:
  assumes "stream_to_part env sh part hashed resume h = (q, h')" "resume = length hashed"
    and "resume > 0 \<Longrightarrow> dh_files h part = Some hashed"
  shows "same_but {part} h h'" "q = Inr (hashed', written) \<Longrightarrow> dh_files h' part = Some hashed' \<and> written = length hashed'"
proof -
  obtain q1 h1 where 1: "send_request env sh (GetOf (sh_url sh) (if resume > 0 then Some resume else None)) h = (q1, h1)"
    by fastforce
  note f = sent_same [OF 1]
  have "same_but {part} h h' \<and> (\<forall>hashed' written. q = Inr (hashed', written) \<longrightarrow> dh_files h' part = Some hashed' \<and> written = length hashed')"
  proof (cases q1)
    case (Inl e)
    with 1 assms(1) f show ?thesis by (auto simp: stream_to_part_def same_but_def)
  next
    case (Inr resp)
    consider "hr_status resp = 200" | "hr_status resp = 206" | "hr_status resp \<noteq> 200" "hr_status resp \<noteq> 206" by blast
    then show ?thesis
    proof cases
      case 1
      with \<open>send_request _ _ _ _ = _\<close> Inr assms(1) have c: "copy_body env sh part (if resume > 0 then [] else hashed) 0 resp h1 = (q, h')"
        by (simp add: stream_to_part_def)
      have z: "0 = length (if resume > 0 then [] else hashed)" using assms(2) by simp
      from copied [OF c z] f show ?thesis by (auto simp: same_but_def)
    next
      case 2
      with \<open>send_request _ _ _ _ = _\<close> Inr assms(1) have c: "copy_body env sh part hashed resume resp h1 = (q, h')"
        by (simp add: stream_to_part_def)
      from copied [OF c assms(2)] assms(3) f show ?thesis by (auto simp: same_but_def)
    next
      case 3
      with \<open>send_request _ _ _ _ = _\<close> Inr assms(1) f show ?thesis by (auto simp: stream_to_part_def same_but_def)
    qed
  qed
  then show "same_but {part} h h'" "q = Inr (hashed', written) \<Longrightarrow> dh_files h' part = Some hashed' \<and> written = length hashed'"
    by blast+
qed

lemma published:
  assumes "publish env sh final part hashed written h = (q, h')" "dh_files h part = Some hashed" "written = length hashed"
    and "final \<noteq> part"
  shows "same_but {part, final} h h'" "q = Inl e \<Longrightarrow> dh_files h' final = dh_files h final"
    "q = Inr () \<Longrightarrow> dh_files h' final = Some hashed \<and> u64_of_int (int (length hashed)) = sh_size_bytes sh
       \<and> equal_fold (de_sha env hashed) (sh_sha256 sh)"
  using assms remove_part_same [of part]
  by (auto simp: publish_def same_but_def dest!: dl_world_files split: prod.splits option.splits if_splits)

lemma fetched:
  assumes "fetch_file env sh final part h = (q, h')" "final \<noteq> part"
  shows "same_but {part, final} h h' \<and> (\<forall>e. q = Inl e \<longrightarrow> dh_files h' final = dh_files h final)
    \<and> (q = Inr () \<longrightarrow> (\<exists>b. dh_files h' final = Some b \<and> u64_of_int (int (length b)) = sh_size_bytes sh
         \<and> equal_fold (de_sha env b) (sh_sha256 sh)))"
proof -
  obtain q1 h1 where 1: "head_verify env sh h = (q1, h1)" by fastforce
  obtain hashed resume h2 where 2: "seed_part env part h1 = ((hashed, resume), h2)" by (metis surj_pair)
  obtain q3 h3 where 3: "stream_to_part env sh part hashed resume h2 = (q3, h3)" by fastforce
  have s2: "same_but {part} h h2" using seeded(1) [OF 2] head_same [OF 1] by (simp add: same_but_def)
  have s3: "same_but {part} h h3" using same_but_trans [OF s2 streamed(1) [OF 3 seeded(2) [OF 2] seeded(3) [OF 2]]] .
  show ?thesis
  proof (cases q1)
    case (Inl e)
    with assms(1) 1 head_same [OF 1] show ?thesis by (auto simp: fetch_file_def same_but_def)
  next
    case (Inr u)
    show ?thesis
    proof (cases q3)
      case (Inl e)
      with assms 1 Inr 2 3 s3 \<open>q1 = Inr u\<close> show ?thesis by (auto simp: fetch_file_def same_but_def)
    next
      case (Inr p)
      obtain hashed' written where p: "p = (hashed', written)" by fastforce
      note t = streamed(2) [OF 3 seeded(2) [OF 2] seeded(3) [OF 2], of hashed' written]
      from assms(1) 1 \<open>q1 = Inr u\<close> 2 3 Inr p have c: "publish env sh final part hashed' written h3 = (q, h')"
        by (simp add: fetch_file_def)
      have w: "dh_files h3 part = Some hashed'" "written = length hashed'" using t Inr p by auto
      note r = published [OF c w assms(2)]
      have "same_but {part, final} h h'" using same_but_trans [OF same_but_mono [OF s3] r(1)] by blast
      moreover have "dh_files h3 final = dh_files h final" using s3 assms(2) by (auto simp: same_but_def)
      ultimately show ?thesis using r(2,3) by auto
    qed
  qed
qed

lemma downloaded:
  assumes "download_file env sh dir h = (q, h')"
  shows "(let final = join_path dir (sh_filename sh) in
    (\<forall>p. p \<noteq> final \<and> p \<noteq> final @ ''.part'' \<longrightarrow> dh_files h' p = dh_files h p)
    \<and> (\<forall>e. q = Inl e \<longrightarrow> dh_files h' final = dh_files h final)
    \<and> (q = Inr () \<longrightarrow> (\<exists>b. dh_files h' final = Some b \<and> u64_of_int (int (length b)) = sh_size_bytes sh
         \<and> (dh_files h final = Some b \<or> equal_fold (de_sha env b) (sh_sha256 sh)))))"
proof -
  let ?final = "join_path dir (sh_filename sh)"
  have ne: "?final \<noteq> ?final @ part_suffix" by (simp add: part_suffix_def)
  consider e where "q = Inl e" "h' = h" | "q = Inr ()" "h' = h" "map_option (\<lambda>n. u64_of_int (int n)) (stat_size env ?final h) = Some (sh_size_bytes sh)"
    | "fetch_file env sh ?final (?final @ part_suffix) h = (q, h')"
  proof (cases "inside (de_cwd env) ?final dir")
    case (Inl e)
    with assms that(1) [of "OutsideModels e"] show ?thesis by (simp add: download_file_def Let_def)
  next
    case (Inr u)
    show ?thesis
    proof (cases "bare_name (sh_filename sh)")
      case False
      with assms Inr that(1) [of "NotBare (sh_filename sh)"] show ?thesis by (simp add: download_file_def Let_def)
    next
      case True
      with assms Inr that(2,3) show ?thesis
        by (cases "map_option (\<lambda>n. u64_of_int (int n)) (stat_size env ?final h) = Some (sh_size_bytes sh)")
          (simp_all only: download_file_def Let_def sum.case if_True if_False not_True_eq_False prod.inject refl)
    qed
  qed
  then show ?thesis
  proof cases
    case 2
    then obtain b where "dh_files h ?final = Some b" "u64_of_int (int (length b)) = sh_size_bytes sh"
      by (auto simp: stat_size_def split: if_splits)
    with 2 show ?thesis by (simp add: Let_def)
  next
    case 3
    from fetched [OF 3 ne] show ?thesis unfolding Let_def same_but_def part_suffix_def by blast
  qed (simp add: Let_def)
qed

text \<open>C17: A download that succeeds has left, under the final name, either the file that was there, of the size the
  catalog gives, or bytes of that size whose SHA-256 is the catalog's. One that fails has left the final name as
  it was. Nothing but that file and its part is ever touched, whatever the server answers and whichever call
  fails.\<close>

theorem download_publishes_verified:
  assumes "download_file env sh dir h = (q, h')"
  shows "(let final = join_path dir (sh_filename sh) in
    (\<forall>p. p \<noteq> final \<and> p \<noteq> final @ ''.part'' \<longrightarrow> dh_files h' p = dh_files h p)
    \<and> (\<forall>e. q = Inl e \<longrightarrow> dh_files h' final = dh_files h final)
    \<and> (q = Inr () \<longrightarrow> (\<exists>b. dh_files h' final = Some b \<and> u64_of_int (int (length b)) = sh_size_bytes sh
         \<and> (dh_files h final = Some b \<or> equal_fold (de_sha env b) (sh_sha256 sh)))))"
  using assms by (rule downloaded)

subsection \<open>A model\<close>

definition final_of :: "string \<Rightarrow> shard \<Rightarrow> string" where
  "final_of dir sh = join_path dir (sh_filename sh)"

lemma pulled:
  assumes "pull_from env mid i n dir shs h = (Inr (), h')" "distinct (map (final_of dir) shs)"
    and "\<forall>s \<in> set shs. \<forall>t \<in> set shs. final_of dir s \<noteq> final_of dir t @ ''.part''"
  shows "(\<forall>s \<in> set shs. \<exists>b. dh_files h' (final_of dir s) = Some b \<and> u64_of_int (int (length b)) = sh_size_bytes s
      \<and> (dh_files h (final_of dir s) = Some b \<or> equal_fold (de_sha env b) (sh_sha256 s)))
    \<and> (\<forall>p. (\<forall>s \<in> set shs. p \<noteq> final_of dir s \<and> p \<noteq> final_of dir s @ ''.part'') \<longrightarrow> dh_files h' p = dh_files h p)"
  using assms
proof (induction shs arbitrary: i h)
  case (Cons s shs)
  from Cons.prems(1) obtain h1 where d: "download_file env s dir h = (Inr (), h1)"
    "pull_from env mid (i + 1) n dir shs h1 = (Inr (), h')"
    by (auto split: option.splits prod.splits sum.splits)
  note D = downloaded [OF d(1), unfolded Let_def, folded final_of_def]
  have "\<forall>s \<in> set shs. \<forall>t \<in> set shs. final_of dir s \<noteq> final_of dir t @ ''.part''" "distinct (map (final_of dir) shs)"
    using Cons.prems(2,3) by auto
  note IH = Cons.IH [OF d(2) this(2,1)]
  have keep: "dh_files h' (final_of dir s) = dh_files h1 (final_of dir s)"
  proof -
    have "final_of dir s \<notin> final_of dir ` set shs" using Cons.prems(2) by simp
    then have "\<forall>t \<in> set shs. final_of dir s \<noteq> final_of dir t \<and> final_of dir s \<noteq> final_of dir t @ ''.part''"
      using Cons.prems(3) by auto
    with IH show ?thesis by blast
  qed
  have other: "dh_files h1 (final_of dir t) = dh_files h (final_of dir t)" if "t \<in> set shs" for t
  proof -
    have "final_of dir s \<notin> final_of dir ` set shs" using Cons.prems(2) by simp
    then have "final_of dir t \<noteq> final_of dir s" using that by (metis imageI)
    moreover have "final_of dir t \<noteq> final_of dir s @ ''.part''" using Cons.prems(3) that by auto
    ultimately show ?thesis using D by blast
  qed
  show ?case using IH D keep other by auto
qed simp

text \<open>C18: A model that is pulled is whole: every file of the entry, sidecars included, is under its name with the
  size the catalog gives and is either the file that was there before or has the catalog's SHA-256; its header
  agrees with the geometry the entry declares, if it declares one; and no file besides the entry's, and their
  parts, has changed. Pulling returns: an answer is given for every header.\<close>

theorem pulled_model_verified:
  assumes "distinct (map (final_of dir) (all_shards m))"
    and "\<forall>s \<in> set (all_shards m). \<forall>t \<in> set (all_shards m). final_of dir s \<noteq> final_of dir t @ ''.part''"
  shows "\<exists>q h'. pull_model env m dir h = (Some q, h') \<and> (q = Inr () \<longrightarrow> all_shards m \<noteq> []
     \<and> (\<forall>s \<in> set (all_shards m). \<exists>b. dh_files h' (final_of dir s) = Some b \<and> u64_of_int (int (length b)) = sh_size_bytes s
          \<and> (dh_files h (final_of dir s) = Some b \<or> equal_fold (de_sha env b) (sh_sha256 s)))
     \<and> (model_geometry m = zero_geometry \<or> (\<exists>b head r. dh_files h' (join_path dir (primary_file m)) = Some b
          \<and> read_header \<lparr>in_bytes = b, in_error = de_read_error env (join_path dir (primary_file m)) (dh_world h')\<rparr> = Some (Inr (head, r))
          \<and> header_geometry head = Inr (model_geometry m)))
     \<and> (\<forall>p. (\<forall>s \<in> set (all_shards m). p \<noteq> final_of dir s \<and> p \<noteq> final_of dir s @ ''.part'') \<longrightarrow> dh_files h' p = dh_files h p))"
proof -
  have total: "\<exists>q. verify_geometry env m dir g = Some q" for g
  proof -
    have "\<exists>res. read_header r = Some res" for r using header_consumes [of r] by (auto simp: consumes_def)
    then show ?thesis by (fastforce simp: verify_geometry_def Let_def split: option.split)
  qed
  have geo: "model_geometry m = zero_geometry \<or> (\<exists>b head r. dh_files g (join_path dir (primary_file m)) = Some b
          \<and> read_header \<lparr>in_bytes = b, in_error = de_read_error env (join_path dir (primary_file m)) (dh_world g)\<rparr> = Some (Inr (head, r))
          \<and> header_geometry head = Inr (model_geometry m))" if "verify_geometry env m dir g = Some (Inr ())" for g
  proof (cases "model_geometry m = zero_geometry")
    case False
    let ?p = "join_path dir (primary_file m)"
    from that False obtain b q where b: "dh_files g ?p = Some b"
      and q: "read_header (at_input b (de_read_error env ?p (dh_world g))) = Some q"
      "(case q of Inl e \<Rightarrow> Inl (GeometryHeader (m_id m) e) | Inr (head, _) \<Rightarrow>
          (case header_geometry head of Inl e \<Rightarrow> Inl (GeometryRead (m_id m) e)
           | Inr got \<Rightarrow> if got \<noteq> model_geometry m then Inl (GeometryDisagrees (m_id m) got (model_geometry m)) else Inr ())) = Inr ()"
      by (auto simp: verify_geometry_def Let_def split: option.splits)
    from q(2) obtain head r where "q = Inr (head, r)" "header_geometry head = Inr (model_geometry m)"
      by (auto split: sum.splits if_splits)
    with b q(1) show ?thesis by blast
  qed simp
  obtain q h1 where p: "pull_from env (m_id m) 0 (length (all_shards m)) dir (all_shards m) h = (q, h1)" by fastforce
  show ?thesis
  proof (cases "all_shards m = []")
    case True
    then show ?thesis by (simp add: pull_model_def)
  next
    case False
    show ?thesis
    proof (cases q)
      case (Inl e)
      with p False show ?thesis by (simp add: pull_model_def)
    next
      case (Inr u)
      with p have "pull_from env (m_id m) 0 (length (all_shards m)) dir (all_shards m) h = (Inr (), h1)" by simp
      note P = pulled [OF this assms]
      obtain v where v: "verify_geometry env m dir h1 = Some v" using total by blast
      have "pull_model env m dir h = (Some v, h1)" using p Inr False v by (simp add: pull_model_def)
      moreover have "v = Inr () \<Longrightarrow> verify_geometry env m dir h1 = Some (Inr ())" using v by simp
      ultimately show ?thesis using P geo [of h1] False by blast
    qed
  qed
qed

subsection \<open>Taking up a broken transfer\<close>

text \<open>Calls that do not fail, and a server of the bytes \<open>c\<close> whose every answer breaks off after \<open>k\<close> of them. It
  honours a range that starts inside the file.\<close>

definition faultless :: "'x dl_env \<Rightarrow> shard \<Rightarrow> string \<Rightarrow> bool" where
  "faultless env sh dir \<longleftrightarrow> inside (de_cwd env) (final_of dir sh) dir = Inr () \<and> de_bad_request env (sh_url sh) = None
     \<and> (\<forall>p w. \<not> de_stat_error env p w \<and> de_read_error env p w = None \<and> fst (de_open_error env p w) = None
          \<and> (\<forall>b. fst (de_write_error env p b w) = None) \<and> fst (de_close_error env p w) = None \<and> fst (de_rename_error env p w) = None)"

definition cut_body :: "nat \<Rightarrow> string \<Rightarrow> http_response" where
  "cut_body k rest = \<lparr>hr_status = 206, hr_etag = [], hr_size = [], hr_body = take k rest,
     hr_body_error = (if k < length rest then Some ''connection reset'' else None)\<rparr>"

definition serves :: "'x dl_env \<Rightarrow> shard \<Rightarrow> string \<Rightarrow> nat \<Rightarrow> bool" where
  "serves env sh c k \<longleftrightarrow> (\<forall>w.
     fst (de_http env (HeadOf (sh_url sh)) w) = Inr ((cut_body 0 [])\<lparr>hr_status := 200\<rparr>)
     \<and> fst (de_http env (GetOf (sh_url sh) None) w) = Inr ((cut_body k c)\<lparr>hr_status := 200\<rparr>)
     \<and> (\<forall>n < length c. fst (de_http env (GetOf (sh_url sh) (Some n)) w) = Inr (cut_body k (drop n c))))"

lemma on_dl_world_ok:
  assumes "fst (f (dh_world h)) = r"
  obtains h' where "on_dl_world f h = (r, h')" "dh_files h' = dh_files h"
  using assms that by (cases "f (dh_world h)") (simp add: on_dl_world_def)

lemma send_ok:
  assumes "faultless env sh dir" "\<And>w. fst (de_http env req w) = Inr resp"
  obtains h' where "send_request env sh req h = (Inr resp, h')" "dh_files h' = dh_files h"
proof -
  obtain h' where "on_dl_world (de_http env req) h = (Inr resp, h')" "dh_files h' = dh_files h"
    by (rule on_dl_world_ok [where f = "de_http env req", OF assms(2)])
  with assms(1) that show thesis by (simp add: send_request_def faultless_def)
qed

lemma copy_cut:
  assumes f: "faultless env sh dir" and part: "n > 0 \<Longrightarrow> dh_files h part = Some (take n c)" and n: "n \<le> length c"
  obtains q h' where "copy_body env sh part (take n c) n ((cut_body k (drop n c))\<lparr>hr_status := st\<rparr>) h = (q, h')"
    "dh_files h' = (dh_files h)(part \<mapsto> take (n + k) c)" "if n + k < length c then \<exists>e. q = Inl e else q = Inr (c, length c)"
proof -
  let ?r = "(cut_body k (drop n c))\<lparr>hr_status := st\<rparr>"
  have ok: "fst (de_open_error env part w) = None" "fst (de_write_error env part b w) = None" "fst (de_close_error env part w) = None" for w b
    using f by (simp_all add: faultless_def)
  obtain h1 where 1: "on_dl_world (de_open_error env part) h = (None, h1)" "dh_files h1 = dh_files h"
    by (rule on_dl_world_ok [where f = "de_open_error env part", OF ok(1)])
  have old: "(if n > 0 then (case dh_files h1 part of None \<Rightarrow> [] | Some b \<Rightarrow> b) else []) = take n c"
    using part 1(2) by (cases n) auto
  obtain h2 where 2: "on_dl_world (de_write_error env part (hr_body ?r)) h1 = (None, h2)" "dh_files h2 = dh_files h1"
    by (rule on_dl_world_ok [where f = "de_write_error env part (hr_body ?r)", OF ok(2)])
  obtain h3 where 3: "on_dl_world (de_close_error env part) (set_bytes part (Some (take n c @ hr_body ?r)) h2) = (None, h3)"
      "dh_files h3 = dh_files (set_bytes part (Some (take n c @ hr_body ?r)) h2)"
    by (rule on_dl_world_ok [where f = "de_close_error env part", OF ok(3)])
  have body: "take n c @ hr_body ?r = take (n + k) c" "n + k \<ge> length c \<Longrightarrow> take n c @ hr_body ?r = c"
    by (simp_all add: cut_body_def take_add)
  have err: "hr_body_error ?r = (if n + k < length c then Some ''connection reset'' else None)"
    by (auto simp: cut_body_def)
  have "copy_body env sh part (take n c) n ?r h =
      (if n + k < length c then Inl (StreamFailed (sh_filename sh) ''connection reset'') else Inr (take n c @ hr_body ?r, n + length (hr_body ?r)), h3)"
    unfolding copy_body_def Let_def 1(1) prod.case option.case old 2(1) 3(1) err by simp
  moreover have "n + k \<ge> length c \<Longrightarrow> n + length (hr_body ?r) = length c" using n by (simp add: cut_body_def)
  moreover have "dh_files h3 = (dh_files h)(part \<mapsto> take (n + k) c)" using 1 2 3 body by simp
  ultimately show thesis using that body(2) by (simp split: if_splits)
qed

lemma attempt_resumes:
  assumes f: "faultless env sh dir" and s: "serves env sh c k"
    and bare: "bare_name (sh_filename sh)" and size: "u64_of_int (int (length c)) = sh_size_bytes sh"
    and sha: "equal_fold (de_sha env c) (sh_sha256 sh)"
    and final: "dh_files h (final_of dir sh) = None"
    and part: "n > 0 \<Longrightarrow> dh_files h (final_of dir sh @ ''.part'') = Some (take n c)" "n < length c \<or> n = 0"
      "n = 0 \<Longrightarrow> dh_files h (final_of dir sh @ ''.part'') \<in> {None, Some []}"
    and run: "download_file env sh dir h = (q, h')"
  shows "if n + k < length c
    then dh_files h' (final_of dir sh) = None \<and> dh_files h' (final_of dir sh @ ''.part'') = Some (take (n + k) c)
    else dh_files h' (final_of dir sh) = Some c"
proof -
  let ?final = "final_of dir sh" and ?part = "final_of dir sh @ ''.part''"
  have ne: "?final \<noteq> ?part" by simp
  have "stat_size env ?final h = None" using final by (simp add: stat_size_def)
  then have fetch: "fetch_file env sh ?final ?part h = (q, h')"
    using run bare f by (simp add: download_file_def Let_def final_of_def part_suffix_def faultless_def)
  have srv: "fst (de_http env (HeadOf (sh_url sh)) w) = Inr ((cut_body 0 [])\<lparr>hr_status := 200\<rparr>)"
    "fst (de_http env (GetOf (sh_url sh) (if n > 0 then Some n else None)) w) = Inr ((cut_body k (drop n c))\<lparr>hr_status := if n > 0 then 206 else 200\<rparr>)" for w
    using s part(2) by (auto simp: serves_def cut_body_def)
  obtain h1 where 1: "send_request env sh (HeadOf (sh_url sh)) h = (Inr ((cut_body 0 [])\<lparr>hr_status := 200\<rparr>), h1)"
      "dh_files h1 = dh_files h"
    by (rule send_ok [OF f srv(1)])
  have head: "head_verify env sh h = (Inr (), h1)"
    by (simp add: head_verify_def 1 check_head_def cut_body_def)
  have st: "\<not> de_stat_error env ?part (dh_world h1)" "de_read_error env ?part (dh_world h1) = None"
    using f by (simp_all add: faultless_def)
  have seed: "seed_part env ?part h1 = ((take n c, n), h1)"
  proof (cases n)
    case 0
    with part(3) 1(2) st show ?thesis by (auto simp: seed_part_def stat_size_def)
  next
    case (Suc m)
    with part 1(2) st show ?thesis by (auto simp: seed_part_def stat_size_def)
  qed
  let ?st = "if n > 0 then 206 else 200"
  obtain h2 where 2: "send_request env sh (GetOf (sh_url sh) (if n > 0 then Some n else None)) h1
      = (Inr ((cut_body k (drop n c))\<lparr>hr_status := ?st\<rparr>), h2)" "dh_files h2 = dh_files h1"
    by (rule send_ok [OF f srv(2)])
  have p2: "n > 0 \<Longrightarrow> dh_files h2 ?part = Some (take n c)" and nle: "n \<le> length c" using part 1(2) 2(2) by auto
  obtain r h3 where 3: "copy_body env sh ?part (take n c) n ((cut_body k (drop n c))\<lparr>hr_status := ?st\<rparr>) h2 = (r, h3)"
      "dh_files h3 = (dh_files h2)(?part \<mapsto> take (n + k) c)" "if n + k < length c then \<exists>e. r = Inl e else r = Inr (c, length c)"
    by (rule copy_cut [OF f p2 nle, where k = k and st = ?st])
  have stream: "stream_to_part env sh ?part (take n c) n h1 = (r, h3)"
    using 2(1) 3(1) by (cases n) (simp_all add: stream_to_part_def)
  show ?thesis
  proof (cases "n + k < length c")
    case True
    with 3(3) obtain e where "r = Inl e" by auto
    with fetch head seed stream have "h' = h3" by (simp add: fetch_file_def)
    with True 3(2) 1(2) 2(2) final show ?thesis by simp
  next
    case False
    have rn: "fst (de_rename_error env ?part w) = None" for w using f by (simp add: faultless_def)
    obtain h4 where 4: "on_dl_world (de_rename_error env ?part) h3 = (None, h4)" "dh_files h4 = dh_files h3"
      by (rule on_dl_world_ok [where f = "de_rename_error env ?part", OF rn])
    from False fetch head seed stream 3(3) have "publish env sh ?final ?part c (length c) h3 = (q, h')" by (simp add: fetch_file_def)
    with size sha 4 have "h' = set_bytes ?part None (set_bytes ?final (dh_files h4 ?part) h4)" by (simp add: publish_def)
    with False 3(2) 4(2) show ?thesis by simp
  qed
qed

text \<open>One attempt after the other, each over its own connection.\<close>

fun attempts :: "'x dl_env list \<Rightarrow> shard \<Rightarrow> string \<Rightarrow> 'x dl_host \<Rightarrow> 'x dl_host" where
  "attempts [] sh dir h = h"
| "attempts (env # envs) sh dir h = attempts envs sh dir (snd (download_file env sh dir h))"

lemma attempts_done:
  assumes "\<forall>env \<in> set envs. faultless env sh dir" "bare_name (sh_filename sh)" "u64_of_int (int (length c)) = sh_size_bytes sh"
    and "dh_files h (final_of dir sh) = Some c"
  shows "dh_files (attempts envs sh dir h) (final_of dir sh) = Some c"
  using assms
proof (induction envs arbitrary: h)
  case (Cons env envs)
  then have "snd (download_file env sh dir h) = h"
    by (simp add: download_file_def Let_def stat_size_def faultless_def final_of_def)
  with Cons show ?case by simp
qed simp

lemma attempts_progress:
  assumes "\<forall>env \<in> set envs. faultless env sh dir \<and> (\<exists>k > 0. serves env sh c k) \<and> equal_fold (de_sha env c) (sh_sha256 sh)"
    and "bare_name (sh_filename sh)" "u64_of_int (int (length c)) = sh_size_bytes sh"
    and "dh_files h (final_of dir sh) = None"
    and "n > 0 \<Longrightarrow> dh_files h (final_of dir sh @ ''.part'') = Some (take n c)" "n < length c \<or> n = 0"
      "n = 0 \<Longrightarrow> dh_files h (final_of dir sh @ ''.part'') \<in> {None, Some []}"
    and "length c \<le> n + length envs" "envs \<noteq> []"
  shows "dh_files (attempts envs sh dir h) (final_of dir sh) = Some c"
  using assms
proof (induction envs arbitrary: h n)
  case (Cons env envs)
  from Cons.prems(1) obtain k where k: "k > 0" "serves env sh c k" by auto
  obtain q h1 where d: "download_file env sh dir h = (q, h1)" by fastforce
  have "faultless env sh dir" "equal_fold (de_sha env c) (sh_sha256 sh)" using Cons.prems(1) by auto
  note a = attempt_resumes [OF this(1) k(2) Cons.prems(2,3) this(2) Cons.prems(4-7) d]
  show ?case
  proof (cases "n + k < length c")
    case True
    with a have p: "dh_files h1 (final_of dir sh) = None" "dh_files h1 (final_of dir sh @ ''.part'') = Some (take (n + k) c)" by auto
    have "dh_files (attempts envs sh dir h1) (final_of dir sh) = Some c"
    proof (rule Cons.IH [of h1 "n + k"])
      show "length c \<le> n + k + length envs" "envs \<noteq> []" using Cons.prems(8) k True by auto
    qed (use Cons.prems k p True in auto)
    with d show ?thesis by simp
  next
    case False
    with a have "dh_files h1 (final_of dir sh) = Some c" by auto
    with attempts_done [of envs sh dir c h1] Cons.prems(1,2,3) d show ?thesis by simp
  qed
qed simp


text \<open>A part that is already whole is never published: the range behind its end is refused, and the refusal leaves
  it in place.\<close>

lemma whole_part_is_stuck:
  assumes "faultless env sh dir" "serves env sh c k" "bare_name (sh_filename sh)" "c \<noteq> []"
    and "\<And>w. fst (de_http env (GetOf (sh_url sh) (Some (length c))) w) = Inr ((cut_body 0 [])\<lparr>hr_status := 416\<rparr>)"
    and "dh_files h (final_of dir sh) = None" "dh_files h (final_of dir sh @ ''.part'') = Some c"
  shows "\<exists>h'. download_file env sh dir h = (Inl (UnexpectedStatus (sh_filename sh) 416), h') \<and> dh_files h' = dh_files h"
proof -
  let ?part = "final_of dir sh @ ''.part''"
  have srv: "fst (de_http env (HeadOf (sh_url sh)) w) = Inr ((cut_body 0 [])\<lparr>hr_status := 200\<rparr>)" for w
    using assms(2) by (auto simp: serves_def)
  obtain h1 where 1: "send_request env sh (HeadOf (sh_url sh)) h = (Inr ((cut_body 0 [])\<lparr>hr_status := 200\<rparr>), h1)"
      "dh_files h1 = dh_files h" by (rule send_ok [OF assms(1) srv])
  obtain h2 where 2: "send_request env sh (GetOf (sh_url sh) (Some (length c))) h1 = (Inr ((cut_body 0 [])\<lparr>hr_status := 416\<rparr>), h2)"
      "dh_files h2 = dh_files h1" by (rule send_ok [OF assms(1,5)])
  have head: "head_verify env sh h = (Inr (), h1)" by (simp add: head_verify_def 1 check_head_def cut_body_def)
  have "seed_part env ?part h1 = ((c, length c), h1)"
    using assms(1,4,7) 1(2) by (cases c) (auto simp: seed_part_def stat_size_def faultless_def)
  moreover have "stream_to_part env sh ?part c (length c) h1 = (Inl (UnexpectedStatus (sh_filename sh) 416), h2)"
    using assms(4) 2(1) by (simp add: stream_to_part_def cut_body_def)
  moreover have "stat_size env (final_of dir sh) h = None" using assms(6) by (simp add: stat_size_def)
  ultimately show ?thesis using assms(1,3) head 1(2) 2(2)
    by (simp add: download_file_def Let_def final_of_def part_suffix_def faultless_def fetch_file_def)
qed

subsection \<open>A sample download\<close>

definition sample_dl_env :: "unit dl_env" where
  "sample_dl_env = \<lparr>de_cwd = None, de_sha = (\<lambda>b. b), de_bad_request = (\<lambda>_. None),
     de_http = (\<lambda>req _. case req of
        HeadOf _ \<Rightarrow> (Inr ((cut_body 0 [])\<lparr>hr_status := 200\<rparr>), ())
      | GetOf _ None \<Rightarrow> (Inr ((cut_body 1 ''ab'')\<lparr>hr_status := 200\<rparr>), ())
      | GetOf _ (Some n) \<Rightarrow> (Inr (cut_body 1 (drop n ''ab'')), ())),
     de_cancelled = (\<lambda>_. None), de_stat_error = (\<lambda>_ _. False), de_read_error = (\<lambda>_ _. None), de_open_error = (\<lambda>_ _. (None, ())),
     de_write_error = (\<lambda>_ _ _. (None, ())), de_close_error = (\<lambda>_ _. (None, ())), de_rename_error = (\<lambda>_ _. (None, ())),
     de_remove_error = (\<lambda>_ _. (False, ()))\<rparr>"

definition sample_shard :: shard where
  "sample_shard = \<lparr>sh_url = ''u'', sh_filename = ''f'', sh_sha256 = ''AB'', sh_size_bytes = 2\<rparr>"

definition sample_disk :: "unit dl_host" where
  "sample_disk = \<lparr>dh_files = Map.empty, dh_world = ()\<rparr>"

lemma sample_dl_paths: "join_path ''/m'' ''f'' = ''/m/f''" "inside None ''/m/f'' ''/m'' = Inr ()" "bare_name ''f''"
  by code_simp+

lemma sample_faultless: "faultless sample_dl_env sample_shard ''/m''"
  by (simp add: faultless_def sample_dl_env_def sample_shard_def final_of_def sample_dl_paths)

lemma sample_serves: "serves sample_dl_env sample_shard ''ab'' 1"
  by (auto simp: serves_def sample_dl_env_def sample_shard_def)

lemma sample_sha: "equal_fold (de_sha sample_dl_env ''ab'') (sh_sha256 sample_shard)"
  by (simp add: sample_dl_env_def sample_shard_def) code_simp


theorem download_publishes_verified_witness:
  "\<exists>q h'. download_file sample_dl_env sample_shard ''/m'' sample_disk = (q, h') \<and> dh_files h' ''/m/other'' = None"
proof -
  obtain q h' where d: "download_file sample_dl_env sample_shard ''/m'' sample_disk = (q, h')" by fastforce
  from download_publishes_verified [OF d] have "dh_files h' ''/m/other'' = dh_files sample_disk ''/m/other''"
    by (simp add: Let_def sample_shard_def sample_dl_paths)
  with d show ?thesis by (simp add: sample_disk_def)
qed

definition sample_model :: model where
  "sample_model = \<lparr>m_id = ''m'', m_display_name = [], m_quant = [], m_weight_bytes = 1, m_n_layers = 0,
     m_n_kv_heads = 0, m_head_dim = 0, m_kv_bytes_per_elem = 1, m_default_ctx = 1,
     m_min_envelope_bytes = 0, m_tier_gb = 0, m_unified_memory_safe = True, m_backend_default = [],
     m_bootstrap = False, m_role = [], m_agent_ctx = 0, m_cache_reuse_safe = True,
     m_agent_sampling = None, m_template_provenance = [], m_ngram_safe = False,
     m_ngram_provenance = [], m_projector = None, m_draft = None, m_swa = None, m_shards = [sample_shard]\<rparr>"

definition sample_full_disk :: "unit dl_host" where
  "sample_full_disk = \<lparr>dh_files = [''/m/f'' \<mapsto> ''ab''], dh_world = ()\<rparr>"

theorem pulled_model_verified_witness:
  "\<exists>h' b. pull_model sample_dl_env sample_model ''/m'' sample_full_disk = (Some (Inr ()), h')
     \<and> dh_files h' ''/m/f'' = Some b \<and> u64_of_int (int (length b)) = 2"
proof -
  have all: "all_shards sample_model = [sample_shard]" by (simp add: all_shards_def sample_model_def)
  have f: "final_of ''/m'' sample_shard = ''/m/f''" by (simp add: final_of_def sample_shard_def sample_dl_paths)
  have "download_file sample_dl_env sample_shard ''/m'' sample_full_disk = (Inr (), sample_full_disk)"
    by (simp add: download_file_def Let_def sample_shard_def sample_dl_paths stat_size_def sample_full_disk_def sample_dl_env_def
        u64_of_int_def)
  moreover have "verify_geometry sample_dl_env sample_model ''/m'' h = Some (Inr ())" for h
    by (simp add: verify_geometry_def Let_def model_geometry_def zero_geometry_def sample_model_def)
  moreover have "de_cancelled sample_dl_env w = None" for w by (simp add: sample_dl_env_def)
  ultimately have run: "pull_model sample_dl_env sample_model ''/m'' sample_full_disk = (Some (Inr ()), sample_full_disk)"
    by (simp add: pull_model_def all)
  have "distinct (map (final_of ''/m'') (all_shards sample_model))"
    "\<forall>s \<in> set (all_shards sample_model). \<forall>t \<in> set (all_shards sample_model). final_of ''/m'' s \<noteq> final_of ''/m'' t @ ''.part''"
    by (simp_all add: all)
  from pulled_model_verified [OF this, of sample_dl_env sample_full_disk] run f show ?thesis
    by (auto simp: all) (auto simp: sample_shard_def)
qed

end
