(* ===== verification/Spec2Isabelle.thy ===== *)
theory Spec2Isabelle
  imports RecommendFacts ResidentSet Swaps RestoreProps ArchiveFacts Approval TaskStore Workspace Prune Manifest UpdateSafety
    InstallRestore TaskRunOrder Grounding DownloadFacts
begin

text \<open>
  VillaStraylight (\<open>villa\<close>) runs a local AI stack: one configuration file, rootless containers
  rendered from it as systemd units, a recommended model, optional subsystems, and a workspace agent
  whose tool calls it answers. This development models the decision cores under \<open>internal/\<close> and
  the live wiring of the swap transaction under \<open>cmd/villa\<close>, and proves what makes them correct.

  \<^bold>\<open>How the parts interact.\<close> The configuration (\<open>Config\<close>) decides which subsystems are on
  (\<open>Subsystem\<close>). \<open>recommend.Pick\<close> chooses a model from the catalog (\<open>Catalog\<close>) that fits the
  host's memory beside what the subsystems reserve (\<open>FitMath\<close>, \<open>Recommend\<close>); \<open>residentset\<close>
  admits further models next to it (\<open>ResidentSet\<close>). \<open>stackapply\<close> renders a configuration to
  units, reconciles them with the disk (\<open>Files\<close>) and applies the difference (\<open>StackApply\<close>); every
  change of what is served goes through its transaction, which proves the new stack or puts the old
  one back (\<open>Transact\<close>, wired to the host in \<open>LiveHost\<close>) and has four callers (\<open>Swaps\<close>). The
  workspace agent's calls are answered by \<open>approval\<close> (\<open>Approval\<close>), its folders granted by
  \<open>workspace\<close> (\<open>Workspace\<close>) and its tasks recorded by \<open>taskstore\<close> (\<open>TaskStore\<close>);
  \<open>taskrun\<close> (\<open>TaskRun\<close>) drives them one at a time through a sandbox, asks \<open>approval\<close>, parks a
  task for the operator's answer, and lets \<open>grounding\<close> (\<open>Grounding\<close>) audit what it wrote. The images
  are pinned in a compiled-in table and in a state on the host (\<open>Pins\<close>); a signed manifest says which
  pins are current (\<open>Manifest\<close>), an update moves one subsystem to them or puts it back
  (\<open>UpdateFlow\<close>), and images and snapshots nothing needs are removed (\<open>Prune\<close>). The whole
  is set up by one run of \<open>install\<close> (\<open>Install\<close>, \<open>InstallGate\<close>, \<open>InstallFlow\<close>): it asks
  \<open>recommend\<close> for a model, reconciles the units, starts the services in the planned order, proves
  them, and puts the host back when a step fails. \<open>restore\<close> (\<open>Restore\<close>) replaces configuration,
  volumes and files by those of a verified archive (\<open>Archive\<close>), applies the stack through \<open>stackapply\<close>,
  proves it, or puts back what it captured. A model's files are fetched by \<open>download\<close> (\<open>Download\<close>), which
  compares the header of the file, read by \<open>gguf\<close> (\<open>Gguf\<close>), with the geometry of the catalog entry.

  \<^bold>\<open>The theories.\<close>

  \<^item> \<open>Prelude\<close>: 64-bit words read as naturals, saturating limits, result and option helpers.
  \<^item> \<open>GoStrings\<close>: the functions of Go's \<open>strings\<close> the sources call, on byte strings.
  \<^item> \<open>GoPaths\<close>: Go's lexical \<open>path/filepath\<close> and \<open>internal/pathsafe\<close>'s containment;
    lemmas reduce containment of absolute paths to a prefix of cleaned components.
  \<^item> \<open>Config\<close>: \<open>internal/config/villaconfig.go\<close>: the record, defaults, validation,
    normalisation, what a save omits and what a load restores. The TOML codec is a parameter.
  \<^item> \<open>Subsystem\<close>: \<open>internal/subsystem\<close>: kinds, gates, unit table, volumes, update budgets.
  \<^item> \<open>Catalog\<close>: \<open>internal/catalog\<close>: entries, load checks, the fallback to the seed.
  \<^item> \<open>FitMath\<close>: \<open>internal/recommend/kv.go\<close> and \<open>envelope.go\<close>: cache sizes with saturation,
    headroom in doubles rounded to 53 bits.
  \<^item> \<open>Recommend\<close>, \<open>RecommendFacts\<close>: \<open>internal/recommend\<close>: fit, ranking, overrides,
    reservations, sidecars, coder; what a fitting recommendation guarantees.
  \<^item> \<open>ResidentSet\<close>: \<open>internal/residentset\<close>: admission beside a protected primary model.
  \<^item> \<open>Files\<close>: \<open>internal/orchestrate/reconcile.go\<close> and \<open>pathsafe.WriteFileAtomic\<close> over a map
    from paths to bytes and modes; the operating system is a record of functions that decide which
    step fails.
  \<^item> \<open>StackApply\<close>, \<open>Transact\<close>: \<open>internal/stackapply\<close>: plan, apply and the transaction. The
    locale \<open>tx_store\<close> states what a transaction needs of its store (a restore that brings captured
    units back, a save that brings the configuration back) and proves the rollback once.
  \<^item> \<open>LiveHost\<close>: \<open>liveStackDeps\<close>, \<open>liveTxDeps\<close>, \<open>captureUnits\<close>: the interpretation of
    \<open>tx_store\<close> on the model of the real host.
  \<^item> \<open>Swaps\<close>: \<open>internal/backendswap\<close>, \<open>internal/codingmode\<close>, \<open>internal/modelswap\<close>.
  \<^item> \<open>Approval\<close>: \<open>internal/approval\<close>: the whole decision, deletion pattern and allowlist included.
  \<^item> \<open>TaskStore\<close>: \<open>internal/taskstore\<close>: the task state machine as an inductive relation, the
    record store, and an invariant of every reachable store.
  \<^item> \<open>TaskRun\<close>: \<open>internal/taskrun\<close>: the runner's worker and its clients. One step is one
    \<open>select\<close> arm of the worker or one client call, so every interleaving the lock allows is a list of
    inputs (\<open>run_inputs\<close>). Channels keep their capacity; a send that would block under the lock, a send
    on and a close of a closed channel are faults of the state. The goroutines that only wait for a
    refused bridge and the inside of the audit's completion are not steps.
  \<^item> \<open>TaskRunSafety\<close>: why each permission the sandbox gets was given. \<open>TaskRunLive\<close>: the locale
    \<open>runner_invariant\<close> (an invariant kept by every step), interpreted twice: no fault, and only
    audited tasks are done. \<open>TaskRunOrder\<close>: one task at a time, in the order of the queue; a cancel or
    a close that reaches a task ends it.
  \<^item> \<open>Grounding\<close>: \<open>internal/grounding\<close>: how the auditor's answer is read back.

  \<^item> \<open>Workspace\<close>: \<open>internal/workspace\<close>: the refusals of a grant, and the invariant of the granted list.
  \<^item> \<open>Pins\<close>: \<open>internal/pins\<close>, \<open>pinstate\<close>, \<open>pinresolve\<close>, and \<open>jsonstore\<close>'s save and load.
  \<^item> \<open>Prune\<close>: \<open>internal/prune\<close> and \<open>snapshotprune\<close>: what may be removed, and that it is in no tuple.
  \<^item> \<open>Manifest\<close>: \<open>internal/manifest\<close>, \<open>manifestverify\<close>, \<open>updatecheck\<close>: acceptance as one
    predicate, the report row by row.
  \<^item> \<open>UpdateFlow\<close>: \<open>internal/updateflow\<close>, every effect a field of \<open>update_deps\<close>, an absent seam None.
  \<^item> \<open>UpdateProtocol\<close>, \<open>UpdateSafety\<close>: the update as a protocol over its calls (an inductive step
    relation over phases), the refinement of every run to it, and what its runs guarantee.
  \<^item> \<open>Flow\<close>: state computations with an early exit, as \<open>install\<close>'s run is written, and their
    triples (a postcondition for a normal end, one for an exit).
  \<^item> \<open>Install\<close>: \<open>internal/install\<close>: options, gates, plan, reservations, step sequence and its
    order check, what a run records and the rollback over it.
  \<^item> \<open>InstallGate\<close>: the host-preparation gate: checks, consents, the fixes it may run.
  \<^item> \<open>InstallFlow\<close>: \<open>internal/install/flow.go\<close>: a whole run over records of the functions it is
    given, each mutation recorded where the code records it.
  \<^item> \<open>InstallSafety\<close>: what holds for every host: the order, the reservations, consent, a dry run.
  \<^item> \<open>InstallRestore\<close>: the locale \<open>install_host\<close> states what the change seams do to configuration,
    units and services, and proves the rollback once; interpreted on \<open>stack_change\<close>, a host whose
    every step may fail.

  \<^item> \<open>Archive\<close>, \<open>ArchiveFacts\<close>: \<open>internal/backup\<close>'s archive: what is in it, how it is read, when it is
    accepted, how it is compared with the install.
  \<^item> \<open>Restore\<close>: \<open>internal/backup/restore.go\<close>: the restore transaction over the record of its seams.
    \<open>RestoreSafety\<close>: the locale \<open>restore_site\<close> states what each seam changes of configuration, files and
    volumes, and proves what a refusal, a rollback and a success leave. \<open>RestoreHost\<close>: the live wiring under
    \<open>cmd/villa\<close>, podman's volumes and the files outside the two trees of \<open>LiveHost\<close>; it interprets the
    locale. \<open>RestoreProps\<close>: its properties on that host. The copy the agent's configuration is healed to is
    no file of this view; every seam the live wiring fills is there (the nil checks are not branches).

  \<^item> \<open>Gguf\<close>, \<open>GgufFacts\<close>: \<open>internal/gguf\<close>: the reader of a model file's header. Arrays nest, so
    \<open>read_value\<close> is a partial function; that it returns on every input is proved, since each value consumes
    a byte. The encoder of the repository's fixtures is modelled too and read back. Floats are kept as bits.
  \<^item> \<open>Download\<close>, \<open>DownloadFacts\<close>: \<open>internal/download\<close>: one file (head request, resumed part, rolling hash,
    rename) and all files of a model, over a map of files and a server that answers anything.

  \<^bold>\<open>Conventions.\<close> A Go struct is a record, an enumeration a datatype, \<open>uint64\<close> a 64-bit word,
  \<open>int\<close> an integer (with \<open>int64\<close> written where a wrap can happen), a string a list of
  characters read as bytes. A fallible function returns a sum whose left side is the error. Effects
  pass the host explicitly; what the operating system, systemd, podman or another package answers is
  a function argument, so a statement holds for every answer. Error texts are not modelled unless
  a decision depends on them. Every loop is structural recursion or has a termination proof, but the one
  partial function, whose totality is proved; no fuel is used.

  \<^bold>\<open>Not modelled.\<close> Rendering of unit text, HTTP clients and handlers, container and systemd
  command lines, terminal output, cryptography and codecs of the standard library, host probing,
  and third-party agents: they are I/O or data, and enter as parameters where a modelled function
  uses them. The remaining cores are listed as not modelled in the manifest of this development.
\<close>

end
